(* ===== verification/Prelude.thy ===== *)
theory Prelude
  imports Main "HOL-Library.Sublist"
begin

text \<open>
  What every component shares: the error values of the Go code, the collections the proofs
  draw on, the functions of Go's \<open>strings\<close> and \<open>path/filepath\<close> packages the program
  calls, and the SQL statements of the store (a table is the list of its rows in rowid order).

  Go's \<open>error\<close> result is \<open>go_error option\<close> (\<open>None\<close> is \<open>nil\<close>); a
  \<open>(value, error)\<close> result is \<open>go_error + 'a\<close>. A Go \<open>string\<close> is the list of its
  bytes. The store opens its database with one connection, so a statement or a transaction
  is one step on the tables; driver failures (disk, cancellation of the query) are not modelled.
\<close>

section \<open>Errors and collections\<close>

datatype go_error =
    Invalid string          \<comment> \<open>\<open>errors.New\<close> / \<open>fmt.Errorf\<close> with this message\<close>
  | Unsupported string string  \<comment> \<open>\<open>fmt.Errorf("unsupported .. %q", value)\<close>\<close>
  | Wrapped string go_error \<comment> \<open>\<open>fmt.Errorf("..: %w", err)\<close>\<close>
  | Panic string            \<comment> \<open>a run-time panic\<close>
  | Conflict                \<comment> \<open>\<open>store.ErrConflict\<close>\<close>
  | NoRows                  \<comment> \<open>\<open>sql.ErrNoRows\<close>\<close>
  | Constraint              \<comment> \<open>an SQL constraint failure not mapped to \<open>ErrConflict\<close>\<close>

type_synonym check = "go_error option"
type_synonym 'a outcome = "go_error + 'a"

text \<open>The text of an error, the method \<open>Error\<close>.\<close>

fun error_text :: "go_error \<Rightarrow> string" where
  "error_text (Invalid msg) = msg"
| "error_text (Unsupported msg value) = msg @ '' '' @ [CHR 0x22] @ value @ [CHR 0x22]"
| "error_text (Wrapped msg err) = msg @ '': '' @ error_text err"
| "error_text (Panic msg) = msg"
| "error_text Conflict = ''resource conflict''"
| "error_text NoRows = ''sql: no rows in result set''"
| "error_text Constraint = ''constraint failed''"

text \<open>The first check of a list that fails; a function that returns at the first error is such a list.\<close>

fun first_error :: "check list \<Rightarrow> check" where
  "first_error [] = None"
| "first_error (None # cs) = first_error cs"
| "first_error (Some err # cs) = Some err"

lemma first_error_None: "first_error cs = None \<longleftrightarrow> (\<forall>c \<in> set cs. c = None)"
  by (induction cs rule: first_error.induct) auto

definition reject :: "bool \<Rightarrow> go_error \<Rightarrow> check" where
  "reject bad err = (if bad then Some err else None)"

lemma reject_None [simp]: "reject bad err = None \<longleftrightarrow> \<not> bad"
  by (simp add: reject_def)

named_theorems table_simps "rewriting rules for the SQL statements on row lists"
named_theorems key_simps "operations that keep the primary keys of a table"
named_theorems go_eval "definitions unfolded to evaluate the Go library functions"

section \<open>Go strings\<close>

text \<open>
  \<open>strings.TrimSpace\<close> removes Unicode white space at both ends. The runes with the
  property \<open>White_Space\<close>, as UTF-8 bytes; matching whole encodings from either end is
  decoding, because no encoding is a prefix or a suffix of another.
\<close>

definition unicode_spaces :: "string list" where
  "unicode_spaces =
     [[CHR 0x20], [CHR 0x09], [CHR 0x0A], [CHR 0x0B], [CHR 0x0C], [CHR 0x0D],
      [CHR 0xC2, CHR 0x85], [CHR 0xC2, CHR 0xA0], [CHR 0xE1, CHR 0x9A, CHR 0x80],
      [CHR 0xE2, CHR 0x80, CHR 0x80], [CHR 0xE2, CHR 0x80, CHR 0x81],
      [CHR 0xE2, CHR 0x80, CHR 0x82], [CHR 0xE2, CHR 0x80, CHR 0x83],
      [CHR 0xE2, CHR 0x80, CHR 0x84], [CHR 0xE2, CHR 0x80, CHR 0x85],
      [CHR 0xE2, CHR 0x80, CHR 0x86], [CHR 0xE2, CHR 0x80, CHR 0x87],
      [CHR 0xE2, CHR 0x80, CHR 0x88], [CHR 0xE2, CHR 0x80, CHR 0x89],
      [CHR 0xE2, CHR 0x80, CHR 0x8A], [CHR 0xE2, CHR 0x80, CHR 0xA8],
      [CHR 0xE2, CHR 0x80, CHR 0xA9], [CHR 0xE2, CHR 0x80, CHR 0xAF],
      [CHR 0xE2, CHR 0x81, CHR 0x9F], [CHR 0xE3, CHR 0x80, CHR 0x80]]"

lemma find_Some_facts: "find P xs = Some x \<Longrightarrow> P x \<and> x \<in> set xs"
  by (induction xs) (auto split: if_splits)

function strip_runes :: "string list \<Rightarrow> string \<Rightarrow> string" where
  "strip_runes ws s =
     (case find (\<lambda>w. w \<noteq> [] \<and> prefix w s) ws of
        None \<Rightarrow> s
      | Some w \<Rightarrow> strip_runes ws (drop (length w) s))"
  by pat_completeness auto
termination
  by (relation "measure (\<lambda>(ws, s). length s)")
     (auto dest!: find_Some_facts simp: prefix_def)

declare strip_runes.simps [simp del]

definition trim_space :: "string \<Rightarrow> string" where
  "trim_space s =
     rev (strip_runes (map rev unicode_spaces) (rev (strip_runes unicode_spaces s)))"

definition blank :: "string \<Rightarrow> bool" where
  "blank s \<longleftrightarrow> trim_space s = []"

definition contains_any :: "string \<Rightarrow> string \<Rightarrow> bool" where
  "contains_any cs s \<longleftrightarrow> list_ex (\<lambda>c. c \<in> set cs) s"

text \<open>\<open>strings.Split(s, sep)\<close> with a one-byte separator: never empty.\<close>

fun split_on :: "char \<Rightarrow> string \<Rightarrow> string list" where
  "split_on c [] = [[]]"
| "split_on c (x # xs) =
     (if x = c then [] # split_on c xs
      else case split_on c xs of
             [] \<Rightarrow> [[x]]
           | seg # segs \<Rightarrow> (x # seg) # segs)"

fun join_with :: "char \<Rightarrow> string list \<Rightarrow> string" where
  "join_with c [] = []"
| "join_with c [s] = s"
| "join_with c (s # t # ss) = s @ c # join_with c (t # ss)"

lemma strip_runes_Nil [simp]: "strip_runes ws [] = []"
proof -
  have "find (\<lambda>w. w \<noteq> [] \<and> prefix w []) ws = None"
    by (simp add: find_None_iff)
  then show ?thesis by (subst strip_runes.simps) simp
qed

lemma blank_Nil [simp]: "blank []"
  by (simp add: blank_def trim_space_def)

lemma split_on_nonempty [simp]: "split_on c s \<noteq> []"
  by (induction s) (auto split: list.splits)

lemma join_split_on: "join_with c (split_on c s) = s"
proof (induction s)
  case (Cons x xs)
  then show ?case
    by (cases "split_on c xs") (auto, metis join_with.simps(2,3) append_Cons neq_Nil_conv)
qed simp

lemma split_on_segments: "seg \<in> set (split_on c s) \<Longrightarrow> c \<notin> set seg"
  by (induction s arbitrary: seg) (auto split: if_splits list.splits)

lemma split_join_with:
  "segs \<noteq> [] \<Longrightarrow> \<forall>seg \<in> set segs. c \<notin> set seg \<Longrightarrow> split_on c (join_with c segs) = segs"
proof (induction segs rule: join_with.induct)
  case (2 c s)
  then show ?case by (induction s) auto
next
  case (3 c s t ss)
  then have IH: "split_on c (join_with c (t # ss)) = t # ss" by simp
  from "3.prems" have "c \<notin> set s" by simp
  then show ?case using IH by (induction s) auto
qed simp

section \<open>SQL statements\<close>

text \<open>
  \<open>UPDATE t SET .. WHERE P\<close>, \<open>DELETE FROM t WHERE P\<close>, \<open>SELECT .. WHERE key = k\<close>,
  the number of rows a statement affects, and an \<open>INSERT\<close> that keeps a key unique.
\<close>

definition update_where :: "('r \<Rightarrow> bool) \<Rightarrow> ('r \<Rightarrow> 'r) \<Rightarrow> 'r list \<Rightarrow> 'r list" where
  "update_where P f t = map (\<lambda>r. if P r then f r else r) t"

definition delete_where :: "('r \<Rightarrow> bool) \<Rightarrow> 'r list \<Rightarrow> 'r list" where
  "delete_where P t = filter (\<lambda>r. \<not> P r) t"

definition affected :: "('r \<Rightarrow> bool) \<Rightarrow> 'r list \<Rightarrow> nat" where
  "affected P t = length (filter P t)"

definition row :: "('r \<Rightarrow> 'k) \<Rightarrow> 'k \<Rightarrow> 'r list \<Rightarrow> 'r option" where
  "row key k t = find (\<lambda>r. key r = k) t"

definition insert_row :: "('r \<Rightarrow> 'k) \<Rightarrow> 'r \<Rightarrow> 'r list \<Rightarrow> 'r list option" where
  "insert_row key r t = (if key r \<in> set (map key t) then None else Some (t @ [r]))"

definition unique_keys :: "('r \<Rightarrow> 'k) \<Rightarrow> 'r list \<Rightarrow> bool" where
  "unique_keys key t \<longleftrightarrow> distinct (map key t)"

lemma set_update_where [table_simps]:
  "r \<in> set (update_where P f t) \<longleftrightarrow> (\<exists>s \<in> set t. r = (if P s then f s else s))"
  by (auto simp: update_where_def)

lemma update_where_Nil [simp]: "update_where P f [] = []"
  by (simp add: update_where_def)

lemma update_where_Cons:
  "update_where P f (r # t) = (if P r then f r else r) # update_where P f t"
  by (simp add: update_where_def)

lemma update_where_old: "r \<in> set t \<Longrightarrow> \<not> P r \<Longrightarrow> r \<in> set (update_where P f t)"
  by (force simp: set_update_where)

lemma update_where_new: "r \<in> set t \<Longrightarrow> P r \<Longrightarrow> f r \<in> set (update_where P f t)"
  by (force simp: set_update_where)

lemma update_where_cases:
  assumes "r \<in> set (update_where P f t)"
  obtains s where "s \<in> set t" "\<not> P s" "r = s" | s where "s \<in> set t" "P s" "r = f s"
  using assms by (auto simp: set_update_where split: if_splits)

lemma set_delete_where [table_simps]: "set (delete_where P t) = {r \<in> set t. \<not> P r}"
  by (auto simp: delete_where_def)

lemma length_update_where [simp]: "length (update_where P f t) = length t"
  by (simp add: update_where_def)

lemma map_key_update_where [key_simps]:
  "(\<And>r. key (f r) = key r) \<Longrightarrow> map key (update_where P f t) = map key t"
  by (simp add: update_where_def)

lemma unique_update_where [key_simps]:
  "(\<And>r. key (f r) = key r) \<Longrightarrow> unique_keys key (update_where P f t) = unique_keys key t"
  by (simp add: unique_keys_def map_key_update_where)

lemma unique_delete_where: "unique_keys key t \<Longrightarrow> unique_keys key (delete_where P t)"
  by (simp add: unique_keys_def delete_where_def distinct_map_filter)

lemma unique_Nil [simp]: "unique_keys key []"
  by (simp add: unique_keys_def)

lemma unique_Cons:
  "unique_keys key (r # t) \<longleftrightarrow> key r \<notin> key ` set t \<and> unique_keys key t"
  by (auto simp: unique_keys_def)

lemma unique_snoc:
  "unique_keys key (t @ [r]) \<longleftrightarrow> key r \<notin> key ` set t \<and> unique_keys key t"
  by (auto simp: unique_keys_def)

lemma unique_keys_eq: "unique_keys key t \<Longrightarrow> r \<in> set t \<Longrightarrow> s \<in> set t \<Longrightarrow> key r = key s \<Longrightarrow> r = s"
  by (auto simp: unique_keys_def distinct_map inj_on_def)

lemma insert_row_Some [table_simps]:
  "insert_row key r t = Some t' \<longleftrightarrow> key r \<notin> key ` set t \<and> t' = t @ [r]"
  by (auto simp: insert_row_def)

lemma insert_row_unique: "insert_row key r t = Some t' \<Longrightarrow> unique_keys key t \<Longrightarrow> unique_keys key t'"
  by (auto simp: insert_row_Some unique_snoc)

lemma row_Some_in: "row key k t = Some r \<Longrightarrow> r \<in> set t \<and> key r = k"
  by (auto simp: row_def dest: find_Some_facts)

lemma row_None: "row key k t = None \<longleftrightarrow> k \<notin> key ` set t"
  by (auto simp: row_def find_None_iff)

lemma row_unique: "unique_keys key t \<Longrightarrow> r \<in> set t \<Longrightarrow> row key (key r) t = Some r"
  by (induction t) (auto simp: row_def unique_Cons)

lemma row_append: "row key k (t @ u) = (case row key k t of None \<Rightarrow> row key k u | Some r \<Rightarrow> Some r)"
  by (induction t) (auto simp: row_def)

lemma row_snoc:
  assumes "key r \<notin> key ` set t"
  shows "row key k (t @ [r]) = (if k = key r then Some r else row key k t)"
proof -
  have "row key (key r) t = None" using assms by (simp add: row_None)
  then show ?thesis by (auto simp: row_append split: option.splits) (auto simp: row_def)
qed

lemma row_update_where:
  assumes "\<And>r. key (f r) = key r"
  shows "row key k (update_where P f t) = map_option (\<lambda>r. if P r then f r else r) (row key k t)"
  using assms by (induction t) (auto simp: row_def update_where_def)

lemma row_update_other:
  assumes "\<And>r. key (f r) = key r" and "\<And>r. P r \<Longrightarrow> key r = k"
  shows "row key j (update_where P f t) =
     (if j = k then map_option (\<lambda>r. if P r then f r else r) (row key k t) else row key j t)"
proof (cases "j = k")
  case False
  have "\<not> P r" if "row key j t = Some r" for r
    using row_Some_in [OF that] assms(2) [of r] False by auto
  then show ?thesis
    using False assms(1) by (cases "row key j t") (simp_all add: row_update_where)
qed (simp add: row_update_where assms(1))

lemma affected_update_eq: "affected P t = 0 \<Longrightarrow> update_where P f t = t"
  by (induction t) (auto simp: affected_def update_where_def split: if_splits)

lemma affected_update_le: "(\<And>r. P r \<Longrightarrow> Q (f r) \<Longrightarrow> Q r) \<Longrightarrow> affected Q (update_where P f t) \<le> affected Q t"
  by (induction t) (auto simp: affected_def update_where_def)

lemma affected_delete_le: "affected Q (delete_where P t) \<le> affected Q t"
  by (induction t) (auto simp: affected_def delete_where_def)

lemma affected_append: "affected Q (t @ u) = affected Q t + affected Q u"
  by (simp add: affected_def)

lemma affected_single [simp]: "affected Q [r] = (if Q r then 1 else 0)"
  by (simp add: affected_def)

lemma affected_le_1:
  assumes "unique_keys key t" and "\<And>r. P r \<Longrightarrow> key r = k"
  shows "affected P t \<le> 1"
  using assms(1)
proof (induction t)
  case (Cons r t)
  have "filter P t = []" if "P r"
    using that Cons.prems assms(2)[of r] assms(2) by (auto simp: unique_Cons filter_empty_conv)
  then show ?case using Cons by (auto simp: affected_def unique_Cons)
qed (simp add: affected_def)

lemma affected_iff:
  assumes "unique_keys key t" and "\<And>r. P r \<Longrightarrow> key r = k"
  shows "affected P t = 1 \<longleftrightarrow> (\<exists>r \<in> set t. P r)"
proof -
  have "affected P t = 0 \<longleftrightarrow> \<not> (\<exists>r \<in> set t. P r)"
    by (auto simp: affected_def filter_empty_conv)
  moreover have "affected P t \<le> 1"
    using assms by (rule affected_le_1)
  ultimately show ?thesis by linarith
qed

lemma affected_pos: "affected P t = n \<Longrightarrow> 0 < n \<Longrightarrow> \<exists>r \<in> set t. P r"
  by (auto simp: affected_def dest: length_pos_if_in_set)
     (metis (mono_tags, lifting) filter_False length_greater_0_conv)

text \<open>The first row of a query with an order.\<close>

lemma sort_key_first: "sort_key f t = r # u \<Longrightarrow> r \<in> set t"
  by (metis list.set_intros(1) set_sort)

section \<open>Counting in a list that is updated by index\<close>

lemma filter_update_length:
  assumes "i < length xs"
  shows "length (filter P (xs[i := y])) + (if P (xs ! i) then 1 else 0) =
         length (filter P xs) + (if P y then 1 else 0)"
  using assms
proof (induction xs arbitrary: i)
  case (Cons x xs)
  then show ?case by (cases i) auto
qed simp

lemma concat_chunks: "concat (map (\<lambda>k. take n (drop (k * n) xs)) [0..<m]) = take (m * n) xs"
proof (induction m)
  case (Suc m)
  then show ?case by (simp add: take_add [symmetric] add.commute [of n])
qed simp

end
