(* ===== verification/Execution_Target.thy ===== *)
theory Execution_Target
  imports Prelude
begin

text \<open>
  The engine-neutral execution contract (src/internal/execution/model.go and registry.go): where
  a task runs, and the registry of engines. Go's string enumerations stay strings, because the
  program receives arbitrary values of them and the empty value has a meaning of its own.
\<close>

abbreviation Local :: string where "Local \<equiv> ''local''"
abbreviation Agent :: string where "Agent \<equiv> ''agent''"

record target =
  target_Kind :: string
  target_AgentID :: string

definition no_target :: target where
  "no_target = \<lparr>target_Kind = [], target_AgentID = []\<rparr>"

definition target_normalized :: "target \<Rightarrow> target" where
  "target_normalized t = (if target_Kind t = [] then t\<lparr>target_Kind := Local\<rparr> else t)"

definition target_validate :: "target \<Rightarrow> check" where
  "target_validate t0 =
     (let t = target_normalized t0 in
      if target_Kind t = Local then
        if target_AgentID t \<noteq> []
        then Some (Invalid ''local execution target cannot reference an agent'') else None
      else if target_Kind t = Agent then
        if blank (target_AgentID t)
        then Some (Invalid ''agent execution target requires an agent id'') else None
      else Some (Unsupported ''unsupported execution target'' (target_Kind t)))"

lemma target_normalized_idem [simp]: "target_normalized (target_normalized t) = target_normalized t"
  by (simp add: target_normalized_def)

lemma target_validate_normalized [simp]: "target_validate (target_normalized t) = target_validate t"
  by (simp add: target_validate_def Let_def)

lemma target_normalized_kind:
  "target_Kind (target_normalized t) = (if target_Kind t = [] then Local else target_Kind t)"
  by (simp add: target_normalized_def)

lemma target_normalized_agent [simp]: "target_AgentID (target_normalized t) = target_AgentID t"
  by (simp add: target_normalized_def)

text \<open>A valid target is the Service's own process, without an agent, or a named agent.\<close>

lemma target_valid_iff:
  "target_validate t = None \<longleftrightarrow>
     (target_Kind t \<in> {[], Local} \<and> target_AgentID t = [] \<or>
      target_Kind t = Agent \<and> \<not> blank (target_AgentID t))"
  by (auto simp: target_validate_def Let_def target_normalized_kind)

lemma target_valid_local: "target_validate t = None \<Longrightarrow> target_Kind (target_normalized t) = Local \<Longrightarrow>
    target_normalized t = \<lparr>target_Kind = Local, target_AgentID = []\<rparr>"
  by (cases t) (auto simp: target_valid_iff target_normalized_def split: if_splits)

section \<open>The engine registry\<close>

text \<open>
  An engine of the registry is opaque here: \<open>'e\<close> with its \<open>Kind()\<close>. \<open>None\<close> in the list is a
  nil engine. Registration panics, which is the value \<open>None\<close>, on a nil engine, an engine
  without a kind and a second engine of a kind.
\<close>

fun register :: "('e \<Rightarrow> string) \<Rightarrow> (string \<times> 'e) list \<Rightarrow> 'e option list \<Rightarrow> (string \<times> 'e) list option" where
  "register kind registered [] = Some registered"
| "register kind registered (None # engines) = None"
| "register kind registered (Some e # engines) =
     (if kind e = [] \<or> kind e \<in> fst ` set registered then None
      else register kind (registered @ [(kind e, e)]) engines)"

definition new_registry :: "('e \<Rightarrow> string) \<Rightarrow> 'e option list \<Rightarrow> (string \<times> 'e) list option" where
  "new_registry kind engines = register kind [] engines"

definition registry_engine :: "(string \<times> 'e) list \<Rightarrow> string \<Rightarrow> 'e outcome" where
  "registry_engine registered kind =
     (case map_of registered kind of
        None \<Rightarrow>
          if kind = [] then Inl (Invalid ''execution engine kind is required'')
          else Inl (Unsupported ''execution engine is not registered'' kind)
      | Some e \<Rightarrow> Inr e)"

lemma register_entries:
  "register kind r engines = Some r' \<Longrightarrow>
     r' = r @ map (\<lambda>e. (kind (the e), the e)) engines \<and>
     None \<notin> set engines \<and> (\<forall>e. Some e \<in> set engines \<longrightarrow> kind e \<noteq> [])"
  by (induction kind r engines rule: register.induct) (auto split: if_splits)

lemma register_distinct:
  "register kind r engines = Some r' \<Longrightarrow> distinct (map fst r) \<Longrightarrow> distinct (map fst r')"
  by (induction kind r engines rule: register.induct) (auto split: if_splits)

text \<open>
  A registry that was built answers every registered engine under its own kind, and only
  those: looking up a kind either returns an engine of that kind which was passed to the
  constructor, or an error, and the registered engines are all found.
\<close>
lemma registry_lookup:
  assumes "new_registry kind engines = Some r"
  shows "(\<forall>e. Some e \<in> set engines \<longrightarrow> registry_engine r (kind e) = Inr e) \<and>
         (\<forall>k e. registry_engine r k = Inr e \<longrightarrow> k = kind e \<and> Some e \<in> set engines)"
proof -
  from assms have r: "r = map (\<lambda>e. (kind (the e), the e)) engines" and "None \<notin> set engines"
    and d: "distinct (map fst r)"
    using register_entries [of kind "[]" engines r] register_distinct [of kind "[]" engines r]
    by (auto simp: new_registry_def)
  then have mem: "(k, e) \<in> set r \<longleftrightarrow> Some e \<in> set engines \<and> k = kind e" for k e
    by (auto simp: image_iff) (metis option.exhaust_sel, metis option.sel)
  show ?thesis
  proof (intro conjI allI impI)
    fix e assume "Some e \<in> set engines"
    with mem d show "registry_engine r (kind e) = Inr e"
      by (auto simp: registry_engine_def map_of_is_SomeI)
  next
    fix k e assume "registry_engine r k = Inr e"
    then have "(k, e) \<in> set r"
      by (auto simp: registry_engine_def split: option.splits if_splits dest: map_of_SomeD)
    with mem show "k = kind e" and "Some e \<in> set engines" by auto
  qed
qed

lemma registry_lookup_witness:
  "registry_engine [(''restic'', ''restic''), (''rsync'', ''rsync'')] ''rsync'' = Inr ''rsync''"
  using registry_lookup [of id "[Some ''restic'', Some ''rsync'']"
      "[(''restic'', ''restic''), (''rsync'', ''rsync'')]"]
  by (simp add: new_registry_def)

end
