(* ===== verification/Timestamps.thy ===== *)
theory Timestamps
  imports Prelude "HOL-Library.Char_ord" "HOL-Library.List_Lexorder"
begin

text \<open>
  Go's \<open>time.Time\<close> and \<open>time.Duration\<close> as the program uses them, and the text form in which
  the store keeps instants (\<open>formatTime\<close> and \<open>parseTime\<close> of src/internal/store/resources.go).

  An instant is the integer number of nanoseconds since the Unix epoch (the program's values
  carry no monotonic reading: they come from the database or are in UTC). A duration is a
  64-bit count of nanoseconds; \<open>Time.Sub\<close> saturates, the product of durations wraps.

  The store keeps \<open>value.UTC().Format(time.RFC3339Nano)\<close> in \<open>TEXT\<close> columns, and SQL compares
  these columns as text. For the years 0 to 9999 the part of the text up to the seconds has a
  fixed width, so it orders as the number of seconds; what follows is the fraction without its
  trailing zeros, and \<open>Z\<close>. A \<open>stamp\<close> is such a text: its second and the text after it, with
  the order of the text.
\<close>

type_synonym instant = int
type_synonym duration = int

abbreviation nanos :: int where "nanos \<equiv> 1000000000"

abbreviation go_second :: duration where "go_second \<equiv> nanos"
abbreviation go_minute :: duration where "go_minute \<equiv> 60 * nanos"
abbreviation go_hour :: duration where "go_hour \<equiv> 3600 * nanos"

text \<open>The zero \<open>time.Time\<close>, January 1 of year 1, and \<open>IsZero\<close>.\<close>

abbreviation zero_time :: instant where "zero_time \<equiv> - 62135596800 * nanos"

definition max_int64 :: int where "max_int64 = 2 ^ 63 - 1"
definition min_int64 :: int where "min_int64 = - (2 ^ 63)"

definition to_int64 :: "int \<Rightarrow> int" where
  "to_int64 x = (x + 2 ^ 63) mod 2 ^ 64 - 2 ^ 63"

definition time_sub :: "instant \<Rightarrow> instant \<Rightarrow> duration" where
  "time_sub a b = max min_int64 (min max_int64 (a - b))"

definition quot :: "int \<Rightarrow> int \<Rightarrow> int" where
  "quot a b = (if (0 \<le> a) = (0 \<le> b) then \<bar>a\<bar> div \<bar>b\<bar> else - (\<bar>a\<bar> div \<bar>b\<bar>))"

definition go_rem :: "int \<Rightarrow> int \<Rightarrow> int" where
  "go_rem a b = a - b * quot a b"

lemma to_int64_id: "min_int64 \<le> x \<Longrightarrow> x \<le> max_int64 \<Longrightarrow> to_int64 x = x"
  by (simp add: to_int64_def min_int64_def max_int64_def)

lemma to_int64_range: "min_int64 \<le> to_int64 x \<and> to_int64 x \<le> max_int64"
proof -
  have "0 \<le> (x + 2 ^ 63) mod 2 ^ 64" and "(x + 2 ^ 63) mod 2 ^ 64 < (2 ^ 64 :: int)"
    by simp_all
  then show ?thesis
    by (simp add: to_int64_def min_int64_def max_int64_def)
qed

lemma quot_nonneg: "0 \<le> a \<Longrightarrow> 0 < b \<Longrightarrow> quot a b = a div b"
  by (simp add: quot_def)

lemma go_rem_nonneg: "0 \<le> a \<Longrightarrow> 0 < b \<Longrightarrow> go_rem a b = a mod b"
  by (simp add: go_rem_def quot_nonneg minus_mult_div_eq_mod)

lemma time_sub_exact:
  "min_int64 \<le> a - b \<Longrightarrow> a - b \<le> max_int64 \<Longrightarrow> time_sub a b = a - b"
  by (simp add: time_sub_def)

lemma time_sub_le:
  assumes "d < max_int64" and "min_int64 \<le> d"
  shows "time_sub a b \<le> d \<longleftrightarrow> a - b \<le> d"
  using assms by (auto simp: time_sub_def min_def max_def)

lemma time_sub_less:
  assumes "d \<le> max_int64" and "min_int64 < d"
  shows "time_sub a b < d \<longleftrightarrow> a - b < d"
  using assms by (auto simp: time_sub_def min_def max_def)

section \<open>Stored instants\<close>

definition seconds :: "instant \<Rightarrow> int" where "seconds t = t div nanos"

fun digits :: "nat \<Rightarrow> int \<Rightarrow> nat list" where
  "digits 0 v = []"
| "digits (Suc n) v = digits n (v div 10) @ [nat (v mod 10)]"

definition strip_zeros :: "nat list \<Rightarrow> nat list" where
  "strip_zeros ds = rev (dropWhile (\<lambda>d. d = 0) (rev ds))"

definition frac_text :: "instant \<Rightarrow> string" where
  "frac_text t =
     (let ds = strip_zeros (digits 9 (t mod nanos))
      in (if ds = [] then [] else CHR ''.'' # map (\<lambda>d. char_of (48 + d)) ds) @ ''Z'')"

datatype stamp = Stamp (stamp_second: int) (stamp_frac: string)

instantiation stamp :: linorder
begin

definition less_eq_stamp :: "stamp \<Rightarrow> stamp \<Rightarrow> bool" where
  "less_eq_stamp a b \<longleftrightarrow>
     stamp_second a < stamp_second b \<or>
     stamp_second a = stamp_second b \<and> stamp_frac a \<le> stamp_frac b"

definition less_stamp :: "stamp \<Rightarrow> stamp \<Rightarrow> bool" where
  "less_stamp a b \<longleftrightarrow>
     stamp_second a < stamp_second b \<or>
     stamp_second a = stamp_second b \<and> stamp_frac a < stamp_frac b"

instance
  by standard (auto simp: less_eq_stamp_def less_stamp_def stamp.expand)

end

definition format_time :: "instant \<Rightarrow> stamp" where
  "format_time t = Stamp (seconds t) (frac_text t)"

text \<open>\<open>parseTime\<close>: the digits after the point, padded to nine, are the nanoseconds.\<close>

fun value_of :: "nat \<Rightarrow> nat list \<Rightarrow> int" where
  "value_of 0 ds = 0"
| "value_of (Suc n) [] = 0"
| "value_of (Suc n) (d # ds) = int d * 10 ^ n + value_of n ds"

definition parse_time :: "stamp \<Rightarrow> instant" where
  "parse_time s =
     stamp_second s * nanos +
     (case stamp_frac s of
        c # rest \<Rightarrow>
          if c = CHR ''.'' then value_of 9 (map (\<lambda>c. of_char c - 48) (butlast rest)) else 0
      | [] \<Rightarrow> 0)"

lemma length_digits [simp]: "length (digits n v) = n"
  by (induction n arbitrary: v) auto

lemma digits_less_10: "d \<in> set (digits n v) \<Longrightarrow> d < 10"
  by (induction n arbitrary: v) auto

lemma value_of_snoc: "length ds = n \<Longrightarrow> value_of (Suc n) (ds @ [d]) = 10 * value_of n ds + int d"
  by (induction ds arbitrary: n) auto

lemma value_of_digits: "0 \<le> v \<Longrightarrow> v < 10 ^ n \<Longrightarrow> value_of n (digits n v) = v"
proof (induction n arbitrary: v)
  case (Suc n)
  then have "v div 10 < 10 ^ n" by (simp add: div_less_iff_less_mult mult.commute)
  with Suc show ?case
    by (simp add: value_of_snoc pos_imp_zdiv_nonneg_iff del: value_of.simps)
qed simp

lemma value_of_Nil [simp]: "value_of n [] = 0"
  by (cases n) auto

lemma value_of_zeros: "value_of n (ds @ replicate k 0) = value_of n ds"
proof (induction ds arbitrary: n)
  case Nil
  show ?case
  proof (induction k arbitrary: n)
    case (Suc k)
    then show ?case by (cases n) auto
  qed simp
next
  case (Cons d ds)
  then show ?case by (cases n) auto
qed

lemma strip_zeros_append: "\<exists>k. ds = strip_zeros ds @ replicate k 0"
proof -
  have "rev ds = takeWhile (\<lambda>d. d = 0) (rev ds) @ dropWhile (\<lambda>d. d = 0) (rev ds)" by simp
  moreover have "takeWhile (\<lambda>d. d = 0) (rev ds) =
      replicate (length (takeWhile (\<lambda>d. d = 0) (rev ds))) 0"
    by (meson replicate_eqI set_takeWhileD)
  ultimately have "ds = strip_zeros ds @ replicate (length (takeWhile (\<lambda>d. d = 0) (rev ds))) 0"
    unfolding strip_zeros_def by (metis rev_append rev_replicate rev_rev_ident)
  then show ?thesis by blast
qed

lemma value_of_strip [simp]: "value_of n (strip_zeros ds) = value_of n ds"
  using strip_zeros_append [of ds] by (metis value_of_zeros)

lemma strip_zeros_less_10: "\<forall>d \<in> set ds. d < 10 \<Longrightarrow> d \<in> set (strip_zeros ds) \<Longrightarrow> d < 10"
  by (auto simp: strip_zeros_def dest: set_dropWhileD)

lemma of_char_digit: "d < 10 \<Longrightarrow> (of_char (char_of (48 + d) :: char) :: nat) = 48 + d"
  by simp

lemma parse_format: "parse_time (format_time t) = t"
proof -
  let ?ds = "strip_zeros (digits 9 (t mod nanos))"
  have small: "\<forall>d \<in> set ?ds. d < 10"
    using strip_zeros_less_10 digits_less_10 by blast
  then have rest: "map (\<lambda>c. of_char c - 48) (map (\<lambda>d. char_of (48 + d) :: char) ?ds) = ?ds"
    unfolding map_map by (intro map_idI) (auto simp: of_char_digit)
  have whole: "value_of 9 ?ds = t mod nanos"
    by (simp add: value_of_digits)
  then have "?ds = [] \<Longrightarrow> t mod nanos = 0"
    by (metis value_of_Nil)
  then have "parse_time (format_time t) = seconds t * nanos + value_of 9 ?ds"
    using rest whole by (simp add: parse_time_def format_time_def frac_text_def Let_def
        butlast_append del: value_of_strip)
  then show ?thesis using whole by (simp add: seconds_def del: value_of_strip)
qed

text \<open>
  Where the order of the stored texts agrees with time: across seconds, and for whole seconds.
  Within one second it need not: the fraction is written without its trailing zeros, and
  \<open>Z\<close> is greater than \<open>.\<close> and every digit.
\<close>

lemma stamp_less_seconds: "format_time a < format_time b \<Longrightarrow> seconds a \<le> seconds b"
  by (auto simp: less_stamp_def format_time_def)

lemma stamp_less_close: "format_time a < format_time b \<Longrightarrow> a < b + nanos"
  by (drule stamp_less_seconds) (simp add: seconds_def)

lemma stamp_less_apart: "a + nanos \<le> b \<Longrightarrow> format_time a < format_time b"
proof -
  assume "a + nanos \<le> b"
  then have "(a + nanos) div nanos \<le> b div nanos" by (intro zdiv_mono1) auto
  moreover have "(a + nanos) div nanos = a div nanos + 1" by (rule div_add_self2) simp
  ultimately show ?thesis by (simp add: less_stamp_def format_time_def seconds_def)
qed

lemma stamp_le_apart: "a + nanos \<le> b \<Longrightarrow> format_time a \<le> format_time b"
  by (rule less_imp_le) (rule stamp_less_apart)


lemma format_time_eq [simp]: "format_time a = format_time b \<longleftrightarrow> a = b"
  by (metis parse_format)

text \<open>An instant read back from the database is the instant that was stored.\<close>
lemma stored_time_roundtrip: "parse_time (format_time t) = t"
  by (rule parse_format)



end
