(* ===== verification/Domain_Model.thy ===== *)
theory Domain_Model
  imports Complex_Main Execution_Target Timestamps "HOL-Library.Word"
begin

text \<open>
  The entities of src/internal/domain/model.go and their \<open>Validate\<close> methods. A validator is the
  chain of the method's checks in its order; it answers the first error.

  Outside the model, as arguments: the time zone database (\<open>zones\<close>, \<open>None\<close> for a name
  \<open>time.LoadLocation\<close> rejects), URL and IP address parsing (\<open>net/url\<close>, \<open>net\<close>) and SHA-256.
  A JSON value of type \<open>any\<close> is kept as its encoded text. Floating point numbers are NaN, an
  infinity or a rational.
\<close>

type_synonym json = string

text \<open>A location: the offset from UTC in seconds at each Unix second.\<close>

type_synonym location = "int \<Rightarrow> int"
type_synonym zones = "string \<Rightarrow> location option"

section \<open>Paths\<close>

text \<open>\<open>filepath.IsAbs\<close> and \<open>filepath.Clean\<close> (and \<open>path.Clean\<close>) on Unix.\<close>

definition is_abs :: "string \<Rightarrow> bool" where
  "is_abs s \<longleftrightarrow> prefix ''/'' s"

fun clean_onto :: "bool \<Rightarrow> string list \<Rightarrow> string list \<Rightarrow> string list" where
  "clean_onto rooted acc [] = rev acc"
| "clean_onto rooted acc (seg # segs) =
     (if seg = [] \<or> seg = ''.'' then clean_onto rooted acc segs
      else if seg = ''..'' then
        (case acc of
           [] \<Rightarrow> if rooted then clean_onto rooted [] segs else clean_onto rooted [''..''] segs
         | a # as \<Rightarrow>
             if a = ''..'' then clean_onto rooted (''..'' # acc) segs
             else clean_onto rooted as segs)
      else clean_onto rooted (seg # acc) segs)"

definition path_segments :: "string \<Rightarrow> string list" where
  "path_segments s = clean_onto (is_abs s) [] (split_on CHR ''/'' s)"

definition clean_path :: "string \<Rightarrow> string" where
  "clean_path s =
     (let body = join_with CHR ''/'' (path_segments s)
      in if is_abs s then CHR ''/'' # body else if body = [] then ''.'' else body)"

definition paths_overlap :: "string \<Rightarrow> string \<Rightarrow> bool" where
  "paths_overlap left0 right0 =
     (let left = clean_path left0; right = clean_path right0 in
      left = right \<or> prefix (right @ ''/'') left \<or> prefix (left @ ''/'') right)"

definition is_ascii_letter :: "char \<Rightarrow> bool" where
  "is_ascii_letter c \<longleftrightarrow> (CHR ''A'' \<le> c \<and> c \<le> CHR ''Z'') \<or> (CHR ''a'' \<le> c \<and> c \<le> CHR ''z'')"

definition is_digit :: "char \<Rightarrow> bool" where
  "is_digit c \<longleftrightarrow> CHR ''0'' \<le> c \<and> c \<le> CHR ''9''"

definition ascii_alpha_numeric :: "char \<Rightarrow> bool" where
  "ascii_alpha_numeric c \<longleftrightarrow> (CHR ''a'' \<le> c \<and> c \<le> CHR ''z'') \<or> is_digit c"

definition has_path_parent :: "string \<Rightarrow> char \<Rightarrow> bool" where
  "has_path_parent s sep \<longleftrightarrow> list_ex (\<lambda>seg. seg = ''..'') (split_on sep s)"

abbreviation backslash :: char where "backslash \<equiv> CHR 0x5C"
abbreviation line_breaks :: string where "line_breaks \<equiv> [CHR 0x00, CHR 0x0D, CHR 0x0A]"

definition portable_absolute_agent_path :: "string \<Rightarrow> bool" where
  "portable_absolute_agent_path s =
     (if blank s \<or> contains_any line_breaks s then False
      else if prefix ''/'' s then \<not> has_path_parent s CHR ''/''
      else let w = map (\<lambda>c. if c = CHR ''/'' then backslash else c) s
           in 3 \<le> length w \<and> is_ascii_letter (w ! 0) \<and> w ! 1 = CHR '':'' \<and> w ! 2 = backslash
              \<and> \<not> has_path_parent w backslash)"

section \<open>Hosts and repositories\<close>

record remote_host =
  host_ID :: string
  host_Name :: string
  host_Host :: string
  host_Port :: int
  host_Username :: string
  host_HostFingerprint :: string
  host_CreatedAt :: instant
  host_UpdatedAt :: instant

definition remote_host_validate :: "remote_host \<Rightarrow> check" where
  "remote_host_validate h =
     (if blank (host_Name h) \<or> blank (host_Host h) \<or> blank (host_Username h)
      then Some (Invalid ''remote host name, address and username are required'')
      else if host_Port h < 1 \<or> host_Port h > 65535
      then Some (Invalid ''remote host port must be between 1 and 65535'')
      else None)"

record s3_config =
  s3_Endpoint :: string
  s3_Bucket :: string
  s3_Region :: string
  s3_PathStyle :: bool
  s3_CredentialsConfigured :: bool

record repository_run =
  rrun_Status :: string
  rrun_StartedAt :: instant
  rrun_Summary :: json

record repository_capacity =
  cap_TotalBytes :: "64 word"
  cap_UsedBytes :: "64 word"
  cap_AvailableBytes :: "64 word"
  cap_CheckedAt :: instant
  cap_SourceAgentID :: string

record repository =
  repo_ID :: string
  repo_Name :: string
  repo_Engine :: string
  repo_Kind :: string
  repo_LocalTarget :: target
  repo_RemoteHostID :: string
  repo_Path :: string
  repo_S3 :: "s3_config option"
  repo_BackendSecretID :: string
  repo_Status :: string
  repo_Capacity :: "repository_capacity option"
  repo_LastRun :: "repository_run option"
  repo_NextRun :: string
  repo_CreatedAt :: instant
  repo_UpdatedAt :: instant

abbreviation ResticEngine :: string where "ResticEngine \<equiv> ''restic''"
abbreviation RsyncEngine :: string where "RsyncEngine \<equiv> ''rsync''"
abbreviation LocalRepository :: string where "LocalRepository \<equiv> ''local''"
abbreviation SFTPRepository :: string where "SFTPRepository \<equiv> ''sftp''"
abbreviation SSHRepository :: string where "SSHRepository \<equiv> ''ssh''"
abbreviation S3Repository :: string where "S3Repository \<equiv> ''s3''"

definition effective_engine :: "string \<Rightarrow> string" where
  "effective_engine engine = (if engine = [] then ResticEngine else engine)"

definition effective_kind :: "repository \<Rightarrow> string" where
  "effective_kind r =
     (if repo_Kind r = [] then
        if effective_engine (repo_Engine r) = RsyncEngine then SSHRepository else SFTPRepository
      else repo_Kind r)"

definition effective_local_target :: "repository \<Rightarrow> target" where
  "effective_local_target r = target_normalized (repo_LocalTarget r)"

text \<open>
  What \<open>url.ParseRequestURI\<close> answers (\<open>None\<close> for an error), and \<open>net.ParseIP(host).IsLoopback()\<close>.
\<close>

record uri =
  uri_Scheme :: string
  uri_Host :: string
  uri_Hostname :: string
  uri_User :: bool
  uri_RawQuery :: string
  uri_Fragment :: string
  uri_Path :: string

record net_env =
  parse_request_uri :: "string \<Rightarrow> uri option"
  loopback_ip :: "string \<Rightarrow> bool"

text \<open>\<open>strings.EqualFold(s, "localhost")\<close>: the long s (U+017F) folds to \<open>s\<close>.\<close>

fun fold_case :: "string \<Rightarrow> string" where
  "fold_case (c # d # cs) =
     (if c = CHR 0xC5 \<and> d = CHR 0xBF then CHR ''s'' # fold_case cs
      else (if CHR ''A'' \<le> c \<and> c \<le> CHR ''Z'' then char_of ((of_char c :: nat) + 32) else c)
           # fold_case (d # cs))"
| "fold_case [c] =
     [if CHR ''A'' \<le> c \<and> c \<le> CHR ''Z'' then char_of ((of_char c :: nat) + 32) else c]"
| "fold_case [] = []"

definition uri_bad_origin :: "uri option \<Rightarrow> bool" where
  "uri_bad_origin parsed \<longleftrightarrow>
     (case parsed of
        None \<Rightarrow> True
      | Some u \<Rightarrow> uri_Host u = [] \<or> uri_User u \<or> uri_RawQuery u \<noteq> [] \<or> uri_Fragment u \<noteq> []
          \<or> (uri_Path u \<noteq> [] \<and> uri_Path u \<noteq> ''/''))"

definition s3_prefix_char :: "char \<Rightarrow> bool" where
  "s3_prefix_char c \<longleftrightarrow> is_ascii_letter c \<or> is_digit c \<or> c = CHR ''-'' \<or> c = CHR ''_'' \<or> c = CHR ''.''"

definition s3_validate :: "net_env \<Rightarrow> s3_config \<Rightarrow> string \<Rightarrow> check" where
  "s3_validate net c pre =
     (let endpoint = parse_request_uri net (s3_Endpoint c) in
      if s3_Endpoint c \<noteq> trim_space (s3_Endpoint c) \<or> length (s3_Endpoint c) > 2048
      then Some (Invalid ''S3 endpoint must be a bounded origin URL without surrounding whitespace'')
      else if uri_bad_origin endpoint
      then Some (Invalid ''S3 endpoint must be an origin URL without credentials, path, query, or fragment'')
      else if uri_Scheme (the endpoint) \<noteq> ''https'' \<and>
        (uri_Scheme (the endpoint) \<noteq> ''http'' \<or>
         \<not> (fold_case (uri_Hostname (the endpoint)) = ''localhost'' \<or>
            loopback_ip net (uri_Hostname (the endpoint))))
      then Some (Invalid ''S3 endpoint requires HTTPS; HTTP is limited to the loopback interface'')
      else if length (s3_Bucket c) < 3 \<or> length (s3_Bucket c) > 63
        \<or> \<not> ascii_alpha_numeric (hd (s3_Bucket c)) \<or> \<not> ascii_alpha_numeric (last (s3_Bucket c))
        \<or> sublist ''..'' (s3_Bucket c)
      then Some (Invalid ''S3 bucket name is invalid'')
      else if \<not> list_all (\<lambda>v. ascii_alpha_numeric v \<or> v = CHR ''.'' \<or> v = CHR ''-'') (s3_Bucket c)
      then Some (Invalid ''S3 bucket name is invalid'')
      else if s3_Region c = [] \<or> length (s3_Region c) > 64
      then Some (Invalid ''S3 region is required'')
      else if \<not> list_all (\<lambda>v. is_ascii_letter v \<or> is_digit v \<or> v = CHR ''-'' \<or> v = CHR ''_'') (s3_Region c)
      then Some (Invalid ''S3 region is invalid'')
      else if length pre > 512 \<or> prefix ''/'' pre \<or> suffix ''/'' pre
        \<or> contains_any (backslash # line_breaks) pre
      then Some (Invalid ''S3 repository prefix is invalid'')
      else if pre \<noteq> [] \<and>
        list_ex (\<lambda>seg. seg = [] \<or> seg = ''.'' \<or> seg = ''..'' \<or> \<not> list_all s3_prefix_char seg)
          (split_on CHR ''/'' pre)
      then Some (Invalid ''S3 repository prefix is invalid'')
      else None)"

definition repository_validate :: "net_env \<Rightarrow> repository \<Rightarrow> check" where
  "repository_validate net r =
     (let engine = effective_engine (repo_Engine r); kind = effective_kind r;
          remote_owner = Some (Invalid ''remote repository cannot declare a local filesystem owner'') in
      if blank (repo_Name r) then Some (Invalid ''repository name is required'')
      else if contains_any [CHR 0x00] (repo_Path r)
      then Some (Invalid ''repository path contains an invalid character'')
      else if engine \<noteq> ResticEngine \<and> engine \<noteq> RsyncEngine
      then Some (Unsupported ''unsupported repository engine'' (repo_Engine r))
      else if kind = LocalRepository then
        (let t = effective_local_target r in
         case target_validate t of
           Some err \<Rightarrow> Some (Wrapped ''validate local repository target'' err)
         | None \<Rightarrow>
             let absolute = (if target_Kind t = Agent
                             then portable_absolute_agent_path (repo_Path r)
                             else is_abs (repo_Path r)) in
             if repo_S3 r \<noteq> None \<or> repo_RemoteHostID r \<noteq> [] \<or> \<not> absolute
             then Some (Invalid ''local repository requires an absolute local path and no remote host'')
             else if engine = RsyncEngine \<and> target_Kind t \<noteq> Agent
             then Some (Invalid ''local rsync repository requires an Agent filesystem owner'')
             else None)
      else if kind = SFTPRepository then
        if repo_LocalTarget r \<noteq> no_target then remote_owner
        else if engine \<noteq> ResticEngine \<or> repo_S3 r \<noteq> None \<or> blank (repo_Path r)
          \<or> blank (repo_RemoteHostID r)
        then Some (Invalid ''SFTP repository requires Restic and a remote host'')
        else None
      else if kind = SSHRepository then
        if repo_LocalTarget r \<noteq> no_target then remote_owner
        else if engine \<noteq> RsyncEngine \<or> repo_S3 r \<noteq> None \<or> blank (repo_Path r)
          \<or> blank (repo_RemoteHostID r)
        then Some (Invalid ''SSH repository requires rsync and a remote host'')
        else None
      else if kind = S3Repository then
        if repo_LocalTarget r \<noteq> no_target then remote_owner
        else if engine \<noteq> ResticEngine \<or> repo_RemoteHostID r \<noteq> [] \<or> repo_S3 r = None
        then Some (Invalid ''S3 repository requires Restic, structured backend settings, and no remote host'')
        else s3_validate net (the (repo_S3 r)) (repo_Path r)
      else Some (Unsupported ''unsupported repository kind'' (repo_Kind r)))"

definition validate_execution_target :: "repository \<Rightarrow> target \<Rightarrow> check" where
  "validate_execution_target r t0 =
     (let t = target_normalized t0 in
      case target_validate t of
        Some err \<Rightarrow> Some err
      | None \<Rightarrow>
          if effective_kind r \<noteq> LocalRepository then None
          else if effective_local_target r \<noteq> t
          then Some (Invalid ''task execution target does not own the local repository path'')
          else None)"

section \<open>Capacity policies\<close>

datatype float64 = NaN | PosInf | NegInf | Finite rat

record capacity_policy =
  cpol_RepositoryID :: string
  cpol_Enabled :: bool
  cpol_ProbeIntervalMinutes :: int
  cpol_MinimumAvailableBytes :: "64 word"
  cpol_MinimumAvailablePercent :: float64
  cpol_ExhaustionWarningDays :: int
  cpol_NextProbeAt :: "instant option"
  cpol_LastAttemptAt :: "instant option"
  cpol_LastSuccessAt :: "instant option"
  cpol_LastError :: string
  cpol_UpdatedAt :: instant

definition default_capacity_policy :: "string \<Rightarrow> instant \<Rightarrow> capacity_policy" where
  "default_capacity_policy repositoryID now =
     \<lparr>cpol_RepositoryID = repositoryID, cpol_Enabled = True,
      cpol_ProbeIntervalMinutes = 24 * 60, cpol_MinimumAvailableBytes = 0,
      cpol_MinimumAvailablePercent = Finite 0, cpol_ExhaustionWarningDays = 0,
      cpol_NextProbeAt = Some now, cpol_LastAttemptAt = None, cpol_LastSuccessAt = None,
      cpol_LastError = [], cpol_UpdatedAt = now\<rparr>"

definition percent_out_of_range :: "float64 \<Rightarrow> bool" where
  "percent_out_of_range p =
     (case p of NaN \<Rightarrow> True | PosInf \<Rightarrow> True | NegInf \<Rightarrow> True | Finite q \<Rightarrow> q < 0 \<or> q > 100)"

definition capacity_policy_validate :: "capacity_policy \<Rightarrow> check" where
  "capacity_policy_validate p =
     (if blank (cpol_RepositoryID p)
      then Some (Invalid ''repository capacity policy requires a repository'')
      else if cpol_ProbeIntervalMinutes p < 15 \<or> cpol_ProbeIntervalMinutes p > 7 * 24 * 60
      then Some (Invalid ''repository capacity probe interval must be between 15 minutes and 7 days'')
      else if uint (cpol_MinimumAvailableBytes p) > max_int64
      then Some (Invalid ''repository capacity byte threshold exceeds the supported limit'')
      else if percent_out_of_range (cpol_MinimumAvailablePercent p)
      then Some (Invalid ''repository capacity percentage threshold must be between 0 and 100'')
      else if cpol_ExhaustionWarningDays p < 0 \<or> cpol_ExhaustionWarningDays p > 3650
      then Some (Invalid ''repository capacity forecast horizon must be between 0 and 3650 days'')
      else None)"

section \<open>Database connections\<close>

record tls_config =
  tls_Mode :: string
  tls_CA :: string
  tls_ClientCert :: string
  tls_ClientKey :: string
  tls_ServerName :: string

record database_preflight =
  pre_CheckedAt :: instant
  pre_ClientVersion :: string
  pre_ServerVersion :: string
  pre_Error :: string

record database_connection =
  conn_ID :: string
  conn_Name :: string
  conn_Engine :: string
  conn_Purpose :: string
  conn_Network :: string
  conn_Host :: string
  conn_Port :: int
  conn_SocketPath :: string
  conn_Username :: string
  conn_TLS :: tls_config
  conn_ToolPaths :: "string \<rightharpoonup> string"
  conn_Status :: string
  conn_Preflight :: database_preflight
  conn_CreatedAt :: instant
  conn_UpdatedAt :: instant

definition database_connection_validate :: "database_connection \<Rightarrow> check" where
  "database_connection_validate c =
     (if blank (conn_Name c) \<or> blank (conn_Username c)
      then Some (Invalid ''database connection name and username are required'')
      else if conn_Engine c \<noteq> ''mysql'' \<and> conn_Engine c \<noteq> ''postgresql''
      then Some (Unsupported ''unsupported database engine'' (conn_Engine c))
      else if conn_Purpose c \<noteq> ''backup'' \<and> conn_Purpose c \<noteq> ''restore''
      then Some (Unsupported ''unsupported database connection purpose'' (conn_Purpose c))
      else if conn_Network c = ''tcp'' then
        if blank (conn_Host c) \<or> conn_Port c < 1 \<or> conn_Port c > 65535 \<or> conn_SocketPath c \<noteq> []
        then Some (Invalid ''tcp connection requires host and valid port only'') else None
      else if conn_Network c = ''unix'' then
        if \<not> is_abs (conn_SocketPath c) \<or> conn_Host c \<noteq> [] \<or> conn_Port c \<noteq> 0
        then Some (Invalid ''unix connection requires an absolute socket path only'') else None
      else Some (Unsupported ''unsupported database network'' (conn_Network c)))"

section \<open>Tasks\<close>

record directory_source =
  dir_Path :: string
  dir_Exclusions :: "string list"
  dir_SkipIfUnchanged :: bool

record database_source =
  dbs_ConnectionID :: string
  dbs_Database :: string

record rsync_source =
  rs_Path :: string
  rs_DestinationKind :: string
  rs_DestinationHostID :: string
  rs_DestinationPath :: string
  rs_Exclusions :: "string list"
  rs_Delete :: bool

record retention_policy =
  keep_WithinDays :: int
  keep_Last :: int
  keep_Hourly :: int
  keep_Daily :: int
  keep_Weekly :: int
  keep_Monthly :: int
  keep_Yearly :: int

record resource_policy =
  res_UploadKiBPerSecond :: int
  res_DownloadKiBPerSecond :: int
  res_ReadConcurrency :: int
  res_Compression :: string

record scope_confirmation =
  scope_PreviewID :: string
  scope_Fingerprint :: string
  scope_ConfirmedBy :: string
  scope_ConfirmedAt :: instant
  scope_Summary :: json
  scope_DeleteConfirmed :: bool

record task =
  task_ID :: string
  task_Name :: string
  task_Engine :: string
  task_Kind :: string
  task_ExecutionTarget :: target
  task_RepositoryID :: string
  task_Directory :: "directory_source option"
  task_Database :: "database_source option"
  task_Rsync :: "rsync_source option"
  task_Retention :: retention_policy
  task_Resources :: resource_policy
  task_MaxSuccessAgeHours :: int
  task_ScopeConfirmation :: scope_confirmation
  task_Enabled :: bool
  task_CreatedAt :: instant
  task_UpdatedAt :: instant

definition no_retention :: retention_policy where
  "no_retention = \<lparr>keep_WithinDays = 0, keep_Last = 0, keep_Hourly = 0, keep_Daily = 0,
     keep_Weekly = 0, keep_Monthly = 0, keep_Yearly = 0\<rparr>"

definition no_resources :: resource_policy where
  "no_resources = \<lparr>res_UploadKiBPerSecond = 0, res_DownloadKiBPerSecond = 0,
     res_ReadConcurrency = 0, res_Compression = []\<rparr>"

definition scope_present :: "scope_confirmation \<Rightarrow> bool" where
  "scope_present c \<longleftrightarrow> scope_PreviewID c \<noteq> [] \<and> scope_Fingerprint c \<noteq> []
     \<and> scope_ConfirmedBy c \<noteq> [] \<and> scope_ConfirmedAt c \<noteq> zero_time"

definition effective_destination_kind :: "rsync_source \<Rightarrow> string" where
  "effective_destination_kind s =
     (if rs_DestinationKind s = [] then ''ssh'' else rs_DestinationKind s)"

definition rsync_source_validate :: "rsync_source \<Rightarrow> check" where
  "rsync_source_validate s =
     (let finish = (if contains_any [CHR 0x00] (rs_Path s) \<or> contains_any [CHR 0x00] (rs_DestinationPath s)
                    then Some (Invalid ''rsync path contains an invalid character'') else None) in
      if \<not> is_abs (rs_Path s) \<or> \<not> is_abs (rs_DestinationPath s)
      then Some (Invalid ''rsync source and destination paths must be absolute'')
      else if effective_destination_kind s = ''ssh'' then
        if blank (rs_DestinationHostID s)
        then Some (Invalid ''rsync destination host is required'') else finish
      else if effective_destination_kind s = ''local'' then
        if \<not> blank (rs_DestinationHostID s)
        then Some (Invalid ''local rsync destination cannot reference a remote host'')
        else if paths_overlap (rs_Path s) (rs_DestinationPath s)
        then Some (Invalid ''local rsync source and destination paths must not overlap'')
        else finish
      else Some (Unsupported ''unsupported rsync destination kind'' (rs_DestinationKind s)))"

definition retention_values :: "retention_policy \<Rightarrow> int list" where
  "retention_values p = [keep_WithinDays p, keep_Last p, keep_Hourly p, keep_Daily p,
     keep_Weekly p, keep_Monthly p, keep_Yearly p]"

definition retention_validate :: "retention_policy \<Rightarrow> check" where
  "retention_validate p =
     (if list_ex (\<lambda>v. v < 0) (retention_values p)
      then Some (Invalid ''retention values cannot be negative'') else None)"

definition resource_validate :: "resource_policy \<Rightarrow> check" where
  "resource_validate p =
     (if res_UploadKiBPerSecond p < 0 \<or> res_DownloadKiBPerSecond p < 0 \<or> res_ReadConcurrency p < 0
      then Some (Invalid ''resource limits cannot be negative'')
      else if res_Compression p \<in> set [[], ''auto'', ''off'', ''max''] then None
      else Some (Unsupported ''unsupported compression'' (res_Compression p)))"

definition health_validate :: "int \<Rightarrow> check" where
  "health_validate maxSuccessAgeHours =
     (if maxSuccessAgeHours < 0 \<or> maxSuccessAgeHours > 24 * 365
      then Some (Invalid ''maximum success age must be between 1 and 8760 hours, or 0 to disable'')
      else None)"

text \<open>
  \<open>Task.Validate\<close> has a value receiver but holds the directory source by pointer, and writes the
  cleaned path through it: the result is the error and the task the caller has afterwards.
\<close>

definition clean_directory :: "task \<Rightarrow> task" where
  "clean_directory t = t\<lparr>task_Directory := map_option (\<lambda>d. d\<lparr>dir_Path := clean_path (dir_Path d)\<rparr>) (task_Directory t)\<rparr>"

definition task_target :: "task \<Rightarrow> target" where
  "task_target t = target_normalized (task_ExecutionTarget t)"

definition restic_task_validate :: "task \<Rightarrow> check \<times> task" where
  "restic_task_validate t =
     (let policies = (case retention_validate (task_Retention t) of
                        Some err \<Rightarrow> Some err | None \<Rightarrow> resource_validate (task_Resources t)) in
      if blank (task_RepositoryID t) then (Some (Invalid ''repository is required''), t)
      else if task_Kind t = ''directory'' then
        if task_Directory t = None \<or> task_Database t \<noteq> None \<or> task_Rsync t \<noteq> None
        then (Some (Invalid ''directory task requires exactly one directory source''), t)
        else if \<not> (if target_Kind (task_target t) = Agent
                    then portable_absolute_agent_path (dir_Path (the (task_Directory t)))
                    else is_abs (dir_Path (the (task_Directory t))))
        then (Some (Invalid ''source directory must be absolute''), t)
        else (policies, clean_directory t)
      else if task_Kind t = ''database'' then
        (case task_Database t of
           None \<Rightarrow> (Some (Invalid ''database task requires exactly one database source''), t)
         | Some d \<Rightarrow>
             if task_Directory t \<noteq> None \<or> task_Rsync t \<noteq> None
             then (Some (Invalid ''database task requires exactly one database source''), t)
             else if blank (dbs_ConnectionID d) \<or> blank (dbs_Database d)
             then (Some (Invalid ''database connection and logical database are required''), t)
             else (policies, t))
      else (Some (Unsupported ''unsupported restic task kind'' (task_Kind t)), t))"

definition rsync_task_validate :: "task \<Rightarrow> check" where
  "rsync_task_validate t =
     (case task_Rsync t of
        None \<Rightarrow> Some (Invalid ''rsync task requires exactly one rsync source'')
      | Some s \<Rightarrow>
          if task_Kind t \<noteq> ''rsync'' \<or> task_Directory t \<noteq> None \<or> task_Database t \<noteq> None
          then Some (Invalid ''rsync task requires exactly one rsync source'')
          else if task_Retention t \<noteq> no_retention \<or> task_Resources t \<noteq> no_resources
          then Some (Invalid ''rsync task cannot use restic retention or resource policies'')
          else if task_RepositoryID t \<noteq> [] then
            if \<not> is_abs (rs_Path s) \<or> contains_any line_breaks (rs_Path s)
            then Some (Invalid ''rsync source path must be an absolute valid path'')
            else if rs_DestinationKind s \<noteq> [] \<or> rs_DestinationHostID s \<noteq> [] \<or> rs_DestinationPath s \<noteq> []
            then Some (Invalid ''repository-backed rsync task cannot embed a destination'')
            else None
          else (case rsync_source_validate s of
                  Some err \<Rightarrow> Some err
                | None \<Rightarrow>
                    if effective_destination_kind s = ''local'' \<and> target_Kind (task_target t) \<noteq> Agent
                    then Some (Invalid ''local rsync destination requires agent execution'')
                    else None))"

definition task_validate :: "task \<Rightarrow> check \<times> task" where
  "task_validate t =
     (if blank (task_Name t) then (Some (Invalid ''task name is required''), t)
      else (case target_validate (task_target t) of
              Some err \<Rightarrow> (Some err, t)
            | None \<Rightarrow>
                (case health_validate (task_MaxSuccessAgeHours t) of
                   Some err \<Rightarrow> (Some err, t)
                 | None \<Rightarrow>
                     if effective_engine (task_Engine t) = ResticEngine then restic_task_validate t
                     else if effective_engine (task_Engine t) = RsyncEngine
                     then (rsync_task_validate t, t)
                     else (Some (Unsupported ''unsupported task engine'' (task_Engine t)), t))))"

section \<open>Retention fingerprint\<close>

text \<open>The verb \<open>%d\<close>.\<close>

definition digit_char :: "nat \<Rightarrow> char" where "digit_char d = char_of (48 + d)"

fun show_nat :: "nat \<Rightarrow> string" where
  "show_nat n = (if n < 10 then [digit_char n] else show_nat (n div 10) @ [digit_char (n mod 10)])"

declare show_nat.simps [simp del]

definition show_int :: "int \<Rightarrow> string" where
  "show_int v = (if v < 0 then CHR ''-'' # show_nat (nat (- v)) else show_nat (nat v))"

abbreviation newline :: char where "newline \<equiv> CHR 0x0A"

definition retention_lines :: "retention_policy \<Rightarrow> string list" where
  "retention_lines p =
     [''retention-policy/v1'',
      ''keepWithinDays='' @ show_int (keep_WithinDays p),
      ''keepLast='' @ show_int (keep_Last p),
      ''keepHourly='' @ show_int (keep_Hourly p),
      ''keepDaily='' @ show_int (keep_Daily p),
      ''keepWeekly='' @ show_int (keep_Weekly p),
      ''keepMonthly='' @ show_int (keep_Monthly p),
      ''keepYearly='' @ show_int (keep_Yearly p)]"

definition retention_canonical :: "retention_policy \<Rightarrow> string" where
  "retention_canonical p = concat (map (\<lambda>line. line @ [newline]) (retention_lines p))"

text \<open>\<open>hex.EncodeToString\<close>, and the fingerprint for a digest function \<open>sha256\<close>.\<close>

definition hex_digit :: "nat \<Rightarrow> char" where
  "hex_digit n = (if n < 10 then char_of (48 + n) else char_of (87 + n))"

definition hex_encode :: "string \<Rightarrow> string" where
  "hex_encode bs = concat (map (\<lambda>b. [hex_digit (of_char b div 16), hex_digit (of_char b mod 16)]) bs)"

definition retention_fingerprint :: "(string \<Rightarrow> string) \<Rightarrow> retention_policy \<Rightarrow> string" where
  "retention_fingerprint sha256 p = ''sha256:'' @ hex_encode (sha256 (retention_canonical p))"

section \<open>Schedules, plans and policies\<close>

record schedule =
  sch_Kind :: string
  sch_TimeOfDay :: string
  sch_DayOfWeek :: int
  sch_IntervalHours :: int

abbreviation DailySchedule :: string where "DailySchedule \<equiv> ''daily''"
abbreviation WeeklySchedule :: string where "WeeklySchedule \<equiv> ''weekly''"
abbreviation IntervalSchedule :: string where "IntervalSchedule \<equiv> ''interval''"

record plan =
  plan_ID :: string
  plan_Name :: string
  plan_Schedule :: schedule
  plan_Timezone :: string
  plan_MaxParallel :: int
  plan_TaskIDs :: "string list"
  plan_Enabled :: bool
  plan_CatchUpWindowMinutes :: int
  plan_ScheduleAnchorAt :: instant
  plan_CreatedAt :: instant
  plan_UpdatedAt :: instant

record maintenance_policy =
  mp_RepositoryID :: string
  mp_Schedule :: schedule
  mp_Timezone :: string
  mp_Retention :: retention_policy
  mp_RetentionSource :: string
  mp_RetentionConflict :: bool
  mp_ReviewedRetention :: "retention_policy option"
  mp_PolicyFingerprint :: string
  mp_Enabled :: bool
  mp_CatchUpWindowMinutes :: int
  mp_ScheduleAnchorAt :: instant
  mp_UpdatedAt :: instant

record restore_verification_policy =
  rvp_TaskID :: string
  rvp_Schedule :: schedule
  rvp_Timezone :: string
  rvp_SelectionPath :: string
  rvp_MaximumBytes :: int
  rvp_MaximumSuccessAgeHours :: int
  rvp_Enabled :: bool
  rvp_CatchUpWindowMinutes :: int
  rvp_ScheduleAnchorAt :: instant
  rvp_UpdatedAt :: instant

text \<open>
  \<open>time.Parse("15:04", value)\<close>: an hour of one or two digits below 24, a colon, a minute of
  exactly two digits below 60, and nothing after it.
\<close>

definition digit_of :: "char \<Rightarrow> int" where "digit_of c = int (of_char c) - 48"

definition clock_minute :: "int \<Rightarrow> string \<Rightarrow> (int \<times> int) option" where
  "clock_minute hour s =
     (case s of
        [colon, a, b] \<Rightarrow>
          if hour < 24 \<and> colon = CHR '':'' \<and> is_digit a \<and> is_digit b \<and> digit_of a * 10 + digit_of b < 60
          then Some (hour, digit_of a * 10 + digit_of b) else None
      | _ \<Rightarrow> None)"

definition parse_clock :: "string \<Rightarrow> (int \<times> int) option" where
  "parse_clock s =
     (case s of
        a # b # rest \<Rightarrow>
          if \<not> is_digit a then None
          else if is_digit b then clock_minute (digit_of a * 10 + digit_of b) rest
          else clock_minute (digit_of a) (b # rest)
      | _ \<Rightarrow> None)"

definition plan_validate :: "zones \<Rightarrow> plan \<Rightarrow> check" where
  "plan_validate zones p =
     (let s = plan_Schedule p in
      if blank (plan_Name p) \<or> blank (plan_Timezone p)
      then Some (Invalid ''plan name and timezone are required'')
      else if zones (plan_Timezone p) = None then Some (Invalid ''invalid plan timezone'')
      else if plan_MaxParallel p < 1 then Some (Invalid ''plan max parallel must be at least 1'')
      else if plan_TaskIDs p = [] then Some (Invalid ''plan requires at least one task'')
      else if plan_CatchUpWindowMinutes p < 0 \<or> plan_CatchUpWindowMinutes p > 7 * 24 * 60
      then Some (Invalid ''plan catch-up window requires 0 to 10080 minutes'')
      else if sch_Kind s = DailySchedule then
        if parse_clock (sch_TimeOfDay s) = None
        then Some (Invalid ''daily schedule requires HH:MM time'') else None
      else if sch_Kind s = WeeklySchedule then
        if parse_clock (sch_TimeOfDay s) = None \<or> sch_DayOfWeek s < 0 \<or> sch_DayOfWeek s > 6
        then Some (Invalid ''weekly schedule requires weekday and HH:MM time'') else None
      else if sch_Kind s = IntervalSchedule then
        if sch_IntervalHours s < 1 \<or> sch_IntervalHours s > 8760
        then Some (Invalid ''interval schedule requires 1 to 8760 hours'') else None
      else Some (Unsupported ''unsupported schedule kind'' (sch_Kind s)))"

definition probe_plan :: "string \<Rightarrow> schedule \<Rightarrow> string \<Rightarrow> string \<Rightarrow> int \<Rightarrow> plan" where
  "probe_plan name s timezone target window =
     \<lparr>plan_ID = [], plan_Name = name, plan_Schedule = s, plan_Timezone = timezone,
      plan_MaxParallel = 1, plan_TaskIDs = [target], plan_Enabled = False,
      plan_CatchUpWindowMinutes = window, plan_ScheduleAnchorAt = zero_time,
      plan_CreatedAt = zero_time, plan_UpdatedAt = zero_time\<rparr>"

definition maintenance_policy_validate :: "zones \<Rightarrow> maintenance_policy \<Rightarrow> check" where
  "maintenance_policy_validate zones p =
     (case plan_validate zones
        (probe_plan ''maintenance'' (mp_Schedule p) (mp_Timezone p) ''repository''
           (mp_CatchUpWindowMinutes p)) of
        Some err \<Rightarrow> Some err
      | None \<Rightarrow> retention_validate (mp_Retention p))"

definition restore_selection_bad :: "string \<Rightarrow> bool" where
  "restore_selection_bad path =
     (let selection = trim_space path; clean = clean_path selection in
      selection = [] \<or> selection = ''.'' \<or> contains_any (backslash # line_breaks) selection
      \<or> prefix ''/'' clean \<or> clean = ''..'' \<or> prefix ''../'' clean \<or> clean \<noteq> selection)"

definition restore_verification_validate :: "zones \<Rightarrow> restore_verification_policy \<Rightarrow> check" where
  "restore_verification_validate zones p =
     (if blank (rvp_TaskID p) then Some (Invalid ''restore verification task is required'')
      else if restore_selection_bad (rvp_SelectionPath p)
      then Some (Invalid ''restore verification selection must be a normalized relative snapshot path'')
      else if rvp_MaximumBytes p < 1 \<or> rvp_MaximumBytes p > 2 ^ 40
      then Some (Invalid ''restore verification maximum bytes must be between 1 and 1099511627776'')
      else if rvp_MaximumSuccessAgeHours p < 1 \<or> rvp_MaximumSuccessAgeHours p > 24 * 365
      then Some (Invalid ''restore verification maximum success age must be between 1 and 8760 hours'')
      else plan_validate zones
        (probe_plan ''restore verification'' (rvp_Schedule p) (rvp_Timezone p) (rvp_TaskID p)
           (rvp_CatchUpWindowMinutes p)))"

end
