(* ===== verification/Domain_Validation.thy ===== *)
theory Domain_Validation
  imports Domain_Model
begin

text \<open>
  What the validators of \<open>Domain_Model\<close> accept: path cleaning and overlap, the retention
  fingerprint, tasks, repositories, plans and policies.
\<close>

section \<open>Cleaned paths\<close>

fun clean_rev :: "bool \<Rightarrow> string list \<Rightarrow> bool" where
  "clean_rev rooted [] = True"
| "clean_rev rooted (a # as) \<longleftrightarrow>
     a \<noteq> [] \<and> a \<noteq> ''.'' \<and> (a = ''..'' \<longrightarrow> \<not> rooted \<and> set as \<subseteq> {''..''}) \<and> clean_rev rooted as"

lemma clean_rev_clean_onto:
  "clean_rev rooted acc \<Longrightarrow> clean_rev rooted (rev (clean_onto rooted acc segs))"
  by (induction rooted acc segs rule: clean_onto.induct) (auto split: list.splits)

lemma clean_rev_append: "clean_rev rooted (as @ bs) \<Longrightarrow> clean_rev rooted bs"
  by (induction as) auto

lemma clean_onto_clean: "clean_rev rooted (rev segs @ acc) \<Longrightarrow> clean_onto rooted acc segs = rev acc @ segs"
proof (induction segs arbitrary: acc)
  case (Cons seg segs)
  then have IH: "clean_onto rooted (seg # acc) segs = rev acc @ seg # segs"
    by simp
  have "clean_rev rooted (seg # acc)"
    using Cons.prems clean_rev_append [of rooted "rev segs" "seg # acc"] by simp
  then show ?case using IH by (cases acc) auto
qed simp

lemma clean_onto_segments:
  "seg \<in> set (clean_onto rooted acc segs) \<Longrightarrow> seg \<in> set acc \<or> seg \<in> set segs"
proof (induction rooted acc segs rule: clean_onto.induct)
  case (2 rooted acc s segs)
  then show ?case by (auto split: if_splits list.splits)
qed auto

lemma path_segments_facts:
  "clean_rev (is_abs s) (rev (path_segments s)) \<and> (\<forall>seg \<in> set (path_segments s). CHR ''/'' \<notin> set seg)"
  unfolding path_segments_def
  by (auto intro!: clean_rev_clean_onto dest!: clean_onto_segments split_on_segments)

lemma first_parent:
  "clean_rev rooted (rev ss) \<Longrightarrow> ''..'' \<in> set ss \<Longrightarrow> \<exists>ts. ss = ''..'' # ts"
proof (induction ss rule: rev_induct)
  case (snoc x xs)
  then show ?case by (cases xs) auto
qed simp

lemma clean_rev_mem: "clean_rev rooted ss \<Longrightarrow> seg \<in> set ss \<Longrightarrow> seg \<noteq> [] \<and> seg \<noteq> ''.''"
  by (induction ss) auto

lemma join_with_Cons: "join_with c (s # ss) = (if ss = [] then s else s @ c # join_with c ss)"
  by (cases ss) auto

lemma join_with_starts:
  assumes "\<forall>seg \<in> set ss. seg \<noteq> [] \<and> c \<notin> set seg"
  shows "\<not> prefix [c] (join_with c ss)"
  using assms by (cases ss) (auto simp: join_with_Cons prefix_Cons append_eq_Cons_conv prefix_def neq_Nil_conv)

lemma path_segments_join:
  assumes "clean_rev rooted (rev ss)" and "\<forall>seg \<in> set ss. CHR ''/'' \<notin> set seg" and "\<not> rooted \<Longrightarrow> ss \<noteq> []"
  shows "path_segments (if rooted then CHR ''/'' # join_with CHR ''/'' ss else join_with CHR ''/'' ss) = ss"
proof -
  let ?body = "join_with CHR ''/'' ss"
  have segs: "clean_onto rooted [] (split_on CHR ''/'' ?body) = ss"
    using assms clean_onto_clean [of rooted ss "[]"]
    by (cases "ss = []") (auto simp: split_join_with)
  have "\<not> is_abs ?body"
    unfolding is_abs_def using assms clean_rev_mem [OF assms(1)]
    by (intro join_with_starts) auto
  then show ?thesis
    using segs by (auto simp: path_segments_def is_abs_def)
qed

lemma path_segments_clean [simp]: "path_segments (clean_path s) = path_segments s"
proof -
  note facts = path_segments_facts [of s]
  show ?thesis
  proof (cases "is_abs s \<or> path_segments s \<noteq> []")
    case True
    moreover from True facts have "join_with CHR ''/'' (path_segments s) \<noteq> [] \<or> is_abs s"
      using clean_rev_mem [of "is_abs s" "rev (path_segments s)"]
      by (cases "path_segments s") (auto simp: join_with_Cons)
    ultimately show ?thesis
      using path_segments_join [of "is_abs s" "path_segments s"] facts
      by (auto simp: clean_path_def Let_def)
  next
    case False
    then have "clean_path s = ''.''" by (simp add: clean_path_def)
    moreover have "path_segments ''.'' = []" by (simp add: path_segments_def is_abs_def)
    ultimately show ?thesis using False by simp
  qed
qed

lemma is_abs_clean [simp]: "is_abs (clean_path s) = is_abs s"
proof (cases "is_abs s")
  case False
  have "\<not> is_abs (join_with CHR ''/'' (path_segments s))"
    unfolding is_abs_def using path_segments_facts [of s] clean_rev_mem
    by (intro join_with_starts) fastforce
  with False show ?thesis by (auto simp: clean_path_def is_abs_def Let_def)
qed (simp add: clean_path_def is_abs_def Let_def)

lemma clean_path_cong:
  "is_abs a = is_abs b \<Longrightarrow> path_segments a = path_segments b \<Longrightarrow> clean_path a = clean_path b"
  by (simp add: clean_path_def)

lemma clean_path_idem [simp]: "clean_path (clean_path s) = clean_path s"
  by (rule clean_path_cong) simp_all

lemma clean_path_eq_iff: "is_abs a \<Longrightarrow> is_abs b \<Longrightarrow> clean_path a = clean_path b \<longleftrightarrow> path_segments a = path_segments b"
  by (metis clean_path_cong path_segments_clean)

lemma split_on_append: "split_on c (x @ c # z) = split_on c x @ split_on c z"
  by (induction x) (auto split: list.splits)

lemma join_with_append:
  "xs \<noteq> [] \<Longrightarrow> ys \<noteq> [] \<Longrightarrow> join_with c (xs @ ys) = join_with c xs @ c # join_with c ys"
  by (induction xs) (auto simp: join_with_Cons)

lemma prefix_join_with:
  assumes "rs \<noteq> []" and "ls \<noteq> []" and "\<forall>seg \<in> set rs. c \<notin> set seg" and "\<forall>seg \<in> set ls. c \<notin> set seg"
  shows "prefix (join_with c rs @ [c]) (join_with c ls) \<longleftrightarrow> strict_prefix rs ls"
proof
  assume "prefix (join_with c rs @ [c]) (join_with c ls)"
  then obtain z where "join_with c ls = join_with c rs @ c # z" by (auto simp: prefix_def)
  then have "split_on c (join_with c ls) = split_on c (join_with c rs) @ split_on c z"
    by (simp add: split_on_append)
  with assms have "ls = rs @ split_on c z" by (simp add: split_join_with)
  then show "strict_prefix rs ls" by (simp add: strict_prefix_def)
next
  assume "strict_prefix rs ls"
  then obtain ss where "ls = rs @ ss" and "ss \<noteq> []" by (auto simp: strict_prefix_def prefix_def)
  with assms show "prefix (join_with c rs @ [c]) (join_with c ls)"
    by (auto simp: join_with_append)
qed

lemma clean_prefix_iff:
  assumes "is_abs a" and "is_abs b" and "path_segments a \<noteq> []"
  shows "prefix (clean_path a @ ''/'') (clean_path b) \<longleftrightarrow> strict_prefix (path_segments a) (path_segments b)"
proof (cases "path_segments b = []")
  case True
  with assms show ?thesis by (auto simp: clean_path_def Let_def prefix_def)
next
  case False
  with assms show ?thesis
    using path_segments_facts [of a] path_segments_facts [of b]
    by (simp add: clean_path_def Let_def prefix_join_with)
qed

text \<open>
  For two absolute paths below the root, \<open>pathsOverlap\<close> is exactly containment of one tree
  in the other: the cleaned segments of one are a prefix of those of the other. The root itself
  is the exception: the root and a directory below it are reported as not overlapping.
\<close>
lemma paths_overlap_containment:
  "(is_abs l \<and> is_abs r \<and> path_segments l \<noteq> [] \<and> path_segments r \<noteq> [] \<longrightarrow>
      paths_overlap l r = (prefix (path_segments l) (path_segments r) \<or>
                           prefix (path_segments r) (path_segments l))) \<and>
   paths_overlap ''/'' ''/backup'' = False"
proof
  show "is_abs l \<and> is_abs r \<and> path_segments l \<noteq> [] \<and> path_segments r \<noteq> [] \<longrightarrow>
      paths_overlap l r = (prefix (path_segments l) (path_segments r) \<or>
                           prefix (path_segments r) (path_segments l))"
    by (auto simp: paths_overlap_def Let_def clean_path_eq_iff clean_prefix_iff strict_prefix_def)
  show "paths_overlap ''/'' ''/backup'' = False"
    by (simp add: paths_overlap_def Let_def clean_path_def path_segments_def is_abs_def)
qed

lemma paths_overlap_containment_witness:
  "paths_overlap ''/srv/./data/'' ''/srv/data/old'' \<and> \<not> paths_overlap ''/srv/data'' ''/srv/data2''"
  using paths_overlap_containment [of "''/srv/./data/''" "''/srv/data/old''"]
    paths_overlap_containment [of "''/srv/data''" "''/srv/data2''"]
  by (simp add: path_segments_def is_abs_def)

section \<open>The retention fingerprint\<close>

fun read_nat :: "string \<Rightarrow> nat" where
  "read_nat s = foldl (\<lambda>n c. 10 * n + (of_char c - 48)) 0 s"

lemma read_show_nat: "read_nat (show_nat n) = n"
proof (induction n rule: show_nat.induct)
  case (1 n)
  then show ?case
    by (subst show_nat.simps) (auto simp: digit_char_def)
qed

lemma show_nat_inj: "show_nat m = show_nat n \<Longrightarrow> m = n"
  by (metis read_show_nat)

lemma show_nat_digits: "c \<in> set (show_nat n) \<Longrightarrow> \<exists>d < 10. c = digit_char d"
proof (induction n rule: show_nat.induct)
  case (1 n)
  then show ?case
    by (subst (asm) show_nat.simps) (auto split: if_splits intro: exI [of _ "n mod 10"])
qed

lemma digit_char_code: "d < 10 \<Longrightarrow> (of_char (digit_char d) :: nat) = 48 + d"
  by (simp add: digit_char_def)

lemma show_nat_no_char:
  assumes "(of_char c :: nat) < 48"
  shows "c \<notin> set (show_nat n)"
  using assms show_nat_digits digit_char_code by fastforce

lemma show_nat_no_minus: "CHR ''-'' # s \<noteq> show_nat n"
proof
  assume "CHR ''-'' # s = show_nat n"
  then have "CHR ''-'' \<in> set (show_nat n)" by (metis list.set_intros(1))
  then show False using show_nat_no_char [of "CHR ''-''" n] by simp
qed

lemma show_int_inj: "show_int a = show_int b \<Longrightarrow> a = b"
  using show_nat_no_minus show_nat_no_minus [symmetric]
  by (auto simp: show_int_def split: if_splits dest!: show_nat_inj)

lemma show_int_no_newline: "newline \<notin> set (show_int v)"
  using show_nat_no_char [of newline] by (auto simp: show_int_def)


lemma retention_lines_clean: "\<forall>line \<in> set (retention_lines p). newline \<notin> set line"
  by (auto simp: retention_lines_def show_int_no_newline)

lemma concat_lines: "ls \<noteq> [] \<Longrightarrow> concat (map (\<lambda>l. l @ [c]) ls) = join_with c ls @ [c]"
  by (induction ls) (auto simp: join_with_Cons)

lemma retention_lines_inj: "retention_lines p = retention_lines q \<Longrightarrow> p = q"
  by (cases p; cases q) (auto simp: retention_lines_def dest: show_int_inj)

lemma retention_canonical_inj: "retention_canonical p = retention_canonical q \<Longrightarrow> p = q"
proof -
  assume "retention_canonical p = retention_canonical q"
  moreover have "retention_lines p \<noteq> []" and "retention_lines q \<noteq> []"
    by (simp_all add: retention_lines_def)
  ultimately have "join_with newline (retention_lines p) = join_with newline (retention_lines q)"
    by (simp add: retention_canonical_def concat_lines)
  then have "retention_lines p = retention_lines q"
    using retention_lines_clean split_join_with by (metis \<open>retention_lines p \<noteq> []\<close> \<open>retention_lines q \<noteq> []\<close>)
  then show "p = q" by (rule retention_lines_inj)
qed

lemma hex_digit_inj: "a < 16 \<Longrightarrow> b < 16 \<Longrightarrow> hex_digit a = hex_digit b \<Longrightarrow> a = b"
proof -
  assume ab: "a < 16" "b < 16" and "hex_digit a = hex_digit b"
  then have "(of_char (hex_digit a) :: nat) = of_char (hex_digit b)" by simp
  with ab show "a = b" by (auto simp: hex_digit_def split: if_splits)
qed

lemma byte_less: "(of_char c :: nat) < 256"
  by (metis of_char_mod_256 mod_less_divisor zero_less_numeral)

lemma hex_encode_inj: "hex_encode a = hex_encode b \<Longrightarrow> a = b"
proof (induction a arbitrary: b)
  case Nil
  then show ?case by (cases b) (auto simp: hex_encode_def)
next
  case (Cons x a)
  then obtain y b' where b: "b = y # b'" by (cases b) (auto simp: hex_encode_def)
  have small: "(of_char x :: nat) div 16 < 16" "(of_char y :: nat) div 16 < 16"
    using byte_less [of x] byte_less [of y] by (auto intro: less_mult_imp_div_less)
  from Cons.prems b have "hex_digit (of_char x div 16) = hex_digit (of_char y div 16)"
    and "hex_digit (of_char x mod 16) = hex_digit (of_char y mod 16)"
    and rest: "hex_encode a = hex_encode b'"
    by (auto simp: hex_encode_def)
  then have "(of_char x :: nat) div 16 = of_char y div 16" and "(of_char x :: nat) mod 16 = of_char y mod 16"
    using small by (auto intro: hex_digit_inj)
  then have "(of_char x :: nat) = of_char y" by (metis div_mult_mod_eq)
  with Cons.IH rest b show ?case by simp
qed

text \<open>
  The fingerprint identifies the retention policy. Two policies have the same fingerprint
  only when their seven counts agree, for a digest without a collision between the two
  canonical texts.
\<close>
lemma fingerprint_identifies:
  assumes "sha256 (retention_canonical p) = sha256 (retention_canonical q) \<Longrightarrow>
           retention_canonical p = retention_canonical q"
  shows "retention_fingerprint sha256 p = retention_fingerprint sha256 q \<longleftrightarrow> p = q"
  using assms hex_encode_inj retention_canonical_inj
  by (auto simp: retention_fingerprint_def)

lemma fingerprint_identifies_witness:
  "retention_fingerprint id no_retention \<noteq> retention_fingerprint id (no_retention\<lparr>keep_Last := 7\<rparr>)"
  using fingerprint_identifies [of id no_retention "no_retention\<lparr>keep_Last := 7\<rparr>"]
  by (simp add: no_retention_def)

section \<open>What the validators accept\<close>

lemmas validate_simps =
  target_valid_iff task_target_def target_normalized_kind

lemma health_valid_iff: "health_validate h = None \<longleftrightarrow> 0 \<le> h \<and> h \<le> 8760"
  by (auto simp: health_validate_def)

lemma retention_valid_iff: "retention_validate p = None \<longleftrightarrow> (\<forall>v \<in> set (retention_values p). 0 \<le> v)"
  by (auto simp: retention_validate_def list_ex_iff not_less Bex_def)

lemma rsync_source_valid_iff:
  "rsync_source_validate s = None \<longleftrightarrow>
     is_abs (rs_Path s) \<and> is_abs (rs_DestinationPath s) \<and>
     \<not> contains_any [CHR 0x00] (rs_Path s) \<and> \<not> contains_any [CHR 0x00] (rs_DestinationPath s) \<and>
     (effective_destination_kind s = ''ssh'' \<and> \<not> blank (rs_DestinationHostID s) \<or>
      effective_destination_kind s = ''local'' \<and> blank (rs_DestinationHostID s) \<and>
      \<not> paths_overlap (rs_Path s) (rs_DestinationPath s))"
  by (auto simp: rsync_source_validate_def Let_def split: if_splits)

text \<open>The three shapes of an accepted task.\<close>

definition absolute_for :: "target \<Rightarrow> string \<Rightarrow> bool" where
  "absolute_for t path =
     (if target_Kind t = Agent then portable_absolute_agent_path path else is_abs path)"

definition policies_ok :: "task \<Rightarrow> bool" where
  "policies_ok t \<longleftrightarrow> retention_validate (task_Retention t) = None \<and> resource_validate (task_Resources t) = None"

definition directory_shape :: "task \<Rightarrow> bool" where
  "directory_shape t \<longleftrightarrow> task_Kind t = ''directory'' \<and> \<not> blank (task_RepositoryID t) \<and>
     task_Database t = None \<and> task_Rsync t = None \<and> policies_ok t \<and>
     (\<exists>d. task_Directory t = Some d \<and> absolute_for (task_target t) (dir_Path d))"

definition database_shape :: "task \<Rightarrow> bool" where
  "database_shape t \<longleftrightarrow> task_Kind t = ''database'' \<and> \<not> blank (task_RepositoryID t) \<and>
     task_Directory t = None \<and> task_Rsync t = None \<and> policies_ok t \<and>
     (\<exists>d. task_Database t = Some d \<and> \<not> blank (dbs_ConnectionID d) \<and> \<not> blank (dbs_Database d))"

definition rsync_shape :: "task \<Rightarrow> bool" where
  "rsync_shape t \<longleftrightarrow> task_Kind t = ''rsync'' \<and> task_Directory t = None \<and> task_Database t = None \<and>
     task_Retention t = no_retention \<and> task_Resources t = no_resources \<and>
     (\<exists>s. task_Rsync t = Some s \<and>
        (if task_RepositoryID t \<noteq> []
         then is_abs (rs_Path s) \<and> \<not> contains_any line_breaks (rs_Path s) \<and>
              rs_DestinationKind s = [] \<and> rs_DestinationHostID s = [] \<and> rs_DestinationPath s = []
         else rsync_source_validate s = None \<and>
              (effective_destination_kind s = ''local'' \<longrightarrow> target_Kind (task_target t) = Agent)))"

lemma restic_task_accepts:
  "fst (restic_task_validate t) = None \<longleftrightarrow> directory_shape t \<or> database_shape t"
  by (auto simp: restic_task_validate_def directory_shape_def database_shape_def policies_ok_def
      absolute_for_def Let_def split: option.splits if_splits)

lemma rsync_task_accepts: "rsync_task_validate t = None \<longleftrightarrow> rsync_shape t"
  by (auto simp: rsync_task_validate_def rsync_shape_def split: option.splits if_splits)

definition task_accepted :: "task \<Rightarrow> bool" where
  "task_accepted t \<longleftrightarrow>
     \<not> blank (task_Name t) \<and> target_validate (task_ExecutionTarget t) = None \<and>
     0 \<le> task_MaxSuccessAgeHours t \<and> task_MaxSuccessAgeHours t \<le> 8760 \<and>
     (effective_engine (task_Engine t) = ResticEngine \<and> (directory_shape t \<or> database_shape t) \<or>
      effective_engine (task_Engine t) = RsyncEngine \<and> rsync_shape t)"

lemma task_validate_accepts_lemma: "fst (task_validate t) = None \<longleftrightarrow> task_accepted t"
  using health_valid_iff [of "task_MaxSuccessAgeHours t"]
  by (cases "target_validate (task_ExecutionTarget t)";
      cases "health_validate (task_MaxSuccessAgeHours t)")
    (auto simp: task_validate_def task_accepted_def restic_task_accepts rsync_task_accepts
      task_target_def)

text \<open>
  C22: \<open>Task.Validate\<close> accepts exactly the directory, database and rsync tasks with one source
  of their kind, a target and policies that are valid and, for rsync, the destination embedded
  or owned by a repository, never both.
\<close>
theorem task_validate_accepts: "fst (task_validate t) = None \<longleftrightarrow> task_accepted t"
  by (rule task_validate_accepts_lemma)

lemma clean_directory_simps [simp]:
  "task_Name (clean_directory t) = task_Name t" "task_Engine (clean_directory t) = task_Engine t"
  "task_Kind (clean_directory t) = task_Kind t"
  "task_ExecutionTarget (clean_directory t) = task_ExecutionTarget t"
  "task_RepositoryID (clean_directory t) = task_RepositoryID t"
  "task_Database (clean_directory t) = task_Database t" "task_Rsync (clean_directory t) = task_Rsync t"
  "task_Retention (clean_directory t) = task_Retention t"
  "task_Resources (clean_directory t) = task_Resources t"
  "task_MaxSuccessAgeHours (clean_directory t) = task_MaxSuccessAgeHours t"
  by (simp_all add: clean_directory_def)

lemma clean_directory_idem [simp]: "clean_directory (clean_directory t) = clean_directory t"
  by (cases "task_Directory t") (simp_all add: clean_directory_def)

lemma directory_shape_clean:
  "directory_shape t \<Longrightarrow> target_Kind (task_target t) \<noteq> Agent \<Longrightarrow> directory_shape (clean_directory t)"
  by (auto simp: directory_shape_def policies_ok_def task_target_def absolute_for_def)
     (simp add: clean_directory_def)

lemma task_validate_snd:
  "fst (task_validate t) = None \<Longrightarrow>
   snd (task_validate t) = (if task_Kind t = ''directory'' then clean_directory t else t)"
  by (auto simp: task_validate_def restic_task_validate_def rsync_task_validate_def Let_def
      split: option.splits if_splits)

text \<open>
  \<open>Task.Validate\<close> writes the cleaned directory back into the caller's task. For a task that
  does not run on an agent this is stable: validating an accepted task again accepts it and
  changes nothing.
\<close>
lemma task_validate_stable:
  assumes "fst (task_validate t) = None" and "target_Kind (task_target t) \<noteq> Agent"
  shows "task_validate (snd (task_validate t)) = (None, snd (task_validate t))"
proof (cases "task_Kind t = ''directory''")
  case False
  with assms show ?thesis by (simp add: task_validate_snd) (metis prod.collapse task_validate_snd)
next
  case True
  then have after: "snd (task_validate t) = clean_directory t"
    using assms(1) by (simp add: task_validate_snd)
  have "task_accepted (clean_directory t)"
    using assms True task_validate_accepts_lemma [of t] directory_shape_clean [of t]
    by (auto simp: task_accepted_def database_shape_def rsync_shape_def)
  then have "fst (task_validate (clean_directory t)) = None"
    by (simp add: task_validate_accepts_lemma)
  moreover from this have "snd (task_validate (clean_directory t)) = clean_directory t"
    using True by (simp add: task_validate_snd)
  ultimately show ?thesis by (simp add: after prod_eq_iff)
qed

definition directory_task :: "target \<Rightarrow> string \<Rightarrow> task" where
  "directory_task target path =
     \<lparr>task_ID = ''t1'', task_Name = ''home'', task_Engine = [], task_Kind = ''directory'',
      task_ExecutionTarget = target, task_RepositoryID = ''r1'',
      task_Directory = Some \<lparr>dir_Path = path, dir_Exclusions = [], dir_SkipIfUnchanged = False\<rparr>,
      task_Database = None, task_Rsync = None, task_Retention = no_retention,
      task_Resources = no_resources, task_MaxSuccessAgeHours = 0,
      task_ScopeConfirmation = \<lparr>scope_PreviewID = [], scope_Fingerprint = [], scope_ConfirmedBy = [],
        scope_ConfirmedAt = zero_time, scope_Summary = [], scope_DeleteConfirmed = False\<rparr>,
      task_Enabled = True, task_CreatedAt = zero_time, task_UpdatedAt = zero_time\<rparr>"

lemmas validate_eval =
  task_validate_def restic_task_validate_def directory_task_def task_target_def
  target_normalized_def target_validate_def health_validate_def retention_validate_def
  retention_values_def resource_validate_def no_retention_def no_resources_def
  effective_engine_def clean_directory_def clean_path_def path_segments_def is_abs_def
  portable_absolute_agent_path_def has_path_parent_def is_ascii_letter_def contains_any_def

lemma blank_short:
  "\<not> blank ''home''" "\<not> blank ''r1''" "\<not> blank ''a1''" "\<not> blank ''C:/''" "\<not> blank ''C:''"
  by (simp_all add: blank_def trim_space_def unicode_spaces_def strip_runes.simps)

lemma task_validate_stable_witness:
  "fst (task_validate (directory_task no_target ''/srv//data/'')) = None \<and>
   task_validate (snd (task_validate (directory_task no_target ''/srv//data/''))) =
     (None, directory_task no_target ''/srv/data'')"
proof -
  have "fst (task_validate (directory_task no_target ''/srv//data/'')) = None"
    and "snd (task_validate (directory_task no_target ''/srv//data/'')) = directory_task no_target ''/srv/data''"
    and "target_Kind (task_target (directory_task no_target ''/srv//data/'')) \<noteq> Agent"
    by (simp_all add: validate_eval no_target_def blank_short Let_def)
  then show ?thesis
    using task_validate_stable [of "directory_task no_target ''/srv//data/''"] by simp
qed

text \<open>
  For a task that runs on an agent the rewriting is not stable. The Windows drive root
  \<open>C:/\<close> is accepted, is rewritten with the Service's own path rules to \<open>C:\<close>, which is no longer
  absolute, and the rewritten task is rejected when it is validated again.
\<close>
lemma drive_root_is_lost:
  "task_validate (directory_task \<lparr>target_Kind = Agent, target_AgentID = ''a1''\<rparr> ''C:/'') =
     (None, directory_task \<lparr>target_Kind = Agent, target_AgentID = ''a1''\<rparr> ''C:'') \<and>
   fst (task_validate (directory_task \<lparr>target_Kind = Agent, target_AgentID = ''a1''\<rparr> ''C:'')) =
     Some (Invalid ''source directory must be absolute'')"
  by (simp add: validate_eval blank_short Let_def less_eq_char_def)

section \<open>Repositories and plans\<close>

definition repository_accepted :: "net_env \<Rightarrow> repository \<Rightarrow> bool" where
  "repository_accepted net r \<longleftrightarrow>
     \<not> blank (repo_Name r) \<and> \<not> contains_any [CHR 0x00] (repo_Path r) \<and>
     (effective_engine (repo_Engine r), effective_kind r) \<in>
       {(ResticEngine, LocalRepository), (RsyncEngine, LocalRepository), (ResticEngine, SFTPRepository),
        (RsyncEngine, SSHRepository), (ResticEngine, S3Repository)} \<and>
     (if effective_kind r = LocalRepository
      then target_validate (repo_LocalTarget r) = None \<and> repo_S3 r = None \<and> repo_RemoteHostID r = [] \<and>
           absolute_for (effective_local_target r) (repo_Path r) \<and>
           (effective_engine (repo_Engine r) = RsyncEngine \<longrightarrow> target_Kind (effective_local_target r) = Agent)
      else repo_LocalTarget r = no_target \<and>
        (if effective_kind r = S3Repository
         then repo_RemoteHostID r = [] \<and>
              (\<exists>c. repo_S3 r = Some c \<and> s3_validate net c (repo_Path r) = None)
         else repo_S3 r = None \<and> \<not> blank (repo_Path r) \<and> \<not> blank (repo_RemoteHostID r)))"

text \<open>
  C23: \<open>Repository.Validate\<close> accepts exactly the five combinations of engine and kind, each with
  the one owner it may have: a local filesystem with its target, a remote host, or S3 settings.
\<close>
theorem repository_validate_accepts: "repository_validate net r = None \<longleftrightarrow> repository_accepted net r"
proof -
  consider "effective_kind r = LocalRepository" | "effective_kind r = SFTPRepository"
    | "effective_kind r = SSHRepository" | "effective_kind r = S3Repository"
    | "effective_kind r \<notin> {LocalRepository, SFTPRepository, SSHRepository, S3Repository}" by blast
  then show ?thesis
  proof cases
    case 1
    then show ?thesis
      by (cases "target_validate (repo_LocalTarget r)")
        (auto simp: repository_validate_def repository_accepted_def effective_local_target_def
          absolute_for_def Let_def)
  next
    case 4
    then show ?thesis
      by (cases "repo_S3 r") (auto simp: repository_validate_def repository_accepted_def Let_def)
  qed (auto simp: repository_validate_def repository_accepted_def Let_def)
qed

definition schedule_accepted :: "schedule \<Rightarrow> bool" where
  "schedule_accepted s \<longleftrightarrow>
     (sch_Kind s = DailySchedule \<and> parse_clock (sch_TimeOfDay s) \<noteq> None) \<or>
     (sch_Kind s = WeeklySchedule \<and> parse_clock (sch_TimeOfDay s) \<noteq> None
        \<and> 0 \<le> sch_DayOfWeek s \<and> sch_DayOfWeek s \<le> 6) \<or>
     (sch_Kind s = IntervalSchedule \<and> 1 \<le> sch_IntervalHours s \<and> sch_IntervalHours s \<le> 8760)"

lemma plan_valid_iff:
  "plan_validate zones p = None \<longleftrightarrow>
     \<not> blank (plan_Name p) \<and> \<not> blank (plan_Timezone p) \<and> zones (plan_Timezone p) \<noteq> None \<and>
     1 \<le> plan_MaxParallel p \<and> plan_TaskIDs p \<noteq> [] \<and>
     0 \<le> plan_CatchUpWindowMinutes p \<and> plan_CatchUpWindowMinutes p \<le> 10080 \<and>
     schedule_accepted (plan_Schedule p)"
  by (auto simp: plan_validate_def schedule_accepted_def Let_def split: if_splits)

lemma clock_minute_range:
  "clock_minute h s = Some (hour, minute) \<Longrightarrow> 0 \<le> h \<Longrightarrow>
     hour = h \<and> hour < 24 \<and> 0 \<le> minute \<and> minute < 60"
  by (auto simp: clock_minute_def digit_of_def is_digit_def less_eq_char_def
      split: list.splits if_splits)

lemma parse_clock_range:
  "parse_clock s = Some (hour, minute) \<Longrightarrow> 0 \<le> hour \<and> hour < 24 \<and> 0 \<le> minute \<and> minute < 60"
proof -
  have digit: "is_digit c \<Longrightarrow> 0 \<le> digit_of c" for c
    by (simp add: digit_of_def is_digit_def less_eq_char_def)
  assume "parse_clock s = Some (hour, minute)"
  then obtain h r where "clock_minute h r = Some (hour, minute)" and "0 \<le> h"
    using digit by (auto simp: parse_clock_def split: list.splits if_splits)
  then show ?thesis using clock_minute_range by blast
qed

text \<open>
  The three owners of a schedule accept the same schedules. A maintenance or restore
  verification policy that is accepted has the zone, catch-up window and schedule of an
  acceptable plan; a restore verification selection is then a relative path without a parent
  step.
\<close>
lemma policy_schedules_accepted:
  "(maintenance_policy_validate zones m = None \<longrightarrow>
      zones (mp_Timezone m) \<noteq> None \<and> schedule_accepted (mp_Schedule m) \<and>
      0 \<le> mp_CatchUpWindowMinutes m \<and> mp_CatchUpWindowMinutes m \<le> 10080 \<and>
      (\<forall>v \<in> set (retention_values (mp_Retention m)). 0 \<le> v)) \<and>
   (restore_verification_validate zones v = None \<longrightarrow>
      zones (rvp_Timezone v) \<noteq> None \<and> schedule_accepted (rvp_Schedule v) \<and>
      \<not> is_abs (trim_space (rvp_SelectionPath v)) \<and>
      clean_path (trim_space (rvp_SelectionPath v)) = trim_space (rvp_SelectionPath v) \<and>
      ''..'' \<notin> set (path_segments (trim_space (rvp_SelectionPath v))))"
proof (intro conjI impI)
  assume ok: "restore_verification_validate zones v = None"
  let ?s = "trim_space (rvp_SelectionPath v)"
  from ok have sel: "\<not> restore_selection_bad (rvp_SelectionPath v)"
    and pl: "plan_validate zones (probe_plan ''restore verification'' (rvp_Schedule v) (rvp_Timezone v)
        (rvp_TaskID v) (rvp_CatchUpWindowMinutes v)) = None"
    by (auto simp: restore_verification_validate_def split: if_splits)
  from pl show "zones (rvp_Timezone v) \<noteq> None" and "schedule_accepted (rvp_Schedule v)"
    by (simp_all add: plan_valid_iff probe_plan_def)
  from sel show abs: "\<not> is_abs ?s" and clean: "clean_path ?s = ?s"
    by (auto simp: restore_selection_bad_def Let_def is_abs_def)
  show "''..'' \<notin> set (path_segments ?s)"
  proof
    assume "''..'' \<in> set (path_segments ?s)"
    then obtain ss where "path_segments ?s = ''..'' # ss"
      using path_segments_facts [of ?s] first_parent [of "is_abs ?s" "path_segments ?s"] by blast
    with abs have "clean_path ?s = ''..'' \<or> prefix ''../'' (clean_path ?s)"
      by (auto simp: clean_path_def Let_def join_with_Cons)
    with sel show False by (auto simp: restore_selection_bad_def Let_def)
  qed
qed (auto simp: maintenance_policy_validate_def plan_valid_iff probe_plan_def retention_valid_iff
    split: option.splits)

definition nightly :: schedule where
  "nightly = \<lparr>sch_Kind = DailySchedule, sch_TimeOfDay = ''02:30'', sch_DayOfWeek = 0, sch_IntervalHours = 0\<rparr>"

definition verification_example :: restore_verification_policy where
  "verification_example = \<lparr>rvp_TaskID = ''r1'', rvp_Schedule = nightly, rvp_Timezone = ''UTC'',
     rvp_SelectionPath = ''etc/home'', rvp_MaximumBytes = 1024, rvp_MaximumSuccessAgeHours = 24,
     rvp_Enabled = True, rvp_CatchUpWindowMinutes = 0, rvp_ScheduleAnchorAt = 0, rvp_UpdatedAt = 0\<rparr>"

lemma blank_names:
  "\<not> blank ''restore verification''" "\<not> blank ''UTC''" "trim_space ''etc/home'' = ''etc/home''"
  by (simp_all add: blank_def trim_space_def unicode_spaces_def strip_runes.simps)

lemma verification_example_valid:
  "restore_verification_validate (\<lambda>z. if z = ''UTC'' then Some (\<lambda>_. 0) else None) verification_example = None"
  by (simp add: restore_verification_validate_def verification_example_def blank_short blank_names
      restore_selection_bad_def plan_validate_def probe_plan_def nightly_def parse_clock_def
      clock_minute_def is_digit_def digit_of_def less_eq_char_def Let_def clean_path_def
      path_segments_def is_abs_def contains_any_def)

lemma policy_schedules_accepted_witness:
  "restore_verification_validate (\<lambda>z. if z = ''UTC'' then Some (\<lambda>_. 0) else None) verification_example = None \<and>
   ''..'' \<notin> set (path_segments (trim_space ''etc/home'')) \<and> schedule_accepted nightly"
proof -
  show ?thesis
    using verification_example_valid conjunct2 [OF policy_schedules_accepted [of "\<lambda>z. if z = ''UTC'' then Some (\<lambda>_. 0) else None" _
        verification_example]]
    by (simp add: verification_example_def)
qed

end
