(* ===== verification/Schedule_Calendar.thy ===== *)
theory Schedule_Calendar
  imports Domain_Model
begin

text \<open>
  The calendar of src/internal/schedule/scheduler.go.

  A location is the function from a Unix second to its offset from UTC; the time zone database
  is an argument. A local date is the number of days since January 1, 1970, which stands for
  the year, month and day \<open>time.Date\<close> normalises; that day was a Thursday. Occurrences have no
  fraction of a second, so they are Unix seconds; the function results are instants.
\<close>

section \<open>Local time\<close>

abbreviation day_seconds :: int where "day_seconds \<equiv> 86400"

definition wall_clock :: "location \<Rightarrow> int \<Rightarrow> int" where
  "wall_clock off u = u + off u"

definition local_day :: "location \<Rightarrow> int \<Rightarrow> int" where
  "local_day off u = wall_clock off u div day_seconds"

definition local_minute :: "location \<Rightarrow> int \<Rightarrow> int" where
  "local_minute off u = wall_clock off u mod day_seconds div 60"

definition local_weekday :: "location \<Rightarrow> int \<Rightarrow> int" where
  "local_weekday off u = (local_day off u + 4) mod 7"

text \<open>\<open>time.Date\<close> at a wall clock reading: the offset looked up there, and once more at the
  instant that offset gives.\<close>

definition go_date :: "location \<Rightarrow> int \<Rightarrow> int" where
  "go_date off wall = (if off wall \<noteq> 0 then wall - off (wall - off wall) else wall)"

definition same_local_minute :: "location \<Rightarrow> int \<Rightarrow> int \<Rightarrow> int \<Rightarrow> int \<Rightarrow> bool" where
  "same_local_minute off u day hour minute \<longleftrightarrow>
     local_day off u = day \<and> local_minute off u = hour * 60 + minute"

definition minutes_from :: "int \<Rightarrow> nat \<Rightarrow> int list" where
  "minutes_from start n = map (\<lambda>i. start + 60 * int i) [0..<n]"

definition earliest_copy :: "location \<Rightarrow> int \<Rightarrow> int \<Rightarrow> int \<Rightarrow> int \<Rightarrow> int" where
  "earliest_copy off direct day hour minute =
     foldl (\<lambda>earliest candidate.
        if same_local_minute off candidate day hour minute \<and> candidate < earliest
        then candidate else earliest)
       direct (minutes_from (direct - 4 * 3600) (8 * 60 + 1))"

definition local_occurrence :: "location \<Rightarrow> int \<Rightarrow> int \<Rightarrow> int \<Rightarrow> int option" where
  "local_occurrence off day hour minute =
     (let direct = go_date off (day * day_seconds + hour * 3600 + minute * 60) in
      if same_local_minute off direct day hour minute then
        if off (direct - 4 * 3600) = off (direct + 4 * 3600) then Some direct
        else Some (earliest_copy off direct day hour minute)
      else
        find (\<lambda>candidate. local_day off candidate = day \<and>
                local_minute off candidate \<ge> hour * 60 + minute)
          (minutes_from (go_date off (day * day_seconds) - 6 * 3600) (36 * 60 + 1)))"

section \<open>The next occurrence\<close>

text \<open>The loops over dates: the first candidate after the given instant.\<close>

fun first_after :: "location \<Rightarrow> instant \<Rightarrow> int \<Rightarrow> int \<Rightarrow> int list \<Rightarrow> instant option" where
  "first_after off after hour minute [] = None"
| "first_after off after hour minute (d # ds) =
     (case local_occurrence off (local_day off (go_date off (d * day_seconds + 12 * 3600))) hour minute of
        Some u \<Rightarrow> if u * nanos > after then Some (u * nanos)
                  else first_after off after hour minute ds
      | None \<Rightarrow> first_after off after hour minute ds)"

definition next_daily :: "schedule \<Rightarrow> location \<Rightarrow> instant \<Rightarrow> instant outcome" where
  "next_daily s off after =
     (case parse_clock (sch_TimeOfDay s) of
        None \<Rightarrow> Inl (Invalid ''time of day must use HH:MM'')
      | Some (hour, minute) \<Rightarrow>
          (case first_after off after hour minute
                  (map (\<lambda>offset. local_day off (seconds after) + int offset) [0..<370]) of
             Some t \<Rightarrow> Inr t
           | None \<Rightarrow> Inl (Invalid ''cannot calculate daily schedule occurrence'')))"

definition next_weekly :: "schedule \<Rightarrow> location \<Rightarrow> instant \<Rightarrow> instant outcome" where
  "next_weekly s off after =
     (case parse_clock (sch_TimeOfDay s) of
        None \<Rightarrow> Inl (Invalid ''time of day must use HH:MM'')
      | Some (hour, minute) \<Rightarrow>
          let days = go_rem (sch_DayOfWeek s - local_weekday off (seconds after) + 7) 7 in
          (case first_after off after hour minute
                  (map (\<lambda>weeks. local_day off (seconds after) + days + 7 * int weeks) [0..<54]) of
             Some t \<Rightarrow> Inr t
           | None \<Rightarrow> Inl (Invalid ''cannot calculate weekly schedule occurrence'')))"

definition interval_duration :: "schedule \<Rightarrow> duration" where
  "interval_duration s = to_int64 (sch_IntervalHours s * go_hour)"

definition next_occurrence :: "zones \<Rightarrow> schedule \<Rightarrow> string \<Rightarrow> instant \<Rightarrow> instant outcome" where
  "next_occurrence zones s timezone after =
     (case zones timezone of
        None \<Rightarrow> Inl (Invalid ''load schedule timezone'')
      | Some off \<Rightarrow>
          if sch_Kind s = DailySchedule then next_daily s off after
          else if sch_Kind s = WeeklySchedule then next_weekly s off after
          else if sch_Kind s = IntervalSchedule then
            if sch_IntervalHours s < 1 then Inl (Invalid ''interval hours must be positive'')
            else Inr (after + interval_duration s)
          else Inl (Unsupported ''unsupported schedule kind'' (sch_Kind s)))"

definition next_interval :: "schedule \<Rightarrow> instant \<Rightarrow> instant \<Rightarrow> instant outcome" where
  "next_interval s anchor0 after =
     (let interval = interval_duration s;
          anchor = (if anchor0 = zero_time then after else anchor0) in
      if sch_IntervalHours s < 1 then Inl (Invalid ''interval hours must be positive'')
      else if after < anchor then Inr (anchor + interval)
      else if interval = 0 then Inl (Panic ''integer divide by zero'')
      else let steps = to_int64 (quot (time_sub after anchor) interval + 1)
           in Inr (anchor + to_int64 (steps * interval)))"

definition next_anchored :: "zones \<Rightarrow> schedule \<Rightarrow> string \<Rightarrow> instant \<Rightarrow> instant \<Rightarrow> instant outcome" where
  "next_anchored zones s timezone anchor after =
     (case zones timezone of
        None \<Rightarrow> Inl (Invalid ''load schedule timezone'')
      | Some off \<Rightarrow>
          if sch_Kind s = DailySchedule then next_daily s off after
          else if sch_Kind s = WeeklySchedule then next_weekly s off after
          else if sch_Kind s = IntervalSchedule then next_interval s anchor after
          else Inl (Unsupported ''unsupported schedule kind'' (sch_Kind s)))"

end
