(* ===== verification/Schedule_Laws.thy ===== *)
theory Schedule_Laws
  imports Schedule_Calendar Domain_Validation
begin

text \<open>
  When the calendar of \<open>Schedule_Calendar\<close> places the next occurrence: fixed intervals for every
  schedule, local clock readings for every location, and the least such instant where the
  location has a fixed offset.
\<close>

section \<open>Intervals\<close>

text \<open>The occurrences of a fixed interval: whole multiples of it after the anchor.\<close>

definition interval_grid :: "instant \<Rightarrow> duration \<Rightarrow> instant set" where
  "interval_grid anchor interval = {anchor + k * interval | k. 1 \<le> k}"

lemma least_multiple:
  assumes "(0::int) < i" and "0 \<le> x"
  shows "x < (x div i + 1) * i \<and> (x div i + 1) * i \<le> x + i \<and> (\<forall>k. x < k * i \<longrightarrow> x div i + 1 \<le> k)"
proof -
  have m: "x = x div i * i + x mod i" "x mod i < i" "0 \<le> x mod i" and e: "(x div i + 1) * i = x div i * i + i"
    using assms by (simp_all add: distrib_right)
  have "x div i + 1 \<le> k" if "x < k * i" for k
  proof (rule ccontr)
    assume "\<not> x div i + 1 \<le> k"
    then have "k * i \<le> x div i * i" using assms by (intro mult_right_mono) auto
    with that m show False by linarith
  qed
  moreover have "x < (x div i + 1) * i" and "(x div i + 1) * i \<le> x + i"
    unfolding e using m by linarith+
  ultimately show ?thesis by blast
qed

lemma interval_duration_exact:
  "1 \<le> sch_IntervalHours s \<Longrightarrow> sch_IntervalHours s \<le> 8760 \<Longrightarrow>
     interval_duration s = sch_IntervalHours s * go_hour"
  unfolding interval_duration_def by (rule to_int64_id) (simp_all add: min_int64_def max_int64_def)

lemma next_interval_steps:
  assumes i: "interval_duration s = i" "0 < i" "1 \<le> sch_IntervalHours s"
    and "anchor \<noteq> zero_time" and x: "anchor \<le> after"
    and close: "after - anchor + i \<le> max_int64"
  shows "next_interval s anchor after = Inr (anchor + ((after - anchor) div i + 1) * i)"
proof -
  let ?x = "after - anchor"
  let ?k = "?x div i + 1"
  from x have x: "0 \<le> ?x" by simp
  note least = least_multiple [OF i(2) x]
  have "?x div i \<le> ?x" and "0 \<le> ?x div i"
    using x i(2) zdiv_mono2 [of ?x 1 i] by (simp_all add: pos_imp_zdiv_nonneg_iff)
  moreover have "0 \<le> ?k * i" using i(2) \<open>0 \<le> ?x div i\<close> by simp
  moreover have "min_int64 \<le> 0" by (simp add: min_int64_def)
  ultimately have "time_sub after anchor = ?x" and "to_int64 ?k = ?k" and "to_int64 (?k * i) = ?k * i"
    using x close i(2) least by (intro time_sub_exact to_int64_id; linarith)+
  with assms x show ?thesis
    by (simp add: next_interval_def Let_def quot_nonneg)
qed

lemma next_interval_least:
  assumes i: "interval_duration s = i" "0 < i" "1 \<le> sch_IntervalHours s"
    and anchor: "anchor \<noteq> zero_time" and close: "after - anchor + i \<le> max_int64"
  shows "\<exists>t. next_interval s anchor after = Inr t \<and> after < t \<and> t \<in> interval_grid anchor i \<and>
    (\<forall>u \<in> interval_grid anchor i. after < u \<longrightarrow> t \<le> u)"
proof (cases "after < anchor")
  case True
  with i anchor have "next_interval s anchor after = Inr (anchor + i)"
    by (simp add: next_interval_def Let_def)
  moreover have "anchor + 1 * i \<in> interval_grid anchor i"
    unfolding interval_grid_def by (rule CollectI, rule exI [of _ 1]) simp
  moreover have "\<forall>u \<in> interval_grid anchor i. anchor + i \<le> u"
    using i(2) by (auto simp: interval_grid_def)
  ultimately show ?thesis using True i(2) by auto
next
  case False
  let ?k = "(after - anchor) div i + 1"
  from False have x: "0 \<le> after - anchor" by simp
  note least = least_multiple [OF i(2) x]
  have res: "next_interval s anchor after = Inr (anchor + ?k * i)"
    using i anchor close False by (intro next_interval_steps) auto
  have "anchor + ?k * i \<in> interval_grid anchor i"
    unfolding interval_grid_def using x i(2) by (auto simp: pos_imp_zdiv_nonneg_iff)
  moreover have "\<forall>u \<in> interval_grid anchor i. after < u \<longrightarrow> anchor + ?k * i \<le> u"
  proof (intro ballI impI)
    fix u assume "u \<in> interval_grid anchor i" and "after < u"
    then obtain k where u: "u = anchor + k * i" and "after - anchor < k * i"
      by (auto simp: interval_grid_def)
    then have "?k \<le> k" using least by blast
    then show "anchor + ?k * i \<le> u" using u i(2) by (simp add: mult_right_mono)
  qed
  moreover have "after < anchor + ?k * i" using least by linarith
  ultimately show ?thesis using res by blast
qed

lemma next_interval_bound:
  assumes i: "interval_duration s = i" "0 < i" "1 \<le> sch_IntervalHours s"
    and anchor: "anchor \<noteq> zero_time" and close: "after - anchor + i \<le> max_int64"
    and t: "next_interval s anchor after = Inr t"
  shows "t \<le> anchor + i \<or> t \<le> after + i"
proof (cases "after < anchor")
  case True
  with i anchor t show ?thesis by (simp add: next_interval_def Let_def)
next
  case False
  then have "t = anchor + ((after - anchor) div i + 1) * i"
    using next_interval_steps [OF i anchor _ close] t by simp
  then show ?thesis using least_multiple [OF i(2), of "after - anchor"] False by simp
qed

section \<open>Calendar schedules in any location\<close>

definition direct_second :: "location \<Rightarrow> int \<Rightarrow> int \<Rightarrow> int \<Rightarrow> int" where
  "direct_second off day hour minute = go_date off (day * day_seconds + hour * 3600 + minute * 60)"

lemma earliest_copy_facts:
  assumes "same_local_minute off direct day hour minute"
  shows "same_local_minute off (earliest_copy off direct day hour minute) day hour minute \<and>
         earliest_copy off direct day hour minute \<le> direct \<and>
         (\<forall>u \<in> set (minutes_from (direct - 4 * 3600) (8 * 60 + 1)).
            same_local_minute off u day hour minute \<longrightarrow> earliest_copy off direct day hour minute \<le> u)"
proof -
  let ?f = "\<lambda>e c. if same_local_minute off c day hour minute \<and> c < e then c else e"
  have "same_local_minute off (foldl ?f e cs) day hour minute \<and> foldl ?f e cs \<le> e \<and>
      (\<forall>u \<in> set cs. same_local_minute off u day hour minute \<longrightarrow> foldl ?f e cs \<le> u)"
    if "same_local_minute off e day hour minute" for e cs
    using that
  proof (induction cs arbitrary: e)
    case (Cons c cs)
    then have "same_local_minute off (?f e c) day hour minute" by simp
    from Cons.IH [OF this] show ?case by (auto split: if_splits)
  qed simp
  from this [OF assms] show ?thesis by (simp add: earliest_copy_def)
qed

text \<open>
  The reading of the clock at a local occurrence: the requested minute, or a later one of that
  day where the direct conversion does not show the requested minute.
\<close>

lemma local_occurrence_facts:
  assumes "local_occurrence off day hour minute = Some u"
  shows "local_day off u = day \<and> hour * 60 + minute \<le> local_minute off u \<and>
         (local_minute off u = hour * 60 + minute \<or>
          \<not> same_local_minute off (direct_second off day hour minute) day hour minute)"
proof (cases "same_local_minute off (direct_second off day hour minute) day hour minute")
  case True
  then have "same_local_minute off u day hour minute"
    using assms earliest_copy_facts
    by (auto simp: local_occurrence_def direct_second_def Let_def split: if_splits)
  then show ?thesis by (simp add: same_local_minute_def)
next
  case False
  with assms show ?thesis
    by (auto simp: local_occurrence_def direct_second_def Let_def dest!: find_Some_facts)
qed

lemma first_after_Some:
  "first_after off after hour minute ds = Some t \<Longrightarrow>
     after < t \<and> (\<exists>d \<in> set ds. \<exists>u. t = u * nanos \<and>
       local_occurrence off (local_day off (go_date off (d * day_seconds + 12 * 3600))) hour minute = Some u)"
  by (induction ds) (auto split: option.splits if_splits)

text \<open>
  Whatever the location, a daily or weekly occurrence lies after the given instant, on a
  whole second, and its local clock shows the requested minute, or a later minute of the day
  when the requested one is skipped on that day.
\<close>
lemma calendar_occurrence_clock:
  assumes "next_daily s off after = Inr t \<or> next_weekly s off after = Inr t"
  shows "after < t \<and> (\<exists>hour minute day u.
    parse_clock (sch_TimeOfDay s) = Some (hour, minute) \<and> t = u * nanos \<and> local_day off u = day \<and>
    hour * 60 + minute \<le> local_minute off u \<and>
    (local_minute off u = hour * 60 + minute \<or>
     \<not> same_local_minute off (direct_second off day hour minute) day hour minute))"
proof -
  obtain hour minute ds where clock: "parse_clock (sch_TimeOfDay s) = Some (hour, minute)"
    and "first_after off after hour minute ds = Some t"
    using assms by (auto simp: next_daily_def next_weekly_def Let_def split: option.splits)
  then obtain d u where "after < t" "t = u * nanos" "local_occurrence off d hour minute = Some u"
    using first_after_Some by blast
  with clock local_occurrence_facts show ?thesis by blast
qed

section \<open>Calendar schedules at a fixed offset\<close>

definition clock_instant :: "int \<Rightarrow> int \<Rightarrow> int \<Rightarrow> int \<Rightarrow> instant" where
  "clock_instant z hour minute day = (day * day_seconds + hour * 3600 + minute * 60 - z) * nanos"

lemma go_date_fixed: "go_date (\<lambda>_. z) w = w - z"
  by (simp add: go_date_def)

lemma clock_fits:
  assumes "0 \<le> hour" "hour < 24" "0 \<le> minute" "minute < (60::int)"
  shows "0 \<le> hour * 3600 + minute * 60" and "hour * 3600 + minute * 60 < day_seconds"
  using assms by simp_all

lemma local_occurrence_fixed:
  assumes "0 \<le> hour" "hour < 24" "0 \<le> minute" "minute < 60"
  shows "local_occurrence (\<lambda>_. z) day hour minute = Some (day * day_seconds + hour * 3600 + minute * 60 - z)"
proof -
  let ?x = "hour * 3600 + minute * 60"
  have "(day * day_seconds + ?x) div day_seconds = day" and "(day * day_seconds + ?x) mod day_seconds = ?x"
    using clock_fits [OF assms] by (simp_all add: div_pos_pos_trivial)
  then have "same_local_minute (\<lambda>_. z) (day * day_seconds + ?x - z) day hour minute"
    by (simp add: same_local_minute_def local_day_def local_minute_def wall_clock_def)
  then show ?thesis by (simp add: local_occurrence_def go_date_fixed Let_def add.assoc)
qed

lemma noon_fixed: "local_day (\<lambda>_. z) (go_date (\<lambda>_. z) (d * day_seconds + 12 * 3600)) = d"
  by (simp add: local_day_def wall_clock_def go_date_fixed)

lemma first_after_fixed:
  assumes "0 \<le> hour" "hour < 24" "0 \<le> minute" "minute < 60"
  shows "first_after (\<lambda>_. z) after hour minute ds =
           find (\<lambda>t. after < t) (map (clock_instant z hour minute) ds)"
  by (induction ds) (simp_all add: noon_fixed [simplified] local_occurrence_fixed [OF assms] clock_instant_def)

lemma clock_instant_around:
  fixes after z :: int
  defines "D \<equiv> local_day (\<lambda>_. z) (seconds after)"
  assumes "0 \<le> hour" "hour < 24" "0 \<le> minute" "minute < 60"
  shows "d < D \<Longrightarrow> clock_instant z hour minute d \<le> after" and "D < d \<Longrightarrow> after < clock_instant z hour minute d"
proof -
  let ?w = "seconds after + z"
  have D: "D * day_seconds \<le> ?w" "?w < (D + 1) * day_seconds"
    by (auto simp: D_def local_day_def wall_clock_def)
  have a: "seconds after * nanos \<le> after" "after < (seconds after + 1) * nanos"
    by (auto simp: seconds_def)
  note x = clock_fits [OF assms(2-5)]
  {
    assume "d < D"
    then have "d * day_seconds + hour * 3600 + minute * 60 - z \<le> seconds after" using x D by linarith
    then show "clock_instant z hour minute d \<le> after" using a by (simp add: clock_instant_def)
  }
  {
    assume "D < d"
    then have "(D + 1) * day_seconds \<le> d * day_seconds" by (intro mult_right_mono) auto
    then have "seconds after + 1 \<le> d * day_seconds + hour * 3600 + minute * 60 - z" using x D by linarith
    then show "after < clock_instant z hour minute d" using a by (simp add: clock_instant_def)
  }
qed

lemma first_after_steps:
  assumes r: "0 \<le> hour" "hour < 24" "0 \<le> minute" "minute < 60" and n: "2 \<le> n"
    and later: "after < clock_instant z hour minute (base + p)"
  shows "first_after (\<lambda>_. z) after hour minute (map (\<lambda>i. base + p * int i) [0..<n]) =
     Some (clock_instant z hour minute
             (if after < clock_instant z hour minute base then base else base + p))"
proof -
  from n have "[0..<n] = 0 # 1 # [2..<n]"
    using upt_conv_Cons [of 0 n] upt_conv_Cons [of 1 n] by (simp add: numeral_2_eq_2)
  then show ?thesis using later by (simp add: first_after_fixed [OF r] del: first_after.simps)
qed

lemma clock_instant_mono: "clock_instant z hour minute d \<le> clock_instant z hour minute e \<longleftrightarrow> d \<le> e"
  by (simp add: clock_instant_def)

lemma next_daily_fixed:
  assumes "parse_clock (sch_TimeOfDay s) = Some (hour, minute)"
    and "D = local_day (\<lambda>_. z) (seconds after)"
  shows "next_daily s (\<lambda>_. z) after =
    Inr (clock_instant z hour minute (if after < clock_instant z hour minute D then D else D + 1))"
proof -
  note r = parse_clock_range [OF assms(1)]
  have "after < clock_instant z hour minute (D + 1)"
    using clock_instant_around(2) r assms(2) by simp
  then have "first_after (\<lambda>_. z) after hour minute (map (\<lambda>i. D + int i) [0..<370]) =
      Some (clock_instant z hour minute (if after < clock_instant z hour minute D then D else D + 1))"
    by (intro first_after_steps [where p = 1, unfolded mult_1]) (use r in simp_all)
  then show ?thesis
    unfolding next_daily_def assms option.case prod.case by (simp only: option.case)
qed

text \<open>
  At a fixed offset a daily schedule with a valid time always has a next occurrence, and it
  is the first instant after the given one at which the local clock shows that time.
\<close>
lemma daily_next_is_first:
  assumes "parse_clock (sch_TimeOfDay s) = Some (hour, minute)"
  shows "\<exists>day. next_daily s (\<lambda>_. z) after = Inr (clock_instant z hour minute day) \<and>
     after < clock_instant z hour minute day \<and>
     (\<forall>d. after < clock_instant z hour minute d \<longrightarrow> day \<le> d)"
proof -
  note r = parse_clock_range [OF assms]
  let ?D = "local_day (\<lambda>_. z) (seconds after)" and ?c = "clock_instant z hour minute"
  let ?day = "if after < ?c ?D then ?D else ?D + 1"
  have around: "d < ?D \<Longrightarrow> ?c d \<le> after" "?D < d \<Longrightarrow> after < ?c d" for d
    using clock_instant_around r by auto
  have "?day \<le> d" if "after < ?c d" for d
  proof -
    from that have "\<not> d < ?D" using around(1) [of d] by auto
    with that have "?D < d \<or> d = ?D \<and> after < ?c ?D" by auto
    then show ?thesis by auto
  qed
  moreover have "after < ?c ?day" using around(2) [of "?D + 1"] by simp
  ultimately show ?thesis using next_daily_fixed [OF assms refl] by blast
qed

lemma parse_nightly: "parse_clock (sch_TimeOfDay nightly) = Some (2, 30)"
  by (simp add: nightly_def parse_clock_def clock_minute_def is_digit_def digit_of_def less_eq_char_def)

lemma daily_next_is_first_witness:
  "\<exists>day. next_daily nightly (\<lambda>_. 3600) 0 = Inr (clock_instant 3600 2 30 day) \<and>
     (\<forall>d. 0 < clock_instant 3600 2 30 d \<longrightarrow> day \<le> d)"
  using daily_next_is_first [OF parse_nightly, of 3600 0] by blast

lemma calendar_occurrence_clock_witness:
  "next_daily nightly (\<lambda>_. 3600) 0 = Inr (5400 * nanos) \<and> 0 < 5400 * nanos"
proof -
  have "next_daily nightly (\<lambda>_. 3600) 0 = Inr (5400 * nanos)"
    by (subst next_daily_fixed [OF parse_nightly refl])
      (simp add: clock_instant_def local_day_def wall_clock_def seconds_def)
  then show ?thesis using calendar_occurrence_clock [of nightly "\<lambda>_. 3600" 0] by blast
qed

lemma weekday_shift: "0 \<le> w \<Longrightarrow> w \<le> 6 \<Longrightarrow> (D + (w - (D + 4) mod 7 + 7) mod 7 + 4) mod 7 = (w::int)"
proof -
  assume w: "0 \<le> w" "w \<le> 6"
  let ?x = "w - (D + 4) mod 7 + 7"
  have "(D + ?x mod 7 + 4) mod 7 = (?x mod 7 + (D + 4)) mod 7" by (simp add: ac_simps)
  also have "\<dots> = (?x + (D + 4)) mod 7" by (rule mod_add_left_eq)
  also have "?x + (D + 4) = w + 7 * ((D + 4) div 7 + 1)"
    using minus_mod_eq_mult_div [of "D + 4" 7] by (simp add: algebra_simps)
  also have "(w + 7 * ((D + 4) div 7 + 1)) mod 7 = w mod 7" by (rule mod_mult_self2)
  finally show ?thesis using w by simp
qed

lemma same_weekday_le:
  fixes b d D :: int
  assumes "D \<le> d" and "b < D + 7" and "(d + 4) mod 7 = (b + 4) mod 7"
  shows "b \<le> d" and "d \<noteq> b \<Longrightarrow> b + 7 \<le> d"
proof -
  from assms(3) have "7 dvd (d + 4) - (b + 4)" by (simp only: mod_eq_dvd_iff)
  then obtain k where k: "d = b + 7 * k" by (auto simp: dvd_def algebra_simps)
  with assms(1,2) have "0 \<le> k" by linarith
  with k show "b \<le> d" and "d \<noteq> b \<Longrightarrow> b + 7 \<le> d" by auto
qed

text \<open>
  At a fixed offset a weekly schedule with a valid time and weekday always has a next
  occurrence, and it is the first instant after the given one at which the local clock shows
  that time on that day of the week.
\<close>
lemma weekly_next_is_first:
  assumes clock: "parse_clock (sch_TimeOfDay s) = Some (hour, minute)"
    and weekday: "0 \<le> sch_DayOfWeek s" "sch_DayOfWeek s \<le> 6"
  shows "\<exists>day. next_weekly s (\<lambda>_. z) after = Inr (clock_instant z hour minute day) \<and>
     after < clock_instant z hour minute day \<and> (day + 4) mod 7 = sch_DayOfWeek s \<and>
     (\<forall>d. (d + 4) mod 7 = sch_DayOfWeek s \<longrightarrow> after < clock_instant z hour minute d \<longrightarrow> day \<le> d)"
proof -
  note r = parse_clock_range [OF clock]
  let ?D = "local_day (\<lambda>_. z) (seconds after)" and ?c = "clock_instant z hour minute"
  let ?W = "local_weekday (\<lambda>_. z) (seconds after)"
  let ?days = "(sch_DayOfWeek s - ?W + 7) mod 7"
  let ?B = "?D + ?days"
  have W: "?W = (?D + 4) mod 7" by (simp add: local_weekday_def)
  have days: "go_rem (sch_DayOfWeek s - ?W + 7) 7 = ?days"
    using weekday pos_mod_bound [of 7 "?D + 4"] by (intro go_rem_nonneg) (auto simp: W)
  have around: "d < ?D \<Longrightarrow> ?c d \<le> after" "?D < d \<Longrightarrow> after < ?c d" for d
    using clock_instant_around r by auto
  have same: "(?B + 4) mod 7 = sch_DayOfWeek s"
    unfolding W by (rule weekday_shift) (use weekday in simp_all)
  let ?day = "if after < ?c ?B then ?B else ?B + 7"
  have "after < ?c (?B + 7)" using pos_mod_sign [of 7] by (intro around(2)) (simp add: add_pos_nonneg)
  then have fa: "first_after (\<lambda>_. z) after hour minute (map (\<lambda>i. ?B + 7 * int i) [0..<54]) = Some (?c ?day)"
    by (intro first_after_steps) (use r in simp_all)
  have "next_weekly s (\<lambda>_. z) after = Inr (?c ?day)"
    unfolding next_weekly_def clock option.case prod.case days Let_def using fa by (simp only: option.case)
  moreover have "(?day + 4) mod 7 = sch_DayOfWeek s"
    using same mod_add_self2 [of "?B + 4" 7] by (simp add: algebra_simps)
  moreover have "\<forall>d. (d + 4) mod 7 = sch_DayOfWeek s \<longrightarrow> after < ?c d \<longrightarrow> ?day \<le> d"
  proof (intro allI impI)
    fix d assume d: "(d + 4) mod 7 = sch_DayOfWeek s" and "after < ?c d"
    then have "?D \<le> d" using around(1) [of d] by (auto simp: not_less [symmetric])
    moreover have "?B < ?D + 7" by simp
    moreover have "(d + 4) mod 7 = (?B + 4) mod 7" using d same by simp
    ultimately have "?B \<le> d" and "d \<noteq> ?B \<Longrightarrow> ?B + 7 \<le> d"
      by (rule same_weekday_le)+
    with \<open>after < ?c d\<close> show "?day \<le> d" by (cases "d = ?B") auto
  qed
  moreover have "after < ?c ?day" using \<open>after < ?c (?B + 7)\<close> by simp
  ultimately show ?thesis by blast
qed

lemma weekly_next_is_first_witness:
  "\<exists>day. next_weekly (nightly\<lparr>sch_Kind := WeeklySchedule, sch_DayOfWeek := 1\<rparr>) (\<lambda>_. 0) 0 =
       Inr (clock_instant 0 2 30 day) \<and> (day + 4) mod 7 = 1"
  using weekly_next_is_first [of "nightly\<lparr>sch_Kind := WeeklySchedule, sch_DayOfWeek := 1\<rparr>" 2 30 0 0] parse_nightly
  by auto

text \<open>
  C20: the cadence of an interval schedule depends on its anchor only. The next occurrence is the
  least whole multiple of the interval after the anchor that lies after the cursor, and every
  cursor from here up to that occurrence (a restarted process, a recorded or an unrecorded
  observation) is answered with the same instant. The bound keeps the distance to the anchor
  within the 292 years of a Go duration.
\<close>
theorem interval_cadence:
  assumes "zones timezone = Some off" and "sch_Kind s = IntervalSchedule"
    and "1 \<le> sch_IntervalHours s" and "sch_IntervalHours s \<le> 8760" and "anchor \<noteq> zero_time"
    and "after - anchor + 2 * (sch_IntervalHours s * go_hour) \<le> max_int64"
  shows "\<exists>t. next_anchored zones s timezone anchor after = Inr t \<and> after < t \<and>
    t \<in> interval_grid anchor (sch_IntervalHours s * go_hour) \<and>
    (\<forall>u \<in> interval_grid anchor (sch_IntervalHours s * go_hour). after < u \<longrightarrow> t \<le> u) \<and>
    (\<forall>cursor. after \<le> cursor \<and> cursor < t \<longrightarrow> next_anchored zones s timezone anchor cursor = Inr t)"
proof -
  let ?i = "sch_IntervalHours s * go_hour"
  have i: "interval_duration s = ?i" "0 < ?i" "1 \<le> sch_IntervalHours s"
    using assms(3,4) interval_duration_exact by auto
  have next_eq: "next_anchored zones s timezone anchor c = next_interval s anchor c" for c
    using assms(1,2) by (simp add: next_anchored_def)
  have small: "2 * ?i \<le> max_int64" using assms(4) by (simp add: max_int64_def)
  from assms(6) i(2) have "after - anchor + ?i \<le> max_int64" by linarith
  from next_interval_least [OF i assms(5) this] obtain t where
    t: "next_interval s anchor after = Inr t" "after < t" "t \<in> interval_grid anchor ?i"
    "\<forall>u \<in> interval_grid anchor ?i. after < u \<longrightarrow> t \<le> u" by blast
  have "next_interval s anchor cursor = Inr t" if c: "after \<le> cursor" "cursor < t" for cursor
  proof -
    have "t \<le> anchor + ?i \<or> t \<le> after + ?i"
      using next_interval_bound [OF i assms(5) \<open>after - anchor + ?i \<le> max_int64\<close> t(1)] .
    with c assms(6) small have "cursor - anchor + ?i \<le> max_int64" by linarith
    from next_interval_least [OF i assms(5) this] obtain t' where
      t': "next_interval s anchor cursor = Inr t'" "cursor < t'" "t' \<in> interval_grid anchor ?i"
      "\<forall>u \<in> interval_grid anchor ?i. cursor < u \<longrightarrow> t' \<le> u" by blast
    from t'(4) t(3) c(2) have "t' \<le> t" by blast
    moreover from t(4) t'(2,3) c(1) have "t \<le> t'" by force
    ultimately show ?thesis using t'(1) by simp
  qed
  with t show ?thesis unfolding next_eq by blast
qed

theorem interval_cadence_witness:
  "\<exists>t. next_anchored (\<lambda>_. Some (\<lambda>_. 0)) (nightly\<lparr>sch_Kind := IntervalSchedule, sch_IntervalHours := 6\<rparr>)
     ''UTC'' 0 (10 * go_hour) = Inr t \<and> 10 * go_hour < t"
  using interval_cadence [of "\<lambda>_. Some (\<lambda>_. 0)" "''UTC''" "\<lambda>_. 0"
      "nightly\<lparr>sch_Kind := IntervalSchedule, sch_IntervalHours := 6\<rparr>" 0 "10 * go_hour"]
  by (auto simp: max_int64_def)

end
