(* ===== verification/Once_Only.thy ===== *)
theory Once_Only
  imports Prelude
begin

text \<open>
  The contract of everything that may be used once: a pending schedule occurrence is claimed, an
  enrollment token, a restore confirmation and a reviewed preview are consumed. A store performs
  operations one after the other; an operation may win a key. A win is possible only while the
  key is not spent, spends it, and no operation makes a spent key available again.
\<close>

locale once_only =
  fixes step :: "'s \<Rightarrow> 'op \<Rightarrow> 's"
    and wins :: "'s \<Rightarrow> 'op \<Rightarrow> 'k option"
    and spent :: "'s \<Rightarrow> 'k \<Rightarrow> bool"
    and inv :: "'s \<Rightarrow> bool"
  assumes step_inv: "inv s \<Longrightarrow> inv (step s op)"
    and win_fresh: "inv s \<Longrightarrow> wins s op = Some k \<Longrightarrow> \<not> spent s k"
    and win_spends: "inv s \<Longrightarrow> wins s op = Some k \<Longrightarrow> spent (step s op) k"
    and spent_stays: "inv s \<Longrightarrow> spent s k \<Longrightarrow> spent (step s op) k"
begin

text \<open>The operations of a run that win \<open>k\<close>, counted.\<close>

primrec win_count :: "'k \<Rightarrow> 's \<Rightarrow> 'op list \<Rightarrow> nat" where
  "win_count k s [] = 0"
| "win_count k s (op # ops) = (if wins s op = Some k then 1 else 0) + win_count k (step s op) ops"

lemma run_inv: "inv s \<Longrightarrow> inv (foldl step s ops)"
  by (induction ops arbitrary: s) (auto intro: step_inv)

lemma run_spent: "inv s \<Longrightarrow> spent s k \<Longrightarrow> spent (foldl step s ops) k"
  by (induction ops arbitrary: s) (auto intro: step_inv spent_stays)

lemma spent_never_wins: "inv s \<Longrightarrow> spent s k \<Longrightarrow> win_count k s ops = 0"
proof (induction ops arbitrary: s)
  case (Cons op ops)
  then have "wins s op \<noteq> Some k" using win_fresh by blast
  then show ?case using Cons step_inv spent_stays by simp
qed simp

lemma at_most_one_win: "inv s \<Longrightarrow> win_count k s ops \<le> 1"
proof (induction ops arbitrary: s)
  case (Cons op ops)
  show ?case
  proof (cases "wins s op = Some k")
    case True
    then have "win_count k (step s op) ops = 0"
      using Cons.prems step_inv win_spends spent_never_wins by blast
    with True show ?thesis by simp
  next
    case False
    then show ?thesis using Cons step_inv by simp
  qed
qed simp

end

end
