(* ===== verification/Occurrence_Store.thy ===== *)
theory Occurrence_Store
  imports Once_Only Timestamps
begin

text \<open>
  The schedule occurrences of src/internal/store/schedule.go: recorded, claimed, finished,
  recovered after a restart, listed and counted. The rows of the other tables that the code only
  looks up (\<open>requireLogicalReference\<close>) are their keys.
\<close>

record occurrence =
  occ_ID :: string
  occ_OwnerKind :: string
  occ_OwnerID :: string
  occ_ScheduledAt :: instant
  occ_ObservedAt :: instant
  occ_Mode :: string
  occ_Status :: string
  occ_TargetIDs :: "string list"
  occ_RunIDs :: "string list"
  occ_StartedAt :: "instant option"
  occ_FinishedAt :: "instant option"

record occurrence_stats =
  stats_Total :: nat
  stats_Success :: nat
  stats_Partial :: nat
  stats_Missed :: nat
  stats_Failed :: nat
  stats_Cancelled :: nat
  stats_Skipped :: nat
  stats_Interrupted :: nat

record schedule_db =
  db_occurrences :: "occurrence list"
  db_plans :: "string list"
  db_plan_tasks :: "(string \<times> string) list"
  db_repositories :: "string list"
  db_repository_maintenance :: "string list"
  db_tasks :: "string list"
  db_verification_policies :: "string list"

text \<open>The constraint \<open>UNIQUE(owner_kind, owner_id, scheduled_at)\<close>.\<close>

definition occurrence_key :: "occurrence \<Rightarrow> string \<times> string \<times> instant" where
  "occurrence_key r = (occ_OwnerKind r, occ_OwnerID r, occ_ScheduledAt r)"

definition validate_occurrence :: "occurrence \<Rightarrow> check" where
  "validate_occurrence r =
     (if occ_ID r = [] \<or> occ_OwnerID r = [] \<or> occ_ScheduledAt r = zero_time \<or> occ_ObservedAt r = zero_time
      then Some (Invalid ''schedule occurrence requires identity and times'')
      else if occ_OwnerKind r \<notin> set [''plan'', ''maintenance'', ''restore_verification'']
      then Some (Invalid ''unsupported schedule occurrence owner'')
      else if occ_Mode r \<notin> set [''on_time'', ''catch_up'', ''missed'']
      then Some (Invalid ''unsupported schedule occurrence mode'')
      else if occ_Status r \<in> set [''pending'', ''success'', ''partial'', ''failed'', ''cancelled'',
             ''skipped'', ''missed'', ''interrupted'']
      then None
      else Some (Invalid ''unsupported schedule occurrence status''))"

definition terminal_schedule_status :: "string \<Rightarrow> bool" where
  "terminal_schedule_status status \<longleftrightarrow>
     status \<in> set [''success'', ''partial'', ''failed'', ''cancelled'', ''skipped'', ''missed'', ''interrupted'']"

definition require_reference :: "bool \<Rightarrow> check" where
  "require_reference present = (if present then None else Some Conflict)"

definition validate_references :: "schedule_db \<Rightarrow> occurrence \<Rightarrow> check" where
  "validate_references db r =
     (if occ_OwnerKind r = ''plan'' then
        require_reference (occ_OwnerID r \<in> set (db_plans db) \<and>
          list_all (\<lambda>t. (occ_OwnerID r, t) \<in> set (db_plan_tasks db)) (occ_TargetIDs r))
      else if occ_OwnerKind r = ''maintenance'' then
        require_reference (occ_OwnerID r \<in> set (db_repository_maintenance db) \<and>
          occ_OwnerID r \<in> set (db_repositories db) \<and>
          list_all (\<lambda>t. t = occ_OwnerID r) (occ_TargetIDs r))
      else if occ_OwnerKind r = ''restore_verification'' then
        require_reference (occ_OwnerID r \<in> set (db_verification_policies db) \<and>
          occ_OwnerID r \<in> set (db_tasks db) \<and>
          list_all (\<lambda>t. t = occ_OwnerID r) (occ_TargetIDs r))
      else Some (Invalid ''unsupported schedule occurrence owner''))"

text \<open>
  \<open>INSERT OR IGNORE\<close>: nothing is inserted when the id or the owner and time are already there.
  The other constraints of the table hold for a validated occurrence.
\<close>

definition create_occurrence :: "schedule_db \<Rightarrow> occurrence \<Rightarrow> schedule_db \<times> bool outcome" where
  "create_occurrence db r =
     (case validate_occurrence r of
        Some err \<Rightarrow> (db, Inl err)
      | None \<Rightarrow>
          (case validate_references db r of
             Some err \<Rightarrow> (db, Inl err)
           | None \<Rightarrow>
               if occ_ID r \<in> set (map occ_ID (db_occurrences db)) \<or>
                  occurrence_key r \<in> set (map occurrence_key (db_occurrences db))
               then (db, Inr False)
               else (db\<lparr>db_occurrences := db_occurrences db @ [r]\<rparr>, Inr True)))"

definition claim_occurrence :: "schedule_db \<Rightarrow> string \<Rightarrow> instant \<Rightarrow> schedule_db \<times> bool outcome" where
  "claim_occurrence db i at =
     (if i = [] \<or> at = zero_time
      then (db, Inl (Invalid ''schedule occurrence claim requires id and time''))
      else let P = (\<lambda>r. occ_ID r = i \<and> occ_Status r = ''pending'') in
        (db\<lparr>db_occurrences := update_where P
              (\<lambda>r. r\<lparr>occ_Status := ''running'', occ_StartedAt := Some at\<rparr>) (db_occurrences db)\<rparr>,
         Inr (affected P (db_occurrences db) = 1)))"

definition finish_occurrence ::
  "schedule_db \<Rightarrow> string \<Rightarrow> string \<Rightarrow> string list \<Rightarrow> instant \<Rightarrow> schedule_db \<times> check" where
  "finish_occurrence db i status runIDs at =
     (if i = [] \<or> at = zero_time \<or> \<not> terminal_schedule_status status
      then (db, Some (Invalid ''invalid terminal schedule occurrence''))
      else let P = (\<lambda>r. occ_ID r = i \<and> occ_Status r = ''running'') in
        (db\<lparr>db_occurrences := update_where P
              (\<lambda>r. r\<lparr>occ_Status := status, occ_RunIDs := runIDs, occ_FinishedAt := Some at\<rparr>)
              (db_occurrences db)\<rparr>,
         if affected P (db_occurrences db) \<noteq> 1 then Some NoRows else None))"

definition recover_occurrences :: "schedule_db \<Rightarrow> instant \<Rightarrow> schedule_db \<times> nat" where
  "recover_occurrences db at =
     (let P = (\<lambda>r. occ_Status r \<in> set [''pending'', ''running'']) in
      (db\<lparr>db_occurrences := update_where P
            (\<lambda>r. r\<lparr>occ_Status := ''interrupted'', occ_FinishedAt := Some at\<rparr>) (db_occurrences db)\<rparr>,
       affected P (db_occurrences db)))"

text \<open>\<open>ORDER BY scheduled_at DESC\<close>, over the stored text of the instants.\<close>

definition newest_first :: "occurrence list \<Rightarrow> occurrence list" where
  "newest_first rs = rev (sort_key (\<lambda>r. format_time (occ_ScheduledAt r)) (rev rs))"

definition owned_by :: "string \<Rightarrow> string \<Rightarrow> occurrence \<Rightarrow> bool" where
  "owned_by kind i r \<longleftrightarrow> occ_OwnerKind r = kind \<and> occ_OwnerID r = i"

definition latest_occurrence :: "schedule_db \<Rightarrow> string \<Rightarrow> string \<Rightarrow> instant \<Rightarrow> occurrence outcome" where
  "latest_occurrence db kind i anchor =
     (case newest_first (filter (\<lambda>r. owned_by kind i r \<and>
              format_time anchor \<le> format_time (occ_ScheduledAt r)) (db_occurrences db)) of
        [] \<Rightarrow> Inl NoRows
      | r # _ \<Rightarrow> Inr r)"

fun first_by_owner :: "(string \<rightharpoonup> occurrence) \<Rightarrow> occurrence list \<Rightarrow> (string \<rightharpoonup> occurrence)" where
  "first_by_owner m [] = m"
| "first_by_owner m (r # rs) =
     first_by_owner (if m (occ_OwnerID r) = None then m(occ_OwnerID r \<mapsto> r) else m) rs"

definition latest_occurrences :: "schedule_db \<Rightarrow> string \<Rightarrow> (string \<rightharpoonup> occurrence)" where
  "latest_occurrences db kind =
     first_by_owner Map.empty
       (sort_key occ_OwnerID (newest_first (filter (\<lambda>r. occ_OwnerKind r = kind) (db_occurrences db))))"

definition list_occurrences :: "schedule_db \<Rightarrow> string \<Rightarrow> string \<Rightarrow> int \<Rightarrow> occurrence list" where
  "list_occurrences db kind i limit0 =
     (let limit = (if limit0 < 1 \<or> limit0 > 1000 then 100 else limit0) in
      take (nat limit) (newest_first (filter (owned_by kind i) (db_occurrences db))))"

text \<open>\<open>GROUP BY status\<close>: the groups are added to the total and to the counter of their status.\<close>

definition count_status :: "string \<Rightarrow> occurrence list \<Rightarrow> nat" where
  "count_status status rs = length (filter (\<lambda>r. occ_Status r = status) rs)"

definition occurrence_stats :: "schedule_db \<Rightarrow> string \<Rightarrow> string \<Rightarrow> instant \<Rightarrow> occurrence_stats" where
  "occurrence_stats db kind i anchor =
     (let rs = filter (\<lambda>r. owned_by kind i r \<and>
                 format_time anchor \<le> format_time (occ_ScheduledAt r)) (db_occurrences db) in
      \<lparr>stats_Total = sum_list (map (\<lambda>status. count_status status rs) (remdups (map occ_Status rs))),
       stats_Success = count_status ''success'' rs, stats_Partial = count_status ''partial'' rs,
       stats_Missed = count_status ''missed'' rs, stats_Failed = count_status ''failed'' rs,
       stats_Cancelled = count_status ''cancelled'' rs, stats_Skipped = count_status ''skipped'' rs,
       stats_Interrupted = count_status ''interrupted'' rs\<rparr>)"

section \<open>The life of an occurrence\<close>

datatype occ_op =
    CreateOcc occurrence
  | ClaimOcc string instant
  | FinishOcc string string "string list" instant
  | RecoverOcc instant

fun occ_step :: "schedule_db \<Rightarrow> occ_op \<Rightarrow> schedule_db" where
  "occ_step db (CreateOcc r) = fst (create_occurrence db r)"
| "occ_step db (ClaimOcc i at) = fst (claim_occurrence db i at)"
| "occ_step db (FinishOcc i status runIDs at) = fst (finish_occurrence db i status runIDs at)"
| "occ_step db (RecoverOcc at) = fst (recover_occurrences db at)"

fun occ_wins :: "schedule_db \<Rightarrow> occ_op \<Rightarrow> string option" where
  "occ_wins db (ClaimOcc i at) = (if snd (claim_occurrence db i at) = Inr True then Some i else None)"
| "occ_wins db op = None"

definition occ_spent :: "schedule_db \<Rightarrow> string \<Rightarrow> bool" where
  "occ_spent db i \<longleftrightarrow> (\<exists>r \<in> set (db_occurrences db). occ_ID r = i \<and> occ_Status r \<noteq> ''pending'')"

text \<open>Ids and owner times are unique; a running occurrence has been started.\<close>

definition occ_inv :: "schedule_db \<Rightarrow> bool" where
  "occ_inv db \<longleftrightarrow> unique_keys occ_ID (db_occurrences db) \<and> unique_keys occurrence_key (db_occurrences db) \<and>
     (\<forall>r \<in> set (db_occurrences db). occ_Status r = ''running'' \<longrightarrow> occ_StartedAt r \<noteq> None)"

lemma validate_occurrence_not_running: "validate_occurrence r = None \<Longrightarrow> occ_Status r \<noteq> ''running''"
  by (auto simp: validate_occurrence_def split: if_splits)

lemma create_succeeds_iff:
  "snd (create_occurrence db r) = Inr True \<longleftrightarrow>
     validate_occurrence r = None \<and> validate_references db r = None \<and>
     occ_ID r \<notin> occ_ID ` set (db_occurrences db) \<and>
     occurrence_key r \<notin> occurrence_key ` set (db_occurrences db)"
  by (auto simp: create_occurrence_def split: option.splits)

lemma create_db:
  "fst (create_occurrence db r) =
     (if snd (create_occurrence db r) = Inr True
      then db\<lparr>db_occurrences := db_occurrences db @ [r]\<rparr> else db)"
  by (auto simp: create_occurrence_def split: option.splits)

lemma occ_inv_create: "occ_inv db \<Longrightarrow> occ_inv (fst (create_occurrence db r))"
  by (auto simp: create_db create_succeeds_iff occ_inv_def unique_snoc
      dest: validate_occurrence_not_running)

lemma occ_inv_update:
  assumes "occ_inv db" and "\<And>r. occ_ID (f r) = occ_ID r" and "\<And>r. occurrence_key (f r) = occurrence_key r"
    and "\<And>r. occ_Status (f r) = ''running'' \<Longrightarrow> occ_StartedAt (f r) \<noteq> None"
  shows "occ_inv (db\<lparr>db_occurrences := update_where P f (db_occurrences db)\<rparr>)"
  using assms by (auto simp: occ_inv_def unique_update_where set_update_where split: if_splits)

lemma terminal_not_running: "terminal_schedule_status status \<Longrightarrow> status \<noteq> ''running''"
  by (auto simp: terminal_schedule_status_def)

lemma occ_inv_step: "occ_inv db \<Longrightarrow> occ_inv (occ_step db op)"
  by (cases op)
    (auto simp: claim_occurrence_def finish_occurrence_def recover_occurrences_def Let_def
      occurrence_key_def terminal_not_running intro!: occ_inv_update occ_inv_create)

lemma claim_wins_iff:
  assumes "occ_inv db"
  shows "snd (claim_occurrence db i at) = Inr True \<longleftrightarrow>
    i \<noteq> [] \<and> at \<noteq> zero_time \<and> (\<exists>r \<in> set (db_occurrences db). occ_ID r = i \<and> occ_Status r = ''pending'')"
proof -
  let ?P = "\<lambda>r. occ_ID r = i \<and> occ_Status r = ''pending''"
  have "affected ?P (db_occurrences db) = 1 \<longleftrightarrow> (\<exists>r \<in> set (db_occurrences db). ?P r)"
    using assms by (intro affected_iff [where key = occ_ID and k = i]) (auto simp: occ_inv_def)
  then show ?thesis by (auto simp: claim_occurrence_def Let_def)
qed

lemma occ_wins_Some:
  "occ_inv db \<Longrightarrow> occ_wins db op = Some i \<Longrightarrow>
     \<exists>at. op = ClaimOcc i at \<and> i \<noteq> [] \<and> at \<noteq> zero_time \<and>
       (\<exists>r \<in> set (db_occurrences db). occ_ID r = i \<and> occ_Status r = ''pending'')"
  by (cases op) (auto simp: claim_wins_iff split: if_splits)

lemma occ_win_fresh: "occ_inv db \<Longrightarrow> occ_wins db op = Some i \<Longrightarrow> \<not> occ_spent db i"
  using occ_wins_Some [of db op i] unique_keys_eq [of occ_ID "db_occurrences db"]
  unfolding occ_spent_def occ_inv_def by metis

lemma occ_win_spends:
  assumes "occ_inv db" and "occ_wins db op = Some i"
  shows "occ_spent (occ_step db op) i"
proof -
  from occ_wins_Some [OF assms] obtain at r where op: "op = ClaimOcc i at" "i \<noteq> []" "at \<noteq> zero_time"
    and r: "r \<in> set (db_occurrences db)" "occ_ID r = i" "occ_Status r = ''pending''" by blast
  let ?r = "r\<lparr>occ_Status := ''running'', occ_StartedAt := Some at\<rparr>"
  have "?r \<in> set (db_occurrences (occ_step db op))"
    using op r by (auto simp: claim_occurrence_def Let_def set_update_where)
  then show ?thesis unfolding occ_spent_def using r(2) by (intro bexI [of _ ?r]) auto
qed

lemma occ_spent_update:
  assumes "occ_spent db i" and "\<And>r. occ_ID (f r) = occ_ID r" and "\<And>r. occ_Status (f r) \<noteq> ''pending''"
  shows "occ_spent (db\<lparr>db_occurrences := update_where P f (db_occurrences db)\<rparr>) i"
proof -
  from assms(1) obtain r where r: "r \<in> set (db_occurrences db)" "occ_ID r = i" "occ_Status r \<noteq> ''pending''"
    by (auto simp: occ_spent_def)
  let ?r = "if P r then f r else r"
  have "?r \<in> set (update_where P f (db_occurrences db))" using r(1) by (auto simp: set_update_where)
  moreover have "occ_ID ?r = i" and "occ_Status ?r \<noteq> ''pending''" using r assms(2,3) by auto
  ultimately show ?thesis unfolding occ_spent_def by fastforce
qed

lemma occ_spent_create: "occ_spent db i \<Longrightarrow> occ_spent (fst (create_occurrence db r)) i"
  by (auto simp: occ_spent_def create_db)

lemma terminal_not_pending: "terminal_schedule_status status \<Longrightarrow> status \<noteq> ''pending''"
  by (auto simp: terminal_schedule_status_def)

lemma occ_spent_stays: "occ_spent db i \<Longrightarrow> occ_spent (occ_step db op) i"
  by (cases op)
    (auto simp: claim_occurrence_def finish_occurrence_def recover_occurrences_def Let_def
      terminal_not_pending intro!: occ_spent_update occ_spent_create)

interpretation occurrence_claims: once_only occ_step occ_wins occ_spent occ_inv
  by unfold_locales (blast intro: occ_inv_step occ_win_spends occ_spent_stays dest: occ_win_fresh)+

text \<open>
  C1: whatever is recorded, claimed, finished and recovered in whatever order, an occurrence is
  claimed at most once, so a due occurrence is executed at most once.
\<close>
theorem occurrence_claimed_once:
  assumes "occ_inv db"
  shows "once_only.win_count occ_step occ_wins i db ops \<le> 1"
  using assms by (rule occurrence_claims.at_most_one_win)

definition occurrence_example :: occurrence where
  "occurrence_example = \<lparr>occ_ID = ''occ_1'', occ_OwnerKind = ''plan'', occ_OwnerID = ''p1'',
     occ_ScheduledAt = 0, occ_ObservedAt = nanos, occ_Mode = ''on_time'', occ_Status = ''pending'',
     occ_TargetIDs = [''t1''], occ_RunIDs = [], occ_StartedAt = None, occ_FinishedAt = None\<rparr>"

definition db_example :: schedule_db where
  "db_example = \<lparr>db_occurrences = [occurrence_example], db_plans = [''p1''],
     db_plan_tasks = [(''p1'', ''t1'')], db_repositories = [], db_repository_maintenance = [],
     db_tasks = [''t1''], db_verification_policies = []\<rparr>"

theorem occurrence_claimed_once_witness:
  "once_only.win_count occ_step occ_wins ''occ_1'' db_example
     [ClaimOcc ''occ_1'' nanos, RecoverOcc nanos, CreateOcc occurrence_example, ClaimOcc ''occ_1'' nanos] \<le> 1"
  by (rule occurrence_claimed_once)
    (simp add: occ_inv_def db_example_def occurrence_example_def unique_Cons)

lemma terminal_not_active: "terminal_schedule_status status \<Longrightarrow> status \<noteq> ''running'' \<and> status \<noteq> ''pending''"
  by (auto simp: terminal_schedule_status_def)

section \<open>Terminal occurrences, recovery and queries\<close>

text \<open>
  An occurrence that reached a terminal status is never changed again: claiming, finishing,
  recording and recovering leave its row as it is, whatever they answer. After a recovery nothing
  is pending or running, and the recovery reports how many rows it interrupted.
\<close>
lemma terminal_occurrence_stays:
  assumes "r \<in> set (db_occurrences db)" and "terminal_schedule_status (occ_Status r)"
  shows "r \<in> set (db_occurrences (occ_step db op)) \<and>
    (\<forall>q \<in> set (db_occurrences (fst (recover_occurrences db at))). occ_Status q \<notin> {''pending'', ''running''}) \<and>
    snd (recover_occurrences db at) =
      length (filter (\<lambda>q. occ_Status q \<in> {''pending'', ''running''}) (db_occurrences db))"
proof (intro conjI)
  show "r \<in> set (db_occurrences (occ_step db op))"
  proof (cases op)
    case (CreateOcc q)
    with assms show ?thesis by (simp add: create_db)
  next
    case (ClaimOcc i at)
    with assms show ?thesis
      by (auto simp: claim_occurrence_def Let_def set_update_where dest: terminal_not_pending intro!: bexI [of _ r])
  next
    case (FinishOcc i status runIDs at)
    with assms show ?thesis
      by (auto simp: finish_occurrence_def Let_def set_update_where dest: terminal_not_running intro!: bexI [of _ r])
  next
    case (RecoverOcc at)
    with assms show ?thesis
      by (auto simp: recover_occurrences_def Let_def set_update_where
          dest: terminal_not_active intro!: bexI [of _ r])
  qed
  show "\<forall>q \<in> set (db_occurrences (fst (recover_occurrences db at))). occ_Status q \<notin> {''pending'', ''running''}"
    by (auto simp: recover_occurrences_def Let_def update_where_def)
  show "snd (recover_occurrences db at) =
      length (filter (\<lambda>q. occ_Status q \<in> {''pending'', ''running''}) (db_occurrences db))"
    by (simp add: recover_occurrences_def Let_def affected_def)
qed

lemma terminal_occurrence_stays_witness:
  "occurrence_example\<lparr>occ_Status := ''failed''\<rparr> \<in>
     set (db_occurrences (occ_step
       (db_example\<lparr>db_occurrences := [occurrence_example\<lparr>occ_Status := ''failed''\<rparr>]\<rparr>)
       (FinishOcc ''occ_1'' ''success'' [] nanos)))"
  by (rule conjunct1 [OF terminal_occurrence_stays]) (simp_all add: terminal_schedule_status_def)

lemma set_newest_first [simp]: "set (newest_first rs) = set rs"
  by (simp add: newest_first_def)

lemma newest_first_head:
  assumes "newest_first rs = r # qs"
  shows "r \<in> set rs \<and> (\<forall>q \<in> set rs. format_time (occ_ScheduledAt q) \<le> format_time (occ_ScheduledAt r))"
proof -
  let ?k = "\<lambda>r. format_time (occ_ScheduledAt r)"
  have e: "sort_key ?k (rev rs) = rev qs @ [r]" using assms by (simp add: newest_first_def rev_swap)
  have "sorted (map ?k (rev qs @ [r]))" using sorted_sort_key [of ?k "rev rs"] by (simp only: e)
  moreover have "set rs = insert r (set qs)" using arg_cong [OF e, of set] by auto
  ultimately show ?thesis by (auto simp: sorted_append)
qed

text \<open>The latest occurrence of an owner, in the order of the stored text.\<close>

lemma latest_occurrence_Inr:
  assumes "latest_occurrence db kind i anchor = Inr r"
  shows "r \<in> set (db_occurrences db) \<and> owned_by kind i r \<and> format_time anchor \<le> format_time (occ_ScheduledAt r) \<and>
    (\<forall>q \<in> set (db_occurrences db). owned_by kind i q \<longrightarrow> format_time (occ_ScheduledAt q) \<le> format_time (occ_ScheduledAt r))"
proof -
  let ?rs = "filter (\<lambda>r. owned_by kind i r \<and> format_time anchor \<le> format_time (occ_ScheduledAt r)) (db_occurrences db)"
  from assms obtain qs where "newest_first ?rs = r # qs"
    by (auto simp: latest_occurrence_def split: list.splits)
  note head = newest_first_head [OF this]
  have "format_time (occ_ScheduledAt q) \<le> format_time (occ_ScheduledAt r)"
    if "q \<in> set (db_occurrences db)" "owned_by kind i q" for q
  proof (cases "format_time anchor \<le> format_time (occ_ScheduledAt q)")
    case True
    with that head show ?thesis by simp
  next
    case False
    then have "format_time (occ_ScheduledAt q) \<le> format_time anchor" by simp
    also have "\<dots> \<le> format_time (occ_ScheduledAt r)" using head by simp
    finally show ?thesis .
  qed
  with head show ?thesis by simp
qed

lemma sum_count_status: "sum_list (map (\<lambda>status. count_status status rs) (remdups (map occ_Status rs))) = length rs"
proof -
  have "sum_list (map (\<lambda>status. count_status status rs) (remdups (map occ_Status rs))) =
      (\<Sum>status \<in> set (map occ_Status rs). count_status status rs)"
    by (simp add: sum_list_distinct_conv_sum_set)
  also have "\<dots> = (\<Sum>status \<in> set (map occ_Status rs). count_list (map occ_Status rs) status)"
    by (rule sum.cong) (simp_all add: count_status_def count_list_eq_length_filter filter_map o_def eq_commute)
  also have "\<dots> = length rs" using sum_count_set [of "map occ_Status rs" "set (map occ_Status rs)"] by simp
  finally show ?thesis .
qed

end
