(* ===== verification/Occurrence_Recorder.thy ===== *)
theory Occurrence_Recorder
  imports Occurrence_Store Schedule_Laws
begin

text \<open>
  The recorder of src/internal/schedule/recorder.go: on every tick it writes down the occurrences
  of a schedule that have become due, marks those that can no longer run as missed, and returns
  the one that can. It works against the interface \<open>OccurrenceStore\<close>, the functions \<open>latest\<close> and
  \<open>create\<close> over a store state; \<open>occurrence_log\<close> is the contract of that interface, which the
  store of \<open>Occurrence_Store\<close> fulfils.

  The id of an occurrence is a digest of its owner and its time, an argument of the model.
\<close>

abbreviation online_tolerance :: duration where "online_tolerance \<equiv> 90 * nanos"

abbreviation max_occurrences_per_tick :: nat where "max_occurrences_per_tick \<equiv> 1000"

record due_definition =
  due_OwnerKind :: string
  due_OwnerID :: string
  due_Schedule :: schedule
  due_Timezone :: string
  due_AnchorAt :: instant
  due_CatchUpWindow :: duration
  due_TargetIDs :: "string list"

type_synonym digest = "string \<Rightarrow> string \<Rightarrow> stamp \<Rightarrow> string"

definition due_next :: "zones \<Rightarrow> due_definition \<Rightarrow> instant \<Rightarrow> instant outcome" where
  "due_next zones d cursor = next_anchored zones (due_Schedule d) (due_Timezone d) (due_AnchorAt d) cursor"

definition due_window :: "due_definition \<Rightarrow> duration" where
  "due_window d = (if due_CatchUpWindow d > online_tolerance then due_CatchUpWindow d else online_tolerance)"

text \<open>The occurrence written for a due time, given the time that follows it.\<close>

definition due_can_run :: "due_definition \<Rightarrow> instant \<Rightarrow> instant \<Rightarrow> instant \<Rightarrow> bool" where
  "due_can_run d now due following \<longleftrightarrow> following > now \<and> time_sub now due \<le> due_window d"

definition due_occurrence ::
  "digest \<Rightarrow> due_definition \<Rightarrow> instant \<Rightarrow> instant \<Rightarrow> instant \<Rightarrow> occurrence" where
  "due_occurrence digest d now due following =
     (let canRun = due_can_run d now due following in
      \<lparr>occ_ID = digest (due_OwnerKind d) (due_OwnerID d) (format_time due),
       occ_OwnerKind = due_OwnerKind d, occ_OwnerID = due_OwnerID d,
       occ_ScheduledAt = due, occ_ObservedAt = now,
       occ_Mode = (if canRun then if time_sub now due > online_tolerance then ''catch_up'' else ''on_time''
                   else ''missed''),
       occ_Status = (if canRun then ''pending'' else ''missed''),
       occ_TargetIDs = due_TargetIDs d, occ_RunIDs = [], occ_StartedAt = None,
       occ_FinishedAt = (if canRun then None else Some now)\<rparr>)"

fun record_loop ::
  "('s \<Rightarrow> occurrence \<Rightarrow> 's \<times> bool outcome) \<Rightarrow> zones \<Rightarrow> digest \<Rightarrow> due_definition \<Rightarrow> instant \<Rightarrow>
   nat \<Rightarrow> 's \<Rightarrow> instant \<Rightarrow> occurrence list \<Rightarrow> 's \<times> occurrence list outcome" where
  "record_loop create zones digest d now 0 s cursor runnable = (s, Inr runnable)"
| "record_loop create zones digest d now (Suc n) s cursor runnable =
     (case due_next zones d cursor of
        Inl err \<Rightarrow> (s, Inl err)
      | Inr due \<Rightarrow>
          if due > now then (s, Inr runnable)
          else (case due_next zones d due of
                  Inl err \<Rightarrow> (s, Inl err)
                | Inr following \<Rightarrow>
                    let r = due_occurrence digest d now due following in
                    (case create s r of
                       (s', Inl err) \<Rightarrow> (s', Inl err)
                     | (s', Inr created) \<Rightarrow>
                         record_loop create zones digest d now n s' due
                           (if created \<and> occ_Status r = ''pending'' then runnable @ [r] else runnable))))"

definition due_check :: "due_definition \<Rightarrow> instant \<Rightarrow> check" where
  "due_check d now =
     (if due_OwnerKind d \<notin> set [''plan'', ''maintenance'', ''restore_verification'']
      then Some (Invalid ''unsupported schedule owner kind'')
      else if due_OwnerID d = [] \<or> due_Timezone d = [] \<or> due_AnchorAt d = zero_time \<or> now = zero_time
      then Some (Invalid ''schedule definition requires owner, timezone, anchor, and observation time'')
      else if due_CatchUpWindow d < 0
      then Some (Invalid ''schedule catch-up window cannot be negative'')
      else None)"

definition record_due ::
  "('s \<Rightarrow> string \<Rightarrow> string \<Rightarrow> instant \<Rightarrow> occurrence outcome) \<Rightarrow>
   ('s \<Rightarrow> occurrence \<Rightarrow> 's \<times> bool outcome) \<Rightarrow> zones \<Rightarrow> digest \<Rightarrow> due_definition \<Rightarrow> instant \<Rightarrow> 's \<Rightarrow>
   's \<times> occurrence list outcome" where
  "record_due latest create zones digest d now s =
     (case due_check d now of
        Some err \<Rightarrow> (s, Inl err)
      | None \<Rightarrow>
          let loop = (\<lambda>cursor. record_loop create zones digest d now max_occurrences_per_tick s cursor []) in
          (case latest s (due_OwnerKind d) (due_OwnerID d) (due_AnchorAt d) of
             Inr r \<Rightarrow> loop (occ_ScheduledAt r)
           | Inl err \<Rightarrow> if err = NoRows then loop (due_AnchorAt d) else (s, Inl err)))"

section \<open>The contract of the store\<close>

locale occurrence_log =
  fixes latest :: "'s \<Rightarrow> string \<Rightarrow> string \<Rightarrow> instant \<Rightarrow> occurrence outcome"
    and create :: "'s \<Rightarrow> occurrence \<Rightarrow> 's \<times> bool outcome"
    and recorded :: "'s \<Rightarrow> (string \<times> string \<times> instant) set"
  assumes create_fresh: "create s r = (s', Inr True) \<Longrightarrow>
      occurrence_key r \<notin> recorded s \<and> recorded s' = insert (occurrence_key r) (recorded s)"
    and create_other: "create s r = (s', res) \<Longrightarrow> res \<noteq> Inr True \<Longrightarrow> recorded s' = recorded s"
begin

text \<open>What a tick returns: new, due, inside the window, and the last due time.\<close>

definition runnable_ok :: "zones \<Rightarrow> due_definition \<Rightarrow> instant \<Rightarrow> 's \<Rightarrow> 's \<Rightarrow> occurrence \<Rightarrow> bool" where
  "runnable_ok zones d now s s' r \<longleftrightarrow>
     occurrence_key r \<in> recorded s' - recorded s \<and>
     occ_OwnerKind r = due_OwnerKind d \<and> occ_OwnerID r = due_OwnerID d \<and>
     occ_TargetIDs r = due_TargetIDs d \<and> occ_Status r = ''pending'' \<and>
     occ_ScheduledAt r \<le> now \<and> time_sub now (occ_ScheduledAt r) \<le> due_window d \<and>
     (\<exists>following. due_next zones d (occ_ScheduledAt r) = Inr following \<and> now < following)"

lemma create_recorded: "create s r = (s', res) \<Longrightarrow> recorded s \<subseteq> recorded s'"
  by (cases "res = Inr True") (auto dest: create_fresh create_other)

lemma runnable_ok_widen:
  "runnable_ok zones d now t t' r \<Longrightarrow> recorded s \<subseteq> recorded t \<Longrightarrow> recorded t' \<subseteq> recorded s' \<Longrightarrow>
     runnable_ok zones d now s s' r"
  by (auto simp: runnable_ok_def)

text \<open>Once a runnable occurrence has been found, the next step of the loop leaves it.\<close>

lemma record_loop_past:
  assumes "due_next zones d cursor = Inr following" and "now < following"
  shows "record_loop create zones digest d now n s cursor rs = (s, Inr rs)"
  using assms by (cases n) simp_all

lemma record_loop_facts:
  "record_loop create zones digest d now n s cursor [] = (s', res) \<Longrightarrow>
     recorded s \<subseteq> recorded s' \<and>
     (\<forall>rs. res = Inr rs \<longrightarrow> length rs \<le> 1 \<and> (\<forall>r \<in> set rs. runnable_ok zones d now s s' r))"
proof (induction n arbitrary: s cursor)
  case (Suc n)
  show ?case
  proof (cases "\<exists>due following. due_next zones d cursor = Inr due \<and> due \<le> now \<and> due_next zones d due = Inr following")
    case False
    with Suc.prems show ?thesis
      by (auto split: sum.splits if_splits)
  next
    case True
    then obtain due following where due: "due_next zones d cursor = Inr due" "due \<le> now"
      and fl: "due_next zones d due = Inr following" by blast
    let ?r = "due_occurrence digest d now due following"
    obtain t c where t: "create s ?r = (t, c)" by fastforce
    show ?thesis
    proof (cases "c = Inr True \<and> occ_Status ?r = ''pending''")
      case True
      then have run: "due_can_run d now due following"
        by (simp add: due_occurrence_def Let_def split: if_splits)
      then have "record_loop create zones digest d now n t due [?r] = (t, Inr [?r])"
        using fl by (intro record_loop_past) (auto simp: due_can_run_def)
      with Suc.prems due fl t True have "s' = t" "res = Inr [?r]" by (simp_all add: Let_def)
      moreover have "occurrence_key ?r \<in> recorded t - recorded s"
        using create_fresh [of s ?r t] t True by simp
      then have "runnable_ok zones d now s t ?r"
        using due fl run by (simp add: runnable_ok_def due_occurrence_def Let_def due_can_run_def)
      ultimately show ?thesis using create_recorded [OF t] by simp
    next
      case False
      have mono: "recorded s \<subseteq> recorded t" using create_recorded [OF t] .
      show ?thesis
      proof (cases c)
        case (Inl err)
        with Suc.prems due fl t mono show ?thesis by (auto simp: Let_def)
      next
        case (Inr created)
        with False have "\<not> (created \<and> occ_Status ?r = ''pending'')" by auto
        with Suc.prems due fl t Inr have "record_loop create zones digest d now n t due [] = (s', res)"
          by (simp add: Let_def)
        from Suc.IH [OF this] mono show ?thesis
          by (blast intro: runnable_ok_widen)
      qed
    qed
  qed
qed auto

lemma record_due_facts:
  "record_due latest create zones digest d now s = (s', res) \<Longrightarrow>
     recorded s \<subseteq> recorded s' \<and>
     (\<forall>rs. res = Inr rs \<longrightarrow> length rs \<le> 1 \<and> (\<forall>r \<in> set rs. runnable_ok zones d now s s' r))"
  by (auto simp: record_due_def Let_def dest: record_loop_facts split: option.splits sum.splits if_splits)

text \<open>The recorder changes the store through \<open>create\<close> only.\<close>

lemma record_loop_invariant:
  assumes "\<And>s r. P s \<Longrightarrow> P (fst (create s r))"
  shows "record_loop create zones digest d now n s cursor rs = (s', res) \<Longrightarrow> P s \<Longrightarrow> P s'"
proof (induction n arbitrary: s cursor rs)
  case (Suc n)
  have create: "create t r = (t', c) \<Longrightarrow> P t \<Longrightarrow> P t'" for t r t' c
    using assms [of t r] by simp
  from Suc.prems show ?case
    by (auto simp: Let_def split: sum.splits if_splits prod.splits dest: create Suc.IH intro: create)
qed simp

lemma record_due_invariant:
  assumes "\<And>s r. P s \<Longrightarrow> P (fst (create s r))"
    and "record_due latest create zones digest d now s = (s', res)" and "P s"
  shows "P s'"
  using assms(2,3) record_loop_invariant [of P, OF assms(1)]
  by (auto simp: record_due_def Let_def split: option.splits sum.splits if_splits)

text \<open>Ticks one after the other, each with its own definition and clock.\<close>

primrec tick_all :: "zones \<Rightarrow> digest \<Rightarrow> 's \<Rightarrow> (due_definition \<times> instant) list \<Rightarrow> occurrence list" where
  "tick_all zones digest s [] = []"
| "tick_all zones digest s (c # cs) =
     (case record_due latest create zones digest (fst c) (snd c) s of
        (s', Inl err) \<Rightarrow> tick_all zones digest s' cs
      | (s', Inr rs) \<Rightarrow> rs @ tick_all zones digest s' cs)"

lemma tick_all_fresh:
  "set (map occurrence_key (tick_all zones digest s cs)) \<inter> recorded s = {} \<and>
   distinct (map occurrence_key (tick_all zones digest s cs))"
proof (induction cs arbitrary: s)
  case (Cons c cs)
  obtain s' res where r: "record_due latest create zones digest (fst c) (snd c) s = (s', res)" by fastforce
  note facts = record_due_facts [OF r]
  note IH = Cons [of s']
  show ?case
  proof (cases res)
    case (Inl err)
    with r IH facts show ?thesis by auto
  next
    case (Inr rs)
    with facts have len: "length rs \<le> 1" and new: "occurrence_key ` set rs \<subseteq> recorded s' - recorded s"
      by (auto simp: runnable_ok_def)
    have "distinct (map occurrence_key rs)" using len by (cases rs; cases "tl rs") auto
    with r Inr IH facts new show ?thesis by auto
  qed
qed simp

end

section \<open>The store fulfils the contract\<close>

definition db_recorded :: "schedule_db \<Rightarrow> (string \<times> string \<times> instant) set" where
  "db_recorded db = occurrence_key ` set (db_occurrences db)"

lemma create_occurrence_fresh:
  "create_occurrence db r = (db', Inr True) \<Longrightarrow>
     occurrence_key r \<notin> db_recorded db \<and> db_recorded db' = insert (occurrence_key r) (db_recorded db)"
  using create_succeeds_iff [of db r] create_db [of db r] by (auto simp: db_recorded_def)

lemma create_occurrence_other:
  "create_occurrence db r = (db', res) \<Longrightarrow> res \<noteq> Inr True \<Longrightarrow> db_recorded db' = db_recorded db"
  using create_db [of db r] by (auto simp: db_recorded_def)

interpretation store_log: occurrence_log latest_occurrence create_occurrence db_recorded
proof unfold_locales
qed (fact create_occurrence_fresh, rule create_occurrence_other)

text \<open>
  C8: one tick returns at most one occurrence of a schedule, and only one that may run: it is due,
  it is not older than the catch-up window (90 seconds when online), no later occurrence is due,
  it was not recorded before the tick and is recorded after it.
\<close>
theorem record_due_at_most_one:
  assumes "record_due latest_occurrence create_occurrence zones digest d now db = (db', Inr rs)"
  shows "length rs \<le> 1 \<and> (\<forall>r \<in> set rs.
     occurrence_key r \<in> db_recorded db' - db_recorded db \<and>
     occ_OwnerKind r = due_OwnerKind d \<and> occ_OwnerID r = due_OwnerID d \<and> occ_Status r = ''pending'' \<and>
     occ_ScheduledAt r \<le> now \<and> time_sub now (occ_ScheduledAt r) \<le> due_window d \<and>
     (\<exists>following. due_next zones d (occ_ScheduledAt r) = Inr following \<and> now < following))"
  using store_log.record_due_facts [OF assms] by (auto simp: store_log.runnable_ok_def)

definition hourly_due :: due_definition where
  "hourly_due = \<lparr>due_OwnerKind = ''plan'', due_OwnerID = ''p1'',
     due_Schedule = \<lparr>sch_Kind = IntervalSchedule, sch_TimeOfDay = [], sch_DayOfWeek = 0, sch_IntervalHours = 1\<rparr>,
     due_Timezone = ''UTC'', due_AnchorAt = 0, due_CatchUpWindow = 0, due_TargetIDs = [''t1'']\<rparr>"

lemma hourly_next:
  "due_next (\<lambda>_. Some (\<lambda>_. 0)) hourly_due (k * go_hour) = Inr ((k + 1) * go_hour)" if "0 \<le> k" "k < 1000" for k
proof -
  have "interval_duration (due_Schedule hourly_due) = go_hour"
    by (simp add: hourly_due_def interval_duration_def to_int64_id min_int64_def max_int64_def)
  then have "next_interval (due_Schedule hourly_due) 0 (k * go_hour) =
      Inr (0 + ((k * go_hour - 0) div go_hour + 1) * go_hour)"
    using that by (intro next_interval_steps) (simp_all add: hourly_due_def max_int64_def)
  then show ?thesis by (simp add: due_next_def hourly_due_def next_anchored_def)
qed

theorem record_due_at_most_one_witness:
  "\<exists>db' r. record_due latest_occurrence create_occurrence (\<lambda>_. Some (\<lambda>_. 0)) (\<lambda>k i t. i) hourly_due
       (go_hour + 10 * nanos) (db_example\<lparr>db_occurrences := []\<rparr>) = (db', Inr [r]) \<and>
     length [r] \<le> 1 \<and> occ_Status r = ''pending'' \<and> occ_ScheduledAt r = go_hour"
proof -
  let ?db = "db_example\<lparr>db_occurrences := []\<rparr>" and ?now = "go_hour + 10 * nanos"
    and ?zones = "\<lambda>_::string. Some (\<lambda>_::int. 0::int)" and ?digest = "\<lambda>k i t. i"
  define r where "r = due_occurrence ?digest hourly_due ?now go_hour (2 * go_hour)"
  let ?db' = "?db\<lparr>db_occurrences := [r]\<rparr>"
  have steps: "due_next ?zones hourly_due 0 = Inr go_hour" "due_next ?zones hourly_due go_hour = Inr (2 * go_hour)"
    using hourly_next [of 0] hourly_next [of 1] by simp_all
  have req: "r = \<lparr>occ_ID = ''p1'', occ_OwnerKind = ''plan'', occ_OwnerID = ''p1'', occ_ScheduledAt = go_hour,
      occ_ObservedAt = ?now, occ_Mode = ''on_time'', occ_Status = ''pending'', occ_TargetIDs = [''t1''],
      occ_RunIDs = [], occ_StartedAt = None, occ_FinishedAt = None\<rparr>"
    by (simp add: r_def due_occurrence_def due_can_run_def hourly_due_def due_window_def time_sub_def
        min_int64_def max_int64_def)
  have create: "create_occurrence ?db r = (?db', Inr True)"
    by (simp add: req create_occurrence_def validate_occurrence_def validate_references_def
        require_reference_def db_example_def)
  have past: "record_loop create_occurrence ?zones ?digest hourly_due ?now n ?db' go_hour [r] = (?db', Inr [r])" for n
    by (rule store_log.record_loop_past [OF steps(2)]) simp
  have "record_loop create_occurrence ?zones ?digest hourly_due ?now (Suc 999) ?db 0 [] = (?db', Inr [r])"
    unfolding record_loop.simps steps sum.case r_def [symmetric] Let_def create prod.case
    using past by (simp add: req)
  then have "record_due latest_occurrence create_occurrence ?zones ?digest hourly_due ?now ?db = (?db', Inr [r])"
    by (simp add: record_due_def due_check_def latest_occurrence_def newest_first_def hourly_due_def)
  from this record_due_at_most_one [OF this] show ?thesis
    by (intro exI conjI) (assumption, simp_all add: req)
qed

text \<open>
  Over any sequence of ticks, of any schedules and at any clock readings, going backwards
  included, no occurrence is returned for execution twice.
\<close>
lemma ticks_never_repeat:
  "distinct (map occurrence_key (occurrence_log.tick_all latest_occurrence create_occurrence zones digest db ticks))"
  using store_log.tick_all_fresh by blast

end
