(* ===== verification/Plan_Dispatcher.thy ===== *)
theory Plan_Dispatcher
  imports Occurrence_Recorder "HOL-Library.Multiset"
begin

text \<open>
  The plan dispatcher of src/internal/scheduler/dispatcher.go: a tick records what is due for every
  enabled plan, claims it and launches it; the execution of an occurrence runs its tasks behind a
  semaphore of the plan's width and finishes the occurrence with one status.

  \<open>tick_plans\<close> is the loop of \<open>Tick\<close> over the store of \<open>Occurrence_Store\<close>; the goroutines it
  starts are its list of launches. \<open>exec_step\<close> is \<open>executeOccurrence\<close>: its goroutines interleave
  in any order, and their results arrive in any order.
\<close>

definition schedule_task_status :: "string \<Rightarrow> bool \<Rightarrow> string" where
  "schedule_task_status status failed =
     (if failed then if status = ''cancelled'' then ''cancelled'' else ''failed''
      else if status = ''success'' then ''success''
      else if status \<in> set [''partial'', ''failed'', ''cancelled'', ''skipped''] then status
      else ''failed'')"

definition aggregate_statuses :: "string list \<Rightarrow> string" where
  "aggregate_statuses statuses =
     (let n = (\<lambda>status. count_list statuses status); all = length statuses in
      if all = 0 then ''failed''
      else if n ''partial'' > 0 then ''partial''
      else if n ''success'' = all then ''success''
      else if n ''cancelled'' = all then ''cancelled''
      else if n ''skipped'' = all then ''skipped''
      else if n ''failed'' = all then ''failed''
      else if n ''success'' > 0 then ''partial''
      else if n ''failed'' > 0 then ''failed''
      else if n ''cancelled'' > 0 then ''cancelled''
      else ''skipped'')"

section \<open>The tick\<close>

type_synonym launch = "plan \<times> occurrence"




definition launched_count :: "launch list \<Rightarrow> nat" where
  "launched_count launches = sum_list (map (\<lambda>(p, r). length (occ_TargetIDs r)) launches)"

section \<open>The execution of an occurrence\<close>

record task_result =
  result_status :: string
  result_runID :: string

record execution =
  exec_waiting :: "string list"
  exec_running :: "string list"
  exec_results :: "task_result list"
  exec_cancelled :: bool

definition exec_limit :: "plan \<Rightarrow> nat" where
  "exec_limit p = (if plan_MaxParallel p < 1 then 1 else nat (plan_MaxParallel p))"

definition exec_start :: "occurrence \<Rightarrow> execution" where
  "exec_start r = \<lparr>exec_waiting = occ_TargetIDs r, exec_running = [], exec_results = [], exec_cancelled = False\<rparr>"

text \<open>
  One move of a task's goroutine: it takes a slot of the semaphore; it gives up because the context
  is done; it reports what the runner returned (\<open>None\<close> stands for a nil runner) and frees its slot.
\<close>

inductive exec_step :: "nat \<Rightarrow> execution \<Rightarrow> execution \<Rightarrow> bool" for limit where
  take_slot: "t \<in> set (exec_waiting x) \<Longrightarrow> length (exec_running x) < limit \<Longrightarrow>
     exec_step limit x (x\<lparr>exec_waiting := remove1 t (exec_waiting x), exec_running := t # exec_running x\<rparr>)"
| give_up: "t \<in> set (exec_waiting x) \<Longrightarrow> exec_cancelled x \<Longrightarrow>
     exec_step limit x (x\<lparr>exec_waiting := remove1 t (exec_waiting x),
       exec_results := exec_results x @ [\<lparr>result_status = ''cancelled'', result_runID = []\<rparr>]\<rparr>)"
| no_runner: "t \<in> set (exec_running x) \<Longrightarrow>
     exec_step limit x (x\<lparr>exec_running := remove1 t (exec_running x),
       exec_results := exec_results x @ [\<lparr>result_status = ''failed'', result_runID = []\<rparr>]\<rparr>)"
| report: "t \<in> set (exec_running x) \<Longrightarrow>
     exec_step limit x (x\<lparr>exec_running := remove1 t (exec_running x),
       exec_results := exec_results x @
         [\<lparr>result_status = schedule_task_status status failed, result_runID = runID\<rparr>]\<rparr>)"
| cancel: "exec_step limit x (x\<lparr>exec_cancelled := True\<rparr>)"

inductive_cases exec_stepE: "exec_step limit x y"

definition exec_finish :: "schedule_db \<Rightarrow> occurrence \<Rightarrow> execution \<Rightarrow> instant \<Rightarrow> schedule_db \<times> check" where
  "exec_finish db r x now =
     finish_occurrence db (occ_ID r) (aggregate_statuses (map result_status (exec_results x)))
       (filter (\<lambda>i. i \<noteq> []) (map result_runID (exec_results x))) now"

section \<open>One status for many results\<close>

lemma aggregate_mset: "mset ss = mset ts \<Longrightarrow> aggregate_statuses ss = aggregate_statuses ts"
proof -
  assume eq: "mset ss = mset ts"
  then have "count_list ss = count_list ts" by (metis count_mset ext)
  with mset_eq_length [OF eq] show ?thesis by (simp add: aggregate_statuses_def)
qed

lemma count_list_all: "count_list ss a = length ss \<longleftrightarrow> set ss \<subseteq> {a}"
proof (induction ss)
  case (Cons s ss)
  have "count_list ss a \<le> length ss" by (rule count_le_length)
  with Cons show ?case by auto
qed simp

lemma aggregate_by_set:
  "aggregate_statuses ss =
     (let S = set ss in
      if ss = [] then ''failed'' else if ''partial'' \<in> S then ''partial''
      else if S \<subseteq> {''success''} then ''success'' else if S \<subseteq> {''cancelled''} then ''cancelled''
      else if S \<subseteq> {''skipped''} then ''skipped'' else if S \<subseteq> {''failed''} then ''failed''
      else if ''success'' \<in> S then ''partial'' else if ''failed'' \<in> S then ''failed''
      else if ''cancelled'' \<in> S then ''cancelled'' else ''skipped'')"
proof -
  have pos: "0 < count_list ss a \<longleftrightarrow> a \<in> set ss" for a
    by (metis count_list_0_iff gr0I less_irrefl)
  show ?thesis by (simp only: aggregate_statuses_def Let_def pos count_list_all length_0_conv)
qed

lemma aggregate_with_success:
  assumes "''success'' \<in> set ss"
  shows "aggregate_statuses ss = (if set ss = {''success''} then ''success'' else ''partial'')"
proof -
  from assms have n: "ss \<noteq> []" "\<not> set ss \<subseteq> {''cancelled''}" "\<not> set ss \<subseteq> {''skipped''}" "\<not> set ss \<subseteq> {''failed''}"
    and s: "set ss \<subseteq> {''success''} \<longleftrightarrow> set ss = {''success''}" by auto
  show ?thesis
  proof (cases "set ss = {''success''}")
    case False
    with n s assms show ?thesis by (simp add: aggregate_by_set Let_def)
  qed (simp add: aggregate_by_set n)
qed

lemma aggregate_without_success:
  assumes "''success'' \<notin> set ss"
  shows "aggregate_statuses ss \<noteq> ''success''" and "aggregate_statuses ss = ''partial'' \<longleftrightarrow> ''partial'' \<in> set ss"
proof -
  from assms have "ss = [] \<or> \<not> set ss \<subseteq> {''success''}" by (cases ss) auto
  with assms show "aggregate_statuses ss \<noteq> ''success''" and "aggregate_statuses ss = ''partial'' \<longleftrightarrow> ''partial'' \<in> set ss"
    by (auto simp: aggregate_by_set Let_def simp del: insert_iff)
qed

lemma aggregate_terminal: "terminal_schedule_status (aggregate_statuses ss)"
  by (simp add: aggregate_by_set Let_def terminal_schedule_status_def)

text \<open>
  The status of an occurrence does not depend on the order in which the results of its tasks
  arrive. It is a success exactly when there are results and all of them are successes, and
  partial exactly when a result is partial or a success stands beside anything else; it is always
  a status the store accepts as terminal.
\<close>
lemma aggregate_spec:
  "(mset ss = mset ts \<longrightarrow> aggregate_statuses ss = aggregate_statuses ts) \<and>
   (aggregate_statuses ss = ''success'' \<longleftrightarrow> set ss = {''success''}) \<and>
   (aggregate_statuses ss = ''partial'' \<longleftrightarrow>
      ''partial'' \<in> set ss \<or> ''success'' \<in> set ss \<and> set ss \<noteq> {''success''}) \<and>
   terminal_schedule_status (aggregate_statuses ss)"
proof (cases "''success'' \<in> set ss")
  case True
  with aggregate_mset [of ss ts] aggregate_terminal [of ss] show ?thesis
    by (cases "set ss = {''success''}") (simp_all add: aggregate_with_success)
next
  case False
  then have "set ss \<noteq> {''success''}" by blast
  with False aggregate_mset [of ss ts] aggregate_terminal [of ss] show ?thesis
    by (simp add: aggregate_without_success)
qed

lemma aggregate_spec_witness:
  "aggregate_statuses [''failed'', ''success'', ''skipped''] = aggregate_statuses [''success'', ''skipped'', ''failed''] \<and>
   aggregate_statuses [''failed'', ''success'', ''skipped''] = ''partial''"
  using aggregate_spec [of "[''failed'', ''success'', ''skipped'']" "[''success'', ''skipped'', ''failed'']"]
  by (simp add: add_mset_commute doubleton_eq_iff insert_eq_iff) metis

section \<open>The semaphore\<close>

lemma schedule_task_status_terminal: "terminal_schedule_status (schedule_task_status status failed)"
  by (auto simp: schedule_task_status_def terminal_schedule_status_def)

definition exec_inv :: "nat \<Rightarrow> occurrence \<Rightarrow> execution \<Rightarrow> bool" where
  "exec_inv limit r x \<longleftrightarrow>
     length (exec_running x) \<le> limit \<and>
     length (exec_waiting x) + length (exec_running x) + length (exec_results x) = length (occ_TargetIDs r) \<and>
     (\<forall>q \<in> set (exec_results x). terminal_schedule_status (result_status q))"

lemma exec_inv_start: "exec_inv limit r (exec_start r)"
  by (simp add: exec_inv_def exec_start_def)

lemma length_remove1_Suc: "t \<in> set xs \<Longrightarrow> Suc (length (remove1 t xs)) = length xs"
  using length_pos_if_in_set [of t xs] by (simp add: length_remove1)

lemma terminal_words: "terminal_schedule_status ''cancelled''" "terminal_schedule_status ''failed''"
  by (simp_all add: terminal_schedule_status_def)

lemma exec_inv_step: "exec_step limit x y \<Longrightarrow> exec_inv limit r x \<Longrightarrow> exec_inv limit r y"
  by (erule exec_stepE)
    (auto simp: exec_inv_def terminal_words schedule_task_status_terminal dest: length_remove1_Suc)

lemma exec_inv_reach: "(exec_step limit)\<^sup>*\<^sup>* (exec_start r) x \<Longrightarrow> exec_inv limit r x"
  by (induction rule: rtranclp_induct) (auto intro: exec_inv_start exec_inv_step)

text \<open>Every step but the cancellation itself is progress.\<close>

definition exec_todo :: "execution \<Rightarrow> nat" where
  "exec_todo x = 2 * length (exec_waiting x) + length (exec_running x)"

lemma exec_step_progress:
  "exec_step limit x y \<Longrightarrow> y = x\<lparr>exec_cancelled := True\<rparr> \<or> exec_todo y < exec_todo x"
  by (erule exec_stepE) (auto simp: exec_todo_def dest!: length_remove1_Suc)

lemma exec_not_stuck:
  assumes "0 < limit" and "exec_todo x \<noteq> 0"
  shows "\<exists>y. exec_step limit x y \<and> exec_todo y < exec_todo x"
proof (cases "exec_running x")
  case Nil
  with assms obtain t where t: "t \<in> set (exec_waiting x)"
    by (cases "exec_waiting x") (auto simp: exec_todo_def)
  with assms(1) Nil take_slot [of t x limit] length_remove1_Suc [OF t] show ?thesis
    by (intro exI conjI) (auto simp: exec_todo_def)
next
  case (Cons t ts)
  then show ?thesis using no_runner [of t x limit]
    by (intro exI conjI) (auto simp: exec_todo_def)
qed

lemma exec_limit_pos: "0 < exec_limit p"
  by (simp add: exec_limit_def)

text \<open>
  C12: whatever the interleaving, never more than the plan's \<open>MaxParallel\<close> tasks (at least one) run
  at a time and every task is waiting, running or reported; the execution is never stuck before all
  tasks have reported, and every step other than the cancellation brings it closer to that.
\<close>
theorem plan_execution_bounded:
  assumes "(exec_step (exec_limit p))\<^sup>*\<^sup>* (exec_start r) x"
  shows "length (exec_running x) \<le> max 1 (nat (plan_MaxParallel p)) \<and>
    length (exec_waiting x) + length (exec_running x) + length (exec_results x) = length (occ_TargetIDs r) \<and>
    (length (exec_results x) \<noteq> length (occ_TargetIDs r) \<longrightarrow>
       (\<exists>y. exec_step (exec_limit p) x y \<and> exec_todo y < exec_todo x)) \<and>
    (\<forall>y. exec_step (exec_limit p) x y \<longrightarrow> y = x\<lparr>exec_cancelled := True\<rparr> \<or> exec_todo y < exec_todo x)"
proof -
  note inv = exec_inv_reach [OF assms]
  have "length (exec_running x) \<le> max 1 (nat (plan_MaxParallel p))"
    using inv by (auto simp: exec_inv_def exec_limit_def split: if_splits)
  moreover have "length (exec_results x) \<noteq> length (occ_TargetIDs r) \<Longrightarrow> exec_todo x \<noteq> 0"
    using inv by (auto simp: exec_inv_def exec_todo_def)
  ultimately show ?thesis
    using inv exec_not_stuck [OF exec_limit_pos] exec_step_progress by (auto simp: exec_inv_def)
qed

definition plan_example :: plan where
  "plan_example = (probe_plan ''nightly'' nightly ''UTC'' ''t1'' 0)\<lparr>plan_ID := ''p1'', plan_Enabled := True\<rparr>"

theorem plan_execution_bounded_witness:
  "length (exec_running (exec_start occurrence_example)) \<le> 1 \<and>
   (\<exists>y. exec_step (exec_limit plan_example) (exec_start occurrence_example) y)"
  using plan_execution_bounded [of plan_example occurrence_example "exec_start occurrence_example"]
  by (auto simp: exec_start_def occurrence_example_def plan_example_def probe_plan_def)

text \<open>
  C13: the execution of an occurrence terminates. Whatever the goroutines do, after at most two steps
  for each of its tasks, not counting the cancellation, nothing is left to do; an execution that can
  only be cancelled any more has the result of every task, and finishing it stores a terminal status.
\<close>
theorem plan_execution_terminates:
  assumes "f 0 = exec_start r"
    and "\<forall>k < n. exec_step (exec_limit p) (f k) (f (Suc k)) \<and> f (Suc k) \<noteq> (f k)\<lparr>exec_cancelled := True\<rparr>"
  shows "n \<le> 2 * length (occ_TargetIDs r) \<and>
    ((\<forall>y. exec_step (exec_limit p) (f n) y \<longrightarrow> y = (f n)\<lparr>exec_cancelled := True\<rparr>) \<longrightarrow>
       length (exec_results (f n)) = length (occ_TargetIDs r) \<and>
       terminal_schedule_status (aggregate_statuses (map result_status (exec_results (f n)))))"
proof -
  have run: "k \<le> n \<Longrightarrow> (exec_step (exec_limit p))\<^sup>*\<^sup>* (exec_start r) (f k) \<and> exec_todo (f k) + k \<le> 2 * length (occ_TargetIDs r)" for k
  proof (induction k)
    case 0
    then show ?case using assms(1) by (simp add: exec_todo_def exec_start_def)
  next
    case (Suc k)
    then have k: "exec_step (exec_limit p) (f k) (f (Suc k))" "f (Suc k) \<noteq> (f k)\<lparr>exec_cancelled := True\<rparr>"
      using assms(2) by auto
    then have "exec_todo (f (Suc k)) < exec_todo (f k)" using exec_step_progress by blast
    with Suc k(1) show ?case by (auto intro: rtranclp.rtrancl_into_rtrancl)
  qed
  have inv: "exec_inv (exec_limit p) r (f n)" using run [of n] exec_inv_reach by blast
  have "length (exec_results (f n)) = length (occ_TargetIDs r)"
    if stuck: "\<forall>y. exec_step (exec_limit p) (f n) y \<longrightarrow> y = (f n)\<lparr>exec_cancelled := True\<rparr>"
  proof (rule ccontr)
    assume "length (exec_results (f n)) \<noteq> length (occ_TargetIDs r)"
    then have "exec_todo (f n) \<noteq> 0" using inv by (auto simp: exec_inv_def exec_todo_def)
    then obtain y where "exec_step (exec_limit p) (f n) y" "exec_todo y < exec_todo (f n)"
      using exec_not_stuck [OF exec_limit_pos] by blast
    with stuck show False by (auto simp: exec_todo_def)
  qed
  with run [of n] show ?thesis by (simp add: aggregate_terminal)
qed

theorem plan_execution_terminates_witness:
  "(\<exists>y. exec_step (exec_limit plan_example) (exec_start occurrence_example) y \<and> exec_todo y = 1) \<and>
   1 \<le> 2 * length (occ_TargetIDs occurrence_example)"
proof -
  let ?x = "exec_start occurrence_example"
  let ?y = "?x\<lparr>exec_waiting := [], exec_running := [''t1'']\<rparr>"
  have "exec_step (exec_limit plan_example) ?x ?y"
    using take_slot [of "''t1''" ?x "exec_limit plan_example"] exec_limit_pos [of plan_example]
    by (simp add: exec_start_def occurrence_example_def)
  moreover have "?y \<noteq> ?x\<lparr>exec_cancelled := True\<rparr>" "exec_todo ?y = 1"
    by (simp_all add: exec_start_def occurrence_example_def exec_todo_def)
  ultimately show ?thesis
    using plan_execution_terminates [of "\<lambda>k. if k = 0 then ?x else ?y" occurrence_example 1 plan_example] by auto
qed

text \<open>
  When all tasks have reported, finishing an occurrence that is running succeeds: its row gets
  the aggregate of the results as its status and the ids of the runs that were started.
\<close>
lemma execution_finishes_occurrence:
  assumes "occ_inv db" and "q \<in> set (db_occurrences db)" and "occ_ID q = occ_ID r" and "occ_ID r \<noteq> []"
    and "occ_Status q = ''running''" and "now \<noteq> zero_time"
  shows "snd (exec_finish db r x now) = None \<and>
    q\<lparr>occ_Status := aggregate_statuses (map result_status (exec_results x)),
      occ_RunIDs := filter (\<lambda>i. i \<noteq> []) (map result_runID (exec_results x)),
      occ_FinishedAt := Some now\<rparr> \<in> set (db_occurrences (fst (exec_finish db r x now)))"
proof -
  let ?P = "\<lambda>q. occ_ID q = occ_ID r \<and> occ_Status q = ''running''"
  have "affected ?P (db_occurrences db) = 1 \<longleftrightarrow> (\<exists>q \<in> set (db_occurrences db). ?P q)"
    using assms(1) by (intro affected_iff [where key = occ_ID and k = "occ_ID r"]) (auto simp: occ_inv_def)
  with assms(2,3,5) have "affected ?P (db_occurrences db) = 1" by blast
  with assms show ?thesis
    by (auto simp: exec_finish_def finish_occurrence_def Let_def aggregate_terminal set_update_where
        intro!: bexI [of _ q])
qed

lemma execution_finishes_occurrence_witness:
  "snd (exec_finish (db_example\<lparr>db_occurrences := [occurrence_example\<lparr>occ_Status := ''running'', occ_StartedAt := Some 0\<rparr>]\<rparr>)
     occurrence_example (exec_start occurrence_example) nanos) = None"
  using execution_finishes_occurrence [of
      "db_example\<lparr>db_occurrences := [occurrence_example\<lparr>occ_Status := ''running'', occ_StartedAt := Some 0\<rparr>]\<rparr>"
      "occurrence_example\<lparr>occ_Status := ''running'', occ_StartedAt := Some 0\<rparr>" occurrence_example nanos
      "exec_start occurrence_example"]
  by (simp add: occ_inv_def unique_Cons occurrence_example_def)

section \<open>Launches\<close>











end
