(* ===== verification/Run_Controller.thy ===== *)
theory Run_Controller
  imports Timestamps
begin

text \<open>
  The run controller of src/internal/run/controller.go: terminal statuses, the retries of one
  operation, and the interleaving of concurrent \<open>Execute\<close> calls over the set of running tasks, the
  channel of global slots and the repository locks.
\<close>

section \<open>Statuses\<close>

abbreviation Succeeded :: string where "Succeeded \<equiv> ''success''"
abbreviation Partial :: string where "Partial \<equiv> ''partial''"
abbreviation Failed :: string where "Failed \<equiv> ''failed''"
abbreviation Cancelled :: string where "Cancelled \<equiv> ''cancelled''"
abbreviation Skipped :: string where "Skipped \<equiv> ''skipped''"

definition parse_terminal_status :: "string \<Rightarrow> string \<times> bool" where
  "parse_terminal_status value =
     (if value \<in> set [Succeeded, Partial, Failed, Cancelled, Skipped] then (value, True) else (Failed, False))"

definition normalize_terminal_status :: "string \<Rightarrow> string \<times> bool" where
  "normalize_terminal_status value =
     (if value = ''succeeded'' then (Succeeded, True)
      else if value = ''canceled'' then (Cancelled, True)
      else parse_terminal_status value)"

section \<open>Retries\<close>

text \<open>
  An operation's error: what \<open>errors.Is\<close> and \<open>IsTemporary\<close> see of it. The surroundings of a call
  are what the operation returns at each attempt, whether the context is done right after an
  attempt, and whether the context rather than the timer ends the wait after an attempt.
\<close>

record op_error =
  err_context :: bool
  err_temporary :: bool
  err_text :: string

record surroundings =
  attempt_result :: "nat \<Rightarrow> string \<times> op_error option"
  context_done :: "nat \<Rightarrow> bool"
  wait_cancelled :: "nat \<Rightarrow> bool"

record run_request =
  req_TaskID :: string
  req_RepositoryID :: string
  req_MaxAttempts :: int
  req_RetryDelay :: duration

record run_result =
  run_Status :: string
  run_Attempts :: nat
  run_Error :: "op_error option"

definition context_error :: op_error where
  "context_error = \<lparr>err_context = True, err_temporary = False, err_text = ''context canceled''\<rparr>"

text \<open>\<open>delay * time.Duration(1<<(attempt-1))\<close>: shifts past the width give 0, products wrap.\<close>

definition retry_wait :: "duration \<Rightarrow> nat \<Rightarrow> duration" where
  "retry_wait delay attempt = to_int64 (delay * to_int64 (2 ^ (attempt - 1)))"

text \<open>
  The loop from an attempt on, with the number of attempts that are left; it returns the result
  and the waits between the attempts.
\<close>

fun retry_loop :: "surroundings \<Rightarrow> duration \<Rightarrow> nat \<Rightarrow> nat \<Rightarrow> run_result \<times> duration list" where
  "retry_loop env delay attempt 0 = (\<lparr>run_Status = [], run_Attempts = 0, run_Error = None\<rparr>, [])"
| "retry_loop env delay attempt (Suc left) =
     (case attempt_result env attempt of
        (status, None) \<Rightarrow> (\<lparr>run_Status = status, run_Attempts = attempt, run_Error = None\<rparr>, [])
      | (status, Some err) \<Rightarrow>
          if err_context err \<or> context_done env attempt
          then (\<lparr>run_Status = Cancelled, run_Attempts = attempt, run_Error = Some err\<rparr>, [])
          else if \<not> err_temporary err \<or> left = 0
          then (\<lparr>run_Status = Failed, run_Attempts = attempt, run_Error = Some err\<rparr>, [])
          else if wait_cancelled env attempt
          then (\<lparr>run_Status = Cancelled, run_Attempts = attempt, run_Error = Some context_error\<rparr>,
                [retry_wait delay attempt])
          else let (result, waits) = retry_loop env delay (Suc attempt) left
               in (result, retry_wait delay attempt # waits))"

definition attempts_of :: "run_request \<Rightarrow> nat" where
  "attempts_of req = (if req_MaxAttempts req < 1 then 1 else nat (req_MaxAttempts req))"

definition delay_of :: "run_request \<Rightarrow> duration" where
  "delay_of req = (if req_RetryDelay req \<le> 0 then go_second else req_RetryDelay req)"

definition attempt_all :: "surroundings \<Rightarrow> run_request \<Rightarrow> run_result \<times> duration list" where
  "attempt_all env req = retry_loop env (delay_of req) 1 (attempts_of req)"

section \<open>Concurrent calls\<close>

text \<open>
  Where a call of \<open>Execute\<close> stands: it has registered its task and waits for a global slot; it
  holds the slot and waits for the repository; it runs the operation; and the deferred functions,
  in the order they run: the repository is unlocked, the slot is freed, the task is removed.
\<close>

datatype phase =
    Wants_slot
  | Wants_repository
  | Executing
  | Unlocked run_result
  | Slot_freed run_result
  | Returned run_result

record controller =
  ctl_max :: nat
  ctl_running :: "string set"
  ctl_global :: nat
  ctl_locked :: "string set"
  ctl_calls :: "(run_request \<times> phase) list"

definition new_controller :: "int \<Rightarrow> controller" where
  "new_controller maxParallel =
     \<lparr>ctl_max = (if maxParallel < 1 then 1 else nat maxParallel), ctl_running = {}, ctl_global = 0,
      ctl_locked = {}, ctl_calls = []\<rparr>"

definition plain_result :: "string \<Rightarrow> op_error option \<Rightarrow> run_result" where
  "plain_result status err = \<lparr>run_Status = status, run_Attempts = 0, run_Error = err\<rparr>"

definition request_error :: op_error where
  "request_error = \<lparr>err_context = False, err_temporary = False,
     err_text = ''task, repository and operation are required''\<rparr>"

text \<open>The first, locked part of \<open>Execute\<close>.\<close>

definition enter :: "controller \<Rightarrow> run_request \<Rightarrow> controller" where
  "enter c req =
     (if req_TaskID req = [] \<or> req_RepositoryID req = []
      then c\<lparr>ctl_calls := ctl_calls c @ [(req, Returned (plain_result Failed (Some request_error)))]\<rparr>
      else if req_TaskID req \<in> ctl_running c
      then c\<lparr>ctl_calls := ctl_calls c @ [(req, Returned (plain_result Skipped None))]\<rparr>
      else c\<lparr>ctl_running := insert (req_TaskID req) (ctl_running c),
             ctl_calls := ctl_calls c @ [(req, Wants_slot)]\<rparr>)"

definition set_phase :: "controller \<Rightarrow> nat \<Rightarrow> phase \<Rightarrow> controller" where
  "set_phase c g ph = c\<lparr>ctl_calls := (ctl_calls c)[g := (fst (ctl_calls c ! g), ph)]\<rparr>"

definition at_phase :: "controller \<Rightarrow> nat \<Rightarrow> phase \<Rightarrow> bool" where
  "at_phase c g ph \<longleftrightarrow> g < length (ctl_calls c) \<and> snd (ctl_calls c ! g) = ph"

definition call_request :: "controller \<Rightarrow> nat \<Rightarrow> run_request" where
  "call_request c g = fst (ctl_calls c ! g)"

inductive ctl_step :: "controller \<Rightarrow> controller \<Rightarrow> bool" where
  call: "ctl_step c (enter c req)"
| take_slot: "at_phase c g Wants_slot \<Longrightarrow> ctl_global c < ctl_max c \<Longrightarrow>
     ctl_step c (set_phase (c\<lparr>ctl_global := Suc (ctl_global c)\<rparr>) g Wants_repository)"
| give_up: "at_phase c g Wants_slot \<Longrightarrow>
     ctl_step c (set_phase c g (Slot_freed (plain_result Cancelled (Some context_error))))"
| lock: "at_phase c g Wants_repository \<Longrightarrow> req_RepositoryID (call_request c g) \<notin> ctl_locked c \<Longrightarrow>
     ctl_step c (set_phase (c\<lparr>ctl_locked := insert (req_RepositoryID (call_request c g)) (ctl_locked c)\<rparr>) g Executing)"
| finish: "at_phase c g Executing \<Longrightarrow>
     ctl_step c (set_phase (c\<lparr>ctl_locked := ctl_locked c - {req_RepositoryID (call_request c g)}\<rparr>) g
                   (Unlocked (fst (attempt_all env (call_request c g)))))"
| free_slot: "at_phase c g (Unlocked res) \<Longrightarrow>
     ctl_step c (set_phase (c\<lparr>ctl_global := ctl_global c - 1\<rparr>) g (Slot_freed res))"
| return: "at_phase c g (Slot_freed res) \<Longrightarrow>
     ctl_step c (set_phase (c\<lparr>ctl_running := ctl_running c - {req_TaskID (call_request c g)}\<rparr>) g (Returned res))"

inductive_cases ctl_stepE: "ctl_step c d"

section \<open>Mutual exclusion\<close>

fun active :: "phase \<Rightarrow> bool" where
  "active (Returned res) = False"
| "active ph = True"

fun has_slot :: "phase \<Rightarrow> bool" where
  "has_slot Wants_repository = True"
| "has_slot Executing = True"
| "has_slot (Unlocked res) = True"
| "has_slot ph = False"

definition call_phase :: "controller \<Rightarrow> nat \<Rightarrow> phase" where
  "call_phase c g = snd (ctl_calls c ! g)"

definition slots_inv :: "controller \<Rightarrow> bool" where
  "slots_inv c \<longleftrightarrow> ctl_global c = length (filter (\<lambda>call. has_slot (snd call)) (ctl_calls c)) \<and>
     ctl_global c \<le> ctl_max c"

definition tasks_inv :: "controller \<Rightarrow> bool" where
  "tasks_inv c \<longleftrightarrow>
     (\<forall>g < length (ctl_calls c). active (call_phase c g) \<longrightarrow> req_TaskID (call_request c g) \<in> ctl_running c) \<and>
     (\<forall>g < length (ctl_calls c). \<forall>h < length (ctl_calls c).
        g \<noteq> h \<and> active (call_phase c g) \<and> active (call_phase c h) \<longrightarrow>
        req_TaskID (call_request c g) \<noteq> req_TaskID (call_request c h))"

definition executing :: "controller \<Rightarrow> nat set" where
  "executing c = {g. g < length (ctl_calls c) \<and> call_phase c g = Executing}"

definition call_repository :: "controller \<Rightarrow> nat \<Rightarrow> string" where
  "call_repository c g = req_RepositoryID (call_request c g)"

definition locks_inv :: "controller \<Rightarrow> bool" where
  "locks_inv c \<longleftrightarrow> ctl_locked c = call_repository c ` executing c \<and> inj_on (call_repository c) (executing c)"

lemma set_phase_simps [simp]:
  "length (ctl_calls (set_phase c g ph)) = length (ctl_calls c)"
  "ctl_global (set_phase c g ph) = ctl_global c" "ctl_max (set_phase c g ph) = ctl_max c"
  "ctl_running (set_phase c g ph) = ctl_running c" "ctl_locked (set_phase c g ph) = ctl_locked c"
  by (simp_all add: set_phase_def)

lemma call_request_set_phase [simp]: "call_request (set_phase c g ph) h = call_request c h"
  by (cases "g < length (ctl_calls c)"; cases "g = h") (simp_all add: call_request_def set_phase_def list_update_beyond)

lemma call_phase_set_phase:
  "h < length (ctl_calls c) \<Longrightarrow> call_phase (set_phase c g ph) h = (if h = g then ph else call_phase c h)"
  by (simp add: call_phase_def set_phase_def)

lemma call_request_update [simp]:
  "call_request (c\<lparr>ctl_global := n\<rparr>) = call_request c" "call_request (c\<lparr>ctl_locked := l\<rparr>) = call_request c"
  "call_request (c\<lparr>ctl_running := r\<rparr>) = call_request c"
  "call_phase (c\<lparr>ctl_global := n\<rparr>) = call_phase c" "call_phase (c\<lparr>ctl_locked := l\<rparr>) = call_phase c"
  "call_phase (c\<lparr>ctl_running := r\<rparr>) = call_phase c"
  by (simp_all add: call_request_def call_phase_def fun_eq_iff)

lemma at_phase_iff: "at_phase c g ph \<longleftrightarrow> g < length (ctl_calls c) \<and> call_phase c g = ph"
  by (simp add: at_phase_def call_phase_def)

lemma slots_set_phase:
  assumes "g < length (ctl_calls c)"
  shows "length (filter (\<lambda>call. has_slot (snd call)) (ctl_calls (set_phase c g ph))) + (if has_slot (call_phase c g) then 1 else 0) =
         length (filter (\<lambda>call. has_slot (snd call)) (ctl_calls c)) + (if has_slot ph then 1 else 0)"
  using filter_update_length [OF assms, of "\<lambda>call. has_slot (snd call)" "(fst (ctl_calls c ! g), ph)"]
  by (simp add: set_phase_def call_phase_def)

lemma slots_inv_step: "ctl_step c d \<Longrightarrow> slots_inv c \<Longrightarrow> slots_inv d"
proof (induction rule: ctl_step.induct)
  case (take_slot c g)
  with slots_set_phase [of g "c\<lparr>ctl_global := Suc (ctl_global c)\<rparr>" Wants_repository] show ?case
    by (simp add: slots_inv_def at_phase_iff)
next
  case (give_up c g)
  with slots_set_phase [of g c] show ?case by (fastforce simp: slots_inv_def at_phase_iff)
next
  case (lock c g)
  with slots_set_phase [of g "c\<lparr>ctl_locked := insert (req_RepositoryID (call_request c g)) (ctl_locked c)\<rparr>" Executing]
  show ?case by (simp add: slots_inv_def at_phase_iff)
next
  case (finish c g env)
  with slots_set_phase [of g "c\<lparr>ctl_locked := ctl_locked c - {req_RepositoryID (call_request c g)}\<rparr>"
      "Unlocked (fst (attempt_all env (call_request c g)))"]
  show ?case by (simp add: slots_inv_def at_phase_iff)
next
  case (free_slot c g res)
  with slots_set_phase [of g "c\<lparr>ctl_global := ctl_global c - 1\<rparr>" "Slot_freed res"] show ?case
    by (simp add: slots_inv_def at_phase_iff) linarith
next
  case (return c g res)
  with slots_set_phase [of g "c\<lparr>ctl_running := ctl_running c - {req_TaskID (call_request c g)}\<rparr>" "Returned res"]
  show ?case by (simp add: slots_inv_def at_phase_iff)
qed (auto simp: enter_def slots_inv_def)

lemma enter_calls:
  "\<exists>ph. ctl_calls (enter c req) = ctl_calls c @ [(req, ph)] \<and> ctl_locked (enter c req) = ctl_locked c \<and>
     (ph = Wants_slot \<and> req_TaskID req \<notin> ctl_running c \<and> ctl_running (enter c req) = insert (req_TaskID req) (ctl_running c) \<or>
      \<not> active ph \<and> ctl_running (enter c req) = ctl_running c)"
  by (simp add: enter_def)

lemma call_nth_append:
  assumes "ctl_calls d = ctl_calls c @ [(req, ph)]"
  shows "g < length (ctl_calls c) \<Longrightarrow> call_phase d g = call_phase c g \<and> call_request d g = call_request c g"
    and "call_phase d (length (ctl_calls c)) = ph" and "call_request d (length (ctl_calls c)) = req"
  using assms by (simp_all add: call_phase_def call_request_def nth_append)

lemma tasks_inv_enter: "tasks_inv c \<Longrightarrow> tasks_inv (enter c req)"
proof -
  assume inv: "tasks_inv c"
  obtain ph where calls: "ctl_calls (enter c req) = ctl_calls c @ [(req, ph)]"
    and ph: "ph = Wants_slot \<and> req_TaskID req \<notin> ctl_running c \<and> ctl_running (enter c req) = insert (req_TaskID req) (ctl_running c) \<or>
      \<not> active ph \<and> ctl_running (enter c req) = ctl_running c"
    using enter_calls [of c req] by blast
  note nth = call_nth_append [OF calls]
  have len: "length (ctl_calls (enter c req)) = Suc (length (ctl_calls c))" by (simp add: calls)
  from inv ph show ?thesis
    unfolding tasks_inv_def len by (auto simp: less_Suc_eq nth)
qed

text \<open>A step that moves one call: it keeps it active, or returns it and removes its task.\<close>

lemma same_calls:
  "ctl_calls c' = ctl_calls c \<Longrightarrow> call_request c' = call_request c \<and> call_phase c' = call_phase c"
  by (simp add: call_request_def call_phase_def fun_eq_iff)

lemma tasks_inv_keep:
  assumes "tasks_inv c" and g: "g < length (ctl_calls c)" "active (call_phase c g)"
    and "ctl_running c' = ctl_running c" and calls: "ctl_calls c' = ctl_calls c"
  shows "tasks_inv (set_phase c' g ph)"
  using assms(1,2,3,4) same_calls [OF calls]
  unfolding tasks_inv_def set_phase_simps calls call_request_set_phase
  by (auto simp: call_phase_set_phase calls split: if_splits)

lemma tasks_inv_return:
  assumes "tasks_inv c" and g: "g < length (ctl_calls c)" "active (call_phase c g)"
    and "ctl_running c' = ctl_running c - {req_TaskID (call_request c g)}" and calls: "ctl_calls c' = ctl_calls c"
  shows "tasks_inv (set_phase c' g (Returned res))"
  using assms(1,2,3,4) same_calls [OF calls]
  unfolding tasks_inv_def set_phase_simps calls call_request_set_phase
  by (auto simp: call_phase_set_phase calls split: if_splits)

lemma tasks_inv_step: "ctl_step c d \<Longrightarrow> tasks_inv c \<Longrightarrow> tasks_inv d"
  by (erule ctl_stepE) (auto simp: at_phase_iff intro: tasks_inv_enter tasks_inv_keep tasks_inv_return)

lemma repository_set_phase:
  "ctl_calls c' = ctl_calls c \<Longrightarrow> call_repository (set_phase c' g ph) = call_repository c"
  using same_calls [of c' c] by (simp add: call_repository_def fun_eq_iff)

lemma phase_set_phase:
  "ctl_calls c' = ctl_calls c \<Longrightarrow> h < length (ctl_calls c) \<Longrightarrow>
     call_phase (set_phase c' g ph) h = (if h = g then ph else call_phase c h)"
  by (simp add: call_phase_def set_phase_def)

lemma executing_set_phase:
  assumes "ctl_calls c' = ctl_calls c" and "g < length (ctl_calls c)"
  shows "executing (set_phase c' g ph) = (if ph = Executing then insert g (executing c) else executing c - {g})"
  using assms by (auto simp: executing_def phase_set_phase [OF assms(1)] split: if_splits)

lemma locks_inv_same:
  assumes "locks_inv c" and "g < length (ctl_calls c)" and "call_phase c g \<noteq> Executing" and "ph \<noteq> Executing"
    and "ctl_locked c' = ctl_locked c" and calls: "ctl_calls c' = ctl_calls c"
  shows "locks_inv (set_phase c' g ph)"
proof -
  have "g \<notin> executing c" using assms(3) by (simp add: executing_def)
  with assms have "executing (set_phase c' g ph) = executing c"
    by (simp add: executing_set_phase [OF calls])
  with assms show ?thesis by (simp add: locks_inv_def repository_set_phase [OF calls])
qed

lemma locks_inv_acquire:
  assumes "locks_inv c" and g: "g < length (ctl_calls c)" and free: "call_repository c g \<notin> ctl_locked c"
    and locked: "ctl_locked c' = insert (call_repository c g) (ctl_locked c)"
    and calls: "ctl_calls c' = ctl_calls c"
  shows "locks_inv (set_phase c' g Executing)"
  using assms by (auto simp: locks_inv_def repository_set_phase [OF calls] executing_set_phase [OF calls])

lemma locks_inv_release:
  assumes inv: "locks_inv c" and g: "g < length (ctl_calls c)" "call_phase c g = Executing" and "ph \<noteq> Executing"
    and locked: "ctl_locked c' = ctl_locked c - {call_repository c g}"
    and calls: "ctl_calls c' = ctl_calls c"
  shows "locks_inv (set_phase c' g ph)"
proof -
  have "g \<in> executing c" using g by (simp add: executing_def)
  with inv have "ctl_locked c - {call_repository c g} = call_repository c ` (executing c - {g})"
    by (auto simp: locks_inv_def inj_on_def)
  with assms show ?thesis
    by (auto simp: locks_inv_def repository_set_phase [OF calls] executing_set_phase [OF calls] inj_on_diff)
qed

lemma locks_inv_enter: "locks_inv c \<Longrightarrow> locks_inv (enter c req)"
proof -
  assume inv: "locks_inv c"
  obtain ph where calls: "ctl_calls (enter c req) = ctl_calls c @ [(req, ph)]"
    and locked: "ctl_locked (enter c req) = ctl_locked c" and ph: "ph \<noteq> Executing"
    using enter_calls [of c req] by fastforce
  note nth = call_nth_append [OF calls]
  have "executing (enter c req) = executing c"
    using nth ph by (auto simp: executing_def calls less_Suc_eq)
  moreover have "\<forall>g \<in> executing c. call_repository (enter c req) g = call_repository c g"
    using nth by (simp add: executing_def call_repository_def)
  ultimately show ?thesis
    using inv inj_on_cong [of "executing c" "call_repository (enter c req)" "call_repository c"]
    by (simp add: locks_inv_def locked cong: image_cong)
qed

lemma locks_inv_step: "ctl_step c d \<Longrightarrow> locks_inv c \<Longrightarrow> locks_inv d"
  by (erule ctl_stepE)
    (auto simp: at_phase_iff call_repository_def [symmetric]
      intro: locks_inv_enter locks_inv_same locks_inv_acquire locks_inv_release)

definition ctl_inv :: "controller \<Rightarrow> bool" where
  "ctl_inv c \<longleftrightarrow> slots_inv c \<and> tasks_inv c \<and> locks_inv c \<and> 0 < ctl_max c"

lemma ctl_max_step: "ctl_step c d \<Longrightarrow> ctl_max d = ctl_max c"
  by (erule ctl_stepE) (auto simp: enter_def)

lemma ctl_inv_reach: "ctl_step\<^sup>*\<^sup>* (new_controller n) c \<Longrightarrow> ctl_inv c \<and> ctl_max c = ctl_max (new_controller n)"
proof (induction rule: rtranclp_induct)
  case base
  show ?case
    by (simp add: ctl_inv_def new_controller_def slots_inv_def tasks_inv_def locks_inv_def executing_def)
next
  case (step c d)
  then show ?case
    by (auto simp: ctl_inv_def ctl_max_step intro: slots_inv_step tasks_inv_step locks_inv_step)
qed

lemma executing_card: "slots_inv c \<Longrightarrow> card (executing c) \<le> ctl_max c"
proof -
  assume inv: "slots_inv c"
  have "card (executing c) \<le> card {g. g < length (ctl_calls c) \<and> has_slot (snd (ctl_calls c ! g))}"
    by (intro card_mono) (auto simp: executing_def call_phase_def)
  also have "\<dots> = length (filter (\<lambda>call. has_slot (snd call)) (ctl_calls c))"
    by (simp add: length_filter_conv_card)
  finally show ?thesis using inv by (simp add: slots_inv_def)
qed

text \<open>
  C4: however the calls of \<open>Execute\<close> interleave, at most \<open>maxParallel\<close> of them (at least one) run
  their operation at a time, two that run concurrently never share a repository, and two calls that
  have not returned never belong to the same task.
\<close>
theorem controller_exclusion:
  assumes "ctl_step\<^sup>*\<^sup>* (new_controller maxParallel) c"
  shows "card (executing c) \<le> max 1 (nat maxParallel) \<and>
    (\<forall>g \<in> executing c. \<forall>h \<in> executing c. g \<noteq> h \<longrightarrow> call_repository c g \<noteq> call_repository c h) \<and>
    (\<forall>g < length (ctl_calls c). \<forall>h < length (ctl_calls c).
       g \<noteq> h \<and> active (call_phase c g) \<and> active (call_phase c h) \<longrightarrow>
       req_TaskID (call_request c g) \<noteq> req_TaskID (call_request c h))"
proof -
  from ctl_inv_reach [OF assms] have inv: "slots_inv c" "tasks_inv c" "locks_inv c"
    and "ctl_max c = (if maxParallel < 1 then 1 else nat maxParallel)"
    by (auto simp: ctl_inv_def new_controller_def)
  with executing_card [of c] have "card (executing c) \<le> max 1 (nat maxParallel)"
    by (auto split: if_splits)
  moreover have "\<forall>g \<in> executing c. \<forall>h \<in> executing c. g \<noteq> h \<longrightarrow> call_repository c g \<noteq> call_repository c h"
    using inv(3) by (auto simp: locks_inv_def inj_on_def)
  ultimately show ?thesis using inv(2) by (simp add: tasks_inv_def)
qed

definition request_of :: "string \<Rightarrow> string \<Rightarrow> run_request" where
  "request_of t r = \<lparr>req_TaskID = t, req_RepositoryID = r, req_MaxAttempts = 3, req_RetryDelay = go_second\<rparr>"

theorem controller_exclusion_witness:
  "card (executing (enter (enter (new_controller 2) (request_of ''t1'' ''r1'')) (request_of ''t2'' ''r1''))) \<le> 2"
proof -
  have "ctl_step\<^sup>*\<^sup>* (new_controller 2) (enter (enter (new_controller 2) (request_of ''t1'' ''r1'')) (request_of ''t2'' ''r1''))"
    by (meson ctl_step.call rtranclp.rtrancl_into_rtrancl rtranclp.rtrancl_refl)
  from controller_exclusion [OF this] show ?thesis by simp
qed



section \<open>Retries are bounded\<close>

definition retried :: "surroundings \<Rightarrow> nat \<Rightarrow> bool" where
  "retried env k \<longleftrightarrow> (\<exists>status err. attempt_result env k = (status, Some err) \<and> err_temporary err \<and>
     \<not> err_context err \<and> \<not> context_done env k)"

lemma retry_loop_facts:
  "0 < left \<Longrightarrow> retry_loop env delay attempt left = (result, waits) \<Longrightarrow>
     attempt \<le> run_Attempts result \<and> run_Attempts result < attempt + left \<and>
     (\<forall>k. attempt \<le> k \<and> k < run_Attempts result \<longrightarrow> retried env k) \<and>
     (\<forall>i < length waits. waits ! i = retry_wait delay (attempt + i)) \<and>
     length waits \<le> run_Attempts result - attempt + 1 \<and>
     (run_Error result = None \<longrightarrow> attempt_result env (run_Attempts result) = (run_Status result, None)) \<and>
     (run_Error result \<noteq> None \<longrightarrow> run_Status result \<in> {Failed, Cancelled}) \<and>
     (run_Status result = Failed \<and> run_Error result \<noteq> None \<and> run_Attempts result + 1 < attempt + left \<longrightarrow>
        \<not> err_temporary (the (run_Error result)))"
proof (induction env delay attempt left arbitrary: result waits rule: retry_loop.induct)
  case (2 env delay attempt left)
  obtain status e where r: "attempt_result env attempt = (status, e)" by fastforce
  show ?case
  proof (cases "\<exists>err. e = Some err \<and> \<not> (err_context err \<or> context_done env attempt) \<and>
      \<not> (\<not> err_temporary err \<or> left = 0) \<and> \<not> wait_cancelled env attempt")
    case False
    with "2.prems" r show ?thesis by (cases e) (auto split: if_splits)
  next
    case True
    then obtain err where e: "e = Some err" "\<not> (err_context err \<or> context_done env attempt)"
      "\<not> (\<not> err_temporary err \<or> left = 0)" "\<not> wait_cancelled env attempt" by blast
    obtain result' waits' where rest: "retry_loop env delay (Suc attempt) left = (result', waits')" by fastforce
    with "2.prems" r e have res: "result = result'" "waits = retry_wait delay attempt # waits'" by auto
    from e have "0 < left" by simp
    note IH = "2.IH" [OF r [symmetric] e this rest]
    have "retried env attempt" using r e by (auto simp: retried_def)
    then have "\<forall>k. attempt \<le> k \<and> k < run_Attempts result' \<longrightarrow> retried env k"
      using IH by (metis le_antisym not_less_eq_eq)
    moreover have "waits ! i = retry_wait delay (attempt + i)" if "i < length waits" for i
      using that IH res by (cases i) auto
    ultimately show ?thesis using IH res by auto
  qed
qed simp

lemma retry_wait_exact:
  "1 \<le> attempt \<Longrightarrow> 0 < delay \<Longrightarrow> delay * 2 ^ (attempt - 1) \<le> max_int64 \<Longrightarrow>
     retry_wait delay attempt = delay * 2 ^ (attempt - 1)"
proof -
  assume "0 < delay" and le: "delay * 2 ^ (attempt - 1) \<le> max_int64"
  have "(2::int) ^ (attempt - 1) \<le> delay * 2 ^ (attempt - 1)" using \<open>0 < delay\<close> by simp
  with le have "2 ^ (attempt - 1) \<le> max_int64" by linarith
  then have "to_int64 (2 ^ (attempt - 1)) = 2 ^ (attempt - 1)"
    by (intro to_int64_id) (auto simp: min_int64_def intro: order_trans [of _ 0])
  moreover have "to_int64 (delay * 2 ^ (attempt - 1)) = delay * 2 ^ (attempt - 1)"
    using le \<open>0 < delay\<close> by (intro to_int64_id) (auto simp: min_int64_def intro: order_trans [of _ 0])
  ultimately show ?thesis by (simp add: retry_wait_def)
qed

text \<open>
  An operation is attempted at least once and at most \<open>MaxAttempts\<close> times; it is attempted again
  only after a temporary failure that is no cancellation, after a wait that doubles from the
  requested delay (or one second) as long as it fits a Go duration; the result without an error is
  the one of the last attempt, and an error leaves the status failed or cancelled.
\<close>
lemma retries_bounded:
  assumes "attempt_all env req = (result, waits)"
  shows "1 \<le> run_Attempts result \<and> int (run_Attempts result) \<le> max 1 (req_MaxAttempts req) \<and>
    (\<forall>k. 1 \<le> k \<and> k < run_Attempts result \<longrightarrow> retried env k) \<and>
    (\<forall>i < length waits. delay_of req * 2 ^ i \<le> max_int64 \<longrightarrow> waits ! i = delay_of req * 2 ^ i) \<and>
    length waits \<le> run_Attempts result \<and>
    (run_Error result = None \<longrightarrow> attempt_result env (run_Attempts result) = (run_Status result, None)) \<and>
    (run_Error result \<noteq> None \<longrightarrow> run_Status result \<in> {Failed, Cancelled})"
proof -
  have "0 < attempts_of req" by (simp add: attempts_of_def)
  from retry_loop_facts [OF this, of env "delay_of req" 1 result waits] assms
  have facts: "1 \<le> run_Attempts result" "run_Attempts result < 1 + attempts_of req"
    "\<forall>k. 1 \<le> k \<and> k < run_Attempts result \<longrightarrow> retried env k"
    "\<forall>i < length waits. waits ! i = retry_wait (delay_of req) (1 + i)"
    "length waits \<le> run_Attempts result - 1 + 1"
    "run_Error result = None \<longrightarrow> attempt_result env (run_Attempts result) = (run_Status result, None)"
    "run_Error result \<noteq> None \<longrightarrow> run_Status result \<in> {Failed, Cancelled}"
    by (auto simp: attempt_all_def)
  have "0 < delay_of req" by (simp add: delay_of_def)
  with facts(4) have "\<forall>i < length waits. delay_of req * 2 ^ i \<le> max_int64 \<longrightarrow> waits ! i = delay_of req * 2 ^ i"
    using retry_wait_exact by simp
  moreover have "int (run_Attempts result) \<le> max 1 (req_MaxAttempts req)"
    using facts(2) by (auto simp: attempts_of_def split: if_splits)
  ultimately show ?thesis using facts by auto
qed

definition flaky :: surroundings where
  "flaky = \<lparr>attempt_result = (\<lambda>k. if k < 3 then (Failed, Some \<lparr>err_context = False, err_temporary = True, err_text = ''locked''\<rparr>)
                                 else (Succeeded, None)),
     context_done = (\<lambda>_. False), wait_cancelled = (\<lambda>_. False)\<rparr>"

lemma retries_bounded_witness:
  "fst (attempt_all flaky (request_of ''t1'' ''r1'')) = \<lparr>run_Status = Succeeded, run_Attempts = 3, run_Error = None\<rparr> \<and>
   retried flaky 1 \<and> retried flaky 2"
proof -
  have "attempt_all flaky (request_of ''t1'' ''r1'') =
      (\<lparr>run_Status = Succeeded, run_Attempts = 3, run_Error = None\<rparr>, [retry_wait go_second 1, retry_wait go_second 2])"
    by (simp add: attempt_all_def attempts_of_def delay_of_def request_of_def flaky_def eval_nat_numeral)
  from this retries_bounded [OF this] show ?thesis by simp
qed

text \<open>
  With the default delay of one second the wait before the 36th attempt has overflowed to a
  negative duration, for which a Go timer fires at once: from there on the back-off is gone.
\<close>
lemma retry_wait_overflows:
  "retry_wait go_second 34 = 8589934592 * go_second \<and> retry_wait go_second 35 < 0 \<and> retry_wait go_second 65 = 0"
  by (simp add: retry_wait_def to_int64_def)

end
