(* ===== verification/Run_Records.thy ===== *)
theory Run_Records
  imports Domain_Model Run_Controller "HOL-Library.Product_Lexorder"
begin

text \<open>
  Run records and audits of src/internal/store/execution.go: runs are started, finished and
  recovered after a restart; the queries for the latest run of a task, its last success and the
  audits by time.

  A summary is a map from keys to Go values; only numbers are read from it. A nullable text column
  that the code reads with \<open>COALESCE(.., '')\<close> is a string, empty for \<open>NULL\<close>.
\<close>

text \<open>
  A value of type \<open>any\<close> in a summary: a signed or unsigned integer, a float, a \<open>json.Number\<close> (what
  its \<open>Int64\<close> answers), or something else.
\<close>

datatype any_value =
    AnyInt int
  | AnyUint "64 word"
  | AnyFloat float64
  | AnyNumber "int option"
  | AnyOther json

type_synonym summary = "(string \<times> any_value) list"

record run_metrics =
  met_DurationMilliseconds :: "int option"
  met_FilesExpected :: "int option"
  met_FilesProcessed :: "int option"
  met_FilesChanged :: "int option"
  met_BytesProcessed :: "int option"
  met_BytesChanged :: "int option"

record run_record =
  rec_ID :: string
  rec_TaskID :: string
  rec_PlanID :: string
  rec_Trigger :: string
  rec_Status :: string
  rec_SnapshotID :: string
  rec_StartedAt :: instant
  rec_FinishedAt :: "instant option"
  rec_AttemptCount :: int
  rec_Summary :: summary
  rec_RawLog :: string
  rec_RawLogExpired :: bool
  rec_Metrics :: run_metrics

record audit_record =
  aud_ID :: nat
  aud_OccurredAt :: instant
  aud_Actor :: string
  aud_Action :: string
  aud_TargetType :: string
  aud_TargetID :: string
  aud_Detail :: json

record run_db =
  rdb_runs :: "run_record list"
  rdb_audits :: "audit_record list"
  rdb_next_audit :: nat
  rdb_task_ids :: "string list"
  rdb_plan_ids :: "string list"

definition no_metrics :: run_metrics where
  "no_metrics = \<lparr>met_DurationMilliseconds = None, met_FilesExpected = None, met_FilesProcessed = None,
     met_FilesChanged = None, met_BytesProcessed = None, met_BytesChanged = None\<rparr>"

text \<open>
  \<open>summaryMetric\<close>: a non-negative 64-bit integer. A float counts when it is whole; 2^63 itself
  converts to the least integer (on amd64) and is refused.
\<close>

definition metric_int :: "any_value \<Rightarrow> int option" where
  "metric_int v =
     (case v of
        AnyInt i \<Rightarrow> Some i
      | AnyUint w \<Rightarrow> if uint w > max_int64 then None else Some (uint w)
      | AnyFloat f \<Rightarrow>
          (case f of
             Finite q \<Rightarrow> if q < 0 \<or> q \<ge> 2 ^ 63 \<or> q \<noteq> of_int \<lfloor>q\<rfloor> then None else Some \<lfloor>q\<rfloor>
           | _ \<Rightarrow> None)
      | AnyNumber n \<Rightarrow> n
      | AnyOther j \<Rightarrow> None)"

definition summary_metric :: "summary \<Rightarrow> string \<Rightarrow> int option" where
  "summary_metric s key =
     (case map_of s key of
        None \<Rightarrow> None
      | Some v \<Rightarrow> (case metric_int v of None \<Rightarrow> None | Some i \<Rightarrow> if i < 0 then None else Some i))"

text \<open>\<open>StartRun\<close> writes the listed columns; the others keep their defaults.\<close>

definition start_run :: "run_db \<Rightarrow> run_record \<Rightarrow> run_db \<times> check" where
  "start_run db r =
     (if rec_TaskID r \<notin> set (rdb_task_ids db) then (db, Some Conflict)
      else if rec_PlanID r \<noteq> [] \<and> rec_PlanID r \<notin> set (rdb_plan_ids db) then (db, Some Conflict)
      else (case insert_row rec_ID
                  (r\<lparr>rec_SnapshotID := [], rec_FinishedAt := None, rec_Summary := [], rec_RawLog := [],
                     rec_RawLogExpired := False, rec_Metrics := no_metrics\<rparr>) (rdb_runs db) of
              None \<Rightarrow> (db, Some Conflict)
            | Some runs \<Rightarrow> (db\<lparr>rdb_runs := runs\<rparr>, None)))"

definition finish_metrics :: "instant \<Rightarrow> instant \<Rightarrow> summary \<Rightarrow> run_metrics" where
  "finish_metrics started finished s =
     (let duration = quot (time_sub finished started) 1000000 in
      \<lparr>met_DurationMilliseconds = Some (if duration < 0 then 0 else duration),
       met_FilesExpected = summary_metric s ''filesExpected'',
       met_FilesProcessed = summary_metric s ''filesProcessed'',
       met_FilesChanged = summary_metric s ''filesChanged'',
       met_BytesProcessed = summary_metric s ''bytesProcessed'',
       met_BytesChanged = summary_metric s ''bytesChanged''\<rparr>)"

definition finish_run ::
  "run_db \<Rightarrow> string \<Rightarrow> string \<Rightarrow> instant \<Rightarrow> int \<Rightarrow> string \<Rightarrow> summary \<Rightarrow> string \<Rightarrow> run_db \<times> check" where
  "finish_run db i status finished attempts snapshot s rawLog =
     (if \<not> snd (parse_terminal_status status)
      then (db, Some (Unsupported ''finish run with non-canonical terminal status'' status))
      else (case row rec_ID i (rdb_runs db) of
              None \<Rightarrow> (db, Some NoRows)
            | Some r \<Rightarrow>
                (db\<lparr>rdb_runs := update_where (\<lambda>r. rec_ID r = i)
                   (\<lambda>q. q\<lparr>rec_Status := status, rec_FinishedAt := Some finished,
                          rec_AttemptCount := attempts, rec_SnapshotID := snapshot, rec_Summary := s,
                          rec_RawLog := rawLog, rec_RawLogExpired := False,
                          rec_Metrics := finish_metrics (rec_StartedAt r) finished s\<rparr>) (rdb_runs db)\<rparr>, None)))"

definition restart_summary :: summary where
  "restart_summary = [(''error'', AnyOther ''service restarted while run was active'')]"

definition recover_runs :: "run_db \<Rightarrow> instant \<Rightarrow> run_db \<times> nat" where
  "recover_runs db t =
     (db\<lparr>rdb_runs := update_where (\<lambda>r. rec_Status r = ''running'')
           (\<lambda>r. r\<lparr>rec_Status := ''failed'', rec_FinishedAt := Some t, rec_Summary := restart_summary\<rparr>) (rdb_runs db)\<rparr>,
      affected (\<lambda>r. rec_Status r = ''running'') (rdb_runs db))"

definition run_by_id :: "run_db \<Rightarrow> string \<Rightarrow> run_record outcome" where
  "run_by_id db i = (case row rec_ID i (rdb_runs db) of None \<Rightarrow> Inl NoRows | Some r \<Rightarrow> Inr r)"

definition clamp_limit :: "int \<Rightarrow> nat" where
  "clamp_limit limit = (if limit < 1 \<or> limit > 1000 then 100 else nat limit)"

definition list_runs :: "run_db \<Rightarrow> int \<Rightarrow> run_record list" where
  "list_runs db limit =
     take (clamp_limit limit) (rev (sort_key (\<lambda>r. format_time (rec_StartedAt r)) (rev (rdb_runs db))))"

text \<open>\<open>COALESCE(finished_at, started_at)\<close>, as stored.\<close>

definition run_end :: "run_record \<Rightarrow> stamp" where
  "run_end r = format_time (case rec_FinishedAt r of Some t \<Rightarrow> t | None \<Rightarrow> rec_StartedAt r)"

definition run_order :: "run_record \<Rightarrow> stamp \<times> stamp \<times> string" where
  "run_order r = (run_end r, format_time (rec_StartedAt r), rec_ID r)"

definition latest_successful_run :: "run_db \<Rightarrow> string \<Rightarrow> run_record outcome" where
  "latest_successful_run db task =
     (case rev (sort_key run_order (filter (\<lambda>r. rec_TaskID r = task \<and> rec_Status r = ''success'' \<and>
                 rec_SnapshotID r \<noteq> []) (rdb_runs db))) of
        [] \<Rightarrow> Inl NoRows
      | r # _ \<Rightarrow> run_by_id db (rec_ID r))"

record task_run_health =
  trh_Latest :: "run_record option"
  trh_LastSuccessAt :: "instant option"

definition task_run_health_of :: "run_db \<Rightarrow> string \<Rightarrow> task_run_health option" where
  "task_run_health_of db task =
     (let runs = filter (\<lambda>r. rec_TaskID r = task) (rdb_runs db);
          successes = filter (\<lambda>r. rec_Status r = ''success'') runs in
      if runs = [] then None
      else Some \<lparr>trh_Latest = Some (last (sort_key (\<lambda>r. (format_time (rec_StartedAt r), rec_ID r)) runs)),
                 trh_LastSuccessAt = (if successes = [] then None
                                      else Some (parse_time (Max (set (map run_end successes)))))\<rparr>)"

section \<open>Audits\<close>

definition append_audit :: "run_db \<Rightarrow> audit_record \<Rightarrow> run_db" where
  "append_audit db a =
     db\<lparr>rdb_audits := rdb_audits db @ [a\<lparr>aud_ID := rdb_next_audit db\<rparr>], rdb_next_audit := Suc (rdb_next_audit db)\<rparr>"

definition list_audits :: "run_db \<Rightarrow> int \<Rightarrow> audit_record list" where
  "list_audits db limit = take (clamp_limit limit) (rev (sort_key aud_ID (rdb_audits db)))"




section \<open>What the operations promise\<close>

lemma metric_int_range: "summary_metric s key = Some i \<Longrightarrow> 0 \<le> i"
  by (auto simp: summary_metric_def split: option.splits if_splits)

definition metrics_nonneg :: "run_metrics \<Rightarrow> bool" where
  "metrics_nonneg m \<longleftrightarrow> (\<forall>f \<in> {met_DurationMilliseconds, met_FilesExpected, met_FilesProcessed,
     met_FilesChanged, met_BytesProcessed, met_BytesChanged}. \<forall>i. f m = Some i \<longrightarrow> 0 \<le> i)"

lemma finish_metrics_nonneg: "metrics_nonneg (finish_metrics started finished s)"
  by (auto simp: metrics_nonneg_def finish_metrics_def Let_def dest: metric_int_range split: if_splits)

text \<open>
  Finishing a run accepts exactly the five terminal statuses and an existing run; then the run
  has that status, its end and metrics that are never negative, whatever the summary holds and even
  when the clock went back. Every other run stays as it is, and a refused call changes nothing.
\<close>
lemma finish_run_spec:
  assumes "finish_run db i status finished attempts snapshot s rawLog = (db', err)"
  shows "(err = None \<longleftrightarrow> status \<in> {Succeeded, Partial, Failed, Cancelled, Skipped} \<and> i \<in> rec_ID ` set (rdb_runs db)) \<and>
    (err \<noteq> None \<longrightarrow> db' = db) \<and>
    (\<forall>q \<in> set (rdb_runs db). rec_ID q \<noteq> i \<longrightarrow> q \<in> set (rdb_runs db')) \<and>
    (err = None \<longrightarrow> (\<forall>r \<in> set (rdb_runs db'). rec_ID r = i \<longrightarrow>
       rec_Status r = status \<and> rec_FinishedAt r = Some finished \<and> metrics_nonneg (rec_Metrics r)))"
proof (cases "snd (parse_terminal_status status) \<and> i \<in> rec_ID ` set (rdb_runs db)")
  case False
  then have "err \<noteq> None" and "db' = db"
    using assms by (auto simp: finish_run_def row_None [symmetric] split: if_splits option.splits)
  with False show ?thesis by (auto simp: parse_terminal_status_def split: if_splits)
next
  case True
  then obtain r where "row rec_ID i (rdb_runs db) = Some r"
    by (cases "row rec_ID i (rdb_runs db)") (auto simp: row_None)
  with assms True have "err = None" and runs: "rdb_runs db' = update_where (\<lambda>r. rec_ID r = i)
      (\<lambda>q. q\<lparr>rec_Status := status, rec_FinishedAt := Some finished, rec_AttemptCount := attempts,
             rec_SnapshotID := snapshot, rec_Summary := s, rec_RawLog := rawLog, rec_RawLogExpired := False,
             rec_Metrics := finish_metrics (rec_StartedAt r) finished s\<rparr>) (rdb_runs db)"
    by (auto simp: finish_run_def)
  moreover have "status \<in> {Succeeded, Partial, Failed, Cancelled, Skipped}"
    using True by (auto simp: parse_terminal_status_def split: if_splits)
  ultimately show ?thesis using True
    by (auto simp: finish_metrics_nonneg intro: update_where_old elim: update_where_cases)
qed

definition run_example :: run_record where
  "run_example = \<lparr>rec_ID = ''run_1'', rec_TaskID = ''t1'', rec_PlanID = [], rec_Trigger = ''manual'',
     rec_Status = ''success'', rec_SnapshotID = ''s1'', rec_StartedAt = 0, rec_FinishedAt = Some nanos,
     rec_AttemptCount = 1, rec_Summary = [], rec_RawLog = ''abc'', rec_RawLogExpired = False,
     rec_Metrics = no_metrics\<rparr>"

definition run_db_example :: run_db where
  "run_db_example = \<lparr>rdb_runs = [run_example],
     rdb_audits = [\<lparr>aud_ID = 1, aud_OccurredAt = 0, aud_Actor = [], aud_Action = ''login'', aud_TargetType = ''user'',
                    aud_TargetID = [], aud_Detail = []\<rparr>],
     rdb_next_audit = 2, rdb_task_ids = [''t1''], rdb_plan_ids = []\<rparr>"

lemma finish_run_spec_witness:
  "snd (finish_run run_db_example ''run_1'' ''done'' nanos 1 [] [] []) \<noteq> None \<and>
   snd (finish_run run_db_example ''run_1'' ''partial'' 0 1 [] [(''filesChanged'', AnyInt (-1))] []) = None"
proof -
  obtain db1 e1 where 1: "finish_run run_db_example ''run_1'' ''done'' nanos 1 [] [] [] = (db1, e1)" by fastforce
  obtain db2 e2 where 2: "finish_run run_db_example ''run_1'' ''partial'' 0 1 [] [(''filesChanged'', AnyInt (-1))] [] = (db2, e2)"
    by fastforce
  from finish_run_spec [OF 1] finish_run_spec [OF 2] 1 2 show ?thesis
    by (auto simp: run_db_example_def run_example_def)
qed

lemma set_run_by_id:
  "unique_keys rec_ID (rdb_runs db) \<Longrightarrow> r \<in> set (rdb_runs db) \<Longrightarrow> run_by_id db (rec_ID r) = Inr r"
  by (simp add: run_by_id_def row_unique)

lemma last_sort_key_max:
  fixes f :: "'a \<Rightarrow> 'b::linorder"
  assumes "rev (sort_key f xs) = x # ys"
  shows "x \<in> set xs \<and> (\<forall>y \<in> set xs. f y \<le> f x)"
proof -
  have e: "sort_key f xs = rev ys @ [x]" using assms by (simp add: rev_swap)
  have "sorted (map f (rev ys @ [x]))" using sorted_sort_key [of f xs] by (simp only: e)
  moreover have "set xs = insert x (set ys)" using arg_cong [OF e, of set] by auto
  ultimately show ?thesis by (auto simp: sorted_append)
qed

lemma run_order_end: "run_order q \<le> run_order r \<Longrightarrow> run_end q \<le> run_end r"
  by (auto simp: run_order_def less_eq_prod_def)

text \<open>
  The latest successful run of a task is found exactly when the task has a successful run with
  a snapshot, and it is one that ended last, in the order of the stored instants.
\<close>
lemma latest_success_is_latest:
  assumes "unique_keys rec_ID (rdb_runs db)"
  shows "(latest_successful_run db task = Inl NoRows \<longleftrightarrow>
      (\<forall>r \<in> set (rdb_runs db). \<not> (rec_TaskID r = task \<and> rec_Status r = ''success'' \<and> rec_SnapshotID r \<noteq> []))) \<and>
    (\<forall>r. latest_successful_run db task = Inr r \<longrightarrow>
      r \<in> set (rdb_runs db) \<and> rec_TaskID r = task \<and> rec_Status r = ''success'' \<and> rec_SnapshotID r \<noteq> [] \<and>
      (\<forall>q \<in> set (rdb_runs db). rec_TaskID q = task \<and> rec_Status q = ''success'' \<and> rec_SnapshotID q \<noteq> [] \<longrightarrow>
         run_end q \<le> run_end r))"
proof -
  let ?ok = "\<lambda>r. rec_TaskID r = task \<and> rec_Status r = ''success'' \<and> rec_SnapshotID r \<noteq> []"
  show ?thesis
  proof (cases "rev (sort_key run_order (filter ?ok (rdb_runs db)))")
    case Nil
    have "set (filter ?ok (rdb_runs db)) = set (rev (sort_key run_order (filter ?ok (rdb_runs db))))" by simp
    also have "\<dots> = {}" by (simp only: Nil list.set)
    finally have none: "\<forall>r \<in> set (rdb_runs db). \<not> ?ok r" by auto
    have "latest_successful_run db task = Inl NoRows"
      using Nil by (simp add: latest_successful_run_def)
    with none show ?thesis by simp
  next
    case (Cons r rs)
    note r = last_sort_key_max [OF Cons]
    then have "latest_successful_run db task = Inr r"
      using Cons set_run_by_id [OF assms] by (simp add: latest_successful_run_def)
    moreover have "latest_successful_run db task \<noteq> Inl NoRows" using calculation by simp
    moreover have "\<exists>r \<in> set (rdb_runs db). ?ok r" using r by auto
    moreover have "run_end q \<le> run_end r" if "q \<in> set (rdb_runs db)" "?ok q" for q
      using r that by (intro run_order_end) simp
    ultimately show ?thesis using r by auto
  qed
qed

lemma latest_success_is_latest_witness:
  "latest_successful_run run_db_example ''t1'' \<noteq> Inl NoRows \<and> latest_successful_run run_db_example ''t2'' = Inl NoRows"
proof -
  have u: "unique_keys rec_ID (rdb_runs run_db_example)"
    by (simp add: run_db_example_def unique_Cons)
  show ?thesis
    using latest_success_is_latest [OF u, of "''t1''"] latest_success_is_latest [OF u, of "''t2''"]
    by (simp add: run_db_example_def run_example_def)
qed



end
