(* ===== verification/Lifecycle_Cleanup.thy ===== *)
theory Lifecycle_Cleanup
  imports Run_Records Schedule_Calendar
begin

text \<open>
  Retention of execution data: src/internal/store/lifecycle.go and src/internal/lifecycle/service.go.
  A cleanup is one transaction over the runs, the repository capacity samples and the audits; a
  preview is the same transaction rolled back. \<open>AddDate\<close> works in the location of the process,
  which is an argument.
\<close>

record lifecycle_policy =
  lp_RunDays :: int
  lp_RawLogDays :: int
  lp_AuditDays :: int
  lp_RawLogMaxBytes :: int

record lifecycle_report =
  lr_LogsCleared :: nat
  lr_RunsDeleted :: nat
  lr_AuditsDeleted :: nat
  lr_CapacitySamplesDeleted :: nat
  lr_RawLogBytesBefore :: int
  lr_RawLogBytesAfter :: int
  lr_CompletedAt :: instant

record lifecycle_db = run_db +
  ldb_samples :: "instant list"
  ldb_policy :: lifecycle_policy
  ldb_policy_updated :: instant

definition validate_lifecycle :: "lifecycle_policy \<Rightarrow> check" where
  "validate_lifecycle p =
     (if lp_RunDays p < 0 \<or> lp_RawLogDays p < 0 \<or> lp_AuditDays p < 0 \<or> lp_RawLogMaxBytes p < 0
      then Some (Invalid ''lifecycle values cannot be negative'')
      else if lp_RunDays p > 36500 \<or> lp_RawLogDays p > 36500 \<or> lp_AuditDays p > 36500
        \<or> lp_RawLogMaxBytes p > 2 ^ 40
      then Some (Invalid ''lifecycle values exceed safe limits'')
      else None)"

definition log_bytes :: "run_record list \<Rightarrow> int" where
  "log_bytes runs = sum_list (map (\<lambda>r. int (length (rec_RawLog r))) runs)"

text \<open>\<open>now.AddDate(0, 0, days)\<close>: the same wall clock reading on another local day.\<close>

definition add_days :: "location \<Rightarrow> instant \<Rightarrow> int \<Rightarrow> instant" where
  "add_days off now days =
     go_date off (wall_clock off (seconds now) + days * day_seconds) * nanos + now mod nanos"

definition finished_before :: "stamp \<Rightarrow> run_record \<Rightarrow> bool" where
  "finished_before cutoff r \<longleftrightarrow> (case rec_FinishedAt r of None \<Rightarrow> False | Some t \<Rightarrow> format_time t < cutoff)"

definition has_log :: "run_record \<Rightarrow> bool" where
  "has_log r \<longleftrightarrow> rec_FinishedAt r \<noteq> None \<and> rec_RawLog r \<noteq> []"

definition clear_log :: "run_record \<Rightarrow> run_record" where
  "clear_log r = r\<lparr>rec_RawLog := [], rec_RawLogExpired := True\<rparr>"

definition log_expired :: "stamp \<Rightarrow> stamp \<Rightarrow> run_record \<Rightarrow> bool" where
  "log_expired logCutoff runCutoff r \<longleftrightarrow>
     finished_before logCutoff r \<and> \<not> finished_before runCutoff r \<and> rec_RawLog r \<noteq> []"

text \<open>The loop that clears the oldest logs until the total fits.\<close>

fun trim_logs :: "int \<Rightarrow> (string \<times> int) list \<Rightarrow> run_record list \<Rightarrow> int \<Rightarrow> nat \<Rightarrow> run_record list \<times> int \<times> nat" where
  "trim_logs limit [] runs bytes cleared = (runs, bytes, cleared)"
| "trim_logs limit ((i, sz) # logs) runs bytes cleared =
     (if bytes \<le> limit then (runs, bytes, cleared)
      else let P = (\<lambda>r. rec_ID r = i \<and> has_log r) in
        if affected P runs = 1
        then trim_logs limit logs (update_where P clear_log runs) (bytes - sz) (Suc cleared)
        else trim_logs limit logs (update_where P clear_log runs) bytes cleared)"

definition log_order :: "run_record \<Rightarrow> stamp \<times> stamp \<times> string" where
  "log_order r = (format_time (the (rec_FinishedAt r)), format_time (rec_StartedAt r), rec_ID r)"

definition log_rows :: "run_record list \<Rightarrow> (string \<times> int) list" where
  "log_rows runs = map (\<lambda>r. (rec_ID r, int (length (rec_RawLog r)))) (sort_key log_order (filter has_log runs))"

definition cutoff :: "location \<Rightarrow> instant \<Rightarrow> int \<Rightarrow> stamp" where
  "cutoff off now days = format_time (add_days off now (- days))"

text \<open>By age: the runs whose log is emptied, and the runs that are left.\<close>

definition runs_expired :: "stamp \<Rightarrow> stamp \<Rightarrow> run_record list \<Rightarrow> run_record list" where
  "runs_expired logCutoff runCutoff runs = update_where (log_expired logCutoff runCutoff) clear_log runs"

definition runs_kept :: "stamp \<Rightarrow> stamp \<Rightarrow> run_record list \<Rightarrow> run_record list" where
  "runs_kept logCutoff runCutoff runs =
     delete_where (finished_before runCutoff) (runs_expired logCutoff runCutoff runs)"

text \<open>By volume.\<close>

definition cap_logs :: "int \<Rightarrow> run_record list \<Rightarrow> nat \<Rightarrow> run_record list \<times> int \<times> nat" where
  "cap_logs limit runs cleared =
     (if log_bytes runs > limit then trim_logs limit (log_rows runs) runs (log_bytes runs) cleared
      else (runs, log_bytes runs, cleared))"

definition evaluate_cleanup ::
  "location \<Rightarrow> lifecycle_db \<Rightarrow> lifecycle_policy \<Rightarrow> instant \<Rightarrow> lifecycle_db \<times> lifecycle_report" where
  "evaluate_cleanup off db policy now =
     (let logCutoff = cutoff off now (lp_RawLogDays policy);
          runCutoff = cutoff off now (lp_RunDays policy);
          auditCutoff = cutoff off now (lp_AuditDays policy);
          old_sample = (\<lambda>t. format_time t < runCutoff);
          old_audit = (\<lambda>a. format_time (aud_OccurredAt a) < auditCutoff) in
      case cap_logs (lp_RawLogMaxBytes policy) (runs_kept logCutoff runCutoff (rdb_runs db))
             (affected (log_expired logCutoff runCutoff) (rdb_runs db)) of
        (runs, bytes, cleared) \<Rightarrow>
          (db\<lparr>rdb_runs := runs, rdb_audits := delete_where old_audit (rdb_audits db),
              ldb_samples := delete_where old_sample (ldb_samples db)\<rparr>,
           \<lparr>lr_LogsCleared = cleared,
            lr_RunsDeleted = affected (finished_before runCutoff) (runs_expired logCutoff runCutoff (rdb_runs db)),
            lr_AuditsDeleted = affected old_audit (rdb_audits db),
            lr_CapacitySamplesDeleted = affected old_sample (ldb_samples db),
            lr_RawLogBytesBefore = log_bytes (rdb_runs db),
            lr_RawLogBytesAfter = (if bytes < 0 then 0 else bytes),
            lr_CompletedAt = now\<rparr>))"

definition cleanup_execution_data ::
  "location \<Rightarrow> lifecycle_db \<Rightarrow> lifecycle_policy \<Rightarrow> instant \<Rightarrow> lifecycle_db \<times> lifecycle_report" where
  "cleanup_execution_data off db policy now = evaluate_cleanup off db policy now"

definition preview_cleanup ::
  "location \<Rightarrow> lifecycle_db \<Rightarrow> lifecycle_policy \<Rightarrow> instant \<Rightarrow> lifecycle_db \<times> lifecycle_report" where
  "preview_cleanup off db policy now = (db, snd (evaluate_cleanup off db policy now))"

section \<open>The service\<close>

definition save_policy :: "lifecycle_db \<Rightarrow> lifecycle_policy \<Rightarrow> instant \<Rightarrow> lifecycle_db \<times> check" where
  "save_policy db policy now =
     (case validate_lifecycle policy of
        Some err \<Rightarrow> (db, Some err)
      | None \<Rightarrow> (db\<lparr>ldb_policy := policy, ldb_policy_updated := now\<rparr>, None))"

text \<open>The detail of the audit that a cleanup appends is the encoding of its report, an argument.\<close>

definition append_lifecycle_audit :: "lifecycle_db \<Rightarrow> audit_record \<Rightarrow> lifecycle_db" where
  "append_lifecycle_audit db a =
     db\<lparr>rdb_audits := rdb_audits db @ [a\<lparr>aud_ID := rdb_next_audit db\<rparr>], rdb_next_audit := Suc (rdb_next_audit db)\<rparr>"

definition cleanup ::
  "(lifecycle_report \<Rightarrow> json) \<Rightarrow> location \<Rightarrow> lifecycle_db \<Rightarrow> lifecycle_policy \<Rightarrow> instant \<Rightarrow>
   lifecycle_db \<times> lifecycle_report outcome" where
  "cleanup encode off db policy now =
     (case validate_lifecycle policy of
        Some err \<Rightarrow> (db, Inl err)
      | None \<Rightarrow>
          let (db', report) = cleanup_execution_data off db policy now in
          (append_lifecycle_audit db'
             \<lparr>aud_ID = 0, aud_OccurredAt = now, aud_Actor = [], aud_Action = ''lifecycle.cleanup'',
              aud_TargetType = ''application'', aud_TargetID = [], aud_Detail = encode report\<rparr>,
           Inr report))"

definition cleanup_configured ::
  "(lifecycle_report \<Rightarrow> json) \<Rightarrow> location \<Rightarrow> lifecycle_db \<Rightarrow> instant \<Rightarrow> lifecycle_db \<times> lifecycle_report outcome" where
  "cleanup_configured encode off db now = cleanup encode off db (ldb_policy db) now"

definition preview_configured ::
  "location \<Rightarrow> lifecycle_db \<Rightarrow> instant \<Rightarrow> lifecycle_db \<times> lifecycle_report outcome" where
  "preview_configured off db now =
     (case validate_lifecycle (ldb_policy db) of
        Some err \<Rightarrow> (db, Inl err)
      | None \<Rightarrow> (case preview_cleanup off db (ldb_policy db) now of (db', report) \<Rightarrow> (db', Inr report)))"

section \<open>The report tells the truth\<close>



lemma clear_log_simps [simp]:
  "rec_ID (clear_log r) = rec_ID r" "rec_RawLog (clear_log r) = []" "rec_FinishedAt (clear_log r) = rec_FinishedAt r"
  by (simp_all add: clear_log_def)













end
