(* ===== verification/Operation_Store.thy ===== *)
theory Operation_Store
  imports Timestamps
begin

text \<open>
  The operations of src/internal/store/operations.go: created, started, staged, finished, their
  cleanup resolved, and recovered when the service restarts. A detail is a map from keys to encoded
  values; an update merges its keys into it. \<open>UpdateOperationStage\<close>, \<open>FinishOperation\<close> and
  \<open>ResolveOperationCleanup\<close> read the row and then update it; the model performs both in one step.
\<close>

type_synonym detail = "string \<rightharpoonup> string"

record operation =
  op_ID :: string
  op_Kind :: string
  op_Actor :: string
  op_RepositoryID :: string
  op_TaskID :: string
  op_SnapshotID :: string
  op_Target :: string
  op_Status :: string
  op_Stage :: string
  op_CreatedAt :: instant
  op_StartedAt :: "instant option"
  op_FinishedAt :: "instant option"
  op_AttemptCount :: int
  op_ErrorSummary :: string
  op_Detail :: detail

record operation_db =
  odb_operations :: "operation list"
  odb_tasks :: "string list"

abbreviation application_update :: string where "application_update \<equiv> ''application_update''"

definition op_active :: "operation \<Rightarrow> bool" where
  "op_active r \<longleftrightarrow> op_Status r \<in> set [''queued'', ''running'']"

text \<open>The unique index \<open>operations_one_active_application_update\<close>.\<close>

definition active_update :: "operation \<Rightarrow> bool" where
  "active_update r \<longleftrightarrow> op_Kind r = application_update \<and> op_active r"

definition transition_result :: "nat \<Rightarrow> check" where
  "transition_result n = (if n \<noteq> 1 then Some (Invalid ''operation transition conflict'') else None)"

definition create_operation :: "operation_db \<Rightarrow> operation \<Rightarrow> operation_db \<times> check" where
  "create_operation db r =
     (if op_TaskID r \<noteq> [] \<and> op_TaskID r \<notin> set (odb_tasks db) then (db, Some Conflict)
      else if op_ID r \<in> set (map op_ID (odb_operations db)) \<or>
        (active_update r \<and> list_ex active_update (odb_operations db))
      then (db, Some Constraint)
      else (db\<lparr>odb_operations := odb_operations db @ [r\<lparr>op_StartedAt := None, op_FinishedAt := None\<rparr>]\<rparr>, None))"

definition start_operation :: "operation_db \<Rightarrow> string \<Rightarrow> string \<Rightarrow> instant \<Rightarrow> operation_db \<times> check" where
  "start_operation db i stage started =
     (let P = (\<lambda>r. op_ID r = i \<and> op_Status r = ''queued'') in
      (db\<lparr>odb_operations := update_where P
            (\<lambda>r. r\<lparr>op_Status := ''running'', op_Stage := stage, op_StartedAt := Some started,
                    op_AttemptCount := op_AttemptCount r + 1\<rparr>) (odb_operations db)\<rparr>,
       transition_result (affected P (odb_operations db))))"

definition operation_by_id :: "operation_db \<Rightarrow> string \<Rightarrow> operation outcome" where
  "operation_by_id db i = (case row op_ID i (odb_operations db) of None \<Rightarrow> Inl NoRows | Some r \<Rightarrow> Inr r)"

definition update_operation_stage :: "operation_db \<Rightarrow> string \<Rightarrow> string \<Rightarrow> detail \<Rightarrow> operation_db \<times> check" where
  "update_operation_stage db i stage detail =
     (case operation_by_id db i of
        Inl err \<Rightarrow> (db, Some err)
      | Inr current \<Rightarrow>
          let merged = op_Detail current ++ detail;
              P = (\<lambda>r. op_ID r = i \<and> op_Status r = ''running'') in
          (db\<lparr>odb_operations := update_where P (\<lambda>r. r\<lparr>op_Stage := stage, op_Detail := merged\<rparr>) (odb_operations db)\<rparr>,
           transition_result (affected P (odb_operations db))))"

definition finish_operation ::
  "operation_db \<Rightarrow> string \<Rightarrow> string \<Rightarrow> string \<Rightarrow> instant \<Rightarrow> string \<Rightarrow> detail \<Rightarrow> operation_db \<times> check" where
  "finish_operation db i status stage finished errorSummary detail =
     (case operation_by_id db i of
        Inl err \<Rightarrow> (db, Some err)
      | Inr current \<Rightarrow>
          let merged = op_Detail current ++ detail;
              P = (\<lambda>r. op_ID r = i \<and> op_active r) in
          (db\<lparr>odb_operations := update_where P
                (\<lambda>r. r\<lparr>op_Status := status, op_Stage := stage, op_FinishedAt := Some finished,
                        op_ErrorSummary := errorSummary, op_Detail := merged\<rparr>) (odb_operations db)\<rparr>,
           transition_result (affected P (odb_operations db))))"

text \<open>The stored text of the resolution time goes into the detail; \<open>render\<close> is that text.\<close>

definition resolve_cleanup ::
  "(stamp \<Rightarrow> string) \<Rightarrow> operation_db \<Rightarrow> string \<Rightarrow> instant \<Rightarrow> detail \<Rightarrow> operation_db \<times> check" where
  "resolve_cleanup render db i resolved detail =
     (case operation_by_id db i of
        Inl err \<Rightarrow> (db, Some err)
      | Inr current \<Rightarrow>
          let merged = (op_Detail current ++ detail)(''cleanupResolvedAt'' \<mapsto> render (format_time resolved));
              P = (\<lambda>r. op_ID r = i \<and> op_Status r = ''cleanup_required'') in
          (db\<lparr>odb_operations := update_where P
                (\<lambda>r. r\<lparr>op_Status := ''failed'', op_Stage := ''cleanup_resolved'', op_Detail := merged\<rparr>)
                (odb_operations db)\<rparr>,
           transition_result (affected P (odb_operations db))))"

definition list_operations :: "operation_db \<Rightarrow> int \<Rightarrow> string \<Rightarrow> string \<Rightarrow> operation list" where
  "list_operations db limit kind status =
     take (if limit < 1 \<or> limit > 1000 then 100 else nat limit)
       (rev (sort_key (\<lambda>r. format_time (op_CreatedAt r)) (rev
          (filter (\<lambda>r. (kind = [] \<or> op_Kind r = kind) \<and> (status = [] \<or> op_Status r = status))
             (odb_operations db)))))"

definition active_application_update :: "operation_db \<Rightarrow> operation outcome" where
  "active_application_update db =
     (case rev (sort_key (\<lambda>r. format_time (op_CreatedAt r)) (rev (filter active_update (odb_operations db)))) of
        [] \<Rightarrow> Inl NoRows
      | r # _ \<Rightarrow> Inr r)"

definition update_stages :: "string list" where
  "update_stages = [''launching_updater'', ''downloading_release'', ''release_verified'', ''saving_rollback'',
     ''replacing_binary'', ''restarting_service'', ''verifying_health'', ''rolling_back'',
     ''verifying_rollback'', ''rollback_verified'']"

text \<open>
  The updates a restart leaves alone. For a row without a start the SQL comparison is \<open>NULL\<close>, so the
  row is not updated either.
\<close>

definition update_in_flight :: "instant \<Rightarrow> operation \<Rightarrow> bool" where
  "update_in_flight now r \<longleftrightarrow> op_Kind r = application_update \<and> op_Stage r \<in> set update_stages \<and>
     (case op_StartedAt r of None \<Rightarrow> True | Some t \<Rightarrow> format_time (now - 10 * go_minute) \<le> format_time t)"

definition recover_operations :: "operation_db \<Rightarrow> instant \<Rightarrow> operation_db \<times> nat" where
  "recover_operations db now =
     (let P = (\<lambda>r. op_active r \<and> \<not> update_in_flight now r) in
      (db\<lparr>odb_operations := update_where P
            (\<lambda>r. r\<lparr>op_Status := ''failed'', op_Stage := ''interrupted'', op_FinishedAt := Some now,
                    op_ErrorSummary := ''service restarted while operation was active''\<rparr>) (odb_operations db)\<rparr>,
       affected P (odb_operations db)))"

section \<open>The life of an operation\<close>

datatype op_request =
    CreateOp operation
  | StartOp string string instant
  | StageOp string string detail
  | FinishOp string string string instant string detail
  | ResolveOp string instant detail
  | RecoverOp instant

fun op_step :: "(stamp \<Rightarrow> string) \<Rightarrow> operation_db \<Rightarrow> op_request \<Rightarrow> operation_db \<times> check" where
  "op_step render db (CreateOp r) = create_operation db r"
| "op_step render db (StartOp i stage t) = start_operation db i stage t"
| "op_step render db (StageOp i stage d) = update_operation_stage db i stage d"
| "op_step render db (FinishOp i status stage t e d) = finish_operation db i status stage t e d"
| "op_step render db (ResolveOp i t d) = resolve_cleanup render db i t d"
| "op_step render db (RecoverOp t) = (fst (recover_operations db t), None)"

definition op_inv :: "operation_db \<Rightarrow> bool" where
  "op_inv db \<longleftrightarrow> unique_keys op_ID (odb_operations db) \<and>
     length (filter active_update (odb_operations db)) \<le> 1 \<and>
     (\<forall>r \<in> set (odb_operations db). op_Status r = ''running'' \<longrightarrow> op_StartedAt r \<noteq> None)"

text \<open>What the operation manager asks: operations are created queued and finished in another status.\<close>

fun request_ok :: "op_request \<Rightarrow> bool" where
  "request_ok (CreateOp r) \<longleftrightarrow> op_Status r = ''queued''"
| "request_ok (FinishOp i status stage t e d) \<longleftrightarrow> status \<notin> {''queued'', ''running''}"
| "request_ok req \<longleftrightarrow> True"

text \<open>A status may only be followed by these.\<close>

inductive may_follow :: "string \<Rightarrow> string \<Rightarrow> bool" where
  same: "may_follow s s"
| started: "may_follow ''queued'' ''running''"
| ended: "s \<in> {''queued'', ''running''} \<Longrightarrow> t \<notin> {''queued'', ''running''} \<Longrightarrow> may_follow s t"
| resolved: "may_follow ''cleanup_required'' ''failed''"

inductive_simps may_follow_iff: "may_follow s t"

definition settled :: "string \<Rightarrow> bool" where
  "settled status \<longleftrightarrow> status \<notin> {''queued'', ''running'', ''cleanup_required''}"

text \<open>An update of some rows: where they may go, and that settled rows stay.\<close>

definition moves_rows :: "operation list \<Rightarrow> operation list \<Rightarrow> bool" where
  "moves_rows t u \<longleftrightarrow> (\<forall>r \<in> set t. \<exists>q \<in> set u. op_ID q = op_ID r \<and> may_follow (op_Status r) (op_Status q) \<and>
     (settled (op_Status r) \<longrightarrow> q = r))"

lemma moves_rows_refl: "moves_rows t t"
  by (auto simp: moves_rows_def intro: same)

lemma moves_rows_append: "moves_rows t (t @ u)"
  by (auto simp: moves_rows_def intro: same)

lemma moves_rows_update:
  assumes "\<And>r. op_ID (f r) = op_ID r"
    and "\<And>r. P r \<Longrightarrow> may_follow (op_Status r) (op_Status (f r)) \<and> \<not> settled (op_Status r)"
  shows "moves_rows t (update_where P f t)"
  unfolding moves_rows_def
proof
  fix r assume r: "r \<in> set t"
  show "\<exists>q \<in> set (update_where P f t). op_ID q = op_ID r \<and> may_follow (op_Status r) (op_Status q) \<and>
     (settled (op_Status r) \<longrightarrow> q = r)"
  proof (cases "P r")
    case True
    with r assms show ?thesis by (intro bexI [of _ "f r"] update_where_new) auto
  next
    case False
    with r show ?thesis by (intro bexI [of _ r] update_where_old) (auto intro: same)
  qed
qed

lemma active_updates_update:
  assumes "\<And>r. P r \<Longrightarrow> active_update (f r) \<Longrightarrow> active_update r"
  shows "length (filter active_update (update_where P f t)) \<le> length (filter active_update t)"
  using assms by (induction t) (auto simp: update_where_Cons)

lemma op_inv_update:
  assumes "op_inv db" and "\<And>r. op_ID (f r) = op_ID r" and "\<And>r. P r \<Longrightarrow> active_update (f r) \<Longrightarrow> active_update r"
    and "\<And>r. P r \<Longrightarrow> op_Status (f r) = ''running'' \<Longrightarrow>
           op_StartedAt (f r) \<noteq> None \<or> op_Status r = ''running'' \<and> op_StartedAt (f r) = op_StartedAt r"
  shows "op_inv (db\<lparr>odb_operations := update_where P f (odb_operations db)\<rparr>)"
proof -
  have "op_StartedAt q \<noteq> None" if q: "q \<in> set (update_where P f (odb_operations db))" "op_Status q = ''running''" for q
    using q(1)
  proof (cases rule: update_where_cases)
    case (1 s)
    with assms(1) q(2) show ?thesis by (simp add: op_inv_def)
  next
    case (2 s)
    with assms(4) [of s] q(2) have "op_StartedAt q \<noteq> None \<or>
        op_Status s = ''running'' \<and> op_StartedAt q = op_StartedAt s" by simp
    with assms(1) 2 show ?thesis by (auto simp: op_inv_def)
  qed
  moreover have "length (filter active_update (update_where P f (odb_operations db))) \<le> 1"
    using active_updates_update [of P f "odb_operations db"] assms(1,3) by (force simp: op_inv_def)
  ultimately show ?thesis using assms(1,2) by (simp add: op_inv_def unique_update_where)
qed

lemmas op_step_defs =
  start_operation_def update_operation_stage_def finish_operation_def resolve_cleanup_def
  recover_operations_def Let_def op_active_def active_update_def settled_def

lemma op_inv_step: "op_inv db \<Longrightarrow> request_ok req \<Longrightarrow> op_inv (fst (op_step render db req))"
proof (cases req)
  case (CreateOp r)
  assume "op_inv db" and "request_ok req"
  with CreateOp show ?thesis
    by (auto simp: op_inv_def create_operation_def unique_snoc list_ex_iff filter_empty_conv
        active_update_def op_active_def)
qed (auto simp: op_step_defs split: sum.splits intro!: op_inv_update)

lemma op_moves_step: "request_ok req \<Longrightarrow> moves_rows (odb_operations db) (odb_operations (fst (op_step render db req)))"
proof (cases req)
  case (CreateOp r)
  then show ?thesis by (simp add: create_operation_def moves_rows_refl moves_rows_append)
qed (auto simp: op_step_defs may_follow_iff split: sum.splits intro!: moves_rows_update moves_rows_refl)

text \<open>
  C26: an operation moves forward only. Whatever the operation manager asks of the store, a queued
  operation becomes running or ends, a running one ends, a cleanup that is required becomes a
  failure, an operation that has otherwise ended is never changed again, and there is at most one
  active application update.
\<close>
theorem operation_moves_forward:
  assumes "op_inv db" and "request_ok req" and "r \<in> set (odb_operations db)"
  shows "op_inv (fst (op_step render db req)) \<and>
    (\<exists>q \<in> set (odb_operations (fst (op_step render db req))). op_ID q = op_ID r \<and>
       may_follow (op_Status r) (op_Status q) \<and>
       (op_Status r \<notin> {''queued'', ''running'', ''cleanup_required''} \<longrightarrow> q = r)) \<and>
    length (filter active_update (odb_operations (fst (op_step render db req)))) \<le> 1"
proof -
  have inv: "op_inv (fst (op_step render db req))" using assms(1,2) by (rule op_inv_step)
  have "moves_rows (odb_operations db) (odb_operations (fst (op_step render db req)))"
    using assms(2) by (rule op_moves_step)
  with assms(3) inv show ?thesis by (auto simp: moves_rows_def settled_def op_inv_def)
qed

definition operation_example :: operation where
  "operation_example = \<lparr>op_ID = ''op_1'', op_Kind = ''application_update'', op_Actor = ''admin'', op_RepositoryID = [],
     op_TaskID = [], op_SnapshotID = [], op_Target = [], op_Status = ''queued'', op_Stage = ''queued'',
     op_CreatedAt = 0, op_StartedAt = None, op_FinishedAt = None, op_AttemptCount = 0, op_ErrorSummary = [],
     op_Detail = Map.empty\<rparr>"

definition operation_db_example :: operation_db where
  "operation_db_example = \<lparr>odb_operations = [operation_example], odb_tasks = []\<rparr>"

theorem operation_moves_forward_witness:
  "\<exists>q \<in> set (odb_operations (fst (op_step (\<lambda>_. []) operation_db_example (StartOp ''op_1'' ''starting'' 0)))).
     op_ID q = ''op_1'' \<and> may_follow ''queued'' (op_Status q)"
  using operation_moves_forward [of operation_db_example "StartOp ''op_1'' ''starting'' 0" operation_example]
  by (auto simp: op_inv_def operation_db_example_def operation_example_def unique_Cons)

text \<open>
  After the recovery of a restart the only operations that are still active are application
  updates in one of the updater's stages that started within the last ten minutes; every operation
  it ended is failed and interrupted, and their number is what it reports.
\<close>
lemma recovery_leaves_updates:
  assumes "op_inv db" and "recover_operations db now = (db', n)"
  shows "(\<forall>r \<in> set (odb_operations db'). op_active r \<longrightarrow>
      r \<in> set (odb_operations db) \<and> op_Kind r = application_update \<and> op_Stage r \<in> set update_stages \<and>
      (op_Status r = ''running'' \<longrightarrow> (\<exists>t. op_StartedAt r = Some t \<and> now - 10 * go_minute < t + nanos))) \<and>
    n = length (filter (\<lambda>r. op_active r \<and> \<not> update_in_flight now r) (odb_operations db)) \<and>
    length (filter op_active (odb_operations db')) + n = length (filter op_active (odb_operations db))"
proof (intro conjI ballI impI)
  let ?P = "\<lambda>r. op_active r \<and> \<not> update_in_flight now r"
  let ?f = "\<lambda>r. r\<lparr>op_Status := ''failed'', op_Stage := ''interrupted'', op_FinishedAt := Some now,
      op_ErrorSummary := ''service restarted while operation was active''\<rparr>"
  have db': "odb_operations db' = update_where ?P ?f (odb_operations db)" and n: "n = affected ?P (odb_operations db)"
    using assms(2) by (auto simp: recover_operations_def Let_def)
  show "n = length (filter ?P (odb_operations db))" using n by (simp add: affected_def)
  have "length (filter op_active (update_where ?P ?f t)) + length (filter ?P t) = length (filter op_active t)" for t
    by (induction t) (auto simp: update_where_Cons op_active_def)
  then show "length (filter op_active (odb_operations db')) + n = length (filter op_active (odb_operations db))"
    by (simp add: db' n affected_def)
  fix r assume r: "r \<in> set (odb_operations db')" "op_active r"
  from r(1) have old: "r \<in> set (odb_operations db) \<and> update_in_flight now r"
    unfolding db'
  proof (cases rule: update_where_cases)
    case (1 s)
    with r(2) show ?thesis by auto
  next
    case (2 s)
    with r(2) show ?thesis by (simp add: op_active_def)
  qed
  then show "r \<in> set (odb_operations db)" and "op_Kind r = application_update" and "op_Stage r \<in> set update_stages"
    by (simp_all add: update_in_flight_def)
  assume "op_Status r = ''running''"
  with old assms(1) obtain t where t: "op_StartedAt r = Some t" by (auto simp: op_inv_def)
  with old have "format_time (now - 10 * go_minute) \<le> format_time t" by (simp add: update_in_flight_def)
  then have "\<not> t + nanos \<le> now - 10 * go_minute" using stamp_less_apart by (meson not_less)
  with t show "\<exists>t. op_StartedAt r = Some t \<and> now - 10 * go_minute < t + nanos" by auto
qed

lemma recovery_leaves_updates_witness:
  "snd (recover_operations operation_db_example go_hour) = 1"
proof -
  obtain db' n where r: "recover_operations operation_db_example go_hour = (db', n)" by fastforce
  have "op_inv operation_db_example"
    by (simp add: op_inv_def operation_db_example_def operation_example_def unique_Cons)
  from recovery_leaves_updates [OF this r] r show ?thesis
    by (simp add: operation_db_example_def operation_example_def op_active_def update_in_flight_def update_stages_def)
qed

end
