(* ===== verification/Operation_Manager.thy ===== *)
theory Operation_Manager
  imports Operation_Store
begin

text \<open>
  The operation manager of src/internal/operation/manager.go: it creates an operation in its
  persistence, runs its work in a goroutine, and records how it ended; operations started under a
  unique key exclude each other. What it needs of the persistence is the record \<open>persistence\<close> of
  functions over a store state; \<open>operation_persistence\<close> is the contract, which the store of
  \<open>Operation_Store\<close> fulfils.

  The critical sections of the manager's mutex are single steps. \<open>mg_active\<close> holds the unique key of
  each active operation, \<open>mg_unique\<close> the operation of each key, empty while it is being started.
\<close>

record 's persistence =
  p_create :: "'s \<Rightarrow> operation \<Rightarrow> 's \<times> check"
  p_start :: "'s \<Rightarrow> string \<Rightarrow> string \<Rightarrow> instant \<Rightarrow> 's \<times> check"
  p_stage :: "'s \<Rightarrow> string \<Rightarrow> string \<Rightarrow> detail \<Rightarrow> 's \<times> check"
  p_finish :: "'s \<Rightarrow> string \<Rightarrow> string \<Rightarrow> string \<Rightarrow> instant \<Rightarrow> string \<Rightarrow> detail \<Rightarrow> 's \<times> check"
  p_lookup :: "'s \<Rightarrow> string \<Rightarrow> operation outcome"
  p_audit :: "'s \<Rightarrow> string \<Rightarrow> string \<Rightarrow> instant \<Rightarrow> 's"

record 's manager =
  mg_store :: 's
  mg_active :: "string \<rightharpoonup> string"
  mg_unique :: "string \<rightharpoonup> string"
  mg_closed :: bool
  mg_cancelled :: "string set"

record start_request =
  sr_Kind :: string
  sr_Actor :: string
  sr_RepositoryID :: string
  sr_TaskID :: string
  sr_SnapshotID :: string
  sr_Target :: string
  sr_Detail :: detail

text \<open>What \<open>classify\<close> and \<open>summarize\<close> see of the error of some work.\<close>

record work_error =
  we_context :: bool
  we_residual :: string
  we_cleanup :: bool
  we_text :: string

definition classify :: "bool \<Rightarrow> work_error option \<Rightarrow> string \<times> string \<times> detail" where
  "classify context_done err =
     (case err of
        None \<Rightarrow> (''success'', ''completed'', Map.empty)
      | Some e \<Rightarrow>
          if we_context e \<or> context_done then (''cancelled'', ''cancelled'', Map.empty)
          else let detail = (if we_residual e \<noteq> [] then [''residualPath'' \<mapsto> we_residual e] else Map.empty);
                   required = (we_residual e \<noteq> [] \<or> we_cleanup e) in
            if required then (''cleanup_required'', ''cleanup'', detail)
            else (''failed'', ''failed'', detail))"

definition summarize :: "work_error option \<Rightarrow> string" where
  "summarize err = (case err of None \<Rightarrow> [] | Some e \<Rightarrow> take 2000 (trim_space (we_text e)))"

definition operation_terminal :: "string \<Rightarrow> bool" where
  "operation_terminal status \<longleftrightarrow> status \<in> set [''success'', ''partial'', ''failed'', ''cancelled'', ''cleanup_required'']"

section \<open>Starting\<close>

definition new_operation :: "start_request \<Rightarrow> string \<Rightarrow> instant \<Rightarrow> operation" where
  "new_operation req i now =
     \<lparr>op_ID = i, op_Kind = sr_Kind req, op_Actor = sr_Actor req, op_RepositoryID = sr_RepositoryID req,
      op_TaskID = sr_TaskID req, op_SnapshotID = sr_SnapshotID req, op_Target = sr_Target req,
      op_Status = ''queued'', op_Stage = ''queued'', op_CreatedAt = now, op_StartedAt = None,
      op_FinishedAt = None, op_AttemptCount = 0, op_ErrorSummary = [], op_Detail = sr_Detail req\<rparr>"

text \<open>The private \<open>start\<close>, for a unique key or the empty key.\<close>

definition launch ::
  "'s persistence \<Rightarrow> 's manager \<Rightarrow> string \<Rightarrow> start_request \<Rightarrow> string \<Rightarrow> instant \<Rightarrow> 's manager \<times> operation outcome" where
  "launch P m key req i now =
     (if blank (sr_Kind req) \<or> blank (sr_Actor req)
      then (m, Inl (Invalid ''operation kind, actor and work are required''))
      else if i = [] then (m, Inl (Invalid ''operation id is required''))
      else (case p_create P (mg_store m) (new_operation req i now) of
              (s, Some err) \<Rightarrow> (m\<lparr>mg_store := s\<rparr>, Inl err)
            | (s, None) \<Rightarrow>
                let s' = p_audit P s ''operation.start'' i now in
                if mg_closed m then
                  (m\<lparr>mg_store := fst (p_finish P s' i ''cancelled'' ''cancelled'' now ''operation runtime is closed'' Map.empty)\<rparr>,
                   Inl (Invalid ''operation runtime is closed''))
                else
                  (m\<lparr>mg_store := s', mg_active := (mg_active m)(i \<mapsto> key),
                     mg_unique := (if key \<noteq> [] then (mg_unique m)(key \<mapsto> i) else mg_unique m)\<rparr>,
                   Inr (new_operation req i now))))"

definition reserve :: "'s manager \<Rightarrow> string \<Rightarrow> 's manager" where
  "reserve m key = m\<lparr>mg_unique := (mg_unique m)(key \<mapsto> [])\<rparr>"

definition abandon :: "'s manager \<Rightarrow> string \<Rightarrow> 's manager" where
  "abandon m key = m\<lparr>mg_unique := (mg_unique m)(key := None)\<rparr>"

definition start_operation_unique ::
  "'s persistence \<Rightarrow> 's manager \<Rightarrow> string \<Rightarrow> start_request \<Rightarrow> string \<Rightarrow> instant \<Rightarrow>
   's manager \<times> operation outcome \<times> bool" where
  "start_operation_unique P m key0 req i now =
     (let key = trim_space key0 in
      if key = [] then (case launch P m [] req i now of (m', res) \<Rightarrow> (m', res, False))
      else (case mg_unique m key of
              Some j \<Rightarrow>
                if j = [] then (m, Inl (Invalid ''matching operation is starting''), True)
                else (m, p_lookup P (mg_store m) j, True)
            | None \<Rightarrow>
                (case launch P (reserve m key) key req i now of
                   (m', Inl err) \<Rightarrow> (abandon m' key, Inl err, False)
                 | (m', Inr r) \<Rightarrow> (m', Inr r, False))))"

section \<open>Running\<close>

text \<open>The deferred part of \<open>run\<close>.\<close>

definition release :: "'s manager \<Rightarrow> string \<Rightarrow> 's manager" where
  "release m i =
     m\<lparr>mg_active := (mg_active m)(i := None),
       mg_unique := (case mg_active m i of
          None \<Rightarrow> mg_unique m
        | Some key \<Rightarrow> if key \<noteq> [] \<and> mg_unique m key = Some i then (mg_unique m)(key := None) else mg_unique m)\<rparr>"

definition run_begin :: "'s persistence \<Rightarrow> 's manager \<Rightarrow> string \<Rightarrow> instant \<Rightarrow> 's manager" where
  "run_begin P m i now =
     (case p_start P (mg_store m) i ''starting'' now of
        (s, None) \<Rightarrow> m\<lparr>mg_store := s\<rparr>
      | (s, Some err) \<Rightarrow>
          release (m\<lparr>mg_store := fst (p_finish P s i ''failed'' ''failed'' now
              (take 2000 (trim_space (error_text err))) Map.empty)\<rparr>) i)"

definition report_stage :: "'s persistence \<Rightarrow> 's manager \<Rightarrow> string \<Rightarrow> string \<Rightarrow> detail \<Rightarrow> 's manager \<times> check" where
  "report_stage P m i stage detail =
     (if blank stage then (m, Some (Invalid ''operation stage is required''))
      else (case p_stage P (mg_store m) i stage detail of (s, err) \<Rightarrow> (m\<lparr>mg_store := s\<rparr>, err)))"

definition run_end :: "'s persistence \<Rightarrow> 's manager \<Rightarrow> string \<Rightarrow> work_error option \<Rightarrow> instant \<Rightarrow> 's manager" where
  "run_end P m i err now =
     (case classify (i \<in> mg_cancelled m) err of
        (status, stage, detail) \<Rightarrow>
          let s = fst (p_finish P (mg_store m) i status stage now (summarize err) detail);
              s' = (case p_lookup P s i of Inl e \<Rightarrow> s | Inr r \<Rightarrow> p_audit P s ''operation.finish'' i now) in
          release (m\<lparr>mg_store := s'\<rparr>) i)"

definition cancel_operation :: "'s persistence \<Rightarrow> 's manager \<Rightarrow> string \<Rightarrow> 's manager \<times> check" where
  "cancel_operation P m i =
     (if mg_active m i \<noteq> None then (m\<lparr>mg_cancelled := insert i (mg_cancelled m)\<rparr>, None)
      else (case p_lookup P (mg_store m) i of
              Inl err \<Rightarrow> (m, Some err)
            | Inr r \<Rightarrow> (m, if operation_terminal (op_Status r) then None
                           else Some (Invalid ''operation is not active in this process''))))"

definition close_manager :: "'s manager \<Rightarrow> 's manager" where
  "close_manager m = (if mg_closed m then m
     else m\<lparr>mg_closed := True, mg_cancelled := mg_cancelled m \<union> dom (mg_active m)\<rparr>)"

text \<open>
  The steps of concurrent callers and goroutines. A key is launched or abandoned by the caller that
  reserved it; the goroutine of an operation begins and ends it.
\<close>

inductive mg_step :: "'s persistence \<Rightarrow> 's manager \<Rightarrow> 's manager \<Rightarrow> bool" for P where
  reserve: "key \<noteq> [] \<Longrightarrow> mg_unique m key = None \<Longrightarrow> mg_step P m (reserve m key)"
| launch_plain: "mg_step P m (fst (launch P m [] req i now))"
| launch_unique: "mg_unique m key = Some [] \<Longrightarrow> mg_step P m (fst (launch P m key req i now))"
| abandon: "mg_unique m key = Some [] \<Longrightarrow> mg_step P m (abandon m key)"
| begin_run: "mg_active m i \<noteq> None \<Longrightarrow> mg_step P m (run_begin P m i now)"
| stage: "mg_active m i \<noteq> None \<Longrightarrow> mg_step P m (fst (report_stage P m i st d))"
| end_run: "mg_active m i \<noteq> None \<Longrightarrow> mg_step P m (run_end P m i err now)"
| cancel: "mg_step P m (fst (cancel_operation P m i))"
| close: "mg_step P m (close_manager m)"

inductive_cases mg_stepE: "mg_step P m m'"

section \<open>The manager's maps\<close>

text \<open>Each reserved key belongs to its one active operation, and each active operation to its key.\<close>

definition links_ok :: "(string \<rightharpoonup> string) \<Rightarrow> (string \<rightharpoonup> string) \<Rightarrow> bool" where
  "links_ok act unq \<longleftrightarrow>
     (\<forall>i key. act i = Some key \<longrightarrow> key \<noteq> [] \<longrightarrow> unq key = Some i) \<and>
     (\<forall>key i. unq key = Some i \<longrightarrow> i \<noteq> [] \<longrightarrow> act i = Some key) \<and>
     (\<forall>i. act i \<noteq> None \<longrightarrow> i \<noteq> []) \<and> unq [] = None"

lemma links_okD:
  assumes "links_ok act unq"
  shows "act i = Some key \<Longrightarrow> key \<noteq> [] \<Longrightarrow> unq key = Some i"
    and "unq key = Some i \<Longrightarrow> i \<noteq> [] \<Longrightarrow> act i = Some key"
    and "act i = Some key \<Longrightarrow> i \<noteq> []" and "unq [] = None"
  using assms unfolding links_ok_def by blast+

lemma links_okI:
  assumes "\<And>i key. act i = Some key \<Longrightarrow> key \<noteq> [] \<Longrightarrow> unq key = Some i"
    and "\<And>key i. unq key = Some i \<Longrightarrow> i \<noteq> [] \<Longrightarrow> act i = Some key"
    and "\<And>i key. act i = Some key \<Longrightarrow> i \<noteq> []" and "unq [] = None"
  shows "links_ok act unq"
  using assms unfolding links_ok_def by blast

lemma links_ok_reserve:
  assumes ok: "links_ok act unq" and free: "unq key = None" and "key \<noteq> []"
  shows "links_ok act (unq(key \<mapsto> []))"
proof (rule links_okI)
  fix i k assume "act i = Some k" "k \<noteq> []"
  from links_okD(1) [OF ok this] free show "(unq(key \<mapsto> [])) k = Some i" by auto
next
  fix k i assume "(unq(key \<mapsto> [])) k = Some i" "i \<noteq> []"
  then have "unq k = Some i" by (auto split: if_splits)
  from links_okD(2) [OF ok this \<open>i \<noteq> []\<close>] show "act i = Some k" .
qed (use links_okD(3,4) [OF ok] \<open>key \<noteq> []\<close> in auto)

lemma links_ok_abandon:
  assumes ok: "links_ok act unq" and reserved: "unq key = Some []"
  shows "links_ok act (unq(key := None))"
proof (rule links_okI)
  fix i k assume act: "act i = Some k" "k \<noteq> []"
  from links_okD(1) [OF ok act] links_okD(3) [OF ok act(1)] reserved
  show "(unq(key := None)) k = Some i" by auto
next
  fix k i assume "(unq(key := None)) k = Some i" "i \<noteq> []"
  then have "unq k = Some i" by (auto split: if_splits)
  from links_okD(2) [OF ok this \<open>i \<noteq> []\<close>] show "act i = Some k" .
qed (use links_okD(3,4) [OF ok] in auto)

lemma links_ok_release:
  assumes ok: "links_ok act unq" and i: "act i = Some key"
  shows "links_ok (act(i := None)) (if key \<noteq> [] \<and> unq key = Some i then unq(key := None) else unq)"
    (is "links_ok ?act ?unq")
proof (rule links_okI)
  fix j k assume "?act j = Some k" and "k \<noteq> []"
  then have "j \<noteq> i" and "act j = Some k" by (auto split: if_splits)
  from links_okD(1) [OF ok this(2) \<open>k \<noteq> []\<close>] \<open>j \<noteq> i\<close> show "?unq k = Some j" by auto
next
  fix k j assume u: "?unq k = Some j" and "j \<noteq> []"
  then have "unq k = Some j" by (auto split: if_splits)
  from links_okD(2) [OF ok this \<open>j \<noteq> []\<close>] have j: "act j = Some k" .
  have "j \<noteq> i"
  proof
    assume "j = i"
    with j i have "k = key" by simp
    with u \<open>unq k = Some j\<close> \<open>j = i\<close> have "key = []" by (auto split: if_splits)
    with \<open>unq k = Some j\<close> \<open>k = key\<close> links_okD(4) [OF ok] show False by simp
  qed
  with j show "?act j = Some k" by simp
next
  fix j k assume "?act j = Some k"
  then have "act j = Some k" by (auto split: if_splits)
  from links_okD(3) [OF ok this] show "j \<noteq> []" .
qed (use links_okD(4) [OF ok] in auto)

lemma links_ok_register:
  assumes ok: "links_ok act unq" and new: "act i = None" "i \<noteq> []" and key: "key \<noteq> [] \<Longrightarrow> unq key = Some []"
  shows "links_ok (act(i \<mapsto> key)) (if key \<noteq> [] then unq(key \<mapsto> i) else unq)"
    (is "links_ok ?act ?unq")
proof (rule links_okI)
  fix j k assume j: "?act j = Some k" "k \<noteq> []"
  show "?unq k = Some j"
  proof (cases "j = i")
    case False
    with j have act: "act j = Some k" by simp
    from links_okD(1) [OF ok act j(2)] links_okD(3) [OF ok act] key show ?thesis by auto
  qed (use j in auto)
next
  fix k j assume u: "?unq k = Some j" "j \<noteq> []"
  show "?act j = Some k"
  proof (cases "key \<noteq> [] \<and> k = key")
    case True
    with u show ?thesis by auto
  next
    case False
    with u have "unq k = Some j" by (auto split: if_splits)
    from links_okD(2) [OF ok this u(2)] new(1) show ?thesis by auto
  qed
next
  fix j k assume "?act j = Some k"
  with new(2) links_okD(3) [OF ok, of j k] show "j \<noteq> []" by (auto split: if_splits)
qed (use links_okD(4) [OF ok] in auto)

section \<open>The contract of the persistence\<close>

locale operation_persistence =
  fixes P :: "'s persistence" and status_of :: "'s \<Rightarrow> string \<rightharpoonup> string" and inv :: "'s \<Rightarrow> bool"
  assumes create_inv: "inv s \<Longrightarrow> op_Status r = ''queued'' \<Longrightarrow> inv (fst (p_create P s r))"
    and start_inv: "inv s \<Longrightarrow> inv (fst (p_start P s i st now))"
    and stage_inv: "inv s \<Longrightarrow> inv (fst (p_stage P s i st d))"
    and finish_inv: "inv s \<Longrightarrow> status \<notin> {''queued'', ''running''} \<Longrightarrow> inv (fst (p_finish P s i status st now e d))"
    and audit_inv: "inv s \<Longrightarrow> inv (p_audit P s a i now)"
    and create_status: "inv s \<Longrightarrow> p_create P s r = (s', err) \<Longrightarrow>
        (err = None \<longrightarrow> status_of s (op_ID r) = None) \<and>
        status_of s' = (if err = None then (status_of s)(op_ID r \<mapsto> op_Status r) else status_of s)"
    and start_status: "inv s \<Longrightarrow> p_start P s i st now = (s', err) \<Longrightarrow>
        (err = None \<longleftrightarrow> status_of s i = Some ''queued'') \<and>
        status_of s' = (if err = None then (status_of s)(i \<mapsto> ''running'') else status_of s)"
    and stage_status: "inv s \<Longrightarrow> status_of (fst (p_stage P s i st d)) = status_of s"
    and finish_status: "inv s \<Longrightarrow> status_of (fst (p_finish P s i status st now e d)) =
        (if status_of s i \<in> {Some ''queued'', Some ''running''} then (status_of s)(i \<mapsto> status) else status_of s)"
    and audit_status: "inv s \<Longrightarrow> status_of (p_audit P s a i now) = status_of s"
begin

definition live :: "'s \<Rightarrow> string \<Rightarrow> bool" where
  "live s i \<longleftrightarrow> status_of s i \<in> {Some ''queued'', Some ''running''}"

definition mg_inv :: "'s manager \<Rightarrow> bool" where
  "mg_inv m \<longleftrightarrow> inv (mg_store m) \<and> links_ok (mg_active m) (mg_unique m) \<and>
     (\<forall>i. mg_active m i \<noteq> None \<longrightarrow> live (mg_store m) i)"

lemma mg_inv_store:
  "mg_inv m \<Longrightarrow> inv s \<Longrightarrow> (\<And>j. live (mg_store m) j \<Longrightarrow> live s j) \<Longrightarrow> mg_inv (m\<lparr>mg_store := s\<rparr>)"
  by (simp add: mg_inv_def)

lemma mg_inv_release:
  assumes "mg_inv m" and "inv s" and "\<And>j. j \<noteq> i \<Longrightarrow> live (mg_store m) j \<Longrightarrow> live s j"
  shows "mg_inv (release (m\<lparr>mg_store := s\<rparr>) i)"
proof (cases "mg_active m i")
  case None
  then have same: "(mg_active m)(i := None) = mg_active m" by auto
  have "live s j" if "mg_active m j \<noteq> None" for j
    using assms(1,3) that None by (cases "j = i") (auto simp: mg_inv_def)
  with None assms(1,2) show ?thesis by (simp add: mg_inv_def release_def same)
next
  case (Some key)
  have "links_ok (mg_active m) (mg_unique m)" using assms(1) by (simp add: mg_inv_def)
  from links_ok_release [OF this Some] assms Some show ?thesis
    by (cases "key \<noteq> [] \<and> mg_unique m key = Some i") (auto simp: mg_inv_def release_def)
qed

lemma finish_other_live: "inv s \<Longrightarrow> j \<noteq> i \<Longrightarrow> live s j \<Longrightarrow> live (fst (p_finish P s i status st now e d)) j"
  by (simp add: live_def finish_status)

lemma classify_status: "fst (classify done err) \<in> {''success'', ''cancelled'', ''cleanup_required'', ''failed''}"
  by (auto simp: classify_def Let_def split: option.splits)

lemma mg_inv_run_end:
  assumes "mg_inv m"
  shows "mg_inv (run_end P m i err now)"
proof -
  obtain status st d where c: "classify (i \<in> mg_cancelled m) err = (status, st, d)" by (metis prod_cases3)
  with classify_status [of "i \<in> mg_cancelled m" err] have ns: "status \<notin> {''queued'', ''running''}" by auto
  let ?s = "fst (p_finish P (mg_store m) i status st now (summarize err) d)"
  have inv: "inv (mg_store m)" "inv ?s" using assms ns finish_inv by (auto simp: mg_inv_def)
  have live: "j \<noteq> i \<Longrightarrow> live (mg_store m) j \<Longrightarrow> live ?s j" for j using finish_other_live inv by blast
  let ?s' = "case p_lookup P ?s i of Inl e \<Rightarrow> ?s | Inr r \<Rightarrow> p_audit P ?s ''operation.finish'' i now"
  have "inv ?s'" and "\<And>j. j \<noteq> i \<Longrightarrow> live (mg_store m) j \<Longrightarrow> live ?s' j"
    using inv live audit_inv audit_status by (auto simp: live_def split: sum.splits)
  from mg_inv_release [OF assms this] show ?thesis by (simp add: run_end_def c Let_def)
qed

lemma mg_inv_run_begin:
  assumes "mg_inv m"
  shows "mg_inv (run_begin P m i now)"
proof -
  obtain s err where s: "p_start P (mg_store m) i ''starting'' now = (s, err)" by fastforce
  have inv: "inv (mg_store m)" "inv s" using assms s start_inv [of "mg_store m" i "''starting''" now]
    by (auto simp: mg_inv_def)
  note st = start_status [OF inv(1) s]
  show ?thesis
  proof (cases err)
    case None
    with st have "live (mg_store m) j \<Longrightarrow> live s j" for j by (auto simp: live_def)
    with None s mg_inv_store [OF assms inv(2)] show ?thesis by (simp add: run_begin_def)
  next
    case (Some e)
    let ?s = "fst (p_finish P s i ''failed'' ''failed'' now (take 2000 (trim_space (error_text e))) Map.empty)"
    have "inv ?s" using finish_inv inv by simp
    moreover have "j \<noteq> i \<Longrightarrow> live (mg_store m) j \<Longrightarrow> live ?s j" for j
      using finish_other_live inv(2) st Some by (simp add: live_def)
    ultimately show ?thesis using mg_inv_release [OF assms] s Some by (simp add: run_begin_def)
  qed
qed

lemma mg_inv_launch:
  assumes m: "mg_inv m" and key: "key \<noteq> [] \<Longrightarrow> mg_unique m key = Some []"
  shows "mg_inv (fst (launch P m key req i now))"
proof -
  obtain s err where c: "p_create P (mg_store m) (new_operation req i now) = (s, err)" by fastforce
  have inv: "inv (mg_store m)" "inv s"
    using m create_inv [of "mg_store m" "new_operation req i now"] c by (auto simp: mg_inv_def new_operation_def)
  note cs = create_status [OF inv(1) c]
  let ?s = "p_audit P s ''operation.start'' i now"
  have inv': "inv ?s" and st: "status_of ?s = status_of s" using inv(2) audit_inv audit_status by auto
  show ?thesis
  proof (cases "blank (sr_Kind req) \<or> blank (sr_Actor req) \<or> i = []")
    case True
    then show ?thesis using m by (auto simp: launch_def)
  next
    case False
    show ?thesis
    proof (cases err)
      case (Some e)
      with cs have "live (mg_store m) j \<Longrightarrow> live s j" for j by (simp add: live_def)
      from mg_inv_store [OF m inv(2) this] False c Some show ?thesis by (simp add: launch_def)
    next
      case None
      with cs have new: "status_of (mg_store m) i = None" and
        cr: "status_of ?s = (status_of (mg_store m))(i \<mapsto> ''queued'')"
        using st by (simp_all add: new_operation_def)
      then have live: "live (mg_store m) j \<Longrightarrow> live ?s j" for j by (simp add: live_def)
      have idle: "mg_active m i = None" using m new by (fastforce simp: mg_inv_def live_def)
      show ?thesis
      proof (cases "mg_closed m")
        case True
        let ?t = "fst (p_finish P ?s i ''cancelled'' ''cancelled'' now ''operation runtime is closed'' Map.empty)"
        have "inv ?t" using finish_inv inv' by simp
        moreover have "live ?t j" if "live (mg_store m) j" for j
          using finish_other_live [OF inv', of j i] live that new by (cases "j = i") (auto simp: live_def)
        ultimately have "mg_inv (m\<lparr>mg_store := ?t\<rparr>)" by (rule mg_inv_store [OF m])
        with False c None True show ?thesis by (simp add: launch_def Let_def)
      next
        case open_: False
        have ok: "links_ok (mg_active m) (mg_unique m)" using m by (simp add: mg_inv_def)
        have "i \<noteq> []" using False by simp
        from links_ok_register [OF ok idle this key]
        have "links_ok ((mg_active m)(i \<mapsto> key)) (if key \<noteq> [] then (mg_unique m)(key \<mapsto> i) else mg_unique m)" .
        moreover have "live ?s j" if "((mg_active m)(i \<mapsto> key)) j \<noteq> None" for j
          using that m live cr by (cases "j = i") (auto simp: mg_inv_def live_def)
        ultimately show ?thesis using False c None open_ inv' by (simp add: launch_def Let_def mg_inv_def)
      qed
    qed
  qed
qed

lemma mg_inv_step: "mg_step P m m' \<Longrightarrow> mg_inv m \<Longrightarrow> mg_inv m'"
proof (induction rule: mg_step.induct)
  case (reserve key m)
  then show ?case by (simp add: mg_inv_def reserve_def links_ok_reserve)
next
  case (abandon m key)
  then show ?case by (simp add: mg_inv_def abandon_def links_ok_abandon)
next
  case (stage m i st d)
  have "mg_inv (m\<lparr>mg_store := fst (p_stage P (mg_store m) i st d)\<rparr>)"
    using stage stage_inv stage_status by (intro mg_inv_store) (auto simp: mg_inv_def live_def)
  with stage show ?case by (auto simp: report_stage_def split: prod.splits)
next
  case (cancel m i)
  then show ?case by (auto simp: cancel_operation_def mg_inv_def split: sum.splits)
next
  case (close m)
  then show ?case by (auto simp: close_manager_def mg_inv_def)
qed (auto intro: mg_inv_launch mg_inv_run_begin mg_inv_run_end)

lemma mg_inv_reach: "(mg_step P)\<^sup>*\<^sup>* m m' \<Longrightarrow> mg_inv m \<Longrightarrow> mg_inv m'"
  by (induction rule: rtranclp_induct) (auto intro: mg_inv_step)

lemma mg_inv_new:
  "inv s \<Longrightarrow> mg_inv \<lparr>mg_store = s, mg_active = Map.empty, mg_unique = Map.empty, mg_closed = False, mg_cancelled = {}\<rparr>"
  by (simp add: mg_inv_def links_ok_def)

lemma run_end_status:
  assumes "mg_inv m" and "mg_active m i \<noteq> None"
  shows "status_of (mg_store (run_end P m i err now)) i = Some (fst (classify (i \<in> mg_cancelled m) err)) \<and>
         mg_active (run_end P m i err now) i = None"
proof -
  obtain status st d where c: "classify (i \<in> mg_cancelled m) err = (status, st, d)" by (metis prod_cases3)
  with classify_status [of "i \<in> mg_cancelled m" err] have ns: "status \<notin> {''queued'', ''running''}" by auto
  let ?s = "fst (p_finish P (mg_store m) i status st now (summarize err) d)"
  have "inv (mg_store m)" and "live (mg_store m) i" using assms by (auto simp: mg_inv_def)
  then have "status_of ?s i = Some status" and "inv ?s"
    using ns finish_inv finish_status by (auto simp: live_def)
  then show ?thesis by (simp add: run_end_def c Let_def release_def audit_status split: sum.splits)
qed

end

section \<open>The store as the persistence\<close>

text \<open>The operations table and the audit entries, each by its action, its operation and its time.\<close>

type_synonym op_store = "operation_db \<times> (string \<times> string \<times> instant) list"

definition on_operations :: "operation_db \<times> check \<Rightarrow> 'a \<Rightarrow> (operation_db \<times> 'a) \<times> check" where
  "on_operations res a = ((fst res, a), snd res)"

definition store_persistence :: "op_store persistence" where
  "store_persistence =
     \<lparr>p_create = \<lambda>s r. on_operations (create_operation (fst s) r) (snd s),
      p_start = \<lambda>s i st t. on_operations (start_operation (fst s) i st t) (snd s),
      p_stage = \<lambda>s i st d. on_operations (update_operation_stage (fst s) i st d) (snd s),
      p_finish = \<lambda>s i status st t e d. on_operations (finish_operation (fst s) i status st t e d) (snd s),
      p_lookup = \<lambda>s i. operation_by_id (fst s) i,
      p_audit = \<lambda>s a i t. (fst s, snd s @ [(a, i, t)])\<rparr>"

definition stored_status :: "op_store \<Rightarrow> string \<Rightarrow> string option" where
  "stored_status s i = map_option op_Status (row op_ID i (odb_operations (fst s)))"

definition new_manager :: "op_store \<Rightarrow> instant \<Rightarrow> op_store manager" where
  "new_manager s now =
     \<lparr>mg_store = (fst (recover_operations (fst s) now), snd s), mg_active = Map.empty, mg_unique = Map.empty,
      mg_closed = False, mg_cancelled = {}\<rparr>"

lemma op_inv_create: "op_inv db \<Longrightarrow> op_Status r = ''queued'' \<Longrightarrow> op_inv (fst (create_operation db r))"
  using op_inv_step [of db "CreateOp r"] by simp

lemma op_inv_start: "op_inv db \<Longrightarrow> op_inv (fst (start_operation db i st t))"
  using op_inv_step [of db "StartOp i st t"] by simp

lemma op_inv_stage: "op_inv db \<Longrightarrow> op_inv (fst (update_operation_stage db i st d))"
  using op_inv_step [of db "StageOp i st d"] by simp

lemma op_inv_finish:
  "op_inv db \<Longrightarrow> status \<notin> {''queued'', ''running''} \<Longrightarrow> op_inv (fst (finish_operation db i status st t e d))"
  using op_inv_step [of db "FinishOp i status st t e d"] by simp

lemma op_inv_recover: "op_inv db \<Longrightarrow> op_inv (fst (recover_operations db t))"
  using op_inv_step [of db "RecoverOp t"] by simp

text \<open>A guarded update of the row of one identifier.\<close>

lemma stored_status_update:
  assumes "\<And>r. op_ID (f r) = op_ID r"
  shows "stored_status (db\<lparr>odb_operations := update_where (\<lambda>r. op_ID r = i \<and> Q r) f (odb_operations db)\<rparr>, a) =
    (case row op_ID i (odb_operations db) of
       None \<Rightarrow> stored_status (db, a)
     | Some r \<Rightarrow> if Q r then (stored_status (db, a))(i \<mapsto> op_Status (f r)) else stored_status (db, a))"
proof
  fix j
  have "op_ID r = k" if "row op_ID k (odb_operations db) = Some r" for r k using row_Some_in [OF that] by simp
  then show "stored_status (db\<lparr>odb_operations := update_where (\<lambda>r. op_ID r = i \<and> Q r) f (odb_operations db)\<rparr>, a) j =
    (case row op_ID i (odb_operations db) of
       None \<Rightarrow> stored_status (db, a)
     | Some r \<Rightarrow> if Q r then (stored_status (db, a))(i \<mapsto> op_Status (f r)) else stored_status (db, a)) j"
    using assms by (cases "j = i"; cases "row op_ID j (odb_operations db)")
      (auto simp: stored_status_def row_update_where split: option.splits)
qed

lemma stored_status_Some: "stored_status (db, a) i = Some st \<longleftrightarrow>
    (\<exists>r. row op_ID i (odb_operations db) = Some r \<and> op_Status r = st)"
  by (auto simp: stored_status_def)

lemma guarded_row:
  assumes "unique_keys op_ID t"
  shows "(\<exists>r \<in> set t. op_ID r = i \<and> Q r) \<longleftrightarrow> (\<exists>r. row op_ID i t = Some r \<and> Q r)"
  using assms by (metis row_Some_in row_unique)

lemma guarded_affected:
  assumes "unique_keys op_ID t"
  shows "affected (\<lambda>r. op_ID r = i \<and> Q r) t = 1 \<longleftrightarrow> (\<exists>r. row op_ID i t = Some r \<and> Q r)"
  using affected_iff [where key = op_ID and k = i, OF assms, of "\<lambda>r. op_ID r = i \<and> Q r"] guarded_row [OF assms]
  by simp

lemma store_create_status:
  assumes "create_operation db r = (db', err)"
  shows "(err = None \<longrightarrow> stored_status (db, a) (op_ID r) = None) \<and>
    stored_status (db', a) = (if err = None then (stored_status (db, a))(op_ID r \<mapsto> op_Status r)
                              else stored_status (db, a))"
proof (cases err)
  case None
  with assms have new: "op_ID r \<notin> op_ID ` set (odb_operations db)" and
    db': "odb_operations db' = odb_operations db @ [r\<lparr>op_StartedAt := None, op_FinishedAt := None\<rparr>]"
    by (auto simp: create_operation_def split: if_splits)
  then have none: "row op_ID (op_ID r) (odb_operations db) = None" by (simp add: row_None)
  then have "stored_status (db', a) = (stored_status (db, a))(op_ID r \<mapsto> op_Status r)"
    by (auto simp: fun_eq_iff stored_status_def db' row_append split: option.splits) (auto simp: row_def)
  with None none show ?thesis by (simp add: stored_status_def)
next
  case (Some e)
  with assms show ?thesis by (auto simp: create_operation_def split: if_splits)
qed

lemma store_start_status:
  assumes "op_inv db" and "start_operation db i st t = (db', err)"
  shows "(err = None \<longleftrightarrow> stored_status (db, a) i = Some ''queued'') \<and>
    stored_status (db', a) = (if err = None then (stored_status (db, a))(i \<mapsto> ''running'') else stored_status (db, a))"
proof -
  have u: "unique_keys op_ID (odb_operations db)" using assms(1) by (simp add: op_inv_def)
  have err: "err = None \<longleftrightarrow> stored_status (db, a) i = Some ''queued''"
    using assms(2) guarded_affected [OF u, of i "\<lambda>r. op_Status r = ''queued''"]
    by (auto simp: start_operation_def Let_def transition_result_def stored_status_def)
  have "stored_status (db', a) = (if stored_status (db, a) i = Some ''queued''
      then (stored_status (db, a))(i \<mapsto> ''running'') else stored_status (db, a))"
    using assms(2) by (auto simp: start_operation_def Let_def stored_status_Some stored_status_update split: option.splits)
  with err show ?thesis by simp
qed

lemma store_stage_status:
  "stored_status (fst (update_operation_stage db i st d), a) = stored_status (db, a)"
  by (cases "row op_ID i (odb_operations db)")
    (auto simp: update_operation_stage_def operation_by_id_def Let_def stored_status_update stored_status_Some
      intro!: fun_upd_idem)

lemma store_finish_status:
  "stored_status (fst (finish_operation db i status st t e d), a) =
     (if stored_status (db, a) i \<in> {Some ''queued'', Some ''running''} then (stored_status (db, a))(i \<mapsto> status)
      else stored_status (db, a))"
  by (cases "row op_ID i (odb_operations db)")
    (auto simp: finish_operation_def operation_by_id_def Let_def stored_status_update stored_status_Some op_active_def)

interpretation store_ops: operation_persistence store_persistence stored_status "\<lambda>s. op_inv (fst s)"
proof
  show "op_inv (fst s) \<Longrightarrow> op_Status r = ''queued'' \<Longrightarrow> op_inv (fst (fst (p_create store_persistence s r)))"
    for s :: op_store and r
    by (simp add: store_persistence_def on_operations_def op_inv_create)
  show "op_inv (fst s) \<Longrightarrow> op_inv (fst (fst (p_start store_persistence s i st now)))" for s :: op_store and i st now
    by (simp add: store_persistence_def on_operations_def op_inv_start)
  show "op_inv (fst s) \<Longrightarrow> op_inv (fst (fst (p_stage store_persistence s i st d)))" for s :: op_store and i st d
    by (simp add: store_persistence_def on_operations_def op_inv_stage)
  show "op_inv (fst s) \<Longrightarrow> status \<notin> {''queued'', ''running''} \<Longrightarrow>
      op_inv (fst (fst (p_finish store_persistence s i status st now e d)))" for s :: op_store and i status st now e d
    by (simp add: store_persistence_def on_operations_def op_inv_finish)
  show "p_create store_persistence s r = (s', err) \<Longrightarrow>
      (err = None \<longrightarrow> stored_status s (op_ID r) = None) \<and>
      stored_status s' = (if err = None then (stored_status s)(op_ID r \<mapsto> op_Status r) else stored_status s)"
    for s s' :: op_store and r err
    using store_create_status [of "fst s" r "fst s'" err "snd s"]
    by (cases s; cases s'; cases "create_operation (fst s) r") (simp add: store_persistence_def on_operations_def)
  show "op_inv (fst s) \<Longrightarrow> p_start store_persistence s i st now = (s', err) \<Longrightarrow>
      (err = None \<longleftrightarrow> stored_status s i = Some ''queued'') \<and>
      stored_status s' = (if err = None then (stored_status s)(i \<mapsto> ''running'') else stored_status s)"
    for s s' :: op_store and i st now err
  proof -
    assume "op_inv (fst s)" and "p_start store_persistence s i st now = (s', err)"
    moreover from this(2) have "start_operation (fst s) i st now = (fst s', err)" and "s' = (fst s', snd s)"
      by (cases "start_operation (fst s) i st now"; auto simp: store_persistence_def on_operations_def)+
    ultimately show ?thesis using store_start_status [of "fst s" i st now "fst s'" err "snd s"] by (metis prod.collapse)
  qed
  show "stored_status (fst (p_stage store_persistence s i st d)) = stored_status s" for s :: op_store and i st d
    using store_stage_status [of "fst s" i st d "snd s"] by (simp add: store_persistence_def on_operations_def)
  show "stored_status (fst (p_finish store_persistence s i status st now e d)) =
      (if stored_status s i \<in> {Some ''queued'', Some ''running''} then (stored_status s)(i \<mapsto> status) else stored_status s)"
    for s :: op_store and i status st now e d
    using store_finish_status [of "fst s" i status st now e d "snd s"]
    by (simp add: store_persistence_def on_operations_def)
qed (auto simp: store_persistence_def stored_status_def)

lemma new_manager_inv: "op_inv (fst s) \<Longrightarrow> store_ops.mg_inv (new_manager s now)"
  unfolding new_manager_def by (intro store_ops.mg_inv_new) (simp add: op_inv_recover)

lemma stored_lookup: "stored_status s i = Some status \<Longrightarrow>
    \<exists>r. p_lookup store_persistence s i = Inr r \<and> op_ID r = i \<and> op_Status r = status"
  by (auto simp: stored_status_def store_persistence_def operation_by_id_def split: option.splits dest: row_Some_in)

text \<open>
  C25: operations under a unique key exclude each other. Whatever callers and goroutines do to a new
  manager, two active operations never share a key, every active operation is queued or running in
  the store, and a caller that asks for a key in use gets its operation without changing anything.
\<close>
theorem unique_key_excludes:
  assumes "op_inv (fst s)" and "(mg_step store_persistence)\<^sup>*\<^sup>* (new_manager s now) m"
    and "mg_active m i = Some key"
  shows "(mg_active m j = Some key \<and> key \<noteq> [] \<longrightarrow> j = i) \<and>
    stored_status (mg_store m) i \<in> {Some ''queued'', Some ''running''} \<and>
    (trim_space key0 = key \<and> key \<noteq> [] \<longrightarrow>
      (\<exists>r. start_operation_unique store_persistence m key0 req new_id t = (m, Inr r, True) \<and> op_ID r = i))"
proof -
  have inv: "store_ops.mg_inv m" using store_ops.mg_inv_reach [OF assms(2) new_manager_inv [OF assms(1)]] .
  then have ok: "links_ok (mg_active m) (mg_unique m)" by (simp add: store_ops.mg_inv_def)
  have live: "stored_status (mg_store m) i \<in> {Some ''queued'', Some ''running''}"
    using inv assms(3) by (auto simp: store_ops.mg_inv_def store_ops.live_def)
  then obtain r where r: "p_lookup store_persistence (mg_store m) i = Inr r" "op_ID r = i"
    using stored_lookup by blast
  have "mg_active m j = Some key \<Longrightarrow> key \<noteq> [] \<Longrightarrow> j = i"
    using links_okD(1) [OF ok assms(3)] links_okD(1) [OF ok, of j key] by simp
  moreover have "start_operation_unique store_persistence m key0 req new_id t = (m, Inr r, True)"
    if "trim_space key0 = key" "key \<noteq> []"
    using that links_okD(1,3) [OF ok assms(3)] r by (simp add: start_operation_unique_def Let_def)
  ultimately show ?thesis using live r(2) by blast
qed

text \<open>
  An operation that has been started ends. Whatever happened before, when the work of an active
  operation returns, its row holds the status its error is classified as, which is terminal, and
  its identifier and its key are free again.
\<close>
lemma operation_work_ends:
  assumes "op_inv (fst s)" and "(mg_step store_persistence)\<^sup>*\<^sup>* (new_manager s now) m"
    and "mg_active m i = Some key"
  shows "let m' = run_end store_persistence m i err t; status = fst (classify (i \<in> mg_cancelled m) err) in
    stored_status (mg_store m') i = Some status \<and> operation_terminal status \<and>
    mg_active m' i = None \<and> mg_unique m' key = None"
proof -
  have inv: "store_ops.mg_inv m" using store_ops.mg_inv_reach [OF assms(2) new_manager_inv [OF assms(1)]] .
  then have ok: "links_ok (mg_active m) (mg_unique m)" by (simp add: store_ops.mg_inv_def)
  let ?m = "run_end store_persistence m i err t"
  have "operation_terminal (fst (classify (i \<in> mg_cancelled m) err))"
    using store_ops.classify_status [of "i \<in> mg_cancelled m" err] by (auto simp: operation_terminal_def)
  moreover have "mg_unique ?m key = None"
    using links_okD(1) [OF ok assms(3)] links_okD(4) [OF ok] assms(3)
    by (cases "key = []") (auto simp: run_end_def release_def Let_def split: prod.splits)
  ultimately show ?thesis using store_ops.run_end_status [OF inv, of i err t] assms(3) by (simp add: Let_def)
qed

text \<open>A new manager that starts one operation under a key.\<close>

definition request_example :: start_request where
  "request_example = \<lparr>sr_Kind = ''restore'', sr_Actor = ''admin'', sr_RepositoryID = [], sr_TaskID = [],
     sr_SnapshotID = [], sr_Target = [], sr_Detail = Map.empty\<rparr>"

definition manager_example :: "op_store manager" where
  "manager_example = fst (start_operation_unique store_persistence (new_manager (\<lparr>odb_operations = [], odb_tasks = []\<rparr>, []) 0)
     ''k'' request_example ''op1'' 5)"

lemma trim_examples: "trim_space ''k'' = ''k''" "trim_space ''restore'' = ''restore''" "trim_space ''admin'' = ''admin''"
  by code_simp+

lemma manager_example_active: "mg_active manager_example = [''op1'' \<mapsto> ''k'']"
  by (simp add: manager_example_def start_operation_unique_def trim_examples new_manager_def reserve_def launch_def
      blank_def request_example_def new_operation_def store_persistence_def on_operations_def create_operation_def
      recover_operations_def active_update_def Let_def)

lemma manager_example_reached:
  "(mg_step store_persistence)\<^sup>*\<^sup>* (new_manager (\<lparr>odb_operations = [], odb_tasks = []\<rparr>, []) 0) manager_example"
proof -
  let ?m = "new_manager (\<lparr>odb_operations = [], odb_tasks = []\<rparr>, []) 0"
  let ?r = "reserve ?m ''k''"
  have "mg_step store_persistence ?m ?r" by (rule mg_step.reserve) (simp_all add: new_manager_def)
  moreover have "mg_step store_persistence ?r (fst (launch store_persistence ?r ''k'' request_example ''op1'' 5))"
    by (rule mg_step.launch_unique) (simp add: reserve_def)
  moreover have "manager_example = fst (launch store_persistence ?r ''k'' request_example ''op1'' 5)"
    by (simp add: manager_example_def start_operation_unique_def trim_examples new_manager_def reserve_def launch_def
        blank_def request_example_def new_operation_def store_persistence_def on_operations_def create_operation_def
        recover_operations_def active_update_def Let_def)
  ultimately show ?thesis by (metis (no_types, lifting) rtranclp.rtrancl_refl rtranclp.rtrancl_into_rtrancl)
qed

lemma empty_op_inv: "op_inv \<lparr>odb_operations = [], odb_tasks = []\<rparr>"
  by (simp add: op_inv_def)

theorem unique_key_excludes_witness:
  "\<exists>r. start_operation_unique store_persistence manager_example '' k'' request_example ''op2'' 6 =
     (manager_example, Inr r, True) \<and> op_ID r = ''op1''"
proof -
  have "op_inv (fst (\<lparr>odb_operations = [], odb_tasks = []\<rparr>, [] :: (string \<times> string \<times> instant) list))"
    by (simp add: empty_op_inv)
  moreover have "trim_space '' k'' = ''k''" by code_simp
  ultimately show ?thesis
    using unique_key_excludes [OF _ manager_example_reached, of "''op1''" "''k''" "''op1''" "'' k''"]
    by (simp add: manager_example_active)
qed

lemma operation_work_ends_witness:
  "stored_status (mg_store (run_end store_persistence manager_example ''op1'' None 9)) ''op1'' = Some ''success''"
proof -
  have "op_inv (fst (\<lparr>odb_operations = [], odb_tasks = []\<rparr>, [] :: (string \<times> string \<times> instant) list))"
    by (simp add: empty_op_inv)
  from operation_work_ends [OF this manager_example_reached, of "''op1''" "''k''" None 9] show ?thesis
    by (simp add: manager_example_active Let_def classify_def)
qed

end
