(* ===== verification/Agent_Registry.thy ===== *)
theory Agent_Registry
  imports Once_Only Timestamps
begin

text \<open>
  The agents of src/internal/store/agents.go: enrollment with a token that is consumed once, the
  certificates and their rollover, heartbeats, draining, the remote host an agent runs on, and
  revocation. A column that may be \<open>NULL\<close> is an option; the remote host is the empty string then,
  as in \<open>AgentRecord\<close>. Every function is one transaction: on an error it leaves the tables alone.
\<close>

record agent_runtime =
  rt_BuildVersion :: string
  rt_ProtocolMin :: int
  rt_ProtocolMax :: int
  rt_OS :: string
  rt_Arch :: string
  rt_ResticVersion :: string
  rt_RsyncVersion :: string
  rt_ServiceURL :: string
  rt_RenewalStatus :: string

record agent =
  ag_ID :: string
  ag_RemoteHostID :: string
  ag_ManagedInstallation :: bool
  ag_AgentDataDir :: string
  ag_CertificateSerial :: string
  ag_CertificateNotAfter :: "instant option"
  ag_Capabilities :: "string list"
  ag_Runtime :: agent_runtime
  ag_Status :: string
  ag_LastHeartbeatAt :: "instant option"
  ag_CreatedAt :: instant
  ag_RevokedAt :: "instant option"
  ag_StoppedAt :: "instant option"
  ag_UninstalledAt :: "instant option"
  ag_DrainingAt :: "instant option"

record agent_certificate =
  cert_Serial :: string
  cert_AgentID :: string
  cert_NotBefore :: "instant option"
  cert_NotAfter :: "instant option"
  cert_Status :: string
  cert_IssuedAt :: instant
  cert_ActivatedAt :: "instant option"
  cert_RetiredAt :: "instant option"

record agent_heartbeat =
  hb_ID :: string
  hb_CertificateSerial :: string
  hb_CertificateNotAfter :: instant
  hb_Capabilities :: "string list"
  hb_Runtime :: agent_runtime
  hb_ObservedAt :: instant

record enrollment_token =
  tok_Hash :: string
  tok_ExpiresAt :: instant
  tok_ConsumedAt :: "instant option"

record agent_db =
  adb_agents :: "agent list"
  adb_certificates :: "agent_certificate list"
  adb_tokens :: "enrollment_token list"
  adb_hosts :: "string list"

definition no_runtime :: agent_runtime where
  "no_runtime = \<lparr>rt_BuildVersion = [], rt_ProtocolMin = 0, rt_ProtocolMax = 0, rt_OS = [], rt_Arch = [],
     rt_ResticVersion = [], rt_RsyncVersion = [], rt_ServiceURL = [], rt_RenewalStatus = []\<rparr>"

definition cert_live :: "agent_certificate \<Rightarrow> bool" where
  "cert_live c \<longleftrightarrow> cert_Status c \<in> set [''active'', ''pending'']"

text \<open>The unique columns of a row that is written into the agents, beside its key.\<close>

definition agent_clash :: "agent list \<Rightarrow> agent \<Rightarrow> bool" where
  "agent_clash t a \<longleftrightarrow> list_ex (\<lambda>b. ag_ID b \<noteq> ag_ID a \<and>
     (ag_CertificateSerial b = ag_CertificateSerial a \<or>
      ag_RemoteHostID a \<noteq> [] \<and> ag_RemoteHostID b = ag_RemoteHostID a)) t"

section \<open>Saving and enrolling\<close>

text \<open>The \<open>ON CONFLICT(id) DO UPDATE\<close> of \<open>SaveAgent\<close>.\<close>

definition merge_agent :: "agent \<Rightarrow> agent \<Rightarrow> agent" where
  "merge_agent a old = old\<lparr>
     ag_RemoteHostID := (if ag_RemoteHostID a \<noteq> [] then ag_RemoteHostID a else ag_RemoteHostID old),
     ag_ManagedInstallation := (ag_ManagedInstallation a \<or> ag_ManagedInstallation old),
     ag_AgentDataDir := (if ag_AgentDataDir a \<noteq> [] then ag_AgentDataDir a else ag_AgentDataDir old),
     ag_CertificateSerial := ag_CertificateSerial a, ag_CertificateNotAfter := ag_CertificateNotAfter a,
     ag_Capabilities := ag_Capabilities a, ag_Runtime := ag_Runtime a, ag_Status := ag_Status a,
     ag_LastHeartbeatAt := ag_LastHeartbeatAt a, ag_RevokedAt := ag_RevokedAt a, ag_StoppedAt := None,
     ag_UninstalledAt := None, ag_DrainingAt := ag_DrainingAt a\<rparr>"

definition upsert_agent :: "agent list \<Rightarrow> agent \<Rightarrow> agent list option" where
  "upsert_agent t a =
     (case row ag_ID (ag_ID a) t of
        None \<Rightarrow> if agent_clash t a then None else Some (t @ [a\<lparr>ag_StoppedAt := None, ag_UninstalledAt := None\<rparr>])
      | Some old \<Rightarrow> if agent_clash t (merge_agent a old) then None
                    else Some (update_where (\<lambda>r. ag_ID r = ag_ID a) (merge_agent a) t))"

definition retire :: "(agent_certificate \<Rightarrow> bool) \<Rightarrow> instant \<Rightarrow> agent_certificate list \<Rightarrow> agent_certificate list" where
  "retire P t = update_where P (\<lambda>c. c\<lparr>cert_Status := ''retired'', cert_RetiredAt := Some t\<rparr>)"

definition issued_certificate :: "agent \<Rightarrow> agent_certificate" where
  "issued_certificate a =
     \<lparr>cert_Serial = ag_CertificateSerial a, cert_AgentID = ag_ID a, cert_NotBefore = None,
      cert_NotAfter = ag_CertificateNotAfter a, cert_Status = ''active'', cert_IssuedAt = ag_CreatedAt a,
      cert_ActivatedAt = Some (ag_CreatedAt a), cert_RetiredAt = None\<rparr>"

definition upsert_certificate :: "agent_certificate list \<Rightarrow> agent_certificate \<Rightarrow> agent_certificate list" where
  "upsert_certificate t c =
     (if cert_Serial c \<in> set (map cert_Serial t)
      then update_where (\<lambda>d. cert_Serial d = cert_Serial c)
             (\<lambda>d. d\<lparr>cert_AgentID := cert_AgentID c, cert_NotAfter := cert_NotAfter c, cert_Status := ''active'',
                     cert_ActivatedAt := cert_ActivatedAt c, cert_RetiredAt := None\<rparr>) t
      else t @ [c])"

definition save_agent :: "'a agent_db_scheme \<Rightarrow> agent \<Rightarrow> 'a agent_db_scheme \<times> check" where
  "save_agent db agent0 =
     (let a = (if ag_Status agent0 = [] then agent0\<lparr>ag_Status := ''offline''\<rparr> else agent0) in
      if ag_RemoteHostID a \<noteq> [] \<and> ag_RemoteHostID a \<notin> set (adb_hosts db) then (db, Some Conflict)
      else (case upsert_agent (adb_agents db) a of
              None \<Rightarrow> (db, Some Conflict)
            | Some agents \<Rightarrow>
                (db\<lparr>adb_agents := agents,
                    adb_certificates := upsert_certificate
                      (retire (\<lambda>c. cert_AgentID c = ag_ID a \<and> cert_Serial c \<noteq> ag_CertificateSerial a \<and> cert_live c)
                        (ag_CreatedAt a) (adb_certificates db))
                      (issued_certificate a)\<rparr>, None)))"

definition enrolled_agent :: "agent \<Rightarrow> agent" where
  "enrolled_agent a =
     \<lparr>ag_ID = ag_ID a, ag_RemoteHostID = [], ag_ManagedInstallation = False, ag_AgentDataDir = [],
      ag_CertificateSerial = ag_CertificateSerial a, ag_CertificateNotAfter = ag_CertificateNotAfter a,
      ag_Capabilities = [], ag_Runtime = no_runtime, ag_Status = ''offline'', ag_LastHeartbeatAt = None,
      ag_CreatedAt = ag_CreatedAt a, ag_RevokedAt = None, ag_StoppedAt = None, ag_UninstalledAt = None,
      ag_DrainingAt = None\<rparr>"

definition enroll_agent :: "'a agent_db_scheme \<Rightarrow> agent \<Rightarrow> 'a agent_db_scheme \<times> check" where
  "enroll_agent db a =
     (if ag_ID a = [] \<or> ag_CertificateSerial a = [] \<or> ag_CreatedAt a = zero_time
      then (db, Some (Invalid ''complete Agent enrollment facts are required''))
      else
        let written = (case row ag_ID (ag_ID a) (adb_agents db) of
              None \<Rightarrow> if agent_clash (adb_agents db) (enrolled_agent a) then Inl Conflict
                       else Inr (adb_agents db @ [enrolled_agent a])
            | Some old \<Rightarrow>
                if ag_RevokedAt old = None \<and> ag_UninstalledAt old = None
                then Inl (Invalid ''Agent is already enrolled and active'')
                else if agent_clash (adb_agents db) (enrolled_agent a) then Inl Conflict
                else Inr (update_where (\<lambda>r. ag_ID r = ag_ID a)
                            (\<lambda>r. (enrolled_agent a)\<lparr>ag_ID := ag_ID r, ag_CreatedAt := ag_CreatedAt r\<rparr>) (adb_agents db))) in
        (case written of
           Inl err \<Rightarrow> (db, Some err)
         | Inr agents \<Rightarrow>
             if ag_CertificateSerial a \<in> set (map cert_Serial (adb_certificates db)) then (db, Some Conflict)
             else (db\<lparr>adb_agents := agents,
                      adb_certificates :=
                        retire (\<lambda>c. cert_AgentID c = ag_ID a \<and> cert_live c) (ag_CreatedAt a) (adb_certificates db)
                        @ [issued_certificate a]\<rparr>, None)))"

section \<open>Updates of one agent\<close>

text \<open>An \<open>UPDATE\<close> of the agent with an identifier that must affect one row.\<close>

definition update_agent ::
  "'a agent_db_scheme \<Rightarrow> (agent \<Rightarrow> bool) \<Rightarrow> (agent \<Rightarrow> agent) \<Rightarrow> 'a agent_db_scheme \<times> check" where
  "update_agent db P f =
     (db\<lparr>adb_agents := update_where P f (adb_agents db)\<rparr>,
      if affected P (adb_agents db) \<noteq> 1 then Some NoRows else None)"

definition or_else :: "'a option \<Rightarrow> 'a option \<Rightarrow> 'a option" where
  "or_else x y = (case x of None \<Rightarrow> y | Some v \<Rightarrow> Some v)"

definition mark_agent_stopped :: "'a agent_db_scheme \<Rightarrow> string \<Rightarrow> instant \<Rightarrow> 'a agent_db_scheme \<times> check" where
  "mark_agent_stopped db i now = update_agent db (\<lambda>a. ag_ID a = i)
     (\<lambda>a. a\<lparr>ag_Status := (if ag_RevokedAt a = None then ''offline'' else ag_Status a), ag_StoppedAt := Some now\<rparr>)"

definition complete_agent_uninstall :: "'a agent_db_scheme \<Rightarrow> string \<Rightarrow> instant \<Rightarrow> 'a agent_db_scheme \<times> check" where
  "complete_agent_uninstall db i now = update_agent db (\<lambda>a. ag_ID a = i)
     (\<lambda>a. a\<lparr>ag_Status := ''revoked'', ag_StoppedAt := or_else (ag_StoppedAt a) (Some now),
             ag_UninstalledAt := Some now, ag_RevokedAt := or_else (ag_RevokedAt a) (Some now)\<rparr>)"

definition bind_agent_remote_host :: "'a agent_db_scheme \<Rightarrow> string \<Rightarrow> string \<Rightarrow> bool \<Rightarrow> 'a agent_db_scheme \<times> check" where
  "bind_agent_remote_host db i host managedInstallation =
     (if i = [] \<or> host = [] then (db, Some (Invalid ''Agent and remote host IDs are required''))
      else if host \<notin> set (adb_hosts db) then (db, Some Conflict)
      else if \<not> managedInstallation \<and>
        (case find (\<lambda>a. ag_RemoteHostID a = host \<and> ag_ID a \<noteq> i) (adb_agents db) of
           None \<Rightarrow> False | Some a \<Rightarrow> ag_ManagedInstallation a)
      then (db, Some Conflict)
      else
        let freed = update_where (\<lambda>a. ag_RemoteHostID a = host \<and> ag_ID a \<noteq> i) (\<lambda>a. a\<lparr>ag_RemoteHostID := []\<rparr>) (adb_agents db);
            res = update_agent (db\<lparr>adb_agents := freed\<rparr>) (\<lambda>a. ag_ID a = i \<and> ag_RevokedAt a = None)
                    (\<lambda>a. a\<lparr>ag_RemoteHostID := host,
                            ag_ManagedInstallation := (managedInstallation \<or> ag_ManagedInstallation a)\<rparr>) in
        if snd res = None then res else (db, snd res))"

definition begin_agent_drain :: "'a agent_db_scheme \<Rightarrow> string \<Rightarrow> instant \<Rightarrow> 'a agent_db_scheme \<times> check" where
  "begin_agent_drain db i now =
     (if i = [] \<or> now = zero_time then (db, Some (Invalid ''Agent and drain time are required''))
      else update_agent db (\<lambda>a. ag_ID a = i \<and> ag_RevokedAt a = None)
             (\<lambda>a. a\<lparr>ag_DrainingAt := or_else (ag_DrainingAt a) (Some now)\<rparr>))"

definition end_agent_drain :: "'a agent_db_scheme \<Rightarrow> string \<Rightarrow> 'a agent_db_scheme \<times> check" where
  "end_agent_drain db i = update_agent db (\<lambda>a. ag_ID a = i) (\<lambda>a. a\<lparr>ag_DrainingAt := None\<rparr>)"

definition recover_agent_drains :: "'a agent_db_scheme \<Rightarrow> 'a agent_db_scheme \<times> nat" where
  "recover_agent_drains db =
     (db\<lparr>adb_agents := update_where (\<lambda>a. ag_DrainingAt a \<noteq> None) (\<lambda>a. a\<lparr>ag_DrainingAt := None\<rparr>) (adb_agents db)\<rparr>,
      affected (\<lambda>a. ag_DrainingAt a \<noteq> None) (adb_agents db))"

definition heartbeat_agent :: "'a agent_db_scheme \<Rightarrow> string \<Rightarrow> string list \<Rightarrow> instant \<Rightarrow> 'a agent_db_scheme \<times> check" where
  "heartbeat_agent db i capabilities now =
     (let P = (\<lambda>a. ag_ID a = i \<and> ag_RevokedAt a = None) in
      (db\<lparr>adb_agents := update_where P
            (\<lambda>a. a\<lparr>ag_Capabilities := capabilities, ag_Status := ''online'', ag_LastHeartbeatAt := Some now,
                    ag_StoppedAt := None, ag_UninstalledAt := None\<rparr>) (adb_agents db)\<rparr>,
       if affected P (adb_agents db) = 0 then Some NoRows else None))"

definition set_managed_agent_data_dir :: "'a agent_db_scheme \<Rightarrow> string \<Rightarrow> string \<Rightarrow> 'a agent_db_scheme \<times> check" where
  "set_managed_agent_data_dir db i dataDir = update_agent db (\<lambda>a. ag_ID a = i \<and> ag_ManagedInstallation a)
     (\<lambda>a. a\<lparr>ag_AgentDataDir := dataDir\<rparr>)"

definition revoke_agent :: "'a agent_db_scheme \<Rightarrow> string \<Rightarrow> instant \<Rightarrow> 'a agent_db_scheme \<times> check" where
  "revoke_agent db i now = update_agent db (\<lambda>a. ag_ID a = i \<and> ag_RevokedAt a = None)
     (\<lambda>a. a\<lparr>ag_Status := ''revoked'', ag_RevokedAt := Some now\<rparr>)"

definition list_agents :: "'a agent_db_scheme \<Rightarrow> agent list" where
  "list_agents db = sort_key ag_ID (adb_agents db)"

section \<open>Certificates\<close>

definition cert_usable :: "string \<Rightarrow> string \<Rightarrow> instant \<Rightarrow> agent_certificate \<Rightarrow> bool" where
  "cert_usable i serial now c \<longleftrightarrow> cert_AgentID c = i \<and> cert_Serial c = serial \<and> cert_live c \<and>
     (case cert_NotAfter c of None \<Rightarrow> True | Some t \<Rightarrow> format_time now < format_time t)"

definition agent_certificate_usable :: "'a agent_db_scheme \<Rightarrow> string \<Rightarrow> string \<Rightarrow> instant \<Rightarrow> bool" where
  "agent_certificate_usable db i serial now \<longleftrightarrow>
     list_ex (\<lambda>a. ag_ID a = i \<and> ag_RevokedAt a = None) (adb_agents db) \<and>
     list_ex (cert_usable i serial now) (adb_certificates db)"

definition record_agent_heartbeat :: "'a agent_db_scheme \<Rightarrow> agent_heartbeat \<Rightarrow> 'a agent_db_scheme \<times> check" where
  "record_agent_heartbeat db hb =
     (let i = hb_ID hb; serial = hb_CertificateSerial hb; now = hb_ObservedAt hb;
          expiry = (if hb_CertificateNotAfter hb = zero_time then None else Some (hb_CertificateNotAfter hb)) in
      if i = [] \<or> serial = [] \<or> now = zero_time
      then (db, Some (Invalid ''complete Agent heartbeat identity is required''))
      else (case (find (\<lambda>a. ag_ID a = i \<and> ag_RevokedAt a = None) (adb_agents db),
                  find (cert_usable i serial now) (adb_certificates db)) of
              (Some a, Some c) \<Rightarrow>
                let certs = update_where (\<lambda>d. cert_Serial d = serial \<and> cert_AgentID d = i)
                              (\<lambda>d. d\<lparr>cert_NotAfter := or_else expiry (cert_NotAfter d)\<rparr>) (adb_certificates db);
                    certs' = (if cert_Status c = ''pending'' \<and> ag_CertificateSerial a \<noteq> serial
                              then update_where (\<lambda>d. cert_AgentID d = i \<and> cert_Serial d = serial \<and> cert_Status d = ''pending'')
                                     (\<lambda>d. d\<lparr>cert_Status := ''active'', cert_ActivatedAt := Some now, cert_RetiredAt := None\<rparr>)
                                     (retire (\<lambda>d. cert_AgentID d = i \<and> cert_Serial d \<noteq> serial \<and> cert_Status d = ''active'') now certs)
                              else certs) in
                if list_ex (\<lambda>b. ag_ID b \<noteq> i \<and> ag_CertificateSerial b = serial) (adb_agents db) then (db, Some Constraint)
                else
                  let res = update_agent (db\<lparr>adb_certificates := certs'\<rparr>) (\<lambda>r. ag_ID r = i \<and> ag_RevokedAt r = None)
                    (\<lambda>r. r\<lparr>ag_CertificateSerial := serial, ag_CertificateNotAfter := or_else expiry (ag_CertificateNotAfter r),
                            ag_Capabilities := hb_Capabilities hb, ag_Runtime := hb_Runtime hb, ag_Status := ''online'',
                            ag_LastHeartbeatAt := Some now, ag_StoppedAt := None, ag_UninstalledAt := None\<rparr>) in
                  if snd res = None then res else (db, snd res)
            | _ \<Rightarrow> (db, Some NoRows)))"

definition save_pending_certificate ::
  "'a agent_db_scheme \<Rightarrow> string \<Rightarrow> string \<Rightarrow> instant \<Rightarrow> instant \<Rightarrow> instant \<Rightarrow> 'a agent_db_scheme \<times> check" where
  "save_pending_certificate db i serial notBefore notAfter issuedAt =
     (if i = [] \<or> serial = [] \<or> issuedAt = zero_time \<or> \<not> issuedAt < notAfter \<or> \<not> notBefore < notAfter
      then (db, Some (Invalid ''valid pending Agent certificate facts are required''))
      else if \<not> list_ex (\<lambda>a. ag_ID a = i \<and> ag_RevokedAt a = None) (adb_agents db) then (db, Some NoRows)
      else if serial \<in> set (map cert_Serial (adb_certificates db)) then (db, Some Conflict)
      else (db\<lparr>adb_certificates :=
               retire (\<lambda>c. cert_AgentID c = i \<and> cert_Status c = ''pending'') issuedAt (adb_certificates db) @
               [\<lparr>cert_Serial = serial, cert_AgentID = i, cert_NotBefore = Some notBefore, cert_NotAfter = Some notAfter,
                 cert_Status = ''pending'', cert_IssuedAt = issuedAt, cert_ActivatedAt = None, cert_RetiredAt = None\<rparr>]\<rparr>,
            None))"

section \<open>Enrollment tokens\<close>

definition save_enrollment_token :: "'a agent_db_scheme \<Rightarrow> string \<Rightarrow> instant \<Rightarrow> 'a agent_db_scheme \<times> check" where
  "save_enrollment_token db hash expires =
     (case insert_row tok_Hash \<lparr>tok_Hash = hash, tok_ExpiresAt = expires, tok_ConsumedAt = None\<rparr> (adb_tokens db) of
        None \<Rightarrow> (db, Some Conflict)
      | Some tokens \<Rightarrow> (db\<lparr>adb_tokens := tokens\<rparr>, None))"

definition token_usable :: "string \<Rightarrow> instant \<Rightarrow> enrollment_token \<Rightarrow> bool" where
  "token_usable hash now k \<longleftrightarrow> tok_Hash k = hash \<and> tok_ConsumedAt k = None \<and> format_time now < format_time (tok_ExpiresAt k)"

definition consume_enrollment_token :: "'a agent_db_scheme \<Rightarrow> string \<Rightarrow> instant \<Rightarrow> 'a agent_db_scheme \<times> check" where
  "consume_enrollment_token db hash now =
     (db\<lparr>adb_tokens := update_where (token_usable hash now) (\<lambda>k. k\<lparr>tok_ConsumedAt := Some now\<rparr>) (adb_tokens db)\<rparr>,
      if affected (token_usable hash now) (adb_tokens db) \<noteq> 1 then Some NoRows else None)"

section \<open>The rollover of certificates\<close>

text \<open>
  The abstract state: the current serial of each agent, and the agent and the status of each
  certificate. A certificate takes over from all others of its agent; a renewed one is offered
  beside the current one.
\<close>

definition serial_view :: "agent list \<Rightarrow> string \<Rightarrow> string option" where
  "serial_view t i = map_option ag_CertificateSerial (row ag_ID i t)"

definition cert_view :: "agent_certificate list \<Rightarrow> string \<Rightarrow> (string \<times> string) option" where
  "cert_view t s = map_option (\<lambda>c. (cert_AgentID c, cert_Status c)) (row cert_Serial s t)"

definition relabel :: "string \<Rightarrow> string set \<Rightarrow> (string \<times> string) option \<Rightarrow> (string \<times> string) option" where
  "relabel i A x = (case x of None \<Rightarrow> None
     | Some c \<Rightarrow> if fst c = i \<and> snd c \<in> A then Some (i, ''retired'') else Some c)"

definition taken_over :: "string \<Rightarrow> string \<Rightarrow> (string \<Rightarrow> (string \<times> string) option) \<Rightarrow> string \<Rightarrow> (string \<times> string) option" where
  "taken_over i serial cm s =
     (if s = serial then Some (i, ''active'')
      else relabel i {''active'', ''pending''} (cm s))"

definition offered :: "string \<Rightarrow> string \<Rightarrow> (string \<Rightarrow> (string \<times> string) option) \<Rightarrow> string \<Rightarrow> (string \<times> string) option" where
  "offered i serial cm s =
     (if s = serial then Some (i, ''pending'')
      else relabel i {''pending''} (cm s))"

text \<open>
  Each agent has exactly its current certificate active, every active certificate is the current
  one of an agent, and an agent is offered at most one certificate.
\<close>

definition rollover_ok :: "(string \<Rightarrow> string option) \<Rightarrow> (string \<Rightarrow> (string \<times> string) option) \<Rightarrow> bool" where
  "rollover_ok am cm \<longleftrightarrow>
     (\<forall>i s. am i = Some s \<longleftrightarrow> cm s = Some (i, ''active'')) \<and>
     (\<forall>i s s'. cm s = Some (i, ''pending'') \<longrightarrow> cm s' = Some (i, ''pending'') \<longrightarrow> s = s')"

lemma rollover_okD:
  assumes "rollover_ok am cm"
  shows "am i = Some s \<longleftrightarrow> cm s = Some (i, ''active'')"
    and "cm s = Some (i, ''pending'') \<Longrightarrow> cm s' = Some (i, ''pending'') \<Longrightarrow> s = s'"
  using assms unfolding rollover_ok_def by blast+

lemma relabelled: "st \<noteq> ''retired'' \<Longrightarrow> relabel i A x = Some (k, st) \<longleftrightarrow> x = Some (k, st) \<and> \<not> (k = i \<and> st \<in> A)"
  by (auto simp: relabel_def split: option.splits if_splits)

lemma taken_over_simps:
  "taken_over i s cm s = Some (i, ''active'')"
  "t \<noteq> s \<Longrightarrow> taken_over i s cm t = Some (j, ''active'') \<longleftrightarrow> cm t = Some (j, ''active'') \<and> j \<noteq> i"
  "t \<noteq> s \<Longrightarrow> taken_over i s cm t = Some (j, ''pending'') \<longleftrightarrow> cm t = Some (j, ''pending'') \<and> j \<noteq> i"
  by (simp_all add: taken_over_def relabelled)

lemma offered_simps:
  "offered i s cm s = Some (i, ''pending'')"
  "t \<noteq> s \<Longrightarrow> offered i s cm t = Some (j, ''active'') \<longleftrightarrow> cm t = Some (j, ''active'')"
  "t \<noteq> s \<Longrightarrow> offered i s cm t = Some (j, ''pending'') \<longleftrightarrow> cm t = Some (j, ''pending'') \<and> j \<noteq> i"
  by (simp_all add: offered_def relabelled)

lemma rollover_taken_over:
  assumes ok: "rollover_ok am cm" and free: "\<And>j. j \<noteq> i \<Longrightarrow> am j \<noteq> Some s"
  shows "rollover_ok (am(i \<mapsto> s)) (taken_over i s cm)"
  unfolding rollover_ok_def
proof (intro conjI allI impI)
  fix j t
  show "(am(i \<mapsto> s)) j = Some t \<longleftrightarrow> taken_over i s cm t = Some (j, ''active'')"
  proof (cases "t = s")
    case True
    then show ?thesis using free [of j] by (auto simp: taken_over_def)
  next
    case False
    then show ?thesis using rollover_okD(1) [OF ok, of j t] by (auto simp: taken_over_simps)
  qed
next
  fix j t t'
  assume "taken_over i s cm t = Some (j, ''pending'')" "taken_over i s cm t' = Some (j, ''pending'')"
  then show "t = t'"
    using rollover_okD(2) [OF ok, of t j t'] by (cases "t = s"; cases "t' = s") (auto simp: taken_over_simps)
qed

lemma rollover_offered:
  assumes ok: "rollover_ok am cm" and free: "cm s = None"
  shows "rollover_ok am (offered i s cm)"
  unfolding rollover_ok_def
proof (intro conjI allI impI)
  fix j t
  show "am j = Some t \<longleftrightarrow> offered i s cm t = Some (j, ''active'')"
  proof (cases "t = s")
    case True
    then show ?thesis using rollover_okD(1) [OF ok, of j t] free by (simp add: offered_def)
  next
    case False
    then show ?thesis using rollover_okD(1) [OF ok, of j t] by (simp add: offered_simps)
  qed
next
  fix j t t'
  assume "offered i s cm t = Some (j, ''pending'')" "offered i s cm t' = Some (j, ''pending'')"
  then show "t = t'"
    using rollover_okD(2) [OF ok, of t j t'] by (cases "t = s"; cases "t' = s") (auto simp: offered_simps)
qed

text \<open>What the functions of the store do to the abstract state.\<close>

lemma serial_view_update:
  assumes "\<And>a. ag_ID (f a) = ag_ID a" and "\<And>a. ag_CertificateSerial (f a) = ag_CertificateSerial a"
  shows "serial_view (update_where P f t) = serial_view t"
proof
  show "serial_view (update_where P f t) i = serial_view t i" for i
    using assms by (cases "row ag_ID i t") (simp_all add: serial_view_def row_update_where)
qed

lemma serial_view_set:
  assumes "\<And>a. ag_ID (f a) = ag_ID a" and "row ag_ID i t = Some a" and "\<And>b. P b \<longrightarrow> ag_ID b = i" and "P a"
  shows "serial_view (update_where P f t) = (serial_view t)(i \<mapsto> ag_CertificateSerial (f a))"
proof
  show "serial_view (update_where P f t) j = ((serial_view t)(i \<mapsto> ag_CertificateSerial (f a))) j" for j
    using assms row_Some_in [of ag_ID j t] by (cases "row ag_ID j t"; cases "j = i") (auto simp: serial_view_def row_update_where)
qed

lemma serial_view_append:
  "row ag_ID (ag_ID a) t = None \<Longrightarrow> serial_view (t @ [a]) = (serial_view t)(ag_ID a \<mapsto> ag_CertificateSerial a)"
  by (simp add: fun_eq_iff serial_view_def row_None row_snoc)

lemma cert_view_retire:
  assumes "\<And>c. P c \<longleftrightarrow> cert_AgentID c = i \<and> Q (cert_Serial c) \<and> cert_Status c \<in> A"
  shows "cert_view (retire P t cs) s = (if Q s then relabel i A (cert_view cs s) else cert_view cs s)"
  using assms row_Some_in [of cert_Serial s cs]
  by (cases "row cert_Serial s cs") (auto simp: cert_view_def retire_def row_update_where relabel_def)

lemma cert_view_append:
  "cert_Serial c \<notin> cert_Serial ` set t \<Longrightarrow>
     cert_view (t @ [c]) s = (if s = cert_Serial c then Some (cert_AgentID c, cert_Status c) else cert_view t s)"
  by (simp add: cert_view_def row_snoc)

lemma cert_view_upsert:
  assumes "cert_Status c = ''active''"
  shows "cert_view (upsert_certificate t c) s = (if s = cert_Serial c then Some (cert_AgentID c, ''active'') else cert_view t s)"
proof (cases "cert_Serial c \<in> cert_Serial ` set t")
  case True
  then have "row cert_Serial (cert_Serial c) t \<noteq> None" by (simp add: row_None)
  with True assms row_Some_in [of cert_Serial s t] show ?thesis
    by (cases "row cert_Serial s t") (auto simp: upsert_certificate_def cert_view_def row_update_where)
next
  case False
  with assms show ?thesis by (simp add: upsert_certificate_def cert_view_append)
qed

lemma retire_keys [key_simps]: "map cert_Serial (retire P t cs) = map cert_Serial cs"
  by (simp add: retire_def map_key_update_where)

lemma retire_unique [key_simps]: "unique_keys cert_Serial (retire P t cs) = unique_keys cert_Serial cs"
  by (simp add: unique_keys_def retire_keys)

lemma retire_serials: "cert_Serial ` set (retire P t cs) = cert_Serial ` set cs"
  by (metis retire_keys set_map)

lemma upsert_unique: "unique_keys cert_Serial t \<Longrightarrow> unique_keys cert_Serial (upsert_certificate t c)"
  by (auto simp: upsert_certificate_def unique_snoc unique_update_where)

definition agents_inv :: "'a agent_db_scheme \<Rightarrow> bool" where
  "agents_inv db \<longleftrightarrow> unique_keys ag_ID (adb_agents db) \<and> unique_keys cert_Serial (adb_certificates db) \<and>
     rollover_ok (serial_view (adb_agents db)) (cert_view (adb_certificates db))"

lemma update_agent_inv:
  assumes "agents_inv db" and "\<And>a. ag_ID (f a) = ag_ID a" and "\<And>a. ag_CertificateSerial (f a) = ag_CertificateSerial a"
  shows "agents_inv (db\<lparr>adb_agents := update_where P f (adb_agents db)\<rparr>)"
  using assms by (simp add: agents_inv_def serial_view_update unique_update_where)

lemma update_rows_inv:
  assumes "agents_inv (db\<lparr>adb_agents := t\<rparr>)" and "\<And>a. ag_ID (f a) = ag_ID a"
    and "\<And>a. ag_CertificateSerial (f a) = ag_CertificateSerial a"
  shows "agents_inv (db\<lparr>adb_agents := update_where P f t\<rparr>)"
  using update_agent_inv [OF assms, of P] by simp

lemma clash_serial: "\<not> agent_clash t a \<Longrightarrow> j \<noteq> ag_ID a \<Longrightarrow> serial_view t j \<noteq> Some (ag_CertificateSerial a)"
  by (auto simp: serial_view_def agent_clash_def list_ex_iff dest!: row_Some_in)

lemma upsert_agent_view:
  assumes "upsert_agent t a = Some t'" and "unique_keys ag_ID t"
  shows "unique_keys ag_ID t' \<and> serial_view t' = (serial_view t)(ag_ID a \<mapsto> ag_CertificateSerial a) \<and>
    (\<forall>j. j \<noteq> ag_ID a \<longrightarrow> serial_view t j \<noteq> Some (ag_CertificateSerial a))"
proof (cases "row ag_ID (ag_ID a) t")
  case None
  with assms(1) have t': "t' = t @ [a\<lparr>ag_StoppedAt := None, ag_UninstalledAt := None\<rparr>]" and "\<not> agent_clash t a"
    by (auto simp: upsert_agent_def split: if_splits)
  with None assms(2) clash_serial [of t a]
    serial_view_append [of "a\<lparr>ag_StoppedAt := None, ag_UninstalledAt := None\<rparr>" t] show ?thesis
    by (simp add: unique_snoc row_None)
next
  case (Some old)
  with assms(1) have t': "t' = update_where (\<lambda>r. ag_ID r = ag_ID a) (merge_agent a) t"
    and clash: "\<not> agent_clash t (merge_agent a old)"
    by (auto simp: upsert_agent_def split: if_splits)
  have m: "ag_ID (merge_agent a r) = ag_ID r" "ag_CertificateSerial (merge_agent a r) = ag_CertificateSerial a" for r
    by (simp_all add: merge_agent_def)
  have "ag_ID old = ag_ID a" using row_Some_in [OF Some] by simp
  with t' m assms(2) clash_serial [OF clash] serial_view_set [where f = "merge_agent a", OF m(1) Some] show ?thesis
    by (simp add: unique_update_where)
qed

lemma taken_over_iff:
  "rollover_ok am cm \<Longrightarrow> \<forall>j. j \<noteq> i \<longrightarrow> am j \<noteq> Some s \<Longrightarrow> cm' = taken_over i s cm \<Longrightarrow> rollover_ok (am(i \<mapsto> s)) cm'"
  using rollover_taken_over by blast

lemma save_agent_inv:
  assumes "agents_inv db"
  shows "agents_inv (fst (save_agent db agent0))"
proof -
  define a where "a = (if ag_Status agent0 = [] then agent0\<lparr>ag_Status := ''offline''\<rparr> else agent0)"
  let ?i = "ag_ID a" and ?s = "ag_CertificateSerial a" and ?cs = "adb_certificates db"
  show ?thesis
  proof (cases "ag_RemoteHostID a \<noteq> [] \<and> ag_RemoteHostID a \<notin> set (adb_hosts db) \<or> upsert_agent (adb_agents db) a = None")
    case True
    with assms show ?thesis by (auto simp: save_agent_def Let_def simp flip: a_def)
  next
    case False
    then obtain t where t: "upsert_agent (adb_agents db) a = Some t" by auto
    let ?r = "retire (\<lambda>c. cert_AgentID c = ?i \<and> cert_Serial c \<noteq> ?s \<and> cert_live c) (ag_CreatedAt a) ?cs"
    have u: "unique_keys ag_ID (adb_agents db)" "unique_keys cert_Serial ?cs"
      and ok: "rollover_ok (serial_view (adb_agents db)) (cert_view ?cs)"
      using assms by (auto simp: agents_inv_def)
    have "cert_view (upsert_certificate ?r (issued_certificate a)) s = taken_over ?i ?s (cert_view ?cs) s" for s
      using cert_view_upsert [of "issued_certificate a" ?r s]
        cert_view_retire [where Q = "\<lambda>x. x \<noteq> ?s" and A = "{''active'', ''pending''}" and i = ?i and cs = ?cs and s = s
          and t = "ag_CreatedAt a" and P = "\<lambda>c. cert_AgentID c = ?i \<and> cert_Serial c \<noteq> ?s \<and> cert_live c"]
      by (simp add: taken_over_def issued_certificate_def cert_live_def)
    then have "cert_view (upsert_certificate ?r (issued_certificate a)) = taken_over ?i ?s (cert_view ?cs)" ..
    with upsert_agent_view [OF t u(1)] taken_over_iff [OF ok] u(2)
    have "agents_inv (db\<lparr>adb_agents := t, adb_certificates := upsert_certificate ?r (issued_certificate a)\<rparr>)"
      by (simp add: agents_inv_def upsert_unique retire_unique)
    with False t show ?thesis by (auto simp: save_agent_def Let_def simp flip: a_def)
  qed
qed

lemma enroll_agent_inv:
  assumes "agents_inv db"
  shows "agents_inv (fst (enroll_agent db a))"
proof (cases "snd (enroll_agent db a)")
  case (Some err)
  then have "fst (enroll_agent db a) = db"
    by (auto simp: enroll_agent_def Let_def split: if_splits sum.splits)
  with assms show ?thesis by simp
next
  case None
  let ?i = "ag_ID a" and ?s = "ag_CertificateSerial a" and ?cs = "adb_certificates db"
  let ?f = "\<lambda>r. (enrolled_agent a)\<lparr>ag_ID := ag_ID r, ag_CreatedAt := ag_CreatedAt r\<rparr>"
  let ?r = "retire (\<lambda>c. cert_AgentID c = ?i \<and> cert_live c) (ag_CreatedAt a) ?cs"
  have u: "unique_keys ag_ID (adb_agents db)" "unique_keys cert_Serial ?cs"
    and ok: "rollover_ok (serial_view (adb_agents db)) (cert_view ?cs)"
    using assms by (auto simp: agents_inv_def)
  from None obtain t where fresh: "?s \<notin> cert_Serial ` set ?cs" and
    db': "fst (enroll_agent db a) = db\<lparr>adb_agents := t, adb_certificates := ?r @ [issued_certificate a]\<rparr>"
    and t: "row ag_ID ?i (adb_agents db) = None \<and> t = adb_agents db @ [enrolled_agent a] \<or>
      (\<exists>old. row ag_ID ?i (adb_agents db) = Some old \<and> t = update_where (\<lambda>r. ag_ID r = ?i) ?f (adb_agents db))"
    and clash: "\<not> agent_clash (adb_agents db) (enrolled_agent a)"
    by (auto simp: enroll_agent_def Let_def split: if_splits sum.splits option.splits)
  have agents: "unique_keys ag_ID t \<and> serial_view t = (serial_view (adb_agents db))(?i \<mapsto> ?s)"
    using t
  proof
    assume "row ag_ID ?i (adb_agents db) = None \<and> t = adb_agents db @ [enrolled_agent a]"
    then show ?thesis using u(1) serial_view_append [of "enrolled_agent a" "adb_agents db"]
      by (auto simp: unique_snoc row_None enrolled_agent_def)
  next
    assume "\<exists>old. row ag_ID ?i (adb_agents db) = Some old \<and> t = update_where (\<lambda>r. ag_ID r = ?i) ?f (adb_agents db)"
    then obtain old where o: "row ag_ID ?i (adb_agents db) = Some old" and t: "t = update_where (\<lambda>r. ag_ID r = ?i) ?f (adb_agents db)"
      by blast
    have "serial_view t = (serial_view (adb_agents db))(?i \<mapsto> ag_CertificateSerial (?f old))"
      unfolding t using row_Some_in [OF o] by (intro serial_view_set [OF _ o]) auto
    with u(1) t show ?thesis by (simp add: unique_update_where enrolled_agent_def)
  qed
  have cert: "cert_Serial (issued_certificate a) = ?s" "cert_AgentID (issued_certificate a) = ?i"
    "cert_Status (issued_certificate a) = ''active''" by (simp_all add: issued_certificate_def)
  have "cert_view (?r @ [issued_certificate a]) s = taken_over ?i ?s (cert_view ?cs) s" for s
    using cert_view_append [of "issued_certificate a" ?r s] fresh
      cert_view_retire [where Q = "\<lambda>_. True" and A = "{''active'', ''pending''}" and i = ?i and cs = ?cs and s = s
        and t = "ag_CreatedAt a" and P = "\<lambda>c. cert_AgentID c = ?i \<and> cert_live c"]
    by (simp add: taken_over_def cert retire_serials cert_live_def)
  then have "cert_view (?r @ [issued_certificate a]) = taken_over ?i ?s (cert_view ?cs)" ..
  moreover have "\<forall>j. j \<noteq> ?i \<longrightarrow> serial_view (adb_agents db) j \<noteq> Some ?s"
    using clash_serial [OF clash] by (simp add: enrolled_agent_def)
  ultimately show ?thesis
    using agents taken_over_iff [OF ok] u(2) fresh
    by (simp add: db' agents_inv_def unique_snoc retire_unique cert retire_serials)
qed

lemma save_pending_inv:
  assumes "agents_inv db"
  shows "agents_inv (fst (save_pending_certificate db i s nb na t))"
proof (cases "snd (save_pending_certificate db i s nb na t)")
  case (Some err)
  then have "fst (save_pending_certificate db i s nb na t) = db"
    by (auto simp: save_pending_certificate_def split: if_splits)
  with assms show ?thesis by simp
next
  case None
  let ?cs = "adb_certificates db"
  let ?r = "retire (\<lambda>c. cert_AgentID c = i \<and> cert_Status c = ''pending'') t ?cs"
  let ?c = "\<lparr>cert_Serial = s, cert_AgentID = i, cert_NotBefore = Some nb, cert_NotAfter = Some na,
             cert_Status = ''pending'', cert_IssuedAt = t, cert_ActivatedAt = None, cert_RetiredAt = None\<rparr>"
  from None have fresh: "s \<notin> cert_Serial ` set ?cs" and
    db': "fst (save_pending_certificate db i s nb na t) = db\<lparr>adb_certificates := ?r @ [?c]\<rparr>"
    by (auto simp: save_pending_certificate_def split: if_splits)
  have "cert_view (?r @ [?c]) x = offered i s (cert_view ?cs) x" for x
    using cert_view_append [of ?c ?r x] fresh
      cert_view_retire [where Q = "\<lambda>_. True" and A = "{''pending''}" and i = i and cs = ?cs and s = x
        and t = t and P = "\<lambda>c. cert_AgentID c = i \<and> cert_Status c = ''pending''"]
    by (simp add: offered_def retire_serials)
  then have "cert_view (?r @ [?c]) = offered i s (cert_view ?cs)" ..
  moreover have "cert_view ?cs s = None" using fresh by (simp add: cert_view_def row_None)
  ultimately show ?thesis
    using assms rollover_offered by (simp add: db' agents_inv_def unique_snoc retire_unique retire_serials fresh)
qed

lemma cert_view_update:
  assumes "\<And>c. cert_Serial (f c) = cert_Serial c" and "\<And>c. cert_AgentID (f c) = cert_AgentID c"
    and "\<And>c. cert_Status (f c) = cert_Status c"
  shows "cert_view (update_where P f t) = cert_view t"
proof
  show "cert_view (update_where P f t) x = cert_view t x" for x
    using assms by (cases "row cert_Serial x t") (simp_all add: cert_view_def row_update_where)
qed

lemma cert_view_activate:
  assumes "\<And>c. cert_Serial (f c) = cert_Serial c" and "\<And>c. cert_AgentID (f c) = cert_AgentID c"
    and "\<And>c. cert_Status (f c) = ''active''"
  shows "cert_view (update_where (\<lambda>d. cert_AgentID d = i \<and> cert_Serial d = s \<and> cert_Status d = ''pending'') f t) x =
    (if x = s \<and> cert_view t s = Some (i, ''pending'') then Some (i, ''active'') else cert_view t x)"
  using assms row_Some_in [of cert_Serial x t]
  by (cases "row cert_Serial x t") (auto simp: cert_view_def row_update_where)

lemma sole_pending:
  assumes "rollover_ok am cm" and "cm s = Some (i, ''pending'')" and "x \<noteq> s"
  shows "relabel i {''active''} (cm x) = relabel i {''active'', ''pending''} (cm x)"
  using rollover_okD(2) [OF assms(1,2), of x] assms(3) by (auto simp: relabel_def split: option.splits)

text \<open>A heartbeat: what it found, and what it leaves.\<close>

lemma heartbeat_found:
  assumes "record_agent_heartbeat db hb = (db', None)" and inv: "agents_inv db"
  obtains a c certs' where "row ag_ID (hb_ID hb) (adb_agents db) = Some a" and "ag_RevokedAt a = None"
    and "row cert_Serial (hb_CertificateSerial hb) (adb_certificates db) = Some c" and "cert_AgentID c = hb_ID hb"
    and "cert_live c"
    and "serial_view (adb_agents db') = (serial_view (adb_agents db))(hb_ID hb \<mapsto> hb_CertificateSerial hb)"
    and "unique_keys ag_ID (adb_agents db')" and "unique_keys cert_Serial (adb_certificates db')"
    and "cert_view (adb_certificates db') =
      (if cert_Status c = ''pending'' then taken_over (hb_ID hb) (hb_CertificateSerial hb) (cert_view (adb_certificates db))
       else cert_view (adb_certificates db))"
proof -
  let ?i = "hb_ID hb" and ?s = "hb_CertificateSerial hb" and ?now = "hb_ObservedAt hb"
  let ?expiry = "if hb_CertificateNotAfter hb = zero_time then None else Some (hb_CertificateNotAfter hb)"
  let ?cs = "adb_certificates db"
  let ?fresh = "update_where (\<lambda>d. cert_Serial d = ?s \<and> cert_AgentID d = ?i)
      (\<lambda>d. d\<lparr>cert_NotAfter := or_else ?expiry (cert_NotAfter d)\<rparr>) ?cs"
  let ?certs = "\<lambda>a c. if cert_Status c = ''pending'' \<and> ag_CertificateSerial a \<noteq> ?s
     then update_where (\<lambda>d. cert_AgentID d = ?i \<and> cert_Serial d = ?s \<and> cert_Status d = ''pending'')
            (\<lambda>d. d\<lparr>cert_Status := ''active'', cert_ActivatedAt := Some ?now, cert_RetiredAt := None\<rparr>)
            (retire (\<lambda>d. cert_AgentID d = ?i \<and> cert_Serial d \<noteq> ?s \<and> cert_Status d = ''active'') ?now ?fresh)
     else ?fresh"
  let ?f = "\<lambda>r. r\<lparr>ag_CertificateSerial := ?s, ag_CertificateNotAfter := or_else ?expiry (ag_CertificateNotAfter r),
      ag_Capabilities := hb_Capabilities hb, ag_Runtime := hb_Runtime hb, ag_Status := ''online'',
      ag_LastHeartbeatAt := Some ?now, ag_StoppedAt := None, ag_UninstalledAt := None\<rparr>"
  have u: "unique_keys ag_ID (adb_agents db)" "unique_keys cert_Serial ?cs"
    and ok: "rollover_ok (serial_view (adb_agents db)) (cert_view ?cs)"
    using inv by (auto simp: agents_inv_def)
  from assms(1) obtain a c where fa: "find (\<lambda>a. ag_ID a = ?i \<and> ag_RevokedAt a = None) (adb_agents db) = Some a"
    and fc: "find (cert_usable ?i ?s ?now) ?cs = Some c"
    and db': "adb_agents db' = update_where (\<lambda>r. ag_ID r = ?i \<and> ag_RevokedAt r = None) ?f (adb_agents db)"
      "adb_certificates db' = ?certs a c"
    by (auto simp: record_agent_heartbeat_def Let_def update_agent_def split: option.splits if_splits)
  have a: "row ag_ID ?i (adb_agents db) = Some a" "ag_RevokedAt a = None"
    using row_unique [OF u(1), of a] find_Some_facts [OF fa] by auto
  have c: "row cert_Serial ?s ?cs = Some c" "cert_AgentID c = ?i" "cert_live c"
    using row_unique [OF u(2), of c] find_Some_facts [OF fc] by (auto simp: cert_usable_def)
  have fresh: "cert_view ?fresh = cert_view ?cs"
    by (rule cert_view_update) simp_all
  have serial: "serial_view (adb_agents db') = (serial_view (adb_agents db))(?i \<mapsto> ag_CertificateSerial (?f a))"
    unfolding db'(1) by (intro serial_view_set [OF _ a(1)]) (use a(2) row_Some_in [OF a(1)] in auto)
  have uc: "unique_keys cert_Serial (adb_certificates db')"
    using u(2) by (simp add: db'(2) unique_update_where retire_unique)
  have certs: "cert_view (adb_certificates db') x =
      (if cert_Status c = ''pending'' then taken_over ?i ?s (cert_view ?cs) else cert_view ?cs) x" for x
  proof (cases "cert_Status c = ''pending''")
    case False
    with fresh show ?thesis by (simp add: db'(2))
  next
    case True
    have view: "cert_view ?cs ?s = Some (?i, ''pending'')" using c True by (simp add: cert_view_def)
    have "serial_view (adb_agents db) ?i = Some (ag_CertificateSerial a)" using a(1) by (simp add: serial_view_def)
    with rollover_okD(1) [OF ok, of ?i ?s] view have new: "ag_CertificateSerial a \<noteq> ?s" by auto
    let ?r = "retire (\<lambda>d. cert_AgentID d = ?i \<and> cert_Serial d \<noteq> ?s \<and> cert_Status d = ''active'') ?now ?fresh"
    have r: "cert_view ?r y = (if y \<noteq> ?s then relabel ?i {''active''} (cert_view ?cs y) else cert_view ?cs y)" for y
      unfolding fresh [symmetric]
      by (rule cert_view_retire [where Q = "\<lambda>y. y \<noteq> ?s"]) auto
    have "cert_view (adb_certificates db') x = (if x = ?s then Some (?i, ''active'') else cert_view ?r x)"
      using True new r [of ?s] view
        cert_view_activate [where i = ?i and s = ?s and t = ?r and x = x and
          f = "\<lambda>d. d\<lparr>cert_Status := ''active'', cert_ActivatedAt := Some ?now, cert_RetiredAt := None\<rparr>"]
      by (simp add: db'(2))
    with True r [of x] sole_pending [OF ok view, of x] show ?thesis by (simp add: taken_over_def)
  qed
  show thesis
    using that [OF a c] serial uc certs u(1) by (simp add: db'(1) unique_update_where fun_eq_iff)
qed

lemma heartbeat_inv:
  assumes inv: "agents_inv db"
  shows "agents_inv (fst (record_agent_heartbeat db hb))"
proof (cases "snd (record_agent_heartbeat db hb)")
  case (Some err)
  then have "fst (record_agent_heartbeat db hb) = db"
    by (auto simp: record_agent_heartbeat_def Let_def split: if_splits option.splits)
  with inv show ?thesis by simp
next
  case None
  then obtain db' where r: "record_agent_heartbeat db hb = (db', None)" by (metis prod.collapse)
  let ?i = "hb_ID hb" and ?s = "hb_CertificateSerial hb"
  obtain a c where a: "row ag_ID ?i (adb_agents db) = Some a" and
    c: "row cert_Serial ?s (adb_certificates db) = Some c" "cert_AgentID c = ?i" "cert_live c"
    and left: "serial_view (adb_agents db') = (serial_view (adb_agents db))(?i \<mapsto> ?s)"
      "unique_keys ag_ID (adb_agents db')" "unique_keys cert_Serial (adb_certificates db')"
      "cert_view (adb_certificates db') =
        (if cert_Status c = ''pending'' then taken_over ?i ?s (cert_view (adb_certificates db))
         else cert_view (adb_certificates db))"
    using heartbeat_found [OF r inv] by metis
  have ok: "rollover_ok (serial_view (adb_agents db)) (cert_view (adb_certificates db))"
    using inv by (simp add: agents_inv_def)
  have view: "cert_view (adb_certificates db) ?s = Some (?i, cert_Status c)" using c by (simp add: cert_view_def)
  have "rollover_ok (serial_view (adb_agents db')) (cert_view (adb_certificates db'))"
  proof (cases "cert_Status c = ''pending''")
    case True
    have "serial_view (adb_agents db) j \<noteq> Some ?s" for j
      using rollover_okD(1) [OF ok, of j ?s] view True by simp
    with True left rollover_taken_over [OF ok] show ?thesis by simp
  next
    case False
    with c(3) have "cert_Status c = ''active''" by (simp add: cert_live_def)
    with view rollover_okD(1) [OF ok, of ?i ?s] have "(serial_view (adb_agents db))(?i \<mapsto> ?s) = serial_view (adb_agents db)"
      by (simp add: fun_upd_idem)
    with False left ok show ?thesis by simp
  qed
  with left r show ?thesis by (simp add: agents_inv_def)
qed

datatype agent_request =
    SaveAgent agent
  | EnrollAgent agent
  | MarkStopped string instant
  | CompleteUninstall string instant
  | BindHost string string bool
  | BeginDrain string instant
  | EndDrain string
  | RecoverDrains
  | HeartbeatAgent string "string list" instant
  | RecordHeartbeat agent_heartbeat
  | SavePending string string instant instant instant
  | SetDataDir string string
  | RevokeAgent string instant
  | SaveToken string instant
  | ConsumeToken string instant

fun agent_step :: "'a agent_db_scheme \<Rightarrow> agent_request \<Rightarrow> 'a agent_db_scheme \<times> check" where
  "agent_step db (SaveAgent a) = save_agent db a"
| "agent_step db (EnrollAgent a) = enroll_agent db a"
| "agent_step db (MarkStopped i t) = mark_agent_stopped db i t"
| "agent_step db (CompleteUninstall i t) = complete_agent_uninstall db i t"
| "agent_step db (BindHost i h m) = bind_agent_remote_host db i h m"
| "agent_step db (BeginDrain i t) = begin_agent_drain db i t"
| "agent_step db (EndDrain i) = end_agent_drain db i"
| "agent_step db RecoverDrains = (fst (recover_agent_drains db), None)"
| "agent_step db (HeartbeatAgent i cs t) = heartbeat_agent db i cs t"
| "agent_step db (RecordHeartbeat hb) = record_agent_heartbeat db hb"
| "agent_step db (SavePending i s nb na t) = save_pending_certificate db i s nb na t"
| "agent_step db (SetDataDir i d) = set_managed_agent_data_dir db i d"
| "agent_step db (RevokeAgent i t) = revoke_agent db i t"
| "agent_step db (SaveToken h t) = save_enrollment_token db h t"
| "agent_step db (ConsumeToken h t) = consume_enrollment_token db h t"

abbreviation agent_run :: "'a agent_db_scheme \<Rightarrow> agent_request list \<Rightarrow> 'a agent_db_scheme" where
  "agent_run db reqs \<equiv> foldl (\<lambda>d req. fst (agent_step d req)) db reqs"

lemmas agent_update_defs =
  mark_agent_stopped_def complete_agent_uninstall_def begin_agent_drain_def end_agent_drain_def
  recover_agent_drains_def heartbeat_agent_def set_managed_agent_data_dir_def revoke_agent_def
  update_agent_def Let_def

lemma tokens_inv [simp]: "agents_inv (db\<lparr>adb_tokens := t\<rparr>) = agents_inv db"
  by (simp add: agents_inv_def)

lemma bind_inv: "agents_inv db \<Longrightarrow> agents_inv (fst (bind_agent_remote_host db i h m))"
  by (auto simp: bind_agent_remote_host_def update_agent_def Let_def intro!: update_rows_inv update_agent_inv)

lemma agents_inv_step: "agents_inv db \<Longrightarrow> agents_inv (fst (agent_step db req))"
proof (cases req)
  case (SaveToken h t)
  assume "agents_inv db"
  with SaveToken show ?thesis by (auto simp: save_enrollment_token_def split: option.splits)
qed (auto simp: agent_update_defs consume_enrollment_token_def
      intro!: update_agent_inv save_agent_inv enroll_agent_inv bind_inv heartbeat_inv save_pending_inv)

lemma agents_inv_run: "agents_inv db \<Longrightarrow> agents_inv (agent_run db reqs)"
  by (induction reqs arbitrary: db) (auto intro: agents_inv_step)

lemma usable_row:
  assumes "agents_inv db" and "agent_certificate_usable db i s now"
  obtains a c where "row ag_ID i (adb_agents db) = Some a" and "ag_RevokedAt a = None" and "cert_live c"
    and "cert_view (adb_certificates db) s = Some (i, cert_Status c)"
proof -
  have u: "unique_keys ag_ID (adb_agents db)" "unique_keys cert_Serial (adb_certificates db)"
    using assms(1) by (auto simp: agents_inv_def)
  from assms(2) obtain a c where "a \<in> set (adb_agents db)" "ag_ID a = i" "ag_RevokedAt a = None"
    "c \<in> set (adb_certificates db)" "cert_usable i s now c"
    by (auto simp: agent_certificate_usable_def list_ex_iff)
  with that [of a c] row_unique [OF u(1), of a] row_unique [OF u(2), of c] show thesis
    by (auto simp: cert_usable_def cert_view_def)
qed

text \<open>
  C30: the rollover of certificates. Whatever is asked of the store in whatever order, a certificate
  that an agent can use is its current one or the one renewed certificate it was offered, and the
  agent is not revoked; once a heartbeat has used the renewed certificate, it is the current one and
  no other certificate of the agent can be used.
\<close>
theorem certificate_rollover:
  assumes "agents_inv db" and "agent_certificate_usable (agent_run db reqs) i s now"
  shows "\<exists>a. row ag_ID i (adb_agents (agent_run db reqs)) = Some a \<and> ag_RevokedAt a = None \<and>
    (ag_CertificateSerial a \<noteq> s \<longrightarrow>
      (\<forall>t later. ag_CertificateSerial a \<noteq> t \<and> agent_certificate_usable (agent_run db reqs) i t later \<longrightarrow> t = s) \<and>
      (\<forall>hb db' t later. hb_ID hb = i \<and> hb_CertificateSerial hb = s \<and>
         record_agent_heartbeat (agent_run db reqs) hb = (db', None) \<longrightarrow>
         serial_view (adb_agents db') i = Some s \<and> (agent_certificate_usable db' i t later \<longrightarrow> t = s)))"
proof -
  let ?db = "agent_run db reqs"
  have inv: "agents_inv ?db" using assms(1) by (rule agents_inv_run)
  then have ok: "rollover_ok (serial_view (adb_agents ?db)) (cert_view (adb_certificates ?db))"
    by (simp add: agents_inv_def)
  obtain a where a: "row ag_ID i (adb_agents ?db) = Some a" "ag_RevokedAt a = None"
    using usable_row [OF inv assms(2)] by metis
  have current: "serial_view (adb_agents ?db) i = Some (ag_CertificateSerial a)" using a(1) by (simp add: serial_view_def)
  have pending: "cert_view (adb_certificates ?db) t = Some (i, ''pending'')"
    if new: "ag_CertificateSerial a \<noteq> t" and use: "agent_certificate_usable ?db i t later" for t later
  proof -
    obtain c where "cert_live c" "cert_view (adb_certificates ?db) t = Some (i, cert_Status c)"
      using usable_row [OF inv use] by metis
    with rollover_okD(1) [OF ok, of i t] current new show ?thesis by (auto simp: cert_live_def)
  qed
  have "serial_view (adb_agents db') i = Some s \<and> (agent_certificate_usable db' i t later \<longrightarrow> t = s)"
    if new: "ag_CertificateSerial a \<noteq> s" and hb: "hb_ID hb = i" "hb_CertificateSerial hb = s"
      "record_agent_heartbeat ?db hb = (db', None)" for hb db' t later
  proof -
    have p: "cert_view (adb_certificates ?db) s = Some (i, ''pending'')" using pending [OF new assms(2)] .
    have inv': "agents_inv db'" using heartbeat_inv [OF inv, of hb] hb(3) by simp
    obtain c where c: "row cert_Serial s (adb_certificates ?db) = Some c"
      and left: "serial_view (adb_agents db') = (serial_view (adb_agents ?db))(i \<mapsto> s)"
        "cert_view (adb_certificates db') = (if cert_Status c = ''pending'' then taken_over i s (cert_view (adb_certificates ?db))
           else cert_view (adb_certificates ?db))"
      using heartbeat_found [OF hb(3) inv] hb(1,2) by metis
    with p have view: "cert_view (adb_certificates db') = taken_over i s (cert_view (adb_certificates ?db))"
      by (simp add: cert_view_def)
    have "t = s" if use: "agent_certificate_usable db' i t later"
    proof (rule ccontr)
      assume "t \<noteq> s"
      obtain c' where "cert_live c'" "cert_view (adb_certificates db') t = Some (i, cert_Status c')"
        using usable_row [OF inv' use] by metis
      with view taken_over_simps(2,3) [OF \<open>t \<noteq> s\<close>, of i _ i] show False by (auto simp: cert_live_def)
    qed
    with left(1) show ?thesis by simp
  qed
  moreover have "t = s" if "ag_CertificateSerial a \<noteq> s" "ag_CertificateSerial a \<noteq> t" "agent_certificate_usable ?db i t later" for t later
    using rollover_okD(2) [OF ok pending [OF that(2,3)] pending [OF that(1) assms(2)]] .
  ultimately show ?thesis using a by blast
qed

definition agent_example :: agent where
  "agent_example = \<lparr>ag_ID = ''a1'', ag_RemoteHostID = [], ag_ManagedInstallation = False, ag_AgentDataDir = [],
     ag_CertificateSerial = ''s1'', ag_CertificateNotAfter = None, ag_Capabilities = [], ag_Runtime = no_runtime,
     ag_Status = ''offline'', ag_LastHeartbeatAt = None, ag_CreatedAt = 0, ag_RevokedAt = None, ag_StoppedAt = None,
     ag_UninstalledAt = None, ag_DrainingAt = None\<rparr>"

definition no_agents :: agent_db where
  "no_agents = \<lparr>adb_agents = [], adb_certificates = [], adb_tokens = [], adb_hosts = []\<rparr>"

definition renewed_example :: "agent_request list" where
  "renewed_example = [EnrollAgent agent_example, SavePending ''a1'' ''s2'' 0 (10 * nanos) nanos]"

lemma no_agents_inv: "agents_inv no_agents"
  by (simp add: agents_inv_def no_agents_def rollover_ok_def serial_view_def cert_view_def row_def)

lemmas agent_eval =
  renewed_example_def no_agents_def enroll_agent_def agent_example_def Let_def row_def agent_clash_def
  enrolled_agent_def issued_certificate_def save_pending_certificate_def retire_def update_where_def

lemma renewed_example_usable:
  "agent_certificate_usable (agent_run no_agents renewed_example) ''a1'' ''s2'' (2 * nanos)"
  "map_option ag_CertificateSerial (row ag_ID ''a1'' (adb_agents (agent_run no_agents renewed_example))) = Some ''s1''"
  by (simp_all add: agent_eval agent_certificate_usable_def cert_usable_def cert_live_def format_time_def
      less_stamp_def seconds_def)

theorem certificate_rollover_witness:
  "\<exists>a. row ag_ID ''a1'' (adb_agents (agent_run no_agents renewed_example)) = Some a \<and> ag_RevokedAt a = None \<and>
     ag_CertificateSerial a = ''s1''"
  using certificate_rollover [OF no_agents_inv renewed_example_usable(1)] renewed_example_usable(2) by auto

section \<open>Tokens and enrollment\<close>

definition token_wins :: "'a agent_db_scheme \<Rightarrow> agent_request \<Rightarrow> string option" where
  "token_wins db req =
     (case req of
        ConsumeToken h t \<Rightarrow> if snd (consume_enrollment_token db h t) = None then Some h else None
      | _ \<Rightarrow> None)"

definition token_spent :: "'a agent_db_scheme \<Rightarrow> string \<Rightarrow> bool" where
  "token_spent db h \<longleftrightarrow> (\<exists>k \<in> set (adb_tokens db). tok_Hash k = h \<and> tok_ConsumedAt k \<noteq> None)"

definition token_inv :: "'a agent_db_scheme \<Rightarrow> bool" where
  "token_inv db \<longleftrightarrow> unique_keys tok_Hash (adb_tokens db)"

text \<open>The tokens after a step: the same, with a new one, or with one consumed.\<close>

lemma tokens_step:
  "adb_tokens (fst (agent_step db req)) =
     (case req of
        SaveToken h t \<Rightarrow> (if h \<in> tok_Hash ` set (adb_tokens db) then adb_tokens db
           else adb_tokens db @ [\<lparr>tok_Hash = h, tok_ExpiresAt = t, tok_ConsumedAt = None\<rparr>])
      | ConsumeToken h t \<Rightarrow> update_where (token_usable h t) (\<lambda>k. k\<lparr>tok_ConsumedAt := Some t\<rparr>) (adb_tokens db)
      | _ \<Rightarrow> adb_tokens db)"
  by (cases req)
    (simp_all add: agent_update_defs consume_enrollment_token_def save_enrollment_token_def insert_row_def save_agent_def
      enroll_agent_def bind_agent_remote_host_def record_agent_heartbeat_def save_pending_certificate_def
      split: option.split sum.split)

interpretation enrollment_tokens: once_only "\<lambda>db req. fst (agent_step db req)" token_wins token_spent token_inv
proof
  fix db :: "'a agent_db_scheme" and req :: agent_request and h :: string
  show "token_inv db \<Longrightarrow> token_inv (fst (agent_step db req))"
    by (auto simp: token_inv_def tokens_step unique_snoc unique_update_where split: agent_request.split)
  show "token_inv db \<Longrightarrow> token_spent db h \<Longrightarrow> token_spent (fst (agent_step db req)) h"
    by (auto simp: token_spent_def tokens_step token_usable_def split: agent_request.split
        intro!: bexI [OF _ update_where_old])
  assume inv: "token_inv db" and "token_wins db req = Some h"
  then obtain t where req: "req = ConsumeToken h t" and n: "affected (token_usable h t) (adb_tokens db) = 1"
    by (auto simp: token_wins_def consume_enrollment_token_def split: agent_request.splits if_splits)
  from affected_pos [OF n] obtain k where k: "k \<in> set (adb_tokens db)" "token_usable h t k" by auto
  have "l = k" if "l \<in> set (adb_tokens db)" "tok_Hash l = h" for l
    using unique_keys_eq [of tok_Hash "adb_tokens db" l k] inv that k by (simp add: token_inv_def token_usable_def)
  with k show "\<not> token_spent db h" by (auto simp: token_spent_def token_usable_def)
  have "tok_Hash (k\<lparr>tok_ConsumedAt := Some t\<rparr>) = h" using k(2) by (simp add: token_usable_def)
  moreover have "k\<lparr>tok_ConsumedAt := Some t\<rparr> \<in> set (adb_tokens (fst (agent_step db req)))"
    using update_where_new [where P = "token_usable h t" and f = "\<lambda>k. k\<lparr>tok_ConsumedAt := Some t\<rparr>", OF k]
    unfolding tokens_step by (simp add: req)
  ultimately show "token_spent (fst (agent_step db req)) h" unfolding token_spent_def by (intro bexI) auto
qed

text \<open>
  An enrollment token is consumed at most once in any run of the store, and enrollment never
  replaces the identity of an agent that is neither revoked nor uninstalled: it is refused, and
  nothing changes.
\<close>
lemma enrollment_is_protected:
  assumes "token_inv db"
  shows "once_only.win_count (\<lambda>db req. fst (agent_step db req)) token_wins h db reqs \<le> 1 \<and>
    (\<forall>old. row ag_ID (ag_ID a) (adb_agents db) = Some old \<and> ag_RevokedAt old = None \<and> ag_UninstalledAt old = None \<longrightarrow>
       (\<exists>err. enroll_agent db a = (db, Some err)))"
  using enrollment_tokens.at_most_one_win [OF assms] by (auto simp: enroll_agent_def Let_def)

lemma enrollment_is_protected_witness:
  "\<exists>err. enroll_agent (agent_run no_agents renewed_example) agent_example =
     (agent_run no_agents renewed_example, Some err)"
proof -
  have "token_inv (agent_run no_agents renewed_example)"
    by (simp add: agent_eval token_inv_def)
  from enrollment_is_protected [OF this, of _ _ agent_example] show ?thesis
    by (simp add: agent_eval)
qed

end
