(* ===== verification/Json_Text.thy ===== *)
theory Json_Text
  imports Prelude
begin

text \<open>
  \<open>json.Valid\<close> of Go's \<open>encoding/json\<close>, which guards every raw JSON value the store accepts: the
  scanner reads one byte at a time, with a stack of the objects and arrays it is in (at most 10000).
  The modes are the scanner's \<open>step\<close> functions; after the outermost value only white space may come.
\<close>

datatype json_context = Object_Key | Object_Value | Array_Value

datatype json_mode =
    Begin_Value
  | Begin_Value_Or_Empty
  | Begin_String_Or_Empty
  | Begin_String
  | End_Value
  | In_String
  | In_Escape
  | In_Unicode nat
  | Neg
  | Digits_After_First
  | Number_Zero
  | Dot
  | Fraction
  | Exponent
  | Exponent_Sign
  | Exponent_Digits
  | Literal string

type_synonym json_scanner = "json_mode \<times> json_context list"

definition json_space :: "char \<Rightarrow> bool" where
  "json_space c \<longleftrightarrow> c \<in> set [CHR 0x20, CHR 0x09, CHR 0x0D, CHR 0x0A]"

definition json_digit :: "char \<Rightarrow> bool" where
  "json_digit c \<longleftrightarrow> c \<in> set ''0123456789''"

definition json_push :: "json_context \<Rightarrow> json_mode \<Rightarrow> json_context list \<Rightarrow> json_scanner option" where
  "json_push ctx m st = (if length st < 10000 then Some (m, ctx # st) else None)"

definition json_begin :: "json_context list \<Rightarrow> char \<Rightarrow> json_scanner option" where
  "json_begin st c =
     (if json_space c then Some (Begin_Value, st)
      else if c = CHR ''{'' then json_push Object_Key Begin_String_Or_Empty st
      else if c = CHR ''['' then json_push Array_Value Begin_Value_Or_Empty st
      else if c = CHR 0x22 then Some (In_String, st)
      else if c = CHR ''-'' then Some (Neg, st)
      else if c = CHR ''0'' then Some (Number_Zero, st)
      else if c = CHR ''t'' then Some (Literal ''rue'', st)
      else if c = CHR ''f'' then Some (Literal ''alse'', st)
      else if c = CHR ''n'' then Some (Literal ''ull'', st)
      else if json_digit c then Some (Digits_After_First, st)
      else None)"

fun json_end :: "json_context list \<Rightarrow> char \<Rightarrow> json_scanner option" where
  "json_end [] c = (if json_space c then Some (End_Value, []) else None)"
| "json_end (ctx # st) c =
     (if json_space c then Some (End_Value, ctx # st)
      else (case ctx of
          Object_Key \<Rightarrow> if c = CHR '':'' then Some (Begin_Value, Object_Value # st) else None
        | Object_Value \<Rightarrow>
            if c = CHR '','' then Some (Begin_String, Object_Key # st)
            else if c = CHR ''}'' then Some (End_Value, st) else None
        | Array_Value \<Rightarrow>
            if c = CHR '','' then Some (Begin_Value, Array_Value # st)
            else if c = CHR '']'' then Some (End_Value, st) else None))"

definition json_exponent :: "json_context list \<Rightarrow> char \<Rightarrow> json_scanner option" where
  "json_exponent st c = (if c \<in> set ''eE'' then Some (Exponent, st) else json_end st c)"

fun json_step :: "json_scanner \<Rightarrow> char \<Rightarrow> json_scanner option" where
  "json_step (Begin_Value, st) c = json_begin st c"
| "json_step (Begin_Value_Or_Empty, st) c =
     (if json_space c then Some (Begin_Value_Or_Empty, st)
      else if c = CHR '']'' then json_end st c else json_begin st c)"
| "json_step (Begin_String_Or_Empty, st) c =
     (if json_space c then Some (Begin_String_Or_Empty, st)
      else if c = CHR ''}'' then json_end (Object_Value # tl st) c
      else if c = CHR 0x22 then Some (In_String, st) else None)"
| "json_step (Begin_String, st) c =
     (if json_space c then Some (Begin_String, st)
      else if c = CHR 0x22 then Some (In_String, st) else None)"
| "json_step (End_Value, st) c = json_end st c"
| "json_step (In_String, st) c =
     (if c = CHR 0x22 then Some (End_Value, st)
      else if c = CHR 0x5C then Some (In_Escape, st)
      else if of_char c < (0x20 :: nat) then None else Some (In_String, st))"
| "json_step (In_Escape, st) c =
     (if c \<in> set [CHR ''b'', CHR ''f'', CHR ''n'', CHR ''r'', CHR ''t'', CHR 0x5C, CHR ''/'', CHR 0x22] then Some (In_String, st)
      else if c = CHR ''u'' then Some (In_Unicode 3, st) else None)"
| "json_step (In_Unicode n, st) c =
     (if c \<notin> set ''0123456789abcdefABCDEF'' then None
      else Some (case n of 0 \<Rightarrow> In_String | Suc k \<Rightarrow> In_Unicode k, st))"
| "json_step (Neg, st) c =
     (if c = CHR ''0'' then Some (Number_Zero, st)
      else if json_digit c then Some (Digits_After_First, st) else None)"
| "json_step (Digits_After_First, st) c =
     (if json_digit c then Some (Digits_After_First, st)
      else if c = CHR ''.'' then Some (Dot, st) else json_exponent st c)"
| "json_step (Number_Zero, st) c = (if c = CHR ''.'' then Some (Dot, st) else json_exponent st c)"
| "json_step (Dot, st) c = (if json_digit c then Some (Fraction, st) else None)"
| "json_step (Fraction, st) c = (if json_digit c then Some (Fraction, st) else json_exponent st c)"
| "json_step (Exponent, st) c =
     (if c \<in> set ''+-'' then Some (Exponent_Sign, st)
      else if json_digit c then Some (Exponent_Digits, st) else None)"
| "json_step (Exponent_Sign, st) c = (if json_digit c then Some (Exponent_Digits, st) else None)"
| "json_step (Exponent_Digits, st) c = (if json_digit c then Some (Exponent_Digits, st) else json_end st c)"
| "json_step (Literal [], st) c = None"
| "json_step (Literal [d], st) c = (if c = d then Some (End_Value, st) else None)"
| "json_step (Literal (d # e # ds), st) c = (if c = d then Some (Literal (e # ds), st) else None)"

fun json_scan :: "json_scanner \<Rightarrow> string \<Rightarrow> json_scanner option" where
  "json_scan sc [] = Some sc"
| "json_scan sc (c # cs) = (case json_step sc c of None \<Rightarrow> None | Some sc' \<Rightarrow> json_scan sc' cs)"

text \<open>At the end of the text the scanner is given a space, which ends a number.\<close>

definition json_valid :: "string \<Rightarrow> bool" where
  "json_valid s \<longleftrightarrow> json_scan (Begin_Value, []) (s @ '' '') = Some (End_Value, [])"

lemma json_scan_append: "json_scan sc (s @ t) = (case json_scan sc s of None \<Rightarrow> None | Some sc' \<Rightarrow> json_scan sc' t)"
  by (induction s arbitrary: sc) (auto split: option.splits)

lemma json_valid_examples:
  "json_valid ''{}''" "json_valid ''[-0.5, {}]''" "\<not> json_valid []" "\<not> json_valid ''01''"
  by code_simp+

text \<open>White space before a value does not matter.\<close>

lemma json_begin_space: "json_space c \<Longrightarrow> json_valid (c # s) \<longleftrightarrow> json_valid s"
  by (simp add: json_valid_def json_begin_def)

end
