(* ===== verification/Agent_Work.thy ===== *)
theory Agent_Work
  imports Agent_Registry Json_Text "HOL-Library.Product_Lexorder"
begin

text \<open>
  The work an agent is given, of src/internal/store/agents.go: the leases of its tasks, and the
  file-system and restore requests, two tables with the same columns. They are created queued,
  claimed by their agent, renewed while they run, and completed or expired. The state extends the
  registry of the agents by the three tables and the task identifiers that are looked up.

  The result \<open>json.Marshal\<close> writes for expired work is the argument \<open>expiry\<close>, a function of the
  identifier and the reason.
\<close>

record agent_lease =
  lease_ID :: string
  lease_AgentID :: string
  lease_TaskID :: string
  lease_Engine :: string
  lease_Definition :: string
  lease_Status :: string
  lease_ExpiresAt :: instant
  lease_AcknowledgedAt :: "instant option"
  lease_RenewedAt :: "instant option"
  lease_CompletedAt :: "instant option"
  lease_Progress :: string
  lease_Result :: string

record work_request =
  rq_ID :: string
  rq_AgentID :: string
  rq_Definition :: string
  rq_Status :: string
  rq_Result :: string
  rq_ExpiresAt :: instant
  rq_CreatedAt :: instant
  rq_RenewedAt :: "instant option"
  rq_CompletedAt :: "instant option"

record work_db = agent_db +
  wdb_leases :: "agent_lease list"
  wdb_filesystem :: "work_request list"
  wdb_restores :: "work_request list"
  wdb_tasks :: "string list"

abbreviation agent_ids :: "work_db \<Rightarrow> string list" where
  "agent_ids db \<equiv> map ag_ID (adb_agents db)"

text \<open>An agent that may be given work; the file-system requests do not ask whether it is online.\<close>

definition agent_accepts :: "bool \<Rightarrow> agent \<Rightarrow> bool" where
  "agent_accepts online a \<longleftrightarrow> (online \<longrightarrow> ag_Status a = ''online'') \<and> ag_RevokedAt a = None \<and> ag_DrainingAt a = None"

definition may_work :: "work_db \<Rightarrow> bool \<Rightarrow> string \<Rightarrow> bool" where
  "may_work db online i \<longleftrightarrow> list_ex (\<lambda>a. ag_ID a = i \<and> agent_accepts online a) (adb_agents db)"

section \<open>Requests\<close>

definition insert_request :: "string list \<Rightarrow> work_request list \<Rightarrow> work_request \<Rightarrow> work_request list outcome" where
  "insert_request agents t r =
     (if rq_AgentID r \<notin> set agents then Inl Conflict
      else (case insert_row rq_ID (r\<lparr>rq_Status := ''queued'', rq_Result := ''{}'', rq_RenewedAt := None, rq_CompletedAt := None\<rparr>)
                   (delete_where (\<lambda>q. format_time (rq_ExpiresAt q) < format_time (rq_CreatedAt r - 24 * go_hour)) t) of
              None \<Rightarrow> Inl Conflict
            | Some t' \<Rightarrow> Inr t'))"

definition next_request :: "work_request list \<Rightarrow> string \<Rightarrow> instant \<Rightarrow> work_request option" where
  "next_request t i now =
     (case sort_key (\<lambda>r. format_time (rq_CreatedAt r))
             (filter (\<lambda>r. rq_AgentID r = i \<and> rq_Status r = ''queued'' \<and> format_time now < format_time (rq_ExpiresAt r)) t) of
        [] \<Rightarrow> None
      | r # _ \<Rightarrow> Some r)"

definition claim_request :: "bool \<Rightarrow> work_request list \<Rightarrow> string \<Rightarrow> instant \<Rightarrow> work_request list \<times> work_request outcome" where
  "claim_request allowed t i now =
     (if \<not> allowed then (t, Inl NoRows)
      else (case next_request t i now of
              None \<Rightarrow> (t, Inl NoRows)
            | Some r \<Rightarrow>
                let P = (\<lambda>q. rq_ID q = rq_ID r \<and> rq_Status q = ''queued'') in
                if affected P t \<noteq> 1 then (t, Inl NoRows)
                else (update_where P (\<lambda>q. q\<lparr>rq_Status := ''running''\<rparr>) t, Inr (r\<lparr>rq_Status := ''running''\<rparr>))))"

definition complete_request ::
  "string \<Rightarrow> work_request list \<Rightarrow> string \<Rightarrow> string \<Rightarrow> string \<Rightarrow> string \<Rightarrow> instant \<Rightarrow> work_request list \<times> check" where
  "complete_request msg t i agent status result now =
     (if status \<notin> set [''succeeded'', ''failed''] \<or> \<not> json_valid result then (t, Some (Invalid msg))
      else
        let P = (\<lambda>q. rq_ID q = i \<and> rq_AgentID q = agent \<and> rq_Status q = ''running'') in
        (update_where P (\<lambda>q. q\<lparr>rq_Status := status, rq_Result := result, rq_CompletedAt := Some now\<rparr>) t,
         if affected P t \<noteq> 1 then Some NoRows else None))"

definition renew_request ::
  "work_request list \<Rightarrow> string \<Rightarrow> string \<Rightarrow> instant \<Rightarrow> instant \<Rightarrow> work_request list \<times> check" where
  "renew_request t i agent renewedAt expiresAt =
     (if renewedAt = zero_time \<or> \<not> renewedAt < expiresAt
      then (t, Some (Invalid ''Agent request renewal expiry must follow its observation''))
      else
        let P = (\<lambda>q. rq_ID q = i \<and> rq_AgentID q = agent \<and> rq_Status q = ''running'' \<and> rq_CompletedAt q = None) in
        (update_where P (\<lambda>q. q\<lparr>rq_RenewedAt := Some renewedAt, rq_ExpiresAt := expiresAt\<rparr>) t,
         if affected P t \<noteq> 1 then Some NoRows else None))"

definition expire_request ::
  "(string \<Rightarrow> string \<Rightarrow> string) \<Rightarrow> work_request list \<Rightarrow> string \<Rightarrow> string \<Rightarrow> instant \<Rightarrow> work_request list \<times> check" where
  "expire_request expiry t i reason now =
     (let P = (\<lambda>q. rq_ID q = i \<and> rq_CompletedAt q = None) in
      (update_where P (\<lambda>q. q\<lparr>rq_Status := ''failed'', rq_Result := expiry i reason, rq_CompletedAt := Some now\<rparr>) t,
       if affected P t \<noteq> 1 then Some NoRows else None))"

definition request_status :: "work_request list \<Rightarrow> string \<Rightarrow> work_request outcome" where
  "request_status t i = (case row rq_ID i t of None \<Rightarrow> Inl NoRows | Some r \<Rightarrow> Inr r)"

text \<open>The functions of the two tables.\<close>

definition on_filesystem :: "work_db \<Rightarrow> work_request list \<times> 'r \<Rightarrow> work_db \<times> 'r" where
  "on_filesystem db res = (db\<lparr>wdb_filesystem := fst res\<rparr>, snd res)"

definition on_restores :: "work_db \<Rightarrow> work_request list \<times> 'r \<Rightarrow> work_db \<times> 'r" where
  "on_restores db res = (db\<lparr>wdb_restores := fst res\<rparr>, snd res)"

definition create_filesystem_request :: "work_db \<Rightarrow> work_request \<Rightarrow> work_db \<times> check" where
  "create_filesystem_request db r =
     (if \<not> json_valid (rq_Definition r) then (db, Some (Invalid ''filesystem request definition must be valid JSON''))
      else (case insert_request (agent_ids db) (wdb_filesystem db) r of
              Inl err \<Rightarrow> (db, Some err)
            | Inr t \<Rightarrow> (db\<lparr>wdb_filesystem := t\<rparr>, None)))"

definition create_restore_request :: "work_db \<Rightarrow> work_request \<Rightarrow> work_db \<times> check" where
  "create_restore_request db r =
     (if \<not> json_valid (rq_Definition r) then (db, Some (Invalid ''Agent restore request definition must be valid JSON''))
      else (case insert_request (agent_ids db) (wdb_restores db) r of
              Inl err \<Rightarrow> (db, Some err)
            | Inr t \<Rightarrow> (db\<lparr>wdb_restores := t\<rparr>, None)))"

definition claim_filesystem_request :: "work_db \<Rightarrow> string \<Rightarrow> instant \<Rightarrow> work_db \<times> work_request outcome" where
  "claim_filesystem_request db i now =
     on_filesystem db (claim_request (may_work db False i) (wdb_filesystem db) i now)"

definition claim_restore_request :: "work_db \<Rightarrow> string \<Rightarrow> instant \<Rightarrow> work_db \<times> work_request outcome" where
  "claim_restore_request db i now =
     on_restores db (claim_request (may_work db True i) (wdb_restores db) i now)"

definition complete_filesystem_request :: "work_db \<Rightarrow> string \<Rightarrow> string \<Rightarrow> string \<Rightarrow> string \<Rightarrow> instant \<Rightarrow> work_db \<times> check" where
  "complete_filesystem_request db i agent status result now =
     on_filesystem db (complete_request ''invalid filesystem result'' (wdb_filesystem db) i agent status result now)"

definition complete_restore_request :: "work_db \<Rightarrow> string \<Rightarrow> string \<Rightarrow> string \<Rightarrow> string \<Rightarrow> instant \<Rightarrow> work_db \<times> check" where
  "complete_restore_request db i agent status result now =
     on_restores db (complete_request ''invalid Agent restore result'' (wdb_restores db) i agent status result now)"

definition renew_filesystem_request :: "work_db \<Rightarrow> string \<Rightarrow> string \<Rightarrow> instant \<Rightarrow> instant \<Rightarrow> work_db \<times> check" where
  "renew_filesystem_request db i agent renewedAt expiresAt =
     on_filesystem db (renew_request (wdb_filesystem db) i agent renewedAt expiresAt)"

definition renew_restore_request :: "work_db \<Rightarrow> string \<Rightarrow> string \<Rightarrow> instant \<Rightarrow> instant \<Rightarrow> work_db \<times> check" where
  "renew_restore_request db i agent renewedAt expiresAt =
     on_restores db (renew_request (wdb_restores db) i agent renewedAt expiresAt)"

definition expire_filesystem_request ::
  "(string \<Rightarrow> string \<Rightarrow> string) \<Rightarrow> work_db \<Rightarrow> string \<Rightarrow> string \<Rightarrow> instant \<Rightarrow> work_db \<times> check" where
  "expire_filesystem_request expiry db i reason now =
     on_filesystem db (expire_request expiry (wdb_filesystem db) i reason now)"

definition expire_restore_request ::
  "(string \<Rightarrow> string \<Rightarrow> string) \<Rightarrow> work_db \<Rightarrow> string \<Rightarrow> string \<Rightarrow> instant \<Rightarrow> work_db \<times> check" where
  "expire_restore_request expiry db i reason now =
     on_restores db (expire_request expiry (wdb_restores db) i reason now)"

section \<open>Leases\<close>

definition create_lease :: "work_db \<Rightarrow> agent_lease \<Rightarrow> work_db \<times> check" where
  "create_lease db l =
     (if \<not> json_valid (lease_Definition l) then (db, Some (Invalid ''agent lease definition must be valid JSON''))
      else if lease_AgentID l \<notin> set (agent_ids db) \<or> lease_TaskID l \<notin> set (wdb_tasks db) then (db, Some Conflict)
      else if lease_ID l \<in> set (map lease_ID (wdb_leases db)) \<or>
        list_ex (\<lambda>m. lease_TaskID m = lease_TaskID l \<and> lease_CompletedAt m = None) (wdb_leases db)
      then (db, Some Conflict)
      else (db\<lparr>wdb_leases := wdb_leases db @
              [l\<lparr>lease_Status := (if lease_Status l = [] then ''queued'' else lease_Status l),
                 lease_AcknowledgedAt := None, lease_RenewedAt := None, lease_CompletedAt := None,
                 lease_Progress := ''{}'', lease_Result := ''{}''\<rparr>]\<rparr>, None))"

definition next_lease :: "agent_lease list \<Rightarrow> string \<Rightarrow> instant \<Rightarrow> agent_lease option" where
  "next_lease t i now =
     (case sort_key (\<lambda>l. (format_time (lease_ExpiresAt l), lease_ID l))
             (filter (\<lambda>l. lease_AgentID l = i \<and> lease_Status l = ''queued'' \<and> lease_AcknowledgedAt l = None \<and>
                          format_time now < format_time (lease_ExpiresAt l)) t) of
        [] \<Rightarrow> None
      | l # _ \<Rightarrow> Some l)"

definition claim_lease :: "work_db \<Rightarrow> string \<Rightarrow> instant \<Rightarrow> work_db \<times> agent_lease outcome" where
  "claim_lease db i now =
     (if \<not> may_work db True i then (db, Inl NoRows)
      else (case next_lease (wdb_leases db) i now of
              None \<Rightarrow> (db, Inl NoRows)
            | Some l \<Rightarrow>
                let P = (\<lambda>m. lease_ID m = lease_ID l \<and> lease_AcknowledgedAt m = None);
                    f = (\<lambda>m. m\<lparr>lease_Status := ''running'', lease_AcknowledgedAt := Some now\<rparr>) in
                if affected P (wdb_leases db) \<noteq> 1 then (db, Inl NoRows)
                else (db\<lparr>wdb_leases := update_where P f (wdb_leases db)\<rparr>, Inr (f l))))"

definition lease_running :: "string \<Rightarrow> string \<Rightarrow> agent_lease \<Rightarrow> bool" where
  "lease_running i agent l \<longleftrightarrow>
     lease_ID l = i \<and> lease_AgentID l = agent \<and> lease_Status l = ''running'' \<and> lease_CompletedAt l = None"

definition complete_lease :: "work_db \<Rightarrow> string \<Rightarrow> string \<Rightarrow> string \<Rightarrow> string \<Rightarrow> instant \<Rightarrow> work_db \<times> check" where
  "complete_lease db i agent status result now =
     (if status \<notin> set [''succeeded'', ''partial'', ''failed'']
      then (db, Some (Invalid ''agent lease completion status must be succeeded, partial, or failed''))
      else if \<not> json_valid result then (db, Some (Invalid ''agent lease result must be valid JSON''))
      else
        let t = update_where (lease_running i agent)
              (\<lambda>l. l\<lparr>lease_Status := status, lease_CompletedAt := Some now, lease_Result := result\<rparr>) (wdb_leases db) in
        if affected (lease_running i agent) (wdb_leases db) = 1 then (db\<lparr>wdb_leases := t\<rparr>, None)
        else (db\<lparr>wdb_leases := t\<rparr>,
              case row lease_ID i t of
                None \<Rightarrow> Some NoRows
              | Some l \<Rightarrow> if lease_AgentID l = agent \<and> lease_Status l = status \<and> lease_Result l = result \<and>
                             lease_CompletedAt l \<noteq> None then None else Some NoRows))"

definition update_lease_progress ::
  "work_db \<Rightarrow> string \<Rightarrow> string \<Rightarrow> string \<Rightarrow> instant \<Rightarrow> instant \<Rightarrow> work_db \<times> check" where
  "update_lease_progress db i agent progress renewedAt expiresAt =
     (if \<not> json_valid progress \<or> length progress > 64 * 1024
      then (db, Some (Invalid ''agent lease progress must be bounded valid JSON''))
      else if renewedAt = zero_time \<or> \<not> renewedAt < expiresAt
      then (db, Some (Invalid ''agent lease renewal expiry must follow its observation''))
      else (db\<lparr>wdb_leases := update_where (lease_running i agent)
              (\<lambda>l. l\<lparr>lease_RenewedAt := Some renewedAt, lease_ExpiresAt := expiresAt, lease_Progress := progress\<rparr>) (wdb_leases db)\<rparr>,
            if affected (lease_running i agent) (wdb_leases db) \<noteq> 1 then Some NoRows else None))"

definition expire_lease ::
  "(string \<Rightarrow> string \<Rightarrow> string) \<Rightarrow> work_db \<Rightarrow> string \<Rightarrow> string \<Rightarrow> instant \<Rightarrow> work_db \<times> check" where
  "expire_lease expiry db i reason now =
     (let P = (\<lambda>l. lease_ID l = i \<and> lease_CompletedAt l = None) in
      (db\<lparr>wdb_leases := update_where P
            (\<lambda>l. l\<lparr>lease_Status := ''failed'', lease_CompletedAt := Some now, lease_Result := expiry i reason\<rparr>) (wdb_leases db)\<rparr>,
       if affected P (wdb_leases db) \<noteq> 1 then Some NoRows else None))"

definition lease_status :: "work_db \<Rightarrow> string \<Rightarrow> agent_lease outcome" where
  "lease_status db i = (case row lease_ID i (wdb_leases db) of None \<Rightarrow> Inl NoRows | Some l \<Rightarrow> Inr l)"

definition active_lease_for_task :: "work_db \<Rightarrow> string \<Rightarrow> agent_lease outcome" where
  "active_lease_for_task db task =
     (case rev (sort_key (\<lambda>l. format_time (lease_ExpiresAt l))
             (rev (filter (\<lambda>l. lease_TaskID l = task \<and> lease_Status l \<in> set [''queued'', ''running''] \<and>
                               lease_CompletedAt l = None) (wdb_leases db)))) of
        [] \<Rightarrow> Inl NoRows
      | l # _ \<Rightarrow> Inr l)"

definition active_work_count :: "work_db \<Rightarrow> string \<Rightarrow> nat" where
  "active_work_count db i =
     affected (\<lambda>l. lease_AgentID l = i \<and> lease_Status l = ''running'' \<and> lease_CompletedAt l = None) (wdb_leases db) +
     affected (\<lambda>r. rq_AgentID r = i \<and> rq_Status r = ''running'' \<and> rq_CompletedAt r = None) (wdb_filesystem db) +
     affected (\<lambda>r. rq_AgentID r = i \<and> rq_Status r = ''running'' \<and> rq_CompletedAt r = None) (wdb_restores db)"

section \<open>Runs of the store\<close>

text \<open>Whoever creates a lease leaves its status empty.\<close>

datatype work_op =
    Registry agent_request
  | CreateLease agent_lease
  | ClaimLease string instant
  | CompleteLease string string string string instant
  | LeaseProgress string string string instant instant
  | ExpireLease string string instant
  | CreateFilesystem work_request
  | ClaimFilesystem string instant
  | CompleteFilesystem string string string string instant
  | RenewFilesystem string string instant instant
  | ExpireFilesystem string string instant
  | CreateRestore work_request
  | ClaimRestore string instant
  | CompleteRestore string string string string instant
  | RenewRestore string string instant instant
  | ExpireRestore string string instant

fun work_step :: "(string \<Rightarrow> string \<Rightarrow> string) \<Rightarrow> work_db \<Rightarrow> work_op \<Rightarrow> work_db" where
  "work_step expiry db (Registry req) = fst (agent_step db req)"
| "work_step expiry db (CreateLease l) = fst (create_lease db (l\<lparr>lease_Status := []\<rparr>))"
| "work_step expiry db (ClaimLease i t) = fst (claim_lease db i t)"
| "work_step expiry db (CompleteLease i a s r t) = fst (complete_lease db i a s r t)"
| "work_step expiry db (LeaseProgress i a p t e) = fst (update_lease_progress db i a p t e)"
| "work_step expiry db (ExpireLease i r t) = fst (expire_lease expiry db i r t)"
| "work_step expiry db (CreateFilesystem r) = fst (create_filesystem_request db r)"
| "work_step expiry db (ClaimFilesystem i t) = fst (claim_filesystem_request db i t)"
| "work_step expiry db (CompleteFilesystem i a s r t) = fst (complete_filesystem_request db i a s r t)"
| "work_step expiry db (RenewFilesystem i a t e) = fst (renew_filesystem_request db i a t e)"
| "work_step expiry db (ExpireFilesystem i r t) = fst (expire_filesystem_request expiry db i r t)"
| "work_step expiry db (CreateRestore r) = fst (create_restore_request db r)"
| "work_step expiry db (ClaimRestore i t) = fst (claim_restore_request db i t)"
| "work_step expiry db (CompleteRestore i a s r t) = fst (complete_restore_request db i a s r t)"
| "work_step expiry db (RenewRestore i a t e) = fst (renew_restore_request db i a t e)"
| "work_step expiry db (ExpireRestore i r t) = fst (expire_restore_request expiry db i r t)"

abbreviation work_run :: "(string \<Rightarrow> string \<Rightarrow> string) \<Rightarrow> work_db \<Rightarrow> work_op list \<Rightarrow> work_db" where
  "work_run expiry db ops \<equiv> foldl (work_step expiry) db ops"

lemmas request_defs =
  create_filesystem_request_def claim_filesystem_request_def complete_filesystem_request_def
  renew_filesystem_request_def expire_filesystem_request_def create_restore_request_def
  claim_restore_request_def complete_restore_request_def renew_restore_request_def
  expire_restore_request_def on_filesystem_def on_restores_def

lemmas lease_defs =
  create_lease_def claim_lease_def complete_lease_def update_lease_progress_def expire_lease_def

text \<open>The registry of the agents leaves the work alone.\<close>

lemma registry_work [simp]:
  "wdb_leases (fst (agent_step db req)) = wdb_leases db"
  "wdb_filesystem (fst (agent_step db req)) = wdb_filesystem db"
  "wdb_restores (fst (agent_step db req)) = wdb_restores db"
  by (cases req;
      simp add: agent_update_defs consume_enrollment_token_def save_enrollment_token_def save_agent_def
        enroll_agent_def bind_agent_remote_host_def record_agent_heartbeat_def save_pending_certificate_def
        split: option.split sum.split)+

section \<open>The life of a lease\<close>

definition lease_ok :: "agent_lease \<Rightarrow> bool" where
  "lease_ok l \<longleftrightarrow>
     (lease_CompletedAt l = None \<and> lease_Status l = (if lease_AcknowledgedAt l = None then ''queued'' else ''running'')) \<or>
     (lease_CompletedAt l \<noteq> None \<and> lease_Status l \<notin> {''queued'', ''running''})"

definition leases_inv :: "agent_lease list \<Rightarrow> bool" where
  "leases_inv t \<longleftrightarrow> unique_keys lease_ID t \<and> (\<forall>l \<in> set t. lease_ok l) \<and>
     (\<forall>l \<in> set t. \<forall>m \<in> set t. lease_CompletedAt l = None \<and> lease_CompletedAt m = None \<and>
        lease_TaskID l = lease_TaskID m \<longrightarrow> l = m)"

text \<open>
  An update of leases: it keeps the identifiers and the tasks, keeps the lease well formed, and
  never touches one that is completed.
\<close>

definition lease_update :: "agent_lease list \<Rightarrow> (agent_lease \<Rightarrow> bool) \<Rightarrow> (agent_lease \<Rightarrow> agent_lease) \<Rightarrow> bool" where
  "lease_update t P f \<longleftrightarrow> (\<forall>l. lease_ID (f l) = lease_ID l \<and> lease_TaskID (f l) = lease_TaskID l) \<and>
     (\<forall>l \<in> set t. P l \<longrightarrow> lease_ok (f l) \<and> lease_CompletedAt l = None)"

lemma leases_inv_update:
  assumes inv: "leases_inv t" and upd: "lease_update t P f"
  shows "leases_inv (update_where P f t)"
proof -
  have origin: "\<exists>s \<in> set t. (lease_CompletedAt l = None \<longrightarrow> lease_CompletedAt s = None) \<and>
      lease_TaskID s = lease_TaskID l \<and> l = (if P s then f s else s) \<and> lease_ok l"
    if "l \<in> set (update_where P f t)" for l
    using that
  proof (cases rule: update_where_cases)
    case (1 s)
    then show ?thesis using inv by (auto simp: leases_inv_def)
  next
    case (2 s)
    then show ?thesis using upd by (auto simp: lease_update_def)
  qed
  have "l = m" if "l \<in> set (update_where P f t)" "m \<in> set (update_where P f t)" "lease_CompletedAt l = None"
    "lease_CompletedAt m = None" "lease_TaskID l = lease_TaskID m" for l m
    using origin [OF that(1)] origin [OF that(2)] inv that(3-) unfolding leases_inv_def by metis
  moreover have "unique_keys lease_ID (update_where P f t)"
    using inv upd by (simp add: leases_inv_def lease_update_def unique_update_where)
  ultimately show ?thesis using origin by (auto simp: leases_inv_def)
qed

text \<open>What a step may do to the leases.\<close>

definition lease_move :: "agent_lease list \<Rightarrow> agent_lease list \<Rightarrow> bool" where
  "lease_move t t' \<longleftrightarrow> (\<exists>P f. lease_update t P f \<and> t' = update_where P f t) \<or>
     (\<exists>l. t' = t @ [l] \<and> leases_inv t' \<and> lease_AcknowledgedAt l = None \<and> lease_CompletedAt l = None)"

lemma lease_move_update: "lease_update t P f \<Longrightarrow> lease_move t (update_where P f t)"
  by (auto simp: lease_move_def)

lemma lease_move_refl [simp]: "lease_move t t"
proof -
  have "lease_update t (\<lambda>_. False) id" and "update_where (\<lambda>_. False) id t = t"
    by (simp_all add: lease_update_def update_where_def)
  then show ?thesis by (metis lease_move_update)
qed

lemma lease_move_inv: "lease_move t t' \<Longrightarrow> leases_inv t \<Longrightarrow> leases_inv t'"
  by (auto simp: lease_move_def leases_inv_update)

lemma lease_move_completed:
  "lease_move t t' \<Longrightarrow> l \<in> set t \<Longrightarrow> lease_CompletedAt l \<noteq> None \<Longrightarrow> l \<in> set t'"
  by (auto simp: lease_move_def lease_update_def intro!: update_where_old)

lemma leases_inv_snoc:
  assumes "leases_inv t" and "lease_ok l" and "lease_ID l \<notin> lease_ID ` set t"
    and "\<And>m. m \<in> set t \<Longrightarrow> lease_TaskID m = lease_TaskID l \<Longrightarrow> lease_CompletedAt m \<noteq> None"
  shows "leases_inv (t @ [l])"
  unfolding leases_inv_def
proof (intro conjI ballI impI)
  show "unique_keys lease_ID (t @ [l])" using assms by (simp add: leases_inv_def unique_snoc)
  show "k \<in> set (t @ [l]) \<Longrightarrow> lease_ok k" for k using assms by (auto simp: leases_inv_def)
  fix k m assume "k \<in> set (t @ [l])" and "m \<in> set (t @ [l])"
    and open_: "lease_CompletedAt k = None \<and> lease_CompletedAt m = None \<and> lease_TaskID k = lease_TaskID m"
  then consider "k \<in> set t" "m \<in> set t" | "k = l" "m \<in> set t" | "k \<in> set t" "m = l" | "k = l" "m = l" by auto
  then show "k = m"
  proof cases
    case 1
    with assms(1) open_ show ?thesis unfolding leases_inv_def by blast
  qed (use assms(4) [of m] assms(4) [of k] open_ in auto)
qed

lemma create_lease_cases:
  "(\<exists>err. create_lease db l = (db, Some err)) \<or>
   (lease_ID l \<notin> lease_ID ` set (wdb_leases db) \<and>
    (\<forall>m \<in> set (wdb_leases db). lease_TaskID m = lease_TaskID l \<longrightarrow> lease_CompletedAt m \<noteq> None) \<and>
    create_lease db l = (db\<lparr>wdb_leases := wdb_leases db @
              [l\<lparr>lease_Status := (if lease_Status l = [] then ''queued'' else lease_Status l),
                 lease_AcknowledgedAt := None, lease_RenewedAt := None, lease_CompletedAt := None,
                 lease_Progress := ''{}'', lease_Result := ''{}''\<rparr>]\<rparr>, None))"
  by (simp add: create_lease_def list_ex_iff)

lemma create_lease_move:
  assumes "leases_inv (wdb_leases db)" and "lease_Status l = []"
  shows "lease_move (wdb_leases db) (wdb_leases (fst (create_lease db l)))"
  using create_lease_cases [of db l]
proof
  assume "\<exists>err. create_lease db l = (db, Some err)"
  then show ?thesis by auto
next
  let ?l = "l\<lparr>lease_Status := ''queued'', lease_AcknowledgedAt := None, lease_RenewedAt := None,
     lease_CompletedAt := None, lease_Progress := ''{}'', lease_Result := ''{}''\<rparr>"
  assume new: "lease_ID l \<notin> lease_ID ` set (wdb_leases db) \<and>
    (\<forall>m \<in> set (wdb_leases db). lease_TaskID m = lease_TaskID l \<longrightarrow> lease_CompletedAt m \<noteq> None) \<and>
    create_lease db l = (db\<lparr>wdb_leases := wdb_leases db @
              [l\<lparr>lease_Status := (if lease_Status l = [] then ''queued'' else lease_Status l),
                 lease_AcknowledgedAt := None, lease_RenewedAt := None, lease_CompletedAt := None,
                 lease_Progress := ''{}'', lease_Result := ''{}''\<rparr>]\<rparr>, None)"
  have "leases_inv (wdb_leases db @ [?l])"
    using new assms(1) by (intro leases_inv_snoc) (auto simp: lease_ok_def)
  moreover have "wdb_leases (fst (create_lease db l)) = wdb_leases db @ [?l]" using new assms(2) by simp
  ultimately show ?thesis unfolding lease_move_def by (intro disjI2 exI [of _ ?l]) simp
qed

definition claimed :: "instant \<Rightarrow> agent_lease \<Rightarrow> agent_lease" where
  "claimed now l = l\<lparr>lease_Status := ''running'', lease_AcknowledgedAt := Some now\<rparr>"

lemma claim_lease_cases:
  "claim_lease db i now = (db, Inl NoRows) \<or>
   (\<exists>l \<in> set (wdb_leases db). lease_AgentID l = i \<and> lease_Status l = ''queued'' \<and> lease_AcknowledgedAt l = None \<and>
      may_work db True i \<and>
      claim_lease db i now = (db\<lparr>wdb_leases := update_where (\<lambda>m. lease_ID m = lease_ID l \<and> lease_AcknowledgedAt m = None)
        (claimed now) (wdb_leases db)\<rparr>, Inr (claimed now l)))"
proof (cases "next_lease (wdb_leases db) i now")
  case None
  then show ?thesis by (simp add: claim_lease_def)
next
  case (Some l)
  then have "l \<in> set (wdb_leases db) \<and> lease_AgentID l = i \<and> lease_Status l = ''queued'' \<and> lease_AcknowledgedAt l = None"
    by (auto simp: next_lease_def split: list.splits dest!: sort_key_first)
  with Some show ?thesis by (simp add: claim_lease_def Let_def claimed_def [abs_def]) blast
qed

lemma claim_lease_move:
  assumes inv: "leases_inv (wdb_leases db)"
  shows "lease_move (wdb_leases db) (wdb_leases (fst (claim_lease db i now)))"
  using claim_lease_cases [of db i now]
proof
  assume "claim_lease db i now = (db, Inl NoRows)"
  then show ?thesis by simp
next
  assume "\<exists>l \<in> set (wdb_leases db). lease_AgentID l = i \<and> lease_Status l = ''queued'' \<and> lease_AcknowledgedAt l = None \<and>
      may_work db True i \<and>
      claim_lease db i now = (db\<lparr>wdb_leases := update_where (\<lambda>m. lease_ID m = lease_ID l \<and> lease_AcknowledgedAt m = None)
        (claimed now) (wdb_leases db)\<rparr>, Inr (claimed now l))"
  then obtain l where l: "l \<in> set (wdb_leases db)" "lease_Status l = ''queued''"
    and db': "wdb_leases (fst (claim_lease db i now)) =
      update_where (\<lambda>m. lease_ID m = lease_ID l \<and> lease_AcknowledgedAt m = None) (claimed now) (wdb_leases db)"
    by auto
  have "lease_ok l" using inv l(1) by (simp add: leases_inv_def)
  with l(2) have open_: "lease_CompletedAt l = None" by (auto simp: lease_ok_def)
  have "m = l" if "m \<in> set (wdb_leases db)" "lease_ID m = lease_ID l" for m
    using inv unique_keys_eq [of lease_ID "wdb_leases db" m l] that l(1) by (simp add: leases_inv_def)
  with open_ have "lease_update (wdb_leases db) (\<lambda>m. lease_ID m = lease_ID l \<and> lease_AcknowledgedAt m = None) (claimed now)"
    by (auto simp: lease_update_def lease_ok_def claimed_def)
  from lease_move_update [OF this] show ?thesis by (simp add: db')
qed

lemma open_lease:
  "leases_inv t \<Longrightarrow> l \<in> set t \<Longrightarrow> lease_Status l = ''running'' \<Longrightarrow>
     lease_CompletedAt l = None \<and> (\<exists>a. lease_AcknowledgedAt l = Some a)"
  by (auto simp: leases_inv_def lease_ok_def split: if_splits)

lemma complete_lease_move:
  assumes "leases_inv (wdb_leases db)"
  shows "lease_move (wdb_leases db) (wdb_leases (fst (complete_lease db i a s r t)))"
proof (cases "s \<in> set [''succeeded'', ''partial'', ''failed'']")
  case True
  then have "lease_update (wdb_leases db) (lease_running i a)
      (\<lambda>l. l\<lparr>lease_Status := s, lease_CompletedAt := Some t, lease_Result := r\<rparr>)"
    by (auto simp: lease_update_def lease_running_def lease_ok_def)
  from lease_move_update [OF this] True show ?thesis by (auto simp: complete_lease_def Let_def)
qed (simp add: complete_lease_def)

lemma progress_lease_move:
  assumes "leases_inv (wdb_leases db)"
  shows "lease_move (wdb_leases db) (wdb_leases (fst (update_lease_progress db i a p t e)))"
proof -
  have "lease_update (wdb_leases db) (lease_running i a)
      (\<lambda>l. l\<lparr>lease_RenewedAt := Some t, lease_ExpiresAt := e, lease_Progress := p\<rparr>)"
    using open_lease [OF assms] by (fastforce simp: lease_update_def lease_running_def lease_ok_def)
  from lease_move_update [OF this] show ?thesis by (simp add: update_lease_progress_def)
qed

lemma expire_lease_move: "lease_move (wdb_leases db) (wdb_leases (fst (expire_lease expiry db i r t)))"
  by (auto simp: expire_lease_def Let_def lease_update_def lease_ok_def intro!: lease_move_update)

lemma requests_leases [simp]:
  "wdb_leases (fst (create_filesystem_request db r)) = wdb_leases db"
  "wdb_leases (fst (create_restore_request db r)) = wdb_leases db"
  "wdb_leases (fst (on_filesystem db res)) = wdb_leases db"
  "wdb_leases (fst (on_restores db res')) = wdb_leases db"
  by (simp_all add: create_filesystem_request_def create_restore_request_def on_filesystem_def on_restores_def split: sum.split)

lemma leases_step:
  assumes "leases_inv (wdb_leases db)"
  shows "lease_move (wdb_leases db) (wdb_leases (work_step expiry db op))"
proof (cases op)
  case (CreateLease l)
  then show ?thesis using create_lease_move [OF assms, of "l\<lparr>lease_Status := []\<rparr>"] by simp
qed (simp_all add: assms claim_lease_move complete_lease_move progress_lease_move expire_lease_move
  claim_filesystem_request_def complete_filesystem_request_def renew_filesystem_request_def expire_filesystem_request_def
  claim_restore_request_def complete_restore_request_def renew_restore_request_def expire_restore_request_def)

lemma leases_inv_run: "leases_inv (wdb_leases db) \<Longrightarrow> leases_inv (wdb_leases (work_run expiry db ops))"
  by (induction ops arbitrary: db) (auto intro: lease_move_inv [OF leases_step])

lemma completed_stays:
  "leases_inv (wdb_leases db) \<Longrightarrow> l \<in> set (wdb_leases db) \<Longrightarrow> lease_CompletedAt l \<noteq> None \<Longrightarrow>
     l \<in> set (wdb_leases (work_run expiry db ops))"
  by (induction ops arbitrary: db)
    (auto intro: lease_move_inv [OF leases_step] lease_move_completed [OF leases_step])

definition lease_wins :: "work_db \<Rightarrow> work_op \<Rightarrow> string option" where
  "lease_wins db op =
     (case op of
        ClaimLease i t \<Rightarrow> (case claim_lease db i t of (db', Inr l) \<Rightarrow> Some (lease_ID l) | _ \<Rightarrow> None)
      | _ \<Rightarrow> None)"

definition lease_spent :: "work_db \<Rightarrow> string \<Rightarrow> bool" where
  "lease_spent db i \<longleftrightarrow> (\<exists>l \<in> set (wdb_leases db). lease_ID l = i \<and> lease_AcknowledgedAt l \<noteq> None)"

text \<open>An acknowledged lease stays acknowledged.\<close>

definition keeps_acknowledged :: "agent_lease list \<Rightarrow> agent_lease list \<Rightarrow> bool" where
  "keeps_acknowledged t t' \<longleftrightarrow> (\<forall>l \<in> set t. lease_AcknowledgedAt l \<noteq> None \<longrightarrow>
     (\<exists>m \<in> set t'. lease_ID m = lease_ID l \<and> lease_AcknowledgedAt m \<noteq> None))"

lemma keeps_update:
  assumes "\<And>l. lease_ID (f l) = lease_ID l"
    and "\<And>l. P l \<Longrightarrow> lease_AcknowledgedAt l \<noteq> None \<Longrightarrow> lease_AcknowledgedAt (f l) \<noteq> None"
  shows "keeps_acknowledged t (update_where P f t)"
  unfolding keeps_acknowledged_def
proof (intro ballI impI)
  fix l assume l: "l \<in> set t" "lease_AcknowledgedAt l \<noteq> None"
  show "\<exists>m \<in> set (update_where P f t). lease_ID m = lease_ID l \<and> lease_AcknowledgedAt m \<noteq> None"
  proof (cases "P l")
    case True
    with l assms show ?thesis by (intro bexI [OF _ update_where_new [OF l(1)]]) auto
  next
    case False
    with l show ?thesis by (intro bexI [OF _ update_where_old [OF l(1)]]) auto
  qed
qed

lemma keeps_more: "keeps_acknowledged t t" "keeps_acknowledged t (t @ u)"
  by (auto simp: keeps_acknowledged_def)

lemma acknowledged_step: "keeps_acknowledged (wdb_leases db) (wdb_leases (work_step expiry db op))"
proof (cases op)
  case (CreateLease l)
  then show ?thesis using create_lease_cases [of db "l\<lparr>lease_Status := []\<rparr>"] by (auto simp: keeps_more)
next
  case (ClaimLease i t)
  then show ?thesis using claim_lease_cases [of db i t] by (auto simp: keeps_more claimed_def intro!: keeps_update)
qed (auto simp: keeps_more complete_lease_def update_lease_progress_def expire_lease_def Let_def
  claim_filesystem_request_def complete_filesystem_request_def renew_filesystem_request_def expire_filesystem_request_def
  claim_restore_request_def complete_restore_request_def renew_restore_request_def expire_restore_request_def
  intro!: keeps_update)

interpretation lease_claims: once_only "work_step expiry" lease_wins lease_spent "\<lambda>db. leases_inv (wdb_leases db)"
proof
  fix db :: work_db and op :: work_op and i :: string
  show "leases_inv (wdb_leases db) \<Longrightarrow> leases_inv (wdb_leases (work_step expiry db op))"
    by (rule lease_move_inv [OF leases_step])
  show "leases_inv (wdb_leases db) \<Longrightarrow> lease_spent db i \<Longrightarrow> lease_spent (work_step expiry db op) i"
    using acknowledged_step [of db expiry op] by (fastforce simp: lease_spent_def keeps_acknowledged_def)
  assume inv: "leases_inv (wdb_leases db)" and "lease_wins db op = Some i"
  then obtain agent t db' c where op: "op = ClaimLease agent t" and c: "claim_lease db agent t = (db', Inr c)" "lease_ID c = i"
    by (auto simp: lease_wins_def split: work_op.splits prod.splits sum.splits)
  from claim_lease_cases [of db agent t] c obtain l where l: "l \<in> set (wdb_leases db)" "lease_AcknowledgedAt l = None" "lease_ID l = i"
    and db': "db' = db\<lparr>wdb_leases := update_where (\<lambda>m. lease_ID m = lease_ID l \<and> lease_AcknowledgedAt m = None)
        (claimed t) (wdb_leases db)\<rparr>"
    by (auto simp: claimed_def)
  show "\<not> lease_spent db i"
  proof
    assume "lease_spent db i"
    then obtain m where m: "m \<in> set (wdb_leases db)" "lease_ID m = i" "lease_AcknowledgedAt m \<noteq> None"
      by (auto simp: lease_spent_def)
    with inv l unique_keys_eq [of lease_ID "wdb_leases db" m l] show False by (simp add: leases_inv_def)
  qed
  have "claimed t l \<in> set (wdb_leases db')" unfolding db'
    using update_where_new [OF l(1), of "\<lambda>m. lease_ID m = lease_ID l \<and> lease_AcknowledgedAt m = None" "claimed t"] l by simp
  moreover have "work_step expiry db op = db'" using op c by simp
  ultimately show "lease_spent (work_step expiry db op) i"
    unfolding lease_spent_def using l(3) by (intro bexI [of _ "claimed t l"]) (auto simp: claimed_def)
qed

text \<open>
  C5: leases are exclusive. However agents, workers and the recovery interleave, a lease is claimed at
  most once, a task has at most one lease that is not completed, and a completed lease is never
  changed again.
\<close>
theorem leases_are_exclusive:
  assumes "leases_inv (wdb_leases db)"
  shows "once_only.win_count (work_step expiry) lease_wins i db ops \<le> 1 \<and>
    (\<forall>l \<in> set (wdb_leases (work_run expiry db ops)). \<forall>m \<in> set (wdb_leases (work_run expiry db ops)).
       lease_CompletedAt l = None \<and> lease_CompletedAt m = None \<and> lease_TaskID l = lease_TaskID m \<longrightarrow> l = m) \<and>
    (\<forall>l \<in> set (wdb_leases db). lease_CompletedAt l \<noteq> None \<longrightarrow> l \<in> set (wdb_leases (work_run expiry db ops)))"
proof (intro conjI)
  show "once_only.win_count (work_step expiry) lease_wins i db ops \<le> 1"
    using assms by (rule lease_claims.at_most_one_win)
  show "\<forall>l \<in> set (wdb_leases (work_run expiry db ops)). \<forall>m \<in> set (wdb_leases (work_run expiry db ops)).
       lease_CompletedAt l = None \<and> lease_CompletedAt m = None \<and> lease_TaskID l = lease_TaskID m \<longrightarrow> l = m"
    using leases_inv_run [OF assms] unfolding leases_inv_def by blast
  show "\<forall>l \<in> set (wdb_leases db). lease_CompletedAt l \<noteq> None \<longrightarrow> l \<in> set (wdb_leases (work_run expiry db ops))"
    using completed_stays [OF assms] by blast
qed

lemma completed_row:
  assumes "leases_inv t" and "l \<in> set t" and "lease_CompletedAt l \<noteq> None"
  shows "row lease_ID (lease_ID l) t = Some l \<and> affected (lease_running (lease_ID l) a) t = 0"
proof -
  have u: "unique_keys lease_ID t" using assms(1) by (simp add: leases_inv_def)
  have "\<not> lease_running (lease_ID l) a m" if "m \<in> set t" for m
    using unique_keys_eq [OF u that assms(2)] assms(3) by (auto simp: lease_running_def)
  then have "filter (lease_running (lease_ID l) a) t = []" by (simp add: filter_empty_conv)
  then show ?thesis using row_unique [OF u assms(2)] by (simp add: affected_def)
qed

text \<open>Completing a lease that is completed already.\<close>

lemma complete_again:
  assumes "leases_inv (wdb_leases db)" and "l \<in> set (wdb_leases db)" and "lease_CompletedAt l \<noteq> None"
    and "status \<in> set [''succeeded'', ''partial'', ''failed'']" and "json_valid result"
  shows "complete_lease db (lease_ID l) agent status result t =
    (db, if lease_AgentID l = agent \<and> lease_Status l = status \<and> lease_Result l = result then None else Some NoRows)"
  using completed_row [OF assms(1-3), of agent] assms(3-5)
    affected_update_eq [of "lease_running (lease_ID l) agent" "wdb_leases db"]
  by (simp add: complete_lease_def Let_def)

lemma complete_rejected: "status \<notin> set [''succeeded'', ''partial'', ''failed''] \<or> \<not> json_valid result \<Longrightarrow>
    \<exists>err. complete_lease db i agent status result t = (db, Some err)"
  by (auto simp: complete_lease_def)

lemma completion_recorded:
  assumes inv: "leases_inv (wdb_leases db)" and done_: "complete_lease db i agent status result now = (db', None)"
  shows "\<exists>l \<in> set (wdb_leases db'). lease_ID l = i \<and> lease_AgentID l = agent \<and> lease_Status l = status \<and>
    lease_Result l = result \<and> lease_CompletedAt l \<noteq> None"
proof (cases "affected (lease_running i agent) (wdb_leases db) = 1")
  case True
  then obtain l where l: "l \<in> set (wdb_leases db)" "lease_running i agent l" using affected_pos by fastforce
  let ?f = "\<lambda>l. l\<lparr>lease_Status := status, lease_CompletedAt := Some now, lease_Result := result\<rparr>"
  have "?f l \<in> set (update_where (lease_running i agent) ?f (wdb_leases db))" using l by (rule update_where_new)
  moreover have "wdb_leases db' = update_where (lease_running i agent) ?f (wdb_leases db)"
    using done_ True by (auto simp: complete_lease_def Let_def split: if_splits)
  ultimately show ?thesis using l(2) by (intro bexI [of _ "?f l"]) (auto simp: lease_running_def)
next
  case False
  with done_ show ?thesis
    by (auto simp: complete_lease_def Let_def split: if_splits option.splits dest!: row_Some_in)
qed

text \<open>
  A completion may be repeated. Once an agent's result has been accepted, the same report is
  accepted again at any later time without changing anything, and every other report for this lease
  is refused without changing anything.
\<close>
lemma completion_is_idempotent:
  assumes "leases_inv (wdb_leases db)" and "complete_lease db i agent status result now = (db', None)"
  shows "complete_lease (work_run expiry db' ops) i agent status result t = (work_run expiry db' ops, None) \<and>
    (\<forall>agent' status' result'. (agent', status', result') \<noteq> (agent, status, result) \<longrightarrow>
       (\<exists>err. complete_lease (work_run expiry db' ops) i agent' status' result' t = (work_run expiry db' ops, Some err)))"
proof -
  let ?db = "work_run expiry db' ops"
  from completion_recorded [OF assms] obtain l where l: "l \<in> set (wdb_leases db')" "lease_CompletedAt l \<noteq> None" and
    eq: "lease_ID l = i" "lease_AgentID l = agent" "lease_Status l = status" "lease_Result l = result"
    by blast
  have "leases_inv (wdb_leases db')"
    using lease_move_inv [OF leases_step [OF assms(1), of expiry "CompleteLease i agent status result now"] assms(1)] assms(2) by simp
  then have inv: "leases_inv (wdb_leases ?db)" and "l \<in> set (wdb_leases ?db)"
    using leases_inv_run completed_stays [OF _ l] by auto
  note again = complete_again [OF this l(2), where t = t, unfolded eq]
  have "\<not> (status \<notin> set [''succeeded'', ''partial'', ''failed''] \<or> \<not> json_valid result)"
    using complete_rejected [of status result db i agent now] assms(2) by auto
  then have "complete_lease ?db i agent status result t = (?db, None)" using again by simp
  moreover have "\<exists>err. complete_lease ?db i agent' status' result' t = (?db, Some err)"
    if other: "(agent', status', result') \<noteq> (agent, status, result)" for agent' status' result'
  proof (cases "status' \<in> set [''succeeded'', ''partial'', ''failed''] \<and> json_valid result'")
    case True
    then have "complete_lease ?db i agent' status' result' t =
        (?db, if agent = agent' \<and> status = status' \<and> result = result' then None else Some NoRows)"
      using again by blast
    moreover have "\<not> (agent = agent' \<and> status = status' \<and> result = result')" using other by auto
    ultimately show ?thesis by simp
  next
    case False
    then show ?thesis using complete_rejected by blast
  qed
  ultimately show ?thesis by blast
qed

definition lease_example :: agent_lease where
  "lease_example = \<lparr>lease_ID = ''l1'', lease_AgentID = ''a1'', lease_TaskID = ''t1'', lease_Engine = ''restic'',
     lease_Definition = ''{}'', lease_Status = ''running'', lease_ExpiresAt = nanos, lease_AcknowledgedAt = Some 0,
     lease_RenewedAt = None, lease_CompletedAt = None, lease_Progress = ''{}'', lease_Result = ''{}''\<rparr>"

definition work_example :: work_db where
  "work_example = \<lparr>adb_agents = [agent_example\<lparr>ag_Status := ''online''\<rparr>], adb_certificates = [issued_certificate agent_example],
     adb_tokens = [], adb_hosts = [], wdb_leases = [lease_example], wdb_filesystem = [], wdb_restores = [], wdb_tasks = [''t1'']\<rparr>"

lemma work_example_leases: "leases_inv (wdb_leases work_example)"
  by (simp add: work_example_def leases_inv_def lease_ok_def lease_example_def unique_Cons)

theorem leases_are_exclusive_witness:
  "once_only.win_count (work_step (\<lambda>_ _. ''{}'')) lease_wins ''l1'' work_example [ClaimLease ''a1'' 1, ClaimLease ''a1'' 2] \<le> 1"
  using leases_are_exclusive [OF work_example_leases] by blast

lemma completion_is_idempotent_witness:
  "snd (complete_lease (fst (complete_lease work_example ''l1'' ''a1'' ''succeeded'' ''{}'' 5)) ''l1'' ''a1'' ''succeeded'' ''{}'' 9) = None"
proof -
  obtain db' where db': "complete_lease work_example ''l1'' ''a1'' ''succeeded'' ''{}'' 5 = (db', None)"
    by (simp add: complete_lease_def Let_def json_valid_examples work_example_def lease_example_def lease_running_def affected_def)
  from completion_is_idempotent [OF work_example_leases this, where ops = "[]" and t = 9] db' show ?thesis by simp
qed

section \<open>Draining\<close>

definition draining :: "'a agent_db_scheme \<Rightarrow> string \<Rightarrow> bool" where
  "draining db i \<longleftrightarrow> (\<exists>a. row ag_ID i (adb_agents db) = Some a \<and> ag_DrainingAt a \<noteq> None)"

text \<open>The operations that end the drain of an agent: explicitly, after a restart, or with a new identity.\<close>

fun ends_drain :: "string \<Rightarrow> work_op \<Rightarrow> bool" where
  "ends_drain i (Registry (SaveAgent a)) \<longleftrightarrow> ag_ID a = i"
| "ends_drain i (Registry (EnrollAgent a)) \<longleftrightarrow> ag_ID a = i"
| "ends_drain i (Registry (EndDrain j)) \<longleftrightarrow> j = i"
| "ends_drain i (Registry RecoverDrains) \<longleftrightarrow> True"
| "ends_drain i op \<longleftrightarrow> False"

lemma draining_update:
  assumes "draining db i" and "\<And>a. ag_ID (f a) = ag_ID a"
    and "\<And>a. ag_ID a = i \<Longrightarrow> P a \<Longrightarrow> ag_DrainingAt a \<noteq> None \<Longrightarrow> ag_DrainingAt (f a) \<noteq> None"
  shows "draining (db\<lparr>adb_agents := update_where P f (adb_agents db)\<rparr>) i"
proof -
  from assms(1) obtain a where a: "row ag_ID i (adb_agents db) = Some a" "ag_DrainingAt a \<noteq> None"
    by (auto simp: draining_def)
  with assms(3) [of a] row_Some_in [OF a(1)] have "ag_DrainingAt (if P a then f a else a) \<noteq> None" by simp
  with a(1) assms(2) show ?thesis by (simp add: draining_def row_update_where)
qed

lemma draining_other [simp]:
  "draining (db\<lparr>adb_certificates := c\<rparr>) i = draining db i" "draining (db\<lparr>adb_tokens := k\<rparr>) i = draining db i"
  by (simp_all add: draining_def)

lemma draining_append: "draining db i \<Longrightarrow> draining (db\<lparr>adb_agents := adb_agents db @ t\<rparr>) i"
  by (auto simp: draining_def row_append)

lemma draining_save: "draining db i \<Longrightarrow> ag_ID a \<noteq> i \<Longrightarrow> draining (fst (save_agent db a)) i"
proof -
  assume d: "draining db i" and other: "ag_ID a \<noteq> i"
  have "draining (db\<lparr>adb_agents := t\<rparr>) i" if "upsert_agent (adb_agents db) b = Some t" "ag_ID b \<noteq> i" for b t
  proof (cases "row ag_ID (ag_ID b) (adb_agents db)")
    case None
    with that d show ?thesis by (auto simp: upsert_agent_def draining_append split: if_splits)
  next
    case (Some old)
    with that have "t = update_where (\<lambda>r. ag_ID r = ag_ID b) (merge_agent b) (adb_agents db)"
      by (auto simp: upsert_agent_def split: if_splits)
    with d that(2) show ?thesis by (auto simp: merge_agent_def intro!: draining_update)
  qed
  with d other show ?thesis by (auto simp: save_agent_def Let_def split: option.split)
qed

lemma draining_enroll: "draining db i \<Longrightarrow> ag_ID a \<noteq> i \<Longrightarrow> draining (fst (enroll_agent db a)) i"
  by (auto simp: enroll_agent_def Let_def split: option.split sum.split intro!: draining_append draining_update)

lemma draining_bind: "draining db i \<Longrightarrow> draining (fst (bind_agent_remote_host db j h m)) i"
proof -
  assume d: "draining db i"
  let ?freed = "db\<lparr>adb_agents := update_where (\<lambda>a. ag_RemoteHostID a = h \<and> ag_ID a \<noteq> j) (\<lambda>a. a\<lparr>ag_RemoteHostID := []\<rparr>) (adb_agents db)\<rparr>"
  have "draining ?freed i" by (rule draining_update [OF d]) simp_all
  then have "draining (?freed\<lparr>adb_agents := update_where P f (adb_agents ?freed)\<rparr>) i"
    if "\<And>a. ag_ID (f a) = ag_ID a" "\<And>a. ag_DrainingAt (f a) = ag_DrainingAt a" for P f
    by (rule draining_update) (simp_all add: that)
  with d show ?thesis by (simp add: bind_agent_remote_host_def update_agent_def Let_def)
qed

lemma draining_heartbeat: "draining db i \<Longrightarrow> draining (fst (record_agent_heartbeat db hb)) i"
proof -
  assume d: "draining db i"
  then have "draining (db\<lparr>adb_certificates := c, adb_agents := update_where P f (adb_agents db)\<rparr>) i"
    if "\<And>a. ag_ID (f a) = ag_ID a" "\<And>a. ag_DrainingAt (f a) = ag_DrainingAt a" for c P f
    using draining_update [OF d, of f P] that by (simp add: draining_def)
  with d show ?thesis
    by (simp add: record_agent_heartbeat_def update_agent_def Let_def split: option.split)
qed

lemma draining_registry: "draining db i \<Longrightarrow> \<not> ends_drain i (Registry req) \<Longrightarrow> draining (fst (agent_step db req)) i"
proof (cases req)
  case (SaveToken h t)
  assume "draining db i"
  with SaveToken show ?thesis by (simp add: save_enrollment_token_def split: option.split)
next
  case (SavePending j s nb na t)
  assume "draining db i"
  with SavePending show ?thesis by (simp add: save_pending_certificate_def)
qed (auto simp: agent_update_defs consume_enrollment_token_def or_else_def
      intro!: draining_save draining_enroll draining_bind draining_heartbeat draining_update split: option.split)

definition running_requests :: "work_request list \<Rightarrow> string \<Rightarrow> nat" where
  "running_requests t i = affected (\<lambda>r. rq_AgentID r = i \<and> rq_Status r = ''running'' \<and> rq_CompletedAt r = None) t"

definition running_leases :: "agent_lease list \<Rightarrow> string \<Rightarrow> nat" where
  "running_leases t i = affected (\<lambda>l. lease_AgentID l = i \<and> lease_Status l = ''running'' \<and> lease_CompletedAt l = None) t"

text \<open>A step on a table of requests that gives an agent no new work.\<close>

definition quiet :: "string \<Rightarrow> work_request list \<Rightarrow> work_request list \<Rightarrow> bool" where
  "quiet i t t' \<longleftrightarrow> (unique_keys rq_ID t \<longrightarrow> unique_keys rq_ID t' \<and> running_requests t' i \<le> running_requests t i)"

lemma quiet_refl [simp]: "quiet i t t"
  by (simp add: quiet_def)

lemma quiet_update:
  assumes "\<And>r. rq_ID (f r) = rq_ID r"
    and "\<And>r. P r \<Longrightarrow> rq_AgentID (f r) = i \<Longrightarrow> rq_Status (f r) = ''running'' \<Longrightarrow> rq_CompletedAt (f r) = None \<Longrightarrow>
           rq_AgentID r = i \<and> rq_Status r = ''running'' \<and> rq_CompletedAt r = None"
  shows "quiet i t (update_where P f t)"
  using assms unfolding quiet_def running_requests_def
  by (auto simp: unique_update_where intro!: affected_update_le)

lemma quiet_insert: "insert_request agents t r = Inr t' \<Longrightarrow> quiet i t t'"
proof -
  assume "insert_request agents t r = Inr t'"
  then obtain P where t': "t' = delete_where P t @ [r\<lparr>rq_Status := ''queued'', rq_Result := ''{}'', rq_RenewedAt := None, rq_CompletedAt := None\<rparr>]"
    and new: "rq_ID r \<notin> rq_ID ` set (delete_where P t)"
    by (auto simp: insert_request_def insert_row_Some split: if_splits option.splits)
  then show ?thesis
    by (simp add: affected_delete_le quiet_def unique_snoc unique_delete_where running_requests_def affected_append)
qed

lemma claim_request_cases:
  "claim_request allowed t i now = (t, Inl NoRows) \<or>
   (allowed \<and> (\<exists>r \<in> set t. rq_AgentID r = i \<and>
      fst (claim_request allowed t i now) =
        update_where (\<lambda>q. rq_ID q = rq_ID r \<and> rq_Status q = ''queued'') (\<lambda>q. q\<lparr>rq_Status := ''running''\<rparr>) t))"
proof (cases "next_request t i now")
  case None
  then show ?thesis by (simp add: claim_request_def)
next
  case (Some r)
  then have "r \<in> set t \<and> rq_AgentID r = i"
    by (auto simp: next_request_def split: list.splits dest!: sort_key_first)
  with Some show ?thesis by (auto simp: claim_request_def Let_def)
qed

lemma quiet_claim:
  assumes "\<not> (allowed \<and> j = i)"
  shows "quiet i t (fst (claim_request allowed t j now))"
  using claim_request_cases [of allowed t j now]
proof
  assume "claim_request allowed t j now = (t, Inl NoRows)"
  then show ?thesis by simp
next
  assume "allowed \<and> (\<exists>r \<in> set t. rq_AgentID r = j \<and> fst (claim_request allowed t j now) =
        update_where (\<lambda>q. rq_ID q = rq_ID r \<and> rq_Status q = ''queued'') (\<lambda>q. q\<lparr>rq_Status := ''running''\<rparr>) t)"
  then obtain r where r: "r \<in> set t" "rq_AgentID r = j" and j: "j \<noteq> i"
    and t': "fst (claim_request allowed t j now) =
        update_where (\<lambda>q. rq_ID q = rq_ID r \<and> rq_Status q = ''queued'') (\<lambda>q. q\<lparr>rq_Status := ''running''\<rparr>) t"
    using assms by auto
  show ?thesis
    unfolding quiet_def t'
  proof (intro impI conjI)
    let ?P = "\<lambda>q. rq_ID q = rq_ID r \<and> rq_Status q = ''queued''" and ?f = "\<lambda>q. q\<lparr>rq_Status := ''running''\<rparr> :: work_request"
    assume u: "unique_keys rq_ID t"
    then show "unique_keys rq_ID (update_where ?P ?f t)" by (simp add: unique_update_where)
    have "rq_AgentID q \<noteq> i" if "q \<in> set t" "?P q" for q
      using unique_keys_eq [OF u that(1) r(1)] that(2) r(2) j by auto
    then have "update_where ?P ?f t = update_where (\<lambda>q. ?P q \<and> rq_AgentID q \<noteq> i) ?f t" by (auto simp: update_where_def)
    then show "running_requests (update_where ?P ?f t) i \<le> running_requests t i"
      unfolding running_requests_def by (simp only:) (rule affected_update_le, simp)
  qed
qed

lemma quiet_filesystem: "\<not> may_work db False i \<Longrightarrow> quiet i (wdb_filesystem db) (wdb_filesystem (work_step expiry db op))"
proof (cases op)
  case (ClaimFilesystem j t)
  assume "\<not> may_work db False i"
  then have "\<not> (may_work db False j \<and> j = i)" by auto
  from quiet_claim [OF this] ClaimFilesystem show ?thesis by (simp add: claim_filesystem_request_def on_filesystem_def)
qed (auto simp: request_defs complete_request_def renew_request_def expire_request_def Let_def lease_defs
      quiet_insert split: sum.split option.split intro!: quiet_update)

lemma quiet_restores: "\<not> may_work db True i \<Longrightarrow> quiet i (wdb_restores db) (wdb_restores (work_step expiry db op))"
proof (cases op)
  case (ClaimRestore j t)
  assume "\<not> may_work db True i"
  then have "\<not> (may_work db True j \<and> j = i)" by auto
  from quiet_claim [OF this] ClaimRestore show ?thesis by (simp add: claim_restore_request_def on_restores_def)
qed (auto simp: request_defs complete_request_def renew_request_def expire_request_def Let_def lease_defs
      quiet_insert split: sum.split option.split intro!: quiet_update)

lemma quiet_leases:
  assumes inv: "leases_inv (wdb_leases db)" and no: "\<not> may_work db True i"
  shows "running_leases (wdb_leases (work_step expiry db op)) i \<le> running_leases (wdb_leases db) i"
proof (cases op)
  case (CreateLease l)
  then show ?thesis
    using create_lease_cases [of db "l\<lparr>lease_Status := []\<rparr>"]
    by (auto simp: running_leases_def affected_append)
next
  case (ClaimLease j t)
  from claim_lease_cases [of db j t] show ?thesis
  proof
    assume "claim_lease db j t = (db, Inl NoRows)"
    with ClaimLease show ?thesis by simp
  next
    assume "\<exists>l \<in> set (wdb_leases db). lease_AgentID l = j \<and> lease_Status l = ''queued'' \<and> lease_AcknowledgedAt l = None \<and>
      may_work db True j \<and>
      claim_lease db j t = (db\<lparr>wdb_leases := update_where (\<lambda>m. lease_ID m = lease_ID l \<and> lease_AcknowledgedAt m = None)
        (claimed t) (wdb_leases db)\<rparr>, Inr (claimed t l))"
    then obtain l where l: "l \<in> set (wdb_leases db)" "lease_AgentID l = j" "may_work db True j"
      and t': "wdb_leases (work_step expiry db op) =
        update_where (\<lambda>m. lease_ID m = lease_ID l \<and> lease_AcknowledgedAt m = None) (claimed t) (wdb_leases db)"
      using ClaimLease by auto
    let ?P = "\<lambda>m. lease_ID m = lease_ID l \<and> lease_AcknowledgedAt m = None"
    have "lease_AgentID m \<noteq> i" if "m \<in> set (wdb_leases db)" "?P m" for m
      using unique_keys_eq [of lease_ID "wdb_leases db" m l] inv that l no by (auto simp: leases_inv_def)
    then have "update_where ?P (claimed t) (wdb_leases db) =
        update_where (\<lambda>m. ?P m \<and> lease_AgentID m \<noteq> i) (claimed t) (wdb_leases db)"
      by (auto simp: update_where_def)
    then show ?thesis unfolding t' running_leases_def by (simp only:) (rule affected_update_le, simp add: claimed_def)
  qed
qed (auto simp: running_leases_def complete_lease_def update_lease_progress_def expire_lease_def Let_def lease_running_def
  claim_filesystem_request_def complete_filesystem_request_def renew_filesystem_request_def expire_filesystem_request_def
  claim_restore_request_def complete_restore_request_def renew_restore_request_def expire_restore_request_def
  intro!: affected_update_le)

definition work_inv :: "work_db \<Rightarrow> bool" where
  "work_inv db \<longleftrightarrow> agents_inv db \<and> leases_inv (wdb_leases db) \<and> unique_keys rq_ID (wdb_filesystem db) \<and>
     unique_keys rq_ID (wdb_restores db)"

lemma draining_gets_nothing:
  assumes "agents_inv db" and "draining db i"
  shows "\<not> may_work db online i"
proof -
  from assms(2) obtain a where a: "row ag_ID i (adb_agents db) = Some a" "ag_DrainingAt a \<noteq> None" by (auto simp: draining_def)
  show ?thesis
  proof
    assume "may_work db online i"
    then obtain b where b: "b \<in> set (adb_agents db)" "ag_ID b = i" "ag_DrainingAt b = None"
      by (auto simp: may_work_def list_ex_iff agent_accepts_def)
    with assms(1) row_unique [of ag_ID "adb_agents db" b] a show False by (simp add: agents_inv_def)
  qed
qed

lemma same_agents:
  assumes "\<And>req. op \<noteq> Registry req"
  shows "adb_agents (work_step expiry db op) = adb_agents db \<and>
     adb_certificates (work_step expiry db op) = adb_certificates db"
  using assms by (cases op) (auto simp: request_defs lease_defs Let_def split: sum.split option.split)

lemma agents_inv_work: "agents_inv db \<Longrightarrow> agents_inv (work_step expiry db op)"
proof (cases "\<exists>req. op = Registry req")
  case False
  assume "agents_inv db"
  with False same_agents [of op expiry db] show ?thesis by (simp add: agents_inv_def)
qed (auto intro: agents_inv_step)

lemma draining_work: "draining db i \<Longrightarrow> \<not> ends_drain i op \<Longrightarrow> draining (work_step expiry db op) i"
proof (cases "\<exists>req. op = Registry req")
  case False
  assume "draining db i"
  with False same_agents [of op expiry db] show ?thesis by (simp add: draining_def)
qed (auto intro: draining_registry)

lemma drain_run:
  assumes "work_inv db" and "draining db i" and "list_all (\<lambda>op. \<not> ends_drain i op) ops"
  shows "work_inv (work_run expiry db ops) \<and> draining (work_run expiry db ops) i \<and>
    active_work_count (work_run expiry db ops) i \<le> active_work_count db i"
  using assms
proof (induction ops arbitrary: db)
  case (Cons op ops)
  let ?d = "work_step expiry db op"
  have inv: "agents_inv db" "leases_inv (wdb_leases db)" "unique_keys rq_ID (wdb_filesystem db)" "unique_keys rq_ID (wdb_restores db)"
    using Cons.prems(1) by (auto simp: work_inv_def)
  have no: "\<not> may_work db online i" for online using draining_gets_nothing [OF inv(1) Cons.prems(2)] .
  have q: "unique_keys rq_ID (wdb_filesystem ?d)" "running_requests (wdb_filesystem ?d) i \<le> running_requests (wdb_filesystem db) i"
    "unique_keys rq_ID (wdb_restores ?d)" "running_requests (wdb_restores ?d) i \<le> running_requests (wdb_restores db) i"
    using quiet_filesystem [OF no, of expiry op] quiet_restores [OF no, of expiry op] inv by (auto simp: quiet_def)
  have "work_inv ?d" using inv q agents_inv_work lease_move_inv [OF leases_step] by (simp add: work_inv_def)
  moreover have "draining ?d i" using Cons.prems(2,3) draining_work by simp
  ultimately have "work_inv (work_run expiry ?d ops) \<and> draining (work_run expiry ?d ops) i \<and>
      active_work_count (work_run expiry ?d ops) i \<le> active_work_count ?d i"
    using Cons.IH [of ?d] Cons.prems(3) by simp
  moreover have "active_work_count ?d i \<le> active_work_count db i"
    using q(2,4) quiet_leases [OF inv(2) no, of expiry op]
    by (simp add: active_work_count_def running_requests_def running_leases_def)
  ultimately show ?case by simp
qed simp

text \<open>
  C31: draining an agent works. As long as nobody ends the drain (explicitly, by the recovery after a
  restart, or by saving or enrolling the agent anew), a draining agent is given no lease, no
  file-system and no restore request, and the amount of its active work never grows.
\<close>
theorem draining_agent_gets_no_work:
  assumes "work_inv db" and "draining db i" and "list_all (\<lambda>op. \<not> ends_drain i op) ops"
  shows "let db' = work_run expiry db ops in
    active_work_count db' i \<le> active_work_count db i \<and> claim_lease db' i now = (db', Inl NoRows) \<and>
    claim_filesystem_request db' i now = (db', Inl NoRows) \<and> claim_restore_request db' i now = (db', Inl NoRows)"
proof -
  let ?db = "work_run expiry db ops"
  have run: "work_inv ?db" "draining ?db i" "active_work_count ?db i \<le> active_work_count db i"
    using drain_run [OF assms] by auto
  then have "\<not> may_work ?db online i" for online using draining_gets_nothing by (simp add: work_inv_def)
  with run(3) show ?thesis
    by (simp add: Let_def claim_lease_def claim_filesystem_request_def claim_restore_request_def claim_request_def
        on_filesystem_def on_restores_def)
qed

definition draining_example :: work_db where
  "draining_example = work_example\<lparr>adb_agents := [agent_example\<lparr>ag_Status := ''online'', ag_DrainingAt := Some 0\<rparr>]\<rparr>"

lemma draining_example_inv: "work_inv draining_example"
proof -
  have "agents_inv draining_example"
    by (auto simp: agents_inv_def draining_example_def work_example_def unique_Cons rollover_ok_def serial_view_def
        cert_view_def row_def agent_example_def issued_certificate_def)
  then show ?thesis
    using work_example_leases by (simp add: work_inv_def draining_example_def work_example_def)
qed

theorem draining_agent_gets_no_work_witness:
  "active_work_count (work_run (\<lambda>_ _. ''{}'') draining_example [ExpireLease ''l1'' ''gone'' 3, ClaimLease ''a1'' 4]) ''a1'' \<le> 1"
proof -
  have "draining draining_example ''a1''"
    by (simp add: draining_def draining_example_def work_example_def row_def agent_example_def)
  moreover have "active_work_count draining_example ''a1'' = 1"
    by (simp add: active_work_count_def draining_example_def work_example_def lease_example_def affected_def)
  ultimately show ?thesis
    using draining_agent_gets_no_work [OF draining_example_inv, of "''a1''" "[ExpireLease ''l1'' ''gone'' 3, ClaimLease ''a1'' 4]"]
    by (simp add: Let_def)
qed

end
