(* ===== verification/Alert_Store.thy ===== *)
theory Alert_Store
  imports Timestamps
begin

text \<open>
  The alerts of src/internal/store/alerts.go: the current state of each alert, and the append-only
  log of its transitions. The log determines the states: replaying it gives the table.
\<close>

record alert_signal =
  sig_StateKey :: string
  sig_Kind :: string
  sig_Severity :: string
  sig_ObjectType :: string
  sig_ObjectID :: string
  sig_ObjectName :: string
  sig_Reason :: string
  sig_Message :: string
  sig_TargetPage :: string
  sig_RecoveryCondition :: string

record alert_state =
  ast_Signal :: alert_signal
  ast_Status :: string
  ast_FirstAt :: instant
  ast_LastAt :: instant
  ast_ResolvedAt :: "instant option"
  ast_OccurrenceCount :: int

record alert_event =
  aev_ID :: nat
  aev_OccurredAt :: instant
  aev_Transition :: string
  aev_Signal :: alert_signal
  aev_Status :: string
  aev_OccurrenceCount :: int

record alert_db =
  aldb_states :: "alert_state list"
  aldb_events :: "alert_event list"
  aldb_next :: nat

abbreviation AlertInfo :: string where "AlertInfo \<equiv> ''info''"
abbreviation AlertWarning :: string where "AlertWarning \<equiv> ''warning''"
abbreviation AlertCritical :: string where "AlertCritical \<equiv> ''critical''"
abbreviation AlertActive :: string where "AlertActive \<equiv> ''active''"
abbreviation AlertResolved :: string where "AlertResolved \<equiv> ''resolved''"
abbreviation AlertRaised :: string where "AlertRaised \<equiv> ''raised''"
abbreviation AlertRepeated :: string where "AlertRepeated \<equiv> ''repeated''"

definition state_key :: "alert_state \<Rightarrow> string" where
  "state_key s = sig_StateKey (ast_Signal s)"

definition validate_alert_signal :: "alert_signal \<Rightarrow> instant \<Rightarrow> check" where
  "validate_alert_signal s now =
     (if now = zero_time \<or> blank (sig_StateKey s) \<or> blank (sig_Kind s) \<or> blank (sig_ObjectType s) \<or>
        blank (sig_ObjectID s) \<or> blank (sig_ObjectName s) \<or> blank (sig_Reason s) \<or> blank (sig_Message s) \<or>
        blank (sig_TargetPage s) \<or> blank (sig_RecoveryCondition s)
      then Some (Invalid ''alert signal requires identity, message, handling target, recovery condition, and time'')
      else if sig_Severity s \<in> set [AlertInfo, AlertWarning, AlertCritical] then None
      else Some (Invalid ''unsupported alert severity''))"

definition append_alert_event :: "alert_db \<Rightarrow> alert_state \<Rightarrow> string \<Rightarrow> instant \<Rightarrow> alert_db" where
  "append_alert_event db s transition now =
     db\<lparr>aldb_events := aldb_events db @ [\<lparr>aev_ID = aldb_next db, aev_OccurredAt = now, aev_Transition = transition,
          aev_Signal = ast_Signal s, aev_Status = ast_Status s, aev_OccurrenceCount = ast_OccurrenceCount s\<rparr>],
        aldb_next := Suc (aldb_next db)\<rparr>"

definition first_alert :: "alert_signal \<Rightarrow> instant \<Rightarrow> alert_state" where
  "first_alert sig now = \<lparr>ast_Signal = sig, ast_Status = AlertActive, ast_FirstAt = now, ast_LastAt = now,
     ast_ResolvedAt = None, ast_OccurrenceCount = 1\<rparr>"

definition raised_again :: "alert_signal \<Rightarrow> instant \<Rightarrow> alert_state \<Rightarrow> alert_state" where
  "raised_again sig now s = s\<lparr>ast_Signal := sig, ast_Status := AlertActive, ast_LastAt := now,
     ast_ResolvedAt := None, ast_OccurrenceCount := ast_OccurrenceCount s + 1\<rparr>"

definition resolved_alert :: "instant \<Rightarrow> alert_state \<Rightarrow> alert_state" where
  "resolved_alert now s = s\<lparr>ast_Status := AlertResolved, ast_ResolvedAt := Some now\<rparr>"

definition raise_alert :: "alert_db \<Rightarrow> alert_signal \<Rightarrow> instant \<Rightarrow> alert_db \<times> (alert_state \<times> string) outcome" where
  "raise_alert db sig now =
     (case validate_alert_signal sig now of
        Some err \<Rightarrow> (db, Inl err)
      | None \<Rightarrow>
          (case row state_key (sig_StateKey sig) (aldb_states db) of
             None \<Rightarrow>
               let s = first_alert sig now in
               (append_alert_event (db\<lparr>aldb_states := aldb_states db @ [s]\<rparr>) s AlertRaised now, Inr (s, AlertRaised))
           | Some old \<Rightarrow>
               let transition = (if ast_Status old = AlertResolved then AlertRaised else AlertRepeated);
                   s = raised_again sig now old in
               (append_alert_event (db\<lparr>aldb_states := update_where (\<lambda>r. state_key r = sig_StateKey sig)
                    (\<lambda>r. r\<lparr>ast_Signal := (sig\<lparr>sig_StateKey := state_key r\<rparr>), ast_Status := ast_Status s,
                            ast_LastAt := ast_LastAt s, ast_ResolvedAt := None,
                            ast_OccurrenceCount := ast_OccurrenceCount s\<rparr>) (aldb_states db)\<rparr>) s transition now,
                Inr (s, transition))))"

definition resolve_alert :: "alert_db \<Rightarrow> string \<Rightarrow> instant \<Rightarrow> alert_db \<times> (alert_state option \<times> bool) outcome" where
  "resolve_alert db key now =
     (if blank key \<or> now = zero_time then (db, Inl (Invalid ''alert resolution requires state key and time''))
      else (case row state_key key (aldb_states db) of
              None \<Rightarrow> (db, Inr (None, False))
            | Some old \<Rightarrow>
                if ast_Status old = AlertResolved then (db, Inr (Some old, False))
                else
                  let s = resolved_alert now old in
                  (append_alert_event (db\<lparr>aldb_states := update_where (\<lambda>r. state_key r = key \<and> ast_Status r = AlertActive)
                     (resolved_alert now) (aldb_states db)\<rparr>) s AlertResolved now, Inr (Some s, True))))"

definition severity_rank :: "string \<Rightarrow> nat" where
  "severity_rank severity = (if severity = AlertCritical then 0 else if severity = AlertWarning then 1 else 2)"

text \<open>Ordered by severity, then the latest first, then the key: three stable sorts.\<close>

definition list_active_alerts :: "alert_db \<Rightarrow> alert_state list" where
  "list_active_alerts db =
     sort_key (\<lambda>s. severity_rank (sig_Severity (ast_Signal s)))
       (rev (sort_key (\<lambda>s. format_time (ast_LastAt s)) (rev
          (sort_key state_key (filter (\<lambda>s. ast_Status s = AlertActive) (aldb_states db))))))"

definition list_alert_events :: "alert_db \<Rightarrow> int \<Rightarrow> alert_event list" where
  "list_alert_events db limit =
     take (if limit < 1 \<or> limit > 1000 then 100 else nat limit) (rev (sort_key aev_ID (aldb_events db)))"

section \<open>The log determines the states\<close>

definition event_key :: "alert_event \<Rightarrow> string" where
  "event_key e = sig_StateKey (aev_Signal e)"

definition apply_event :: "(string \<Rightarrow> alert_state option) \<Rightarrow> alert_event \<Rightarrow> string \<Rightarrow> alert_state option" where
  "apply_event m e = m(event_key e :=
     (if aev_Transition e = AlertResolved then map_option (resolved_alert (aev_OccurredAt e)) (m (event_key e))
      else (case m (event_key e) of
              None \<Rightarrow> Some (first_alert (aev_Signal e) (aev_OccurredAt e))
            | Some s \<Rightarrow> Some (raised_again (aev_Signal e) (aev_OccurredAt e) s))))"

definition replay :: "alert_event list \<Rightarrow> string \<Rightarrow> alert_state option" where
  "replay events = foldl apply_event Map.empty events"

text \<open>
  The transitions that may be logged in a state: an alert is raised when it is not active, repeated
  and resolved while it is; the event carries the status, the signal and the count it leads to.
\<close>

definition legal_event :: "(string \<Rightarrow> alert_state option) \<Rightarrow> alert_event \<Rightarrow> bool" where
  "legal_event m e \<longleftrightarrow>
     (let active = (\<exists>s. m (event_key e) = Some s \<and> ast_Status s = AlertActive) in
      (aev_Transition e = AlertRaised \<and> \<not> active \<or> aev_Transition e \<in> {AlertRepeated, AlertResolved} \<and> active) \<and>
      (\<exists>s. apply_event m e (event_key e) = Some s \<and> ast_Status s = aev_Status e \<and> ast_Signal s = aev_Signal e \<and>
           ast_OccurrenceCount s = aev_OccurrenceCount e))"

definition legal_log :: "alert_event list \<Rightarrow> bool" where
  "legal_log events \<longleftrightarrow> (\<forall>n < length events. legal_event (replay (take n events)) (events ! n))"

lemma replay_snoc: "replay (events @ [e]) = apply_event (replay events) e"
  by (simp add: replay_def)

lemma legal_log_snoc: "legal_log (events @ [e]) \<longleftrightarrow> legal_log events \<and> legal_event (replay events) e"
  by (auto simp: legal_log_def nth_append less_Suc_eq)

definition alert_inv :: "alert_db \<Rightarrow> bool" where
  "alert_inv db \<longleftrightarrow> unique_keys state_key (aldb_states db) \<and>
     (\<forall>s \<in> set (aldb_states db). ast_Status s \<in> {AlertActive, AlertResolved}) \<and>
     (\<lambda>key. row state_key key (aldb_states db)) = replay (aldb_events db) \<and> legal_log (aldb_events db)"

lemma alert_invD:
  assumes "alert_inv db"
  shows "unique_keys state_key (aldb_states db)" and "row state_key k (aldb_states db) = replay (aldb_events db) k"
    and "legal_log (aldb_events db)"
    and "row state_key k (aldb_states db) = Some s \<Longrightarrow> ast_Status s = AlertActive \<or> ast_Status s = AlertResolved"
  using assms by (auto simp: alert_inv_def dest: fun_cong row_Some_in)

lemma alert_invI:
  assumes "unique_keys state_key t" and "\<And>s. s \<in> set t \<Longrightarrow> ast_Status s \<in> {AlertActive, AlertResolved}"
    and "legal_log events" and "legal_event (replay events) e"
    and "\<And>k. row state_key k t = apply_event (replay events) e k"
  shows "alert_inv (db\<lparr>aldb_states := t, aldb_events := events @ [e], aldb_next := n\<rparr>)"
  using assms by (simp add: alert_inv_def replay_snoc legal_log_snoc fun_eq_iff)

lemma state_key_simps [simp]:
  "state_key (first_alert sig now) = sig_StateKey sig" "state_key (raised_again sig now s) = sig_StateKey sig"
  "state_key (resolved_alert now s) = state_key s"
  by (simp_all add: state_key_def first_alert_def raised_again_def resolved_alert_def)

lemma raise_alert_inv:
  assumes inv: "alert_inv db"
  shows "alert_inv (fst (raise_alert db sig now))"
proof (cases "validate_alert_signal sig now")
  case (Some err)
  then show ?thesis using inv by (simp add: raise_alert_def)
next
  case valid: None
  let ?k = "sig_StateKey sig"
  show ?thesis
  proof (cases "row state_key ?k (aldb_states db)")
    case None
    let ?s = "first_alert sig now"
    let ?e = "\<lparr>aev_ID = aldb_next db, aev_OccurredAt = now, aev_Transition = AlertRaised, aev_Signal = sig,
        aev_Status = AlertActive, aev_OccurrenceCount = 1\<rparr>"
    have m: "replay (aldb_events db) ?k = None" using alert_invD(2) [OF inv, of ?k] None by simp
    have new: "?k \<notin> state_key ` set (aldb_states db)" using None by (simp add: row_None)
    have "alert_inv (db\<lparr>aldb_states := aldb_states db @ [?s], aldb_events := aldb_events db @ [?e], aldb_next := Suc (aldb_next db)\<rparr>)"
    proof (rule alert_invI)
      show "unique_keys state_key (aldb_states db @ [?s])" using new alert_invD(1) [OF inv] by (simp add: unique_snoc)
      show "legal_event (replay (aldb_events db)) ?e"
        by (simp add: legal_event_def Let_def m event_key_def apply_event_def first_alert_def)
      show "row state_key k (aldb_states db @ [?s]) = apply_event (replay (aldb_events db)) ?e k" for k
        using new m alert_invD(2) [OF inv, of k] by (simp add: row_snoc apply_event_def event_key_def)
    qed (use inv in \<open>auto simp: alert_inv_def first_alert_def\<close>)
    with valid None show ?thesis by (simp add: raise_alert_def append_alert_event_def Let_def first_alert_def)
  next
    case (Some old)
    let ?s = "raised_again sig now old"
    let ?tr = "if ast_Status old = AlertResolved then AlertRaised else AlertRepeated"
    let ?e = "\<lparr>aev_ID = aldb_next db, aev_OccurredAt = now, aev_Transition = ?tr, aev_Signal = sig,
        aev_Status = AlertActive, aev_OccurrenceCount = ast_OccurrenceCount old + 1\<rparr>"
    let ?f = "\<lambda>r. r\<lparr>ast_Signal := (sig\<lparr>sig_StateKey := state_key r\<rparr>), ast_Status := ast_Status ?s,
       ast_LastAt := ast_LastAt ?s, ast_ResolvedAt := None, ast_OccurrenceCount := ast_OccurrenceCount ?s\<rparr>"
    have key: "state_key (?f r) = state_key r" for r by (simp add: state_key_def)
    have old: "state_key old = ?k" using row_Some_in [OF Some] by simp
    have f: "?f old = ?s" using old by (simp add: raised_again_def)
    have m: "replay (aldb_events db) ?k = Some old" using alert_invD(2) [OF inv, of ?k] Some by simp
    have "alert_inv (db\<lparr>aldb_states := update_where (\<lambda>r. state_key r = ?k) ?f (aldb_states db),
        aldb_events := aldb_events db @ [?e], aldb_next := Suc (aldb_next db)\<rparr>)"
    proof (rule alert_invI)
      show "unique_keys state_key (update_where (\<lambda>r. state_key r = ?k) ?f (aldb_states db))"
        using alert_invD(1) [OF inv] key by (subst unique_update_where)
      show "legal_event (replay (aldb_events db)) ?e"
        using alert_invD(4) [OF inv Some]
        by (auto simp: legal_event_def Let_def m event_key_def apply_event_def raised_again_def)
      show "row state_key k (update_where (\<lambda>r. state_key r = ?k) ?f (aldb_states db)) = apply_event (replay (aldb_events db)) ?e k" for k
        using alert_invD(2) [OF inv, of k] Some m f old
        by (subst row_update_other [where k = ?k and f = ?f and key = state_key, OF key]) (auto simp: apply_event_def event_key_def)
      show "ast_Status r \<in> {AlertActive, AlertResolved}" if "r \<in> set (update_where (\<lambda>r. state_key r = ?k) ?f (aldb_states db))" for r
        using that inv by (cases rule: update_where_cases) (auto simp: alert_inv_def raised_again_def)
    qed (use alert_invD(3) [OF inv] in simp)
    with valid Some show ?thesis by (simp add: raise_alert_def append_alert_event_def Let_def raised_again_def)
  qed
qed

lemma resolve_alert_inv:
  assumes inv: "alert_inv db"
  shows "alert_inv (fst (resolve_alert db key now))"
proof (cases "\<exists>old. \<not> (blank key \<or> now = zero_time) \<and> row state_key key (aldb_states db) = Some old \<and> ast_Status old \<noteq> AlertResolved")
  case False
  then show ?thesis using inv by (auto simp: resolve_alert_def split: option.split)
next
  case True
  then obtain old where ok: "\<not> (blank key \<or> now = zero_time)" and old: "row state_key key (aldb_states db) = Some old"
    and open_: "ast_Status old \<noteq> AlertResolved" by blast
  have active: "ast_Status old = AlertActive" using alert_invD(4) [OF inv old] open_ by simp
  have k: "state_key old = key" using row_Some_in [OF old] by simp
  let ?e = "\<lparr>aev_ID = aldb_next db, aev_OccurredAt = now, aev_Transition = AlertResolved, aev_Signal = ast_Signal old,
      aev_Status = AlertResolved, aev_OccurrenceCount = ast_OccurrenceCount old\<rparr>"
  let ?P = "\<lambda>r. state_key r = key \<and> ast_Status r = AlertActive"
  have m: "replay (aldb_events db) key = Some old" using alert_invD(2) [OF inv, of key] old by simp
  have ek: "event_key ?e = key" using k by (simp add: event_key_def state_key_def)
  have applied: "apply_event (replay (aldb_events db)) ?e = (replay (aldb_events db))(key := Some (resolved_alert now old))"
    by (simp add: apply_event_def ek m)
  have "alert_inv (db\<lparr>aldb_states := update_where ?P (resolved_alert now) (aldb_states db),
      aldb_events := aldb_events db @ [?e], aldb_next := Suc (aldb_next db)\<rparr>)"
  proof (rule alert_invI)
    show "unique_keys state_key (update_where ?P (resolved_alert now) (aldb_states db))"
      using alert_invD(1) [OF inv] by (simp add: unique_update_where)
    show "legal_event (replay (aldb_events db)) ?e"
      using active m ek by (simp add: legal_event_def Let_def apply_event_def resolved_alert_def)
    show "row state_key j (update_where ?P (resolved_alert now) (aldb_states db)) = apply_event (replay (aldb_events db)) ?e j" for j
      using alert_invD(2) [OF inv, of j] old active k
      by (subst row_update_other [where k = key]) (auto simp: applied)
    show "ast_Status r \<in> {AlertActive, AlertResolved}" if "r \<in> set (update_where ?P (resolved_alert now) (aldb_states db))" for r
      using that inv by (cases rule: update_where_cases) (auto simp: alert_inv_def resolved_alert_def)
  qed (use alert_invD(3) [OF inv] in simp)
  with ok old open_ show ?thesis by (simp add: resolve_alert_def append_alert_event_def Let_def resolved_alert_def)
qed

datatype alert_request = RaiseAlert alert_signal instant | ResolveAlert string instant

fun alert_step :: "alert_db \<Rightarrow> alert_request \<Rightarrow> alert_db" where
  "alert_step db (RaiseAlert sig now) = fst (raise_alert db sig now)"
| "alert_step db (ResolveAlert key now) = fst (resolve_alert db key now)"

definition no_alerts :: alert_db where
  "no_alerts = \<lparr>aldb_states = [], aldb_events = [], aldb_next = 0\<rparr>"

lemma no_alerts_inv: "alert_inv no_alerts"
  by (simp add: alert_inv_def no_alerts_def row_def replay_def legal_log_def fun_eq_iff)

lemma alert_inv_run: "alert_inv db \<Longrightarrow> alert_inv (foldl alert_step db reqs)"
proof (induction reqs arbitrary: db)
  case (Cons req reqs)
  then show ?case by (cases req) (auto intro: raise_alert_inv resolve_alert_inv)
qed simp

lemma alert_log_grows: "prefix (aldb_events db) (aldb_events (foldl alert_step db reqs))"
proof (induction reqs arbitrary: db)
  case (Cons req reqs)
  have "prefix (aldb_events db) (aldb_events (alert_step db req))"
    by (cases req) (auto simp: raise_alert_def resolve_alert_def append_alert_event_def Let_def split: option.split)
  with Cons [of "alert_step db req"] show ?case by (metis foldl_Cons prefix_order.trans)
qed simp

text \<open>
  C32: the alert log determines the alert states. After any sequence of raised and resolved alerts the
  table holds for each key exactly the state that replaying the log gives; the log is only ever
  extended, and every logged transition is legal: an alert is raised only when it was not active,
  and repeated or resolved only while it was.
\<close>
theorem alert_log_replays:
  "(\<lambda>key. row state_key key (aldb_states (foldl alert_step no_alerts reqs))) =
     replay (aldb_events (foldl alert_step no_alerts reqs)) \<and>
   legal_log (aldb_events (foldl alert_step no_alerts reqs)) \<and>
   prefix (aldb_events (foldl alert_step no_alerts reqs)) (aldb_events (foldl alert_step no_alerts (reqs @ later)))"
  using alert_inv_run [OF no_alerts_inv, of reqs] alert_log_grows [of "foldl alert_step no_alerts reqs" later]
  by (simp add: alert_inv_def)

section \<open>What one call does to the states\<close>

definition alert_active :: "alert_db \<Rightarrow> string \<Rightarrow> alert_state option" where
  "alert_active db key =
     (case row state_key key (aldb_states db) of
        None \<Rightarrow> None | Some s \<Rightarrow> if ast_Status s = AlertActive then Some s else None)"

lemma raise_alert_ok:
  assumes "raise_alert db sig now = (db', Inr (s, tr))"
  shows "row state_key j (aldb_states db') = (if j = sig_StateKey sig then Some s else row state_key j (aldb_states db))"
    and "ast_Signal s = sig" and "ast_Status s = AlertActive"
proof -
  let ?k = "sig_StateKey sig"
  have valid: "validate_alert_signal sig now = None"
    using assms by (auto simp: raise_alert_def split: option.splits)
  have "row state_key j (aldb_states db') = (if j = ?k then Some s else row state_key j (aldb_states db)) \<and>
      ast_Signal s = sig \<and> ast_Status s = AlertActive"
  proof (cases "row state_key ?k (aldb_states db)")
    case None
    then have "?k \<notin> state_key ` set (aldb_states db)" by (simp add: row_None)
    with assms valid None show ?thesis
      by (auto simp: raise_alert_def append_alert_event_def Let_def row_snoc first_alert_def state_key_def)
  next
    case (Some old)
    let ?s = "raised_again sig now old"
    let ?f = "\<lambda>r. r\<lparr>ast_Signal := (sig\<lparr>sig_StateKey := state_key r\<rparr>), ast_Status := ast_Status ?s,
       ast_LastAt := ast_LastAt ?s, ast_ResolvedAt := None, ast_OccurrenceCount := ast_OccurrenceCount ?s\<rparr>"
    have key: "state_key (?f r) = state_key r" for r by (simp add: state_key_def)
    have old: "state_key old = ?k" using row_Some_in [OF Some] by simp
    have f: "?f old = ?s" using old by (simp add: raised_again_def)
    have "row state_key j (update_where (\<lambda>r. state_key r = ?k) ?f (aldb_states db)) =
        (if j = ?k then Some ?s else row state_key j (aldb_states db))"
      using Some f old by (subst row_update_other [where k = ?k and f = ?f and key = state_key, OF key]) auto
    with assms valid Some show ?thesis
      by (auto simp: raise_alert_def append_alert_event_def Let_def) (simp_all add: raised_again_def)
  qed
  then show "row state_key j (aldb_states db') = (if j = ?k then Some s else row state_key j (aldb_states db))"
    and "ast_Signal s = sig" and "ast_Status s = AlertActive" by blast+
qed

lemma raise_alert_err: "raise_alert db sig now = (db', Inl err) \<Longrightarrow> db' = db"
  by (auto simp: raise_alert_def Let_def split: option.splits)

lemma resolve_alert_ok:
  assumes "resolve_alert db key now = (db', Inr (r, changed))" and "alert_inv db"
  shows "alert_active db' j = (if j = key then None else alert_active db j)"
    and "j \<noteq> key \<Longrightarrow> row state_key j (aldb_states db') = row state_key j (aldb_states db)"
    and "\<not> changed \<Longrightarrow> db' = db"
    and "row state_key key (aldb_states db') = (if changed then r else row state_key key (aldb_states db))"
    and "changed \<Longrightarrow> \<exists>old s. row state_key key (aldb_states db) = Some old \<and> r = Some s \<and> ast_Signal s = ast_Signal old"
proof -
  have ok: "\<not> (blank key \<or> now = zero_time)" using assms(1) by (auto simp: resolve_alert_def)
  have "alert_active db' j = (if j = key then None else alert_active db j) \<and>
    (j \<noteq> key \<longrightarrow> row state_key j (aldb_states db') = row state_key j (aldb_states db)) \<and> (\<not> changed \<longrightarrow> db' = db) \<and>
    (row state_key key (aldb_states db') = (if changed then r else row state_key key (aldb_states db))) \<and>
    (changed \<longrightarrow> (\<exists>old s. row state_key key (aldb_states db) = Some old \<and> r = Some s \<and> ast_Signal s = ast_Signal old))"
  proof (cases "\<exists>old. row state_key key (aldb_states db) = Some old \<and> ast_Status old = AlertActive")
    case True
    then obtain old where old: "row state_key key (aldb_states db) = Some old" "ast_Status old = AlertActive" by blast
    let ?P = "\<lambda>r. state_key r = key \<and> ast_Status r = AlertActive"
    have k: "state_key old = key" using row_Some_in [OF old(1)] by simp
    have rows: "row state_key j (update_where ?P (resolved_alert now) (aldb_states db)) =
        (if j = key then Some (resolved_alert now old) else row state_key j (aldb_states db))" for j
      using old k by (subst row_update_other [where k = key]) auto
    have db': "aldb_states db' = update_where ?P (resolved_alert now) (aldb_states db)"
      and r: "changed" "r = Some (resolved_alert now old)"
      using assms(1) ok old by (auto simp: resolve_alert_def append_alert_event_def Let_def)
    show ?thesis
      using r old(1) unfolding alert_active_def db' rows by (simp add: resolved_alert_def)
  next
    case False
    then have "db' = db" "\<not> changed" using assms(1) ok alert_invD(4) [OF assms(2)]
      by (auto simp: resolve_alert_def split: option.splits if_splits)
    then show ?thesis using False by (auto simp: alert_active_def split: option.split)
  qed
  then show "alert_active db' j = (if j = key then None else alert_active db j)"
    and "j \<noteq> key \<Longrightarrow> row state_key j (aldb_states db') = row state_key j (aldb_states db)"
    and "\<not> changed \<Longrightarrow> db' = db"
    and "row state_key key (aldb_states db') = (if changed then r else row state_key key (aldb_states db))"
    and "changed \<Longrightarrow> \<exists>old s. row state_key key (aldb_states db) = Some old \<and> r = Some s \<and> ast_Signal s = ast_Signal old"
    by blast+
qed

lemma resolve_alert_err: "resolve_alert db key now = (db', Inl err) \<Longrightarrow> db' = db"
  by (auto simp: resolve_alert_def Let_def split: option.splits if_splits)

lemma set_list_active_alerts:
  assumes "alert_inv db"
  shows "s \<in> set (list_active_alerts db) \<longleftrightarrow> alert_active db (state_key s) = Some s"
proof
  assume "s \<in> set (list_active_alerts db)"
  then have "s \<in> set (aldb_states db)" "ast_Status s = AlertActive" by (simp_all add: list_active_alerts_def)
  then show "alert_active db (state_key s) = Some s"
    using row_unique [OF alert_invD(1) [OF assms]] by (simp add: alert_active_def)
next
  assume "alert_active db (state_key s) = Some s"
  then have "row state_key (state_key s) (aldb_states db) = Some s" "ast_Status s = AlertActive"
    by (auto simp: alert_active_def split: option.splits if_splits)
  then show "s \<in> set (list_active_alerts db)" using row_Some_in by (fastforce simp: list_active_alerts_def)
qed

end
