(* ===== verification/Go_Texts.thy ===== *)
theory Go_Texts
  imports Prelude
begin

text \<open>
  Texts as Go writes them: the UTF-8 bytes of a text given by its code points, \<open>strings.ReplaceAll\<close>
  and \<open>errors.Join\<close>. Replacing a secret by a mark that does not overlap it removes every occurrence.
\<close>

definition utf8_rune :: "int \<Rightarrow> string" where
  "utf8_rune c =
     (if c < 0x80 then [char_of c]
      else if c < 0x800 then [char_of (0xC0 + c div 0x40), char_of (0x80 + c mod 0x40)]
      else if c < 0x10000 then
        [char_of (0xE0 + c div 0x1000), char_of (0x80 + c div 0x40 mod 0x40), char_of (0x80 + c mod 0x40)]
      else [char_of (0xF0 + c div 0x40000), char_of (0x80 + c div 0x1000 mod 0x40),
            char_of (0x80 + c div 0x40 mod 0x40), char_of (0x80 + c mod 0x40)])"

definition utf8 :: "int list \<Rightarrow> string" where
  "utf8 cs = concat (map utf8_rune cs)"

text \<open>\<open>strings.ReplaceAll\<close> with a non-empty text to replace, and \<open>strings.Join\<close>.\<close>

fun replace_all :: "string \<Rightarrow> string \<Rightarrow> string \<Rightarrow> string" where
  "replace_all old new [] = []"
| "replace_all old new (c # cs) =
     (if prefix old (c # cs) then new @ replace_all old new (drop (length old - 1) cs)
      else c # replace_all old new cs)"

definition join_texts :: "string \<Rightarrow> string list \<Rightarrow> string" where
  "join_texts sep ts = (case ts of [] \<Rightarrow> [] | t # ts \<Rightarrow> t @ concat (map (\<lambda>u. sep @ u) ts))"

definition join_errors :: "go_error list \<Rightarrow> check" where
  "join_errors errs = (if errs = [] then None else Some (Invalid (join_texts [CHR 0x0A] (map error_text errs))))"

section \<open>Replacing removes\<close>

lemma prefix_replace_all:
  assumes "prefix p (replace_all old new s)" and "new \<noteq> []" and "hd new \<notin> set p"
  shows "prefix p s"
  using assms
proof (induction s arbitrary: p)
  case (Cons c cs)
  show ?case
  proof (cases p)
    case p: (Cons d ds)
    show ?thesis
    proof (cases "prefix old (c # cs)")
      case True
      then have "prefix p (new @ replace_all old new (drop (length old - 1) cs))" using Cons.prems by simp
      with p \<open>new \<noteq> []\<close> have "hd new = d" by (cases new) auto
      with p Cons.prems show ?thesis by simp
    next
      case False
      with Cons.prems p have "d = c" and "prefix ds (replace_all old new cs)" by auto
      with Cons.IH [of ds] Cons.prems p show ?thesis by simp
    qed
  qed simp
qed simp

lemma replace_all_removes:
  assumes "old \<noteq> []" and "new \<noteq> []" and "hd new \<notin> set old" and "last new \<notin> set old" and "\<not> sublist old new"
  shows "\<not> sublist old (replace_all old new s)"
  using assms
proof (induction old new s rule: replace_all.induct)
  case (2 old new c cs)
  note assms = "2.prems"
  show ?case
  proof (cases "prefix old (c # cs)")
    case True
    let ?rest = "replace_all old new (drop (length old - 1) cs)"
    have rest: "\<not> sublist old ?rest" using "2.IH"(1) True assms by simp
    have "\<not> sublist old (new @ ?rest)"
    proof
      assume "sublist old (new @ ?rest)"
      then consider "sublist old new" | "sublist old ?rest"
        | xs ys where "old = xs @ ys" "suffix xs new" "prefix ys ?rest"
        by (auto simp: sublist_append)
      then show False
      proof cases
        case 3
        then show False using rest assms(4) by (cases xs rule: rev_cases) (auto simp: suffix_def)
      qed (use assms rest in simp_all)
    qed
    then show ?thesis using True by simp
  next
    case False
    then have "\<not> sublist old (replace_all old new cs)" using "2.IH"(2) False assms by simp
    moreover have "\<not> prefix old (c # replace_all old new cs)"
    proof
      assume pre: "prefix old (c # replace_all old new cs)"
      obtain p where p: "old = c # p" using pre assms(1) by (cases old) auto
      have "prefix p (replace_all old new cs)" using pre p by simp
      then have "prefix p cs" by (rule prefix_replace_all) (use assms(2,3) p in simp_all)
      with p False show False by simp
    qed
    ultimately show ?thesis using False by (simp add: sublist_Cons_right)
  qed
qed (simp_all)

end
