(* ===== verification/Notification_Delivery.thy ===== *)
theory Notification_Delivery
  imports Domain_Model Go_Texts
begin

text \<open>
  The notification channels: src/internal/notification/service.go, the delivery log of
  src/internal/store/notification_delivery.go, the checks of src/internal/ntfy/client.go and the
  webhook settings of src/internal/notificationconfig/config.go.

  What the service observes of the world (the clock, whether its context has ended, the answers of
  the network and of the secret store) depends on time: every observation has a number, the state
  counts them, and an environment is a record of functions of that number. The calls of \<open>Deliver\<close>
  come one after the other; the fields \<open>maxAttempts\<close>, \<open>rateLimit\<close> and \<open>rateWindow\<close> hold what \<open>New\<close>
  sets, because nothing changes them.
\<close>

section \<open>The delivery log\<close>

record delivery =
  dlv_ID :: nat
  dlv_NotificationID :: string
  dlv_OccurredAt :: instant
  dlv_Channel :: string
  dlv_StateKey :: string
  dlv_Transition :: string
  dlv_Attempt :: int
  dlv_MaxAttempts :: int
  dlv_Status :: string
  dlv_ErrorSummary :: string
  dlv_DeliveredAt :: "instant option"

record notification_row =
  ntf_OccurredAt :: instant
  ntf_Kind :: string
  ntf_StateKey :: string
  ntf_Message :: string

record notification_db =
  ndb_deliveries :: "delivery list"
  ndb_next :: nat
  ndb_notifications :: "notification_row list"

abbreviation DeliverySkippedDisabled :: string where "DeliverySkippedDisabled \<equiv> ''skipped_disabled''"
abbreviation DeliveryRateLimited :: string where "DeliveryRateLimited \<equiv> ''rate_limited''"
abbreviation DeliveryRetrying :: string where "DeliveryRetrying \<equiv> ''retrying''"
abbreviation DeliveryFinalFailure :: string where "DeliveryFinalFailure \<equiv> ''failed_final''"
abbreviation DeliveryDelivered :: string where "DeliveryDelivered \<equiv> ''delivered''"

definition validate_delivery :: "delivery \<Rightarrow> check" where
  "validate_delivery d =
     (let bounded = (dlv_Attempt d \<ge> 1 \<and> dlv_MaxAttempts d \<ge> 1 \<and> dlv_Attempt d \<le> dlv_MaxAttempts d);
          unattempted = (dlv_Attempt d = 0 \<and> dlv_MaxAttempts d = 0 \<and> dlv_DeliveredAt d = None) in
      if dlv_NotificationID d = [] \<or> dlv_OccurredAt d = zero_time \<or> dlv_Channel d = [] \<or> dlv_StateKey d = [] \<or>
         dlv_Transition d = []
      then Some (Invalid ''notification delivery requires identity, channel, state, transition, and time'')
      else if dlv_Status d = DeliverySkippedDisabled then
        (if \<not> unattempted then Some (Invalid ''disabled notification delivery cannot contain an attempt'') else None)
      else if dlv_Status d = DeliveryRateLimited then
        (if \<not> unattempted \<or> dlv_ErrorSummary d = []
         then Some (Invalid ''rate-limited notification delivery requires an error without an attempt'') else None)
      else if dlv_Status d = DeliveryRetrying \<or> dlv_Status d = DeliveryFinalFailure then
        (if \<not> bounded \<or> dlv_DeliveredAt d \<noteq> None \<or> dlv_ErrorSummary d = []
         then Some (Invalid ''failed notification delivery requires a bounded attempt and error'') else None)
      else if dlv_Status d = DeliveryDelivered then
        (if \<not> bounded \<or> dlv_DeliveredAt d = None
         then Some (Invalid ''delivered notification requires a bounded attempt and delivery time'') else None)
      else Some (Invalid ''unsupported notification delivery status''))"

definition record_delivery :: "notification_db \<Rightarrow> delivery \<Rightarrow> notification_db \<times> check" where
  "record_delivery db d =
     (case validate_delivery d of
        Some err \<Rightarrow> (db, Some err)
      | None \<Rightarrow> (db\<lparr>ndb_deliveries := ndb_deliveries db @ [d\<lparr>dlv_ID := ndb_next db\<rparr>], ndb_next := Suc (ndb_next db)\<rparr>, None))"

text \<open>The rows are in the order of their identifiers, so \<open>ORDER BY id DESC LIMIT 1\<close> is the last one.\<close>

definition delivered_rows :: "notification_db \<Rightarrow> string \<Rightarrow> string \<Rightarrow> delivery list" where
  "delivered_rows db channel key =
     filter (\<lambda>d. dlv_Channel d = channel \<and> dlv_StateKey d = key \<and> dlv_Status d = DeliveryDelivered) (ndb_deliveries db)"

definition channel_delivered :: "notification_db \<Rightarrow> string \<Rightarrow> string \<Rightarrow> string \<Rightarrow> bool" where
  "channel_delivered db channel key transition =
     (case rev (delivered_rows db channel key) of [] \<Rightarrow> False | d # _ \<Rightarrow> dlv_Transition d = transition)"

definition count_events_since :: "notification_db \<Rightarrow> string \<Rightarrow> instant \<Rightarrow> nat" where
  "count_events_since db channel since =
     length (remdups (map dlv_NotificationID (filter (\<lambda>d. dlv_Channel d = channel \<and>
       format_time (dlv_OccurredAt d) \<ge> format_time since \<and> dlv_Attempt d > 0) (ndb_deliveries db))))"

definition list_deliveries :: "notification_db \<Rightarrow> int \<Rightarrow> delivery list" where
  "list_deliveries db limit =
     take (if limit < 1 \<or> limit > 1000 then 100 else nat limit) (rev (sort_key dlv_ID (ndb_deliveries db)))"

definition record_notification :: "notification_db \<Rightarrow> instant \<Rightarrow> string \<Rightarrow> string \<Rightarrow> string \<Rightarrow> notification_db" where
  "record_notification db now key status message =
     db\<lparr>ndb_notifications := ndb_notifications db @ [\<lparr>ntf_OccurredAt = now, ntf_Kind = status, ntf_StateKey = key, ntf_Message = message\<rparr>]\<rparr>"

section \<open>Delivering\<close>

record notification_event =
  ne_ID :: string
  ne_OccurredAt :: instant
  ne_StateKey :: string
  ne_Transition :: string
  ne_Title :: string
  ne_Message :: string
  ne_Severity :: string

record channel_result =
  cr_Channel :: string
  cr_Attempted :: bool
  cr_Disabled :: bool
  cr_Deduplicated :: bool
  cr_Attempts :: int
  cr_Status :: string
  cr_ErrorSummary :: string

record delivery_result =
  dr_NotificationID :: string
  dr_Attempted :: bool
  dr_Disabled :: bool
  dr_Unconfigured :: bool
  dr_Deduplicated :: bool
  dr_Attempts :: int
  dr_FailedChannels :: "string list"
  dr_Channels :: "channel_result list"

text \<open>A channel's \<open>send\<close> answers the text of its error, if any, and the texts to redact in it.\<close>

record configured_channel =
  ch_name :: string
  ch_enabled :: bool
  ch_send :: "nat \<Rightarrow> notification_event \<Rightarrow> string option \<times> string list"

record notify_env =
  env_now :: "nat \<Rightarrow> instant"
  env_ended :: "nat \<Rightarrow> string option"

record notify_state =
  ns_db :: notification_db
  ns_seen :: nat
  ns_sequence :: nat

abbreviation max_attempts :: nat where "max_attempts \<equiv> 3"
abbreviation rate_limit :: nat where "rate_limit \<equiv> 60"
abbreviation rate_window :: duration where "rate_window \<equiv> go_hour"

definition rate_limit_summary :: string where
  "rate_limit_summary = ''channel rate limit reached (60 events per 1h0m0s)''"

definition observed :: "notify_state \<Rightarrow> notify_state" where
  "observed st = st\<lparr>ns_seen := Suc (ns_seen st)\<rparr>"

definition note_delivery :: "notify_state \<Rightarrow> delivery \<Rightarrow> notify_state \<times> check" where
  "note_delivery st d = (case record_delivery (ns_db st) d of (db, err) \<Rightarrow> (st\<lparr>ns_db := db\<rparr>, err))"

definition notification_presentation :: "string \<Rightarrow> string \<times> string" where
  "notification_presentation transition =
     (if transition = ''success'' \<or> transition = ''resolved'' then ((utf8 [0x4FDD, 0x62A4, 0x72B6, 0x6001, 0x6062,
        0x590D, 0x6B63, 0x5E38]), ''success'')
      else if transition = ''info'' then ((utf8 [0x4FDD, 0x62A4, 0x72B6, 0x6001, 0x63D0, 0x9192]), ''success'')
      else ((utf8 [0x4FDD, 0x62A4, 0x72B6, 0x6001, 0x5F02, 0x5E38]), ''error''))"

definition safe_delivery_error :: "string \<Rightarrow> string list \<Rightarrow> string" where
  "safe_delivery_error err secrets =
     take 512 (fold (\<lambda>secret value. if secret \<noteq> [] then replace_all secret ''[redacted]'' value else value) secrets err)"

text \<open>One row of the log for an event on a channel, before its outcome is filled in.\<close>

definition delivery_of :: "notification_event \<Rightarrow> string \<Rightarrow> instant \<Rightarrow> string \<Rightarrow> delivery" where
  "delivery_of ev channel now status =
     \<lparr>dlv_ID = 0, dlv_NotificationID = ne_ID ev, dlv_OccurredAt = now, dlv_Channel = channel, dlv_StateKey = ne_StateKey ev,
      dlv_Transition = ne_Transition ev, dlv_Attempt = 0, dlv_MaxAttempts = 0, dlv_Status = status,
      dlv_ErrorSummary = [], dlv_DeliveredAt = None\<rparr>"

text \<open>
  The loop of \<open>deliverChannel\<close> from attempt \<open>n\<close> on, with \<open>left\<close> attempts left. Between two
  attempts it waits for the delay or the end of the context.
\<close>

fun attempt_loop :: "notify_env \<Rightarrow> configured_channel \<Rightarrow> notification_event \<Rightarrow> nat \<Rightarrow> nat \<Rightarrow> channel_result \<Rightarrow> notify_state \<Rightarrow>
    notify_state \<times> channel_result \<times> check" where
  "attempt_loop env ch ev n 0 res st = (st, res, Some (Invalid ''notification delivery attempts exhausted''))"
| "attempt_loop env ch ev n (Suc left) res st =
     (let delivery_at = env_now env (ns_seen st);
          st1 = observed st;
          answer = ch_send ch (ns_seen st1) ev;
          st2 = observed st1;
          res1 = res\<lparr>cr_Attempted := True, cr_Attempts := int n\<rparr> in
      case fst answer of
        None \<Rightarrow>
          (case note_delivery st2 ((delivery_of ev (ch_name ch) delivery_at DeliveryDelivered)
                \<lparr>dlv_Attempt := int n, dlv_MaxAttempts := int max_attempts, dlv_DeliveredAt := Some delivery_at\<rparr>) of
             (st3, err) \<Rightarrow> (st3, res1\<lparr>cr_Status := DeliveryDelivered\<rparr>, err))
      | Some text \<Rightarrow>
          (let summary = safe_delivery_error text (snd answer);
               final = (n = max_attempts \<or> env_ended env (ns_seen st2) \<noteq> None);
               st3 = observed st2;
               status = (if final then DeliveryFinalFailure else DeliveryRetrying);
               res2 = res1\<lparr>cr_ErrorSummary := summary, cr_Status := status\<rparr> in
           case note_delivery st3 ((delivery_of ev (ch_name ch) delivery_at status)
                \<lparr>dlv_Attempt := int n, dlv_MaxAttempts := int max_attempts, dlv_ErrorSummary := summary\<rparr>) of
             (st4, Some err) \<Rightarrow> (st4, res2, join_errors [Invalid summary, err])
           | (st4, None) \<Rightarrow>
               if final then (st4, res2, Some (Invalid summary))
               else (case env_ended env (ns_seen st4) of
                       Some ended \<Rightarrow> (observed st4, res2, Some (Invalid ended))
                     | None \<Rightarrow> attempt_loop env ch ev (Suc n) left res2 (observed st4))))"

definition deliver_channel :: "notify_env \<Rightarrow> configured_channel \<Rightarrow> notification_event \<Rightarrow> notify_state \<Rightarrow>
    notify_state \<times> channel_result \<times> check" where
  "deliver_channel env ch ev st =
     (let res = \<lparr>cr_Channel = ch_name ch, cr_Attempted = False, cr_Disabled = False, cr_Deduplicated = False,
                 cr_Attempts = 0, cr_Status = [], cr_ErrorSummary = []\<rparr> in
      if \<not> ch_enabled ch then
        (case note_delivery (observed st) (delivery_of ev (ch_name ch) (env_now env (ns_seen st)) DeliverySkippedDisabled) of
           (st1, err) \<Rightarrow> (st1, res\<lparr>cr_Disabled := True, cr_Status := DeliverySkippedDisabled\<rparr>, err))
      else if channel_delivered (ns_db st) (ch_name ch) (ne_StateKey ev) (ne_Transition ev) then
        (st, res\<lparr>cr_Deduplicated := True\<rparr>, None)
      else
        let since = env_now env (ns_seen st) - rate_window; st1 = observed st in
        if count_events_since (ns_db st1) (ch_name ch) since \<ge> rate_limit then
          (let res1 = res\<lparr>cr_Status := DeliveryRateLimited, cr_ErrorSummary := rate_limit_summary\<rparr> in
           case note_delivery (observed st1) ((delivery_of ev (ch_name ch) (env_now env (ns_seen st1)) DeliveryRateLimited)
               \<lparr>dlv_ErrorSummary := rate_limit_summary\<rparr>) of
             (st2, Some err) \<Rightarrow> (st2, res1, join_errors [Invalid rate_limit_summary, err])
           | (st2, None) \<Rightarrow> (st2, res1, Some (Invalid rate_limit_summary)))
        else attempt_loop env ch ev 1 max_attempts res st1)"

text \<open>The loop over the channels, with the results and the failures gathered so far.\<close>

fun deliver_all :: "notify_env \<Rightarrow> notification_event \<Rightarrow> configured_channel list \<Rightarrow> notify_state \<Rightarrow> channel_result list \<Rightarrow>
    (string \<times> go_error) list \<Rightarrow> notify_state \<times> channel_result list \<times> (string \<times> go_error) list" where
  "deliver_all env ev [] st results failures = (st, results, failures)"
| "deliver_all env ev (ch # chs) st results failures =
     (case deliver_channel env ch ev st of
        (st1, res, err) \<Rightarrow>
          deliver_all env ev chs st1 (results @ [res])
            (failures @ (case err of None \<Rightarrow> []
                         | Some _ \<Rightarrow> [(ch_name ch, Invalid (ch_name ch @ '': '' @ cr_ErrorSummary res))])))"

definition no_delivery :: delivery_result where
  "no_delivery = \<lparr>dr_NotificationID = [], dr_Attempted = False, dr_Disabled = False, dr_Unconfigured = False,
     dr_Deduplicated = False, dr_Attempts = 0, dr_FailedChannels = [], dr_Channels = []\<rparr>"

definition deliver_notification :: "notify_env \<Rightarrow> configured_channel list outcome \<Rightarrow> string \<Rightarrow> string \<Rightarrow> string \<Rightarrow> notify_state \<Rightarrow>
    notify_state \<times> delivery_result \<times> check" where
  "deliver_notification env configured key transition message st =
     (case configured of
        Inl err \<Rightarrow> (st, no_delivery, Some err)
      | Inr [] \<Rightarrow> (st, no_delivery\<lparr>dr_Unconfigured := True\<rparr>, None)
      | Inr channels \<Rightarrow>
          let occurred_at = env_now env (ns_seen st);
              st1 = (observed st)\<lparr>ns_sequence := Suc (ns_sequence st)\<rparr>;
              ev = \<lparr>ne_ID = ''notification_'' @ show_int occurred_at @ ''_'' @ show_nat (ns_sequence st1), ne_OccurredAt = occurred_at,
                ne_StateKey = key, ne_Transition = transition, ne_Title = fst (notification_presentation transition),
                ne_Message = message, ne_Severity = snd (notification_presentation transition)\<rparr> in
          case deliver_all env ev channels st1 [] [] of
            (st2, results, failures) \<Rightarrow>
              let all_disabled = list_all (\<lambda>ch. \<not> ch_enabled ch) channels;
                  all_deduplicated = list_all (\<lambda>(ch, res). ch_enabled ch \<longrightarrow> cr_Deduplicated res) (zip channels results);
                  result = \<lparr>dr_NotificationID = ne_ID ev, dr_Attempted = list_ex cr_Attempted results,
                    dr_Disabled = all_disabled, dr_Unconfigured = False,
                    dr_Deduplicated = (\<not> all_disabled \<and> all_deduplicated),
                    dr_Attempts = fold (\<lambda>res m. if cr_Attempts res > m then cr_Attempts res else m) results 0,
                    dr_FailedChannels = map fst failures, dr_Channels = results\<rparr> in
              if failures \<noteq> [] then (st2, result, join_errors (map snd failures))
              else if \<not> all_disabled \<and> \<not> all_deduplicated then
                (st2\<lparr>ns_db := record_notification (ns_db st2) occurred_at key transition message\<rparr>, result, None)
              else (st2, result, None))"

section \<open>The configured channels\<close>

text \<open>
  The settings are kept as JSON texts in the metadata; decoding them is an argument, and so are the
  secret store, the network and the webhook adapter. \<open>Enabled\<close> is a pointer to a truth value.
\<close>

record ntfy_settings =
  ny_BaseURL :: string
  ny_Topic :: string
  ny_TokenSecretID :: string
  ny_Enabled :: "bool option"

record webhook_settings =
  wh_Endpoint :: string
  wh_AuthMode :: string
  wh_SecretID :: string
  wh_Enabled :: "bool option"

text \<open>
  \<open>nd_post\<close> sends a request to ntfy: a transport error, or the status code of the response.
\<close>

record notify_deps =
  nd_net :: net_env
  nd_parse_url :: "string \<Rightarrow> uri option"
  nd_decode_ntfy :: "string \<Rightarrow> ntfy_settings option"
  nd_decode_webhook :: "string \<Rightarrow> webhook_settings option"
  nd_secrets :: "(nat \<Rightarrow> string \<Rightarrow> string \<Rightarrow> string + string) option"
  nd_post :: "(nat \<Rightarrow> ntfy_settings \<Rightarrow> string \<Rightarrow> notification_event \<Rightarrow> string + int) option"
  nd_webhook :: "(nat \<Rightarrow> webhook_settings \<Rightarrow> string \<Rightarrow> notification_event \<Rightarrow> string option) option"

definition webhook_validate :: "net_env \<Rightarrow> webhook_settings \<Rightarrow> check" where
  "webhook_validate net c =
     (if wh_Endpoint c \<noteq> trim_space (wh_Endpoint c) \<or> length (wh_Endpoint c) = 0 \<or> length (wh_Endpoint c) > 2048 \<or>
         contains_any [CHR 0x00, CHR 0x0D, CHR 0x0A] (wh_Endpoint c)
      then Some (Invalid ''webhook endpoint is invalid'')
      else (case parse_request_uri net (wh_Endpoint c) of
         None \<Rightarrow> Some (Invalid ''webhook endpoint must be a URL without credentials, query, or fragment'')
       | Some u \<Rightarrow>
           if uri_Host u = [] \<or> uri_User u \<or> uri_RawQuery u \<noteq> [] \<or> uri_Fragment u \<noteq> []
           then Some (Invalid ''webhook endpoint must be a URL without credentials, query, or fragment'')
           else if uri_Scheme u \<noteq> ''https'' \<and>
             (uri_Scheme u \<noteq> ''http'' \<or> \<not> (fold_case (uri_Hostname u) = ''localhost'' \<or> loopback_ip net (uri_Hostname u)))
           then Some (Invalid ''webhook endpoint requires HTTPS; HTTP is limited to loopback'')
           else if wh_AuthMode c = [] \<or> wh_AuthMode c = ''none'' then
             (if wh_SecretID c \<noteq> [] then Some (Invalid ''unauthenticated webhook cannot contain a secret'') else None)
           else if wh_AuthMode c = ''bearer'' \<or> wh_AuthMode c = ''hmac-sha256'' then
             (if wh_SecretID c = [] then Some (Invalid ''webhook authentication requires a secret'') else None)
           else Some (Invalid ''unsupported webhook authentication mode'')))"

definition ntfy_publish :: "notify_deps \<Rightarrow> (nat \<Rightarrow> ntfy_settings \<Rightarrow> string \<Rightarrow> notification_event \<Rightarrow> string + int) \<Rightarrow>
    nat \<Rightarrow> ntfy_settings \<Rightarrow> string \<Rightarrow> notification_event \<Rightarrow> string option" where
  "ntfy_publish deps post n c token ev =
     (let base_ok = (case nd_parse_url deps (ny_BaseURL c) of
            None \<Rightarrow> False
          | Some u \<Rightarrow> (uri_Scheme u = ''http'' \<or> uri_Scheme u = ''https'') \<and> uri_Host u \<noteq> []) in
      if \<not> base_ok \<or> blank (ny_Topic c) then Some ''valid ntfy HTTP endpoint and topic are required''
      else if ne_Message ev = [] then Some ''notification message is required''
      else if token \<noteq> [] \<and> sublist token (ne_Message ev) then Some ''notification contains secret token''
      else (case post n c token ev of
              Inl err \<Rightarrow> Some err
            | Inr code \<Rightarrow> if code < 200 \<or> code \<ge> 300 then Some (''ntfy returned status '' @ show_int code) else None))"

definition read_secret :: "notify_deps \<Rightarrow> nat \<Rightarrow> string \<Rightarrow> string \<Rightarrow> string + string" where
  "read_secret deps n i purpose =
     (if i = [] then Inr []
      else (case nd_secrets deps of
              None \<Rightarrow> Inl ''notification secret service is unavailable''
            | Some get \<Rightarrow> get n i purpose))"

definition secret_redactions :: "string \<Rightarrow> string list" where
  "secret_redactions secret = (if secret = [] then [] else [secret])"

definition ntfy_channel :: "notify_deps \<Rightarrow> string \<Rightarrow> configured_channel" where
  "ntfy_channel deps value =
     (let config = nd_decode_ntfy deps value;
          valid = (case config of None \<Rightarrow> False | Some c \<Rightarrow> ny_BaseURL c \<noteq> [] \<and> ny_Topic c \<noteq> []) in
      \<lparr>ch_name = ''ntfy'', ch_enabled = (\<not> valid \<or> ny_Enabled (the config) = Some True),
       ch_send = (\<lambda>n ev.
         if \<not> valid then (Some ''stored ntfy configuration is invalid'', [])
         else (case nd_post deps of
                 None \<Rightarrow> (Some ''ntfy adapter is unavailable'', [])
               | Some post \<Rightarrow>
                   (case read_secret deps n (ny_TokenSecretID (the config)) ''ntfy-token'' of
                      Inl err \<Rightarrow> (Some err, [])
                    | Inr token \<Rightarrow> (ntfy_publish deps post n (the config) token ev, secret_redactions token))))\<rparr>)"

definition webhook_channel :: "notify_deps \<Rightarrow> string \<Rightarrow> configured_channel" where
  "webhook_channel deps value =
     (let config = nd_decode_webhook deps value;
          valid = (case config of None \<Rightarrow> False | Some c \<Rightarrow> webhook_validate (nd_net deps) c = None) in
      \<lparr>ch_name = ''webhook'', ch_enabled = (\<not> valid \<or> wh_Enabled (the config) = Some True),
       ch_send = (\<lambda>n ev.
         if \<not> valid then (Some ''stored webhook configuration is invalid'', [])
         else (case nd_webhook deps of
                 None \<Rightarrow> (Some ''webhook adapter is unavailable'', [])
               | Some publish \<Rightarrow>
                   (case read_secret deps n (wh_SecretID (the config)) ''webhook-auth-secret'' of
                      Inl err \<Rightarrow> (Some err, [])
                    | Inr secret \<Rightarrow> (publish n (the config) secret ev, secret_redactions secret))))\<rparr>)"

definition configured_channels :: "notify_deps \<Rightarrow> (string \<rightharpoonup> string) \<Rightarrow> configured_channel list" where
  "configured_channels deps metadata =
     (case metadata ''ntfy.config'' of None \<Rightarrow> [] | Some value \<Rightarrow> [ntfy_channel deps value]) @
     (case metadata ''webhook.config'' of None \<Rightarrow> [] | Some value \<Rightarrow> [webhook_channel deps value])"

section \<open>What the log holds\<close>

text \<open>
  On one channel, two successive deliveries for one alert announce different transitions; every row
  is a valid one. This holds after any calls, whatever channels are configured at each.
\<close>

definition transitions_alternate :: "notification_db \<Rightarrow> bool" where
  "transitions_alternate db \<longleftrightarrow> (\<forall>channel key. distinct_adj (map dlv_Transition (delivered_rows db channel key)))"

definition log_inv :: "notification_db \<Rightarrow> bool" where
  "log_inv db \<longleftrightarrow> list_all (\<lambda>d. validate_delivery d = None) (ndb_deliveries db) \<and> transitions_alternate db"

text \<open>What a step may append: failures and skips, or one delivery not announced before.\<close>

definition may_append :: "notification_db \<Rightarrow> delivery \<Rightarrow> bool" where
  "may_append db d \<longleftrightarrow> dlv_Status d = DeliveryDelivered \<longrightarrow> \<not> channel_delivered db (dlv_Channel d) (dlv_StateKey d) (dlv_Transition d)"

lemma validate_delivery_ID [simp]: "validate_delivery (d\<lparr>dlv_ID := i\<rparr>) = validate_delivery d"
  by (simp add: validate_delivery_def Let_def)

lemma record_delivery_inv:
  assumes inv: "log_inv db" and new: "may_append db d"
  shows "log_inv (fst (record_delivery db d))"
proof (cases "validate_delivery d")
  case None
  let ?db = "db\<lparr>ndb_deliveries := ndb_deliveries db @ [d\<lparr>dlv_ID := ndb_next db\<rparr>], ndb_next := Suc (ndb_next db)\<rparr>"
  have "distinct_adj (map dlv_Transition (delivered_rows ?db channel key))" for channel key
  proof (cases "dlv_Channel d = channel \<and> dlv_StateKey d = key \<and> dlv_Status d = DeliveryDelivered")
    case True
    have old: "distinct_adj (map dlv_Transition (delivered_rows db channel key))"
      using inv by (simp add: log_inv_def transitions_alternate_def)
    have rows: "delivered_rows ?db channel key = delivered_rows db channel key @ [d\<lparr>dlv_ID := ndb_next db\<rparr>]"
      using True by (simp add: delivered_rows_def)
    show ?thesis
    proof (cases "delivered_rows db channel key" rule: rev_cases)
      case Nil
      then show ?thesis by (simp add: rows)
    next
      case (snoc ds e)
      then have "dlv_Transition e \<noteq> dlv_Transition d"
        using new True by (simp add: may_append_def channel_delivered_def)
      with old snoc show ?thesis by (simp add: rows distinct_adj_append_iff)
    qed
  next
    case False
    then have "delivered_rows ?db channel key = delivered_rows db channel key" by (auto simp: delivered_rows_def)
    then show ?thesis using inv by (simp add: log_inv_def transitions_alternate_def)
  qed
  then show ?thesis using inv None by (simp add: record_delivery_def log_inv_def transitions_alternate_def)
qed (use inv in \<open>simp add: record_delivery_def\<close>)

lemma note_delivery_inv:
  "log_inv (ns_db st) \<Longrightarrow> may_append (ns_db st) d \<Longrightarrow> log_inv (ns_db (fst (note_delivery st d)))"
  using record_delivery_inv [of "ns_db st" d] by (cases "record_delivery (ns_db st) d") (simp add: note_delivery_def)

lemma ns_db_observed [simp]: "ns_db (observed st) = ns_db st"
  by (simp add: observed_def)

text \<open>A row that is not a delivery does not change what has been delivered.\<close>

lemma note_failure_keeps:
  "dlv_Status d \<noteq> DeliveryDelivered \<Longrightarrow>
     channel_delivered (ns_db (fst (note_delivery st d))) channel key tr = channel_delivered (ns_db st) channel key tr"
  by (simp add: note_delivery_def record_delivery_def channel_delivered_def delivered_rows_def split: prod.split option.split)

lemma attempt_loop_inv:
  assumes "log_inv (ns_db st)" and "\<not> channel_delivered (ns_db st) (ch_name ch) (ne_StateKey ev) (ne_Transition ev)"
  shows "log_inv (ns_db (fst (attempt_loop env ch ev n left res st)))"
  using assms
proof (induction env ch ev n left res st rule: attempt_loop.induct)
  case (2 env ch ev n left res st)
  let ?st2 = "observed (observed st)"
  let ?at = "env_now env (ns_seen st)"
  show ?case
  proof (cases "fst (ch_send ch (ns_seen (observed st)) ev)")
    case None
    let ?d = "(delivery_of ev (ch_name ch) ?at DeliveryDelivered)
        \<lparr>dlv_Attempt := int n, dlv_MaxAttempts := int max_attempts, dlv_DeliveredAt := Some ?at\<rparr>"
    have "log_inv (ns_db (fst (note_delivery ?st2 ?d)))"
      using "2.prems" by (intro note_delivery_inv) (simp_all add: may_append_def delivery_of_def)
    then show ?thesis using None by (auto simp: Let_def split: prod.split)
  next
    case (Some msg)
    let ?final = "n = max_attempts \<or> env_ended env (ns_seen ?st2) \<noteq> None"
    let ?status = "if ?final then DeliveryFinalFailure else DeliveryRetrying"
    let ?summary = "safe_delivery_error msg (snd (ch_send ch (ns_seen (observed st)) ev))"
    let ?d = "(delivery_of ev (ch_name ch) ?at ?status)
        \<lparr>dlv_Attempt := int n, dlv_MaxAttempts := int max_attempts, dlv_ErrorSummary := ?summary\<rparr>"
    obtain st4 err where logged: "note_delivery (observed ?st2) ?d = (st4, err)" by force
    have status: "dlv_Status ?d \<noteq> DeliveryDelivered" by (simp add: delivery_of_def)
    have inv: "log_inv (ns_db st4)"
      using note_delivery_inv [of "observed ?st2" ?d] "2.prems" status logged by (simp add: may_append_def)
    have fresh: "\<not> channel_delivered (ns_db st4) (ch_name ch) (ne_StateKey ev) (ne_Transition ev)"
      using note_failure_keeps [OF status, of "observed ?st2"] "2.prems" logged by simp
    show ?thesis
    proof (cases "err = None \<and> \<not> ?final \<and> env_ended env (ns_seen st4) = None")
      case True
      then have "log_inv (ns_db (fst (attempt_loop env ch ev (Suc n) left
         (res\<lparr>cr_Attempted := True, cr_Attempts := int n, cr_ErrorSummary := ?summary, cr_Status := ?status\<rparr>) (observed st4))))"
        using "2.IH" Some logged inv fresh by simp
      then show ?thesis using Some logged True by (simp add: Let_def)
    next
      case False
      then show ?thesis using Some logged inv by (auto simp: Let_def split: option.split)
    qed
  qed
qed simp

lemma deliver_channel_inv:
  assumes inv: "log_inv (ns_db st)"
  shows "log_inv (ns_db (fst (deliver_channel env ch ev st)))"
proof -
  have skip: "log_inv (ns_db (fst (note_delivery s d)))" if "ns_db s = ns_db st" "dlv_Status d \<noteq> DeliveryDelivered" for s d
    using note_delivery_inv [of s d] inv that by (simp add: may_append_def)
  show ?thesis
    using skip [of "observed st" "delivery_of ev (ch_name ch) (env_now env (ns_seen st)) DeliverySkippedDisabled"]
      skip [of "observed (observed st)" "(delivery_of ev (ch_name ch) (env_now env (ns_seen (observed st))) DeliveryRateLimited)
               \<lparr>dlv_ErrorSummary := rate_limit_summary\<rparr>"]
      attempt_loop_inv [of "observed st" ch ev env 1 max_attempts] inv
    by (auto simp: deliver_channel_def Let_def delivery_of_def split: prod.splits option.splits)
qed

lemma deliver_all_inv: "log_inv (ns_db st) \<Longrightarrow> log_inv (ns_db (fst (deliver_all env ev chs st results failures)))"
proof (induction chs arbitrary: st results failures)
  case (Cons ch chs)
  then show ?case using deliver_channel_inv [OF Cons.prems, of env ch ev] by (cases "deliver_channel env ch ev st") simp
qed simp

lemma deliver_notification_inv:
  assumes "log_inv (ns_db st)"
  shows "log_inv (ns_db (fst (deliver_notification env configured key transition message st)))"
proof (cases "\<exists>ch chs. configured = Inr (ch # chs)")
  case True
  then obtain ch chs where c: "configured = Inr (ch # chs)" by blast
  have rec: "log_inv (record_notification db now key transition message) = log_inv db" for db now
    by (simp add: log_inv_def record_notification_def transitions_alternate_def delivered_rows_def)
  show ?thesis
    using deliver_all_inv [of "(observed st)\<lparr>ns_sequence := Suc (ns_sequence st)\<rparr>"] assms c
    by (auto simp: deliver_notification_def Let_def rec simp del: deliver_all.simps split: prod.splits)
       (metis fst_conv)+
next
  case False
  then show ?thesis using assms by (auto simp: deliver_notification_def split: sum.split list.split)
qed

text \<open>Calls of \<open>Deliver\<close>, each with the channels configured at its time.\<close>

record notify_call =
  nc_channels :: "configured_channel list outcome"
  nc_StateKey :: string
  nc_Transition :: string
  nc_Message :: string

definition notify :: "notify_env \<Rightarrow> notify_state \<Rightarrow> notify_call \<Rightarrow> notify_state" where
  "notify env st c = fst (deliver_notification env (nc_channels c) (nc_StateKey c) (nc_Transition c) (nc_Message c) st)"

definition nothing_sent :: notify_state where
  "nothing_sent = \<lparr>ns_db = \<lparr>ndb_deliveries = [], ndb_next = 0, ndb_notifications = []\<rparr>, ns_seen = 0, ns_sequence = 0\<rparr>"

lemma notify_inv: "log_inv (ns_db st) \<Longrightarrow> log_inv (ns_db (foldl (notify env) st calls))"
  by (induction calls arbitrary: st) (auto simp: notify_def deliver_notification_inv)

text \<open>
  C33: the delivery log is well-formed. After any sequence of deliveries, whatever the channels, the
  network and the clock answer, every row is a valid one for its status (an attempt within its
  bound where there was one, a delivery time exactly where it was delivered), and on each channel
  two successive deliveries for one alert announce different transitions: nothing is sent twice.
\<close>
theorem deliveries_well_formed:
  "list_all (\<lambda>d. validate_delivery d = None) (ndb_deliveries (ns_db (foldl (notify env) nothing_sent calls))) \<and>
   distinct_adj (map dlv_Transition (delivered_rows (ns_db (foldl (notify env) nothing_sent calls)) channel key))"
proof -
  have "log_inv (ns_db nothing_sent)" by (simp add: log_inv_def nothing_sent_def transitions_alternate_def delivered_rows_def)
  from notify_inv [OF this, of env calls] show ?thesis by (simp add: log_inv_def transitions_alternate_def)
qed

section \<open>Secrets stay out of the log\<close>

definition free_of :: "string \<Rightarrow> notification_db \<Rightarrow> bool" where
  "free_of secret db \<longleftrightarrow> list_all (\<lambda>d. \<not> sublist secret (dlv_ErrorSummary d)) (ndb_deliveries db)"

definition maskable :: "string \<Rightarrow> bool" where
  "maskable secret \<longleftrightarrow> secret \<noteq> [] \<and> CHR ''['' \<notin> set secret \<and> CHR '']'' \<notin> set secret \<and>
     \<not> sublist secret ''redacted'' \<and> \<not> sublist secret rate_limit_summary"

lemma sublist_bracketed:
  assumes "sublist s (a # t @ [b])" and "a \<notin> set s" and "b \<notin> set s"
  shows "sublist s t"
proof -
  have *: "sublist s (t @ [b])"
    using assms(1,2) by (cases s) (auto simp: sublist_Cons_right)
  show ?thesis
    using * assms(3) by (cases s rule: rev_cases) (auto simp: sublist_snoc)
qed

lemma redaction_removes:
  assumes "maskable secret"
  shows "\<not> sublist secret (safe_delivery_error msg [secret])"
proof
  assume "sublist secret (safe_delivery_error msg [secret])"
  then have "sublist secret (replace_all secret ''[redacted]'' msg)"
    using assms sublist_order.order.trans [OF _ sublist_take] by (auto simp: safe_delivery_error_def maskable_def)
  moreover have "\<not> sublist secret ''[redacted]''"
    using sublist_bracketed [of secret "CHR ''[''" "''redacted''" "CHR '']''"] assms by (auto simp: maskable_def)
  ultimately show False
    using replace_all_removes [of secret "''[redacted]''" msg] assms by (simp add: maskable_def)
qed

lemma note_delivery_free:
  "free_of secret (ns_db st) \<Longrightarrow> \<not> sublist secret (dlv_ErrorSummary d) \<Longrightarrow> free_of secret (ns_db (fst (note_delivery st d)))"
  by (simp add: note_delivery_def record_delivery_def free_of_def split: prod.split option.split)

definition masks :: "string \<Rightarrow> configured_channel \<Rightarrow> bool" where
  "masks secret ch \<longleftrightarrow> (\<forall>n ev. fst (ch_send ch n ev) \<noteq> None \<longrightarrow> snd (ch_send ch n ev) = [secret])"

lemma attempt_loop_free:
  assumes "maskable secret" and "masks secret ch" and "free_of secret (ns_db st)" and "\<not> sublist secret (cr_ErrorSummary res)"
  shows "free_of secret (ns_db (fst (attempt_loop env ch ev n left res st))) \<and>
    \<not> sublist secret (cr_ErrorSummary (fst (snd (attempt_loop env ch ev n left res st))))"
  using assms
proof (induction env ch ev n left res st rule: attempt_loop.induct)
  case (2 env ch ev n left res st)
  let ?st2 = "observed (observed st)"
  let ?at = "env_now env (ns_seen st)"
  show ?case
  proof (cases "fst (ch_send ch (ns_seen (observed st)) ev)")
    case None
    let ?d = "(delivery_of ev (ch_name ch) ?at DeliveryDelivered)
        \<lparr>dlv_Attempt := int n, dlv_MaxAttempts := int max_attempts, dlv_DeliveredAt := Some ?at\<rparr>"
    have "free_of secret (ns_db (fst (note_delivery ?st2 ?d)))"
      using "2.prems" by (intro note_delivery_free) (simp_all add: delivery_of_def maskable_def)
    then show ?thesis using None "2.prems" by (auto simp: Let_def split: prod.split)
  next
    case (Some msg)
    let ?final = "n = max_attempts \<or> env_ended env (ns_seen ?st2) \<noteq> None"
    let ?status = "if ?final then DeliveryFinalFailure else DeliveryRetrying"
    let ?summary = "safe_delivery_error msg (snd (ch_send ch (ns_seen (observed st)) ev))"
    let ?d = "(delivery_of ev (ch_name ch) ?at ?status)
        \<lparr>dlv_Attempt := int n, dlv_MaxAttempts := int max_attempts, dlv_ErrorSummary := ?summary\<rparr>"
    obtain st4 err where logged: "note_delivery (observed ?st2) ?d = (st4, err)" by force
    have "snd (ch_send ch (ns_seen (observed st)) ev) = [secret]" using "2.prems"(2) Some by (simp add: masks_def)
    then have hidden: "\<not> sublist secret ?summary" using redaction_removes [OF "2.prems"(1)] by simp
    have free: "free_of secret (ns_db st4)"
      using note_delivery_free [of secret "observed ?st2" ?d] "2.prems" hidden logged by simp
    show ?thesis
    proof (cases "err = None \<and> \<not> ?final \<and> env_ended env (ns_seen st4) = None")
      case True
      then show ?thesis using "2.IH" Some logged free hidden "2.prems" by (simp add: Let_def)
    next
      case False
      then show ?thesis using Some logged free hidden by (auto simp: Let_def split: option.split)
    qed
  qed
qed simp

text \<open>
  C34: the secret of a channel is never logged. When a failing send answers the secret it used, no
  row it adds to the log and no result it returns contains the secret, even in the middle of a
  longer message, provided the secret has no square bracket and is not part of a fixed text.
\<close>
theorem secret_never_logged:
  assumes "maskable secret" and "masks secret ch" and "free_of secret (ns_db st)"
  shows "free_of secret (ns_db (fst (deliver_channel env ch ev st))) \<and>
    \<not> sublist secret (cr_ErrorSummary (fst (snd (deliver_channel env ch ev st))))"
proof -
  have [simp]: "secret \<noteq> []" "\<not> sublist secret rate_limit_summary" using assms(1) by (simp_all add: maskable_def)
  have skip: "free_of secret (ns_db (fst (note_delivery s d)))"
    if "ns_db s = ns_db st" "\<not> sublist secret (dlv_ErrorSummary d)" for s d
    using note_delivery_free [of secret s d] assms that by simp
  show ?thesis
    using skip [of "observed st" "delivery_of ev (ch_name ch) (env_now env (ns_seen st)) DeliverySkippedDisabled"]
      skip [of "observed (observed st)" "(delivery_of ev (ch_name ch) (env_now env (ns_seen (observed st))) DeliveryRateLimited)
               \<lparr>dlv_ErrorSummary := rate_limit_summary\<rparr>"]
      attempt_loop_free [OF assms(1,2), of "observed st"] assms(3)
    by (auto simp: deliver_channel_def Let_def delivery_of_def split: prod.splits option.splits)
qed

definition leaky_channel :: configured_channel where
  "leaky_channel = \<lparr>ch_name = ''ntfy'', ch_enabled = True, ch_send = (\<lambda>n ev. (Some ''token tk_42 was refused'', [''tk_42'']))\<rparr>"

definition event_example :: notification_event where
  "event_example = \<lparr>ne_ID = ''notification_1_1'', ne_OccurredAt = 5, ne_StateKey = ''task:t:run'', ne_Transition = ''critical'',
     ne_Title = ''t'', ne_Message = ''m'', ne_Severity = ''error''\<rparr>"

definition env_example :: notify_env where
  "env_example = \<lparr>env_now = (\<lambda>n. 5 + int n), env_ended = (\<lambda>n. None)\<rparr>"

theorem secret_never_logged_witness:
  "free_of ''tk_42'' (ns_db (fst (deliver_channel env_example leaky_channel event_example nothing_sent))) \<and>
   length (ndb_deliveries (ns_db (fst (deliver_channel env_example leaky_channel event_example nothing_sent)))) = 3"
proof
  show "free_of ''tk_42'' (ns_db (fst (deliver_channel env_example leaky_channel event_example nothing_sent)))"
    using secret_never_logged [of "''tk_42''" leaky_channel nothing_sent env_example event_example]
    by (simp add: maskable_def masks_def leaky_channel_def free_of_def nothing_sent_def rate_limit_summary_def sublist_Cons_right)
  show "length (ndb_deliveries (ns_db (fst (deliver_channel env_example leaky_channel event_example nothing_sent)))) = 3"
    by code_simp
qed

end
