(* ===== verification/Restore_Verification.thy ===== *)
theory Restore_Verification
  imports Domain_Validation Go_Texts
begin

text \<open>
  Restore verifications: the policies and records of src/internal/store/restore_verification.go and
  the service of src/internal/restoreverification/service.go, which restores a snapshot into a
  temporary directory, hashes what it finds there and removes the directory again.

  A schedule is compared through its JSON text, an argument. The tree that \<open>filepath.WalkDir\<close> finds
  is the list of its entries, with what the operating system answers for each.
\<close>

section \<open>The store\<close>

record restore_verification =
  rv_ID :: string
  rv_TaskID :: string
  rv_RepositoryID :: string
  rv_SnapshotID :: string
  rv_SelectionPath :: string
  rv_Trigger :: string
  rv_Status :: string
  rv_StartedAt :: instant
  rv_FinishedAt :: "instant option"
  rv_FileCount :: int
  rv_ByteCount :: int
  rv_ManifestSHA256 :: string
  rv_CleanupStatus :: string
  rv_ErrorSummary :: string


text \<open>The columns of a task that are read here.\<close>

record task_row =
  tr_ID :: string
  tr_RepositoryID :: string
  tr_Engine :: string
  tr_Kind :: string
  tr_Target :: target
  tr_Enabled :: bool

record verification_db =
  vdb_policies :: "restore_verification_policy list"
  vdb_verifications :: "restore_verification list"
  vdb_tasks :: "task_row list"



definition list_verification_policies :: "verification_db \<Rightarrow> restore_verification_policy list" where
  "list_verification_policies db = sort_key rvp_TaskID (vdb_policies db)"


definition create_verification :: "verification_db \<Rightarrow> restore_verification \<Rightarrow> verification_db \<times> check" where
  "create_verification db r =
     (if rv_ID r = [] \<or> rv_TaskID r = [] \<or> rv_RepositoryID r = [] \<or> rv_SnapshotID r = [] \<or> rv_SelectionPath r = [] \<or>
         rv_StartedAt r = zero_time \<or> rv_Status r \<noteq> ''running'' \<or> rv_Trigger r \<noteq> ''manual'' \<and> rv_Trigger r \<noteq> ''scheduled''
      then (db, Some (Invalid ''invalid restore verification record''))
      else if \<not> list_ex (\<lambda>t. tr_ID t = rv_TaskID r \<and> tr_RepositoryID t = rv_RepositoryID r) (vdb_tasks db)
      then (db, Some Conflict)
      else (case insert_row rv_ID (r\<lparr>rv_FinishedAt := None, rv_FileCount := 0, rv_ByteCount := 0, rv_ManifestSHA256 := [],
                rv_CleanupStatus := (if rv_CleanupStatus r = [] then ''pending'' else rv_CleanupStatus r), rv_ErrorSummary := []\<rparr>)
              (vdb_verifications db) of
              None \<Rightarrow> (db, Some Conflict)
            | Some t \<Rightarrow> (db\<lparr>vdb_verifications := t\<rparr>, None)))"







text \<open>\<open>ORDER BY started_at DESC, id DESC\<close>.\<close>

definition newest_verifications :: "verification_db \<Rightarrow> restore_verification list" where
  "newest_verifications db =
     rev (sort_key (\<lambda>r. format_time (rv_StartedAt r)) (sort_key rv_ID (vdb_verifications db)))"

definition list_verifications :: "verification_db \<Rightarrow> string \<Rightarrow> int \<Rightarrow> restore_verification list" where
  "list_verifications db task limit =
     take (if limit < 1 \<or> limit > 1000 then 100 else nat limit)
       (filter (\<lambda>r. task = [] \<or> rv_TaskID r = task) (newest_verifications db))"

text \<open>The first row of each task in a query that orders each task's rows with the newest first.\<close>

definition first_of_task :: "(restore_verification \<Rightarrow> bool) \<Rightarrow> verification_db \<Rightarrow> string \<rightharpoonup> restore_verification" where
  "first_of_task P db task = find (\<lambda>r. rv_TaskID r = task \<and> P r) (newest_verifications db)"

definition latest_verifications :: "bool \<Rightarrow> verification_db \<Rightarrow> string \<rightharpoonup> restore_verification" where
  "latest_verifications successful_only = first_of_task (\<lambda>r. successful_only \<longrightarrow> rv_Status r = ''success'')"

definition verification_cleanup_required :: "verification_db \<Rightarrow> string \<rightharpoonup> restore_verification" where
  "verification_cleanup_required = first_of_task (\<lambda>r. rv_CleanupStatus r = ''required'')"



section \<open>Hashing the restored tree\<close>

text \<open>
  An entry of the tree: its path below the root with forward slashes (the root itself is \<open>.\<close>), and
  what the walk, \<open>Info\<close>, \<open>Open\<close> and reading answer. \<open>fe_Content\<close> is what can be read from it.
\<close>

record file_entry =
  fe_Relative :: string
  fe_WalkErr :: bool
  fe_Dir :: bool
  fe_InfoErr :: bool
  fe_Regular :: bool
  fe_Size :: int
  fe_OpenErr :: bool
  fe_ReadErr :: bool
  fe_Content :: string

record evidence =
  ev_FileCount :: int
  ev_ByteCount :: int
  ev_Manifest :: string

abbreviation maximum_verification_files :: int where "maximum_verification_files \<equiv> 100000"

definition manifest_header :: "string \<Rightarrow> int \<Rightarrow> string" where
  "manifest_header relative bytes =
     show_nat (length relative) @ '':'' @ relative @ '':'' @ show_int bytes @ [newline]"

text \<open>
  The walk, with the evidence and the bytes written to the digest so far. \<open>ended n\<close> is the error of
  the context when entry \<open>n\<close> is visited.
\<close>

fun walk_tree :: "(nat \<Rightarrow> string option) \<Rightarrow> int \<Rightarrow> nat \<Rightarrow> file_entry list \<Rightarrow> evidence \<Rightarrow> string \<Rightarrow>
    evidence \<times> string \<times> string option" where
  "walk_tree ended limit n [] ev out = (ev, out, None)"
| "walk_tree ended limit n (e # es) ev out =
     (let remaining = limit - ev_ByteCount ev;
          header = manifest_header (fe_Relative e) (fe_Size e);
          content = take (nat (remaining + 1)) (fe_Content e);
          consumed = int (length content) in
      if fe_WalkErr e then (ev, out, Some ''read restored verification content'')
      else if ended n \<noteq> None then (ev, out, ended n)
      else if fe_Relative e = ''.'' \<or> fe_Dir e then walk_tree ended limit (Suc n) es ev out
      else if fe_InfoErr e then (ev, out, Some ''inspect restored verification content'')
      else if \<not> fe_Regular e then (ev, out, Some ''restored verification content contains a symlink or special file'')
      else if ev_FileCount ev \<ge> maximum_verification_files
      then (ev, out, Some ''restore verification exceeds the 100000-file safety limit'')
      else if fe_Size e < 0 \<or> fe_Size e > remaining
      then (ev, out, Some ''restored verification content exceeds the configured byte limit'')
      else if fe_Relative e = ''..'' \<or> prefix ''../'' (fe_Relative e)
      then (ev, out, Some ''restored verification content escaped its controlled root'')
      else if fe_OpenErr e then (ev, out @ header, Some ''open restored verification file'')
      else if consumed > remaining
      then (ev\<lparr>ev_ByteCount := ev_ByteCount ev + remaining\<rparr>, out @ header @ content,
            Some ''restored verification content exceeds the configured byte limit'')
      else if fe_ReadErr e \<or> consumed \<noteq> fe_Size e
      then (ev\<lparr>ev_ByteCount := ev_ByteCount ev + consumed\<rparr>, out @ header @ content, Some ''read restored verification file'')
      else walk_tree ended limit (Suc n) es
        (ev\<lparr>ev_ByteCount := ev_ByteCount ev + consumed, ev_FileCount := ev_FileCount ev + 1\<rparr>)
        (out @ header @ content @ [newline]))"

definition no_evidence :: evidence where
  "no_evidence = \<lparr>ev_FileCount = 0, ev_ByteCount = 0, ev_Manifest = []\<rparr>"

definition manifest_title :: string where
  "manifest_title = ''restore-verification-manifest/v1'' @ [newline]"

definition hash_restored_tree :: "(string \<Rightarrow> string) \<Rightarrow> (nat \<Rightarrow> string option) \<Rightarrow> int \<Rightarrow> file_entry list \<Rightarrow> evidence \<times> string option" where
  "hash_restored_tree sha256 ended limit es =
     (case walk_tree ended limit 0 es no_evidence manifest_title of
        (ev, out, Some err) \<Rightarrow> (ev, Some err)
      | (ev, out, None) \<Rightarrow>
          if ev_FileCount ev = 0 then (ev, Some ''restore verification selection contained no regular files'')
          else (ev\<lparr>ev_Manifest := ''sha256:'' @ hex_encode (sha256 out)\<rparr>, None))"

subsection \<open>The manifest identifies the tree\<close>

definition tree_files :: "file_entry list \<Rightarrow> (string \<times> string) list" where
  "tree_files es = map (\<lambda>e. (fe_Relative e, fe_Content e)) (filter (\<lambda>e. \<not> (fe_Relative e = ''.'' \<or> fe_Dir e)) es)"

definition manifest_entry :: "string \<times> string \<Rightarrow> string" where
  "manifest_entry f = manifest_header (fst f) (int (length (snd f))) @ snd f @ [newline]"

lemma walk_tree_success:
  assumes "walk_tree ended limit n es ev out = (ev', out', None)"
  shows "out' = out @ concat (map manifest_entry (tree_files es)) \<and>
    ev_FileCount ev' = ev_FileCount ev + int (length (tree_files es)) \<and>
    ev_ByteCount ev' = ev_ByteCount ev + int (sum_list (map (length \<circ> snd) (tree_files es))) \<and>
    (ev_ByteCount ev \<le> limit \<longrightarrow> ev_ByteCount ev' \<le> limit)"
  using assms
proof (induction ended limit n es ev out rule: walk_tree.induct)
  case (2 ended limit n e es ev out)
  show ?case
  proof (cases "fe_Relative e = ''.'' \<or> fe_Dir e")
    case True
    have walked: "\<not> fe_WalkErr e" "\<not> ended n \<noteq> None" and rest: "walk_tree ended limit (Suc n) es ev out = (ev', out', None)"
      using "2.prems" True by (auto simp: Let_def split: if_splits)
    have files: "tree_files (e # es) = tree_files es" using True by (simp add: tree_files_def)
    show ?thesis unfolding files by (rule "2.IH"(1) [OF refl refl refl refl walked True rest])
  next
    case False
    let ?c = "take (nat (limit - ev_ByteCount ev + 1)) (fe_Content e)"
    let ?ev = "ev\<lparr>ev_ByteCount := ev_ByteCount ev + int (length ?c), ev_FileCount := ev_FileCount ev + 1\<rparr>"
    let ?out = "out @ manifest_header (fe_Relative e) (fe_Size e) @ ?c @ [newline]"
    have passed: "\<not> fe_WalkErr e" "\<not> ended n \<noteq> None" "\<not> fe_InfoErr e" "\<not> \<not> fe_Regular e"
        "\<not> maximum_verification_files \<le> ev_FileCount ev" "\<not> (fe_Size e < 0 \<or> limit - ev_ByteCount ev < fe_Size e)"
        "\<not> (fe_Relative e = ''..'' \<or> prefix ''../'' (fe_Relative e))" "\<not> fe_OpenErr e"
        "\<not> limit - ev_ByteCount ev < int (length ?c)" "\<not> (fe_ReadErr e \<or> int (length ?c) \<noteq> fe_Size e)"
      and rest: "walk_tree ended limit (Suc n) es ?ev ?out = (ev', out', None)"
      using "2.prems" False by (auto simp: Let_def split: if_splits)
    have whole: "?c = fe_Content e" using passed(9) by (auto simp: min_def split: if_splits)
    have files: "tree_files (e # es) = (fe_Relative e, fe_Content e) # tree_files es" using False by (simp add: tree_files_def)
    have bytes: "fe_Size e = int (length (fe_Content e))" using passed(10) whole by simp
    from "2.IH"(2) [OF refl refl refl refl passed(1,2) False passed(3-10) rest] passed(6)
    show ?thesis unfolding files whole bytes by (auto simp: manifest_entry_def)
  qed
qed (simp add: tree_files_def)

lemma manifest_entry_split:
  assumes "manifest_entry f @ u = manifest_entry g @ v"
  shows "f = g \<and> u = v"
proof -
  obtain p c q d where fg: "f = (p, c)" "g = (q, d)" by (metis surj_pair)
  have colon: "CHR '':'' \<notin> set (show_nat n)" for n
  proof
    assume "CHR '':'' \<in> set (show_nat n)"
    then obtain d where "d < 10" and "CHR '':'' = digit_char d" using show_nat_digits by blast
    then have "(of_char CHR '':'' :: nat) = 48 + d" using digit_char_code by simp
    with \<open>d < 10\<close> show False by simp
  qed
  have split: "x = y \<and> r = s" if "x @ a # r = y @ a # s" "a \<notin> set x" "a \<notin> set y" for a :: char and x y r s :: string
    using that by (auto simp: append_eq_append_conv2 append_eq_Cons_conv Cons_eq_append_conv)
  have eq: "show_nat (length p) @ CHR '':'' # (p @ CHR '':'' # (show_int (int (length c)) @ newline # (c @ newline # u))) =
        show_nat (length q) @ CHR '':'' # (q @ CHR '':'' # (show_int (int (length d)) @ newline # (d @ newline # v)))"
    using assms by (simp add: fg manifest_entry_def manifest_header_def)
  then have "length p = length q"
    and eq2: "p @ CHR '':'' # (show_int (int (length c)) @ newline # (c @ newline # u)) =
        q @ CHR '':'' # (show_int (int (length d)) @ newline # (d @ newline # v))"
    using split [OF eq colon colon] by (auto dest: show_nat_inj)
  then have p: "p = q"
    and eq3: "show_int (int (length c)) @ newline # (c @ newline # u) = show_int (int (length d)) @ newline # (d @ newline # v)"
    by simp_all
  have "length c = length d" and "c @ newline # u = d @ newline # v"
    using split [OF eq3 show_int_no_newline show_int_no_newline] by (auto dest: show_int_inj)
  then show ?thesis by (simp add: fg p)
qed

lemma manifest_entries_inj: "concat (map manifest_entry fs) = concat (map manifest_entry gs) \<Longrightarrow> fs = gs"
proof (induction fs arbitrary: gs)
  case Nil
  then show ?case by (cases gs) (auto simp: manifest_entry_def)
next
  case (Cons f fs)
  then obtain g gs' where gs: "gs = g # gs'" by (cases gs) (auto simp: manifest_entry_def)
  with Cons.prems have "f = g \<and> concat (map manifest_entry fs) = concat (map manifest_entry gs')"
    by (intro manifest_entry_split) simp
  with Cons.IH gs show ?case by simp
qed

lemma hash_tree_success:
  assumes "hash_restored_tree sha256 ended limit es = (ev, None)"
  shows "ev_Manifest ev = ''sha256:'' @ hex_encode (sha256 (manifest_title @ concat (map manifest_entry (tree_files es)))) \<and>
    ev_FileCount ev = int (length (tree_files es)) \<and>
    ev_ByteCount ev = int (sum_list (map (length \<circ> snd) (tree_files es))) \<and> (0 \<le> limit \<longrightarrow> ev_ByteCount ev \<le> limit)"
proof -
  obtain ev' out err where w: "walk_tree ended limit 0 es no_evidence manifest_title = (ev', out, err)"
    by (metis surj_pair)
  have none: "err = None" using assms w by (cases err) (auto simp: hash_restored_tree_def)
  have "ev = ev'\<lparr>ev_Manifest := ''sha256:'' @ hex_encode (sha256 out)\<rparr>"
    using assms w none unfolding hash_restored_tree_def by (simp split: if_splits)
  with walk_tree_success [OF w [unfolded none]] show ?thesis by (auto simp: no_evidence_def)
qed

text \<open>
  C35: a manifest identifies the restored content. Two verifications that end with the same manifest
  have read the same files, by path and content, in the same order, for a digest without a
  collision; and a successful one has counted exactly these files and their bytes, within the limit.
\<close>
theorem manifest_identifies:
  assumes "hash_restored_tree sha256 ended limit es = (ev, None)" and "hash_restored_tree sha256 ended' limit' es' = (ev', None)"
    and "ev_Manifest ev = ev_Manifest ev'" and "inj sha256" and "0 \<le> limit"
  shows "tree_files es = tree_files es' \<and> ev_FileCount ev = int (length (tree_files es)) \<and>
    ev_ByteCount ev = int (sum_list (map (length \<circ> snd) (tree_files es))) \<and> ev_ByteCount ev \<le> limit"
proof -
  note a = hash_tree_success [OF assms(1)] and b = hash_tree_success [OF assms(2)]
  have "hex_encode (sha256 (manifest_title @ concat (map manifest_entry (tree_files es)))) =
      hex_encode (sha256 (manifest_title @ concat (map manifest_entry (tree_files es'))))"
    using a b assms(3) by simp
  from injD [OF assms(4) hex_encode_inj [OF this]]
  have "concat (map manifest_entry (tree_files es)) = concat (map manifest_entry (tree_files es'))" by simp
  then show ?thesis using manifest_entries_inj a assms(5) by blast
qed

definition file_example :: file_entry where
  "file_example = \<lparr>fe_Relative = ''a/b'', fe_WalkErr = False, fe_Dir = False, fe_InfoErr = False, fe_Regular = True,
     fe_Size = 2, fe_OpenErr = False, fe_ReadErr = False, fe_Content = ''xy''\<rparr>"

definition directory_entry :: file_entry where
  "directory_entry = file_example\<lparr>fe_Relative := ''.'', fe_Dir := True, fe_Size := 0, fe_Content := []\<rparr>"

lemma walk_example:
  assumes "es = [file_example] \<or> es = [directory_entry, file_example]" and "2 \<le> limit"
  shows "walk_tree (\<lambda>_. None) limit n es no_evidence out =
    (no_evidence\<lparr>ev_FileCount := 1, ev_ByteCount := 2\<rparr>, out @ manifest_entry (''a/b'', ''xy''), None)"
proof -
  have "take (nat (limit + 1)) ''xy'' = ''xy''" using assms(2) by simp
  with assms show ?thesis
    by (elim disjE) (simp_all add: directory_entry_def file_example_def no_evidence_def manifest_entry_def Let_def)
qed

theorem manifest_identifies_witness:
  "tree_files [directory_entry, file_example] = tree_files [file_example] \<and>
   ev_ByteCount (fst (hash_restored_tree id (\<lambda>_. None) 10 [directory_entry, file_example])) = 2"
proof -
  let ?ev = "no_evidence\<lparr>ev_FileCount := 1, ev_ByteCount := 2,
      ev_Manifest := ''sha256:'' @ hex_encode (manifest_title @ manifest_entry (''a/b'', ''xy''))\<rparr>"
  have a: "hash_restored_tree id (\<lambda>_. None) 10 [directory_entry, file_example] = (?ev, None)"
    by (simp add: hash_restored_tree_def walk_example del: walk_tree.simps)
  have b: "hash_restored_tree id (\<lambda>_. None) 20 [file_example] = (?ev, None)"
    by (simp add: hash_restored_tree_def walk_example del: walk_tree.simps)
  from manifest_identifies [OF a b] a show ?thesis by simp
qed

section \<open>The service\<close>
















section \<open>No restored content is left behind\<close>









lemma create_verification_err: "create_verification db r = (db', Some err) \<Longrightarrow> db' = db"
  by (auto simp: create_verification_def split: if_splits option.splits)



















end
