(* ===== verification/Float64_Rounding.thy ===== *)
theory Float64_Rounding
  imports Domain_Model "HOL-Library.Log_Nat"
begin

text \<open>
  Arithmetic of Go's \<open>float64\<close> on values in its normal range: every operation computes the exact
  rational and rounds it to 53 significant bits, ties to even. Where the program uses it, values
  stay between \<open>2^-60\<close> and \<open>2^80\<close>, so there is no overflow, underflow or NaN.
\<close>

definition round_half_even :: "rat \<Rightarrow> int" where
  "round_half_even q =
     (let f = \<lfloor>q\<rfloor>; d = q - of_int f in
      if d < 1 / 2 then f else if d > 1 / 2 then f + 1 else if even f then f else f + 1)"

text \<open>The exponent of the last of the 53 bits of a positive value.\<close>

definition binary_scale :: "rat \<Rightarrow> int" where
  "binary_scale q =
     (let (a, b) = quotient_of q; e = bitlen a - bitlen b in
      (if 2 powi e \<le> q then e else e - 1) - 52)"

definition round64 :: "rat \<Rightarrow> rat" where
  "round64 q =
     (if q = 0 then 0
      else let s = 2 powi binary_scale \<bar>q\<bar> in sgn q * of_int (round_half_even (\<bar>q\<bar> / s)) * s)"

text \<open>\<open>fmt.Sprintf("%.1f", q)\<close>: the exact value, rounded to tenths.\<close>

definition tenths_text :: "rat \<Rightarrow> string" where
  "tenths_text q =
     (let n = round_half_even (\<bar>q\<bar> * 10) in
      (if q < 0 then ''-'' else []) @ show_int (n div 10) @ ''.'' @ show_int (n mod 10))"

section \<open>The error of one rounding\<close>

lemma round_half_even_error: "\<bar>of_int (round_half_even q) - q\<bar> \<le> 1 / 2"
proof -
  define f where "f = \<lfloor>q\<rfloor>"
  have "of_int f \<le> q" and "q < of_int f + 1" unfolding f_def by linarith+
  moreover have "round_half_even q = f \<and> q - of_int f \<le> 1 / 2 \<or> round_half_even q = f + 1 \<and> 1 / 2 \<le> q - of_int f"
    unfolding round_half_even_def f_def [symmetric] Let_def
    by (cases "q - of_int f < 1 / 2"; cases "q - of_int f > 1 / 2") auto
  ultimately show ?thesis by (auto simp: abs_le_iff)
qed

lemma round_half_even_int [simp]: "round_half_even (of_int n) = n"
  by (simp add: round_half_even_def)

lemma binary_scale_bounds:
  assumes "0 < q"
  shows "2 ^ 52 * 2 powi binary_scale q \<le> q" and "q < 2 ^ 53 * 2 powi binary_scale q"
proof -
  obtain a b where ab: "quotient_of q = (a, b)" by force
  have b: "0 < b" using quotient_of_denom_pos [OF ab] .
  have q: "q = of_int a / of_int b" using quotient_of_div [OF ab] .
  have a: "0 < a" using assms q b by (simp add: zero_less_divide_iff)
  let ?e = "bitlen a - bitlen b"
  have "0 < bitlen a" "0 < bitlen b"
    using a b bitlen_nonneg [of a] bitlen_nonneg [of b] bitlen_eq_zero_iff [of a] bitlen_eq_zero_iff [of b] by linarith+
  then obtain m n where m: "bitlen a = int (Suc m)" and n: "bitlen b = int (Suc n)"
    by (metis Suc_pred nat_0_less_mult_iff nat_eq_iff of_nat_0_less_iff pos_int_cases)
  have "(2 :: int) ^ m \<le> a" "a < 2 * 2 ^ m" "(2 :: int) ^ n \<le> b" "b < 2 * 2 ^ n"
    using bitlen_bounds [OF a] bitlen_bounds [OF b] unfolding m n nat_int by simp_all
  then have "(of_int (2 ^ m) :: rat) \<le> of_int a" "(of_int a :: rat) < of_int (2 * 2 ^ m)"
    "(of_int (2 ^ n) :: rat) \<le> of_int b" "(of_int b :: rat) < of_int (2 * 2 ^ n)"
    unfolding of_int_le_iff of_int_less_iff by simp_all
  then have A: "(2 :: rat) ^ m \<le> of_int a" "(of_int a :: rat) < 2 * 2 ^ m"
    and B: "(2 :: rat) ^ n \<le> of_int b" "(of_int b :: rat) < 2 * 2 ^ n" by simp_all
  have e: "(2 :: rat) powi ?e = 2 ^ m / 2 ^ n"
  proof -
    have "?e = int m - int n" using m n by simp
    then show ?thesis by (simp only: power_int_diff power_int_of_nat zero_neq_numeral [symmetric] not_False_eq_True simp_thms)
  qed
  have lower: "(2 :: rat) powi (?e - 1) \<le> q"
  proof -
    have "(2 :: rat) powi (?e - 1) = 2 powi ?e / 2" by (subst power_int_diff) simp_all
    also have "\<dots> = 2 ^ m / (2 * 2 ^ n)" by (simp add: e)
    also have "\<dots> \<le> of_int a / of_int b" using A(1) B(2) a b by (intro frac_le) auto
    finally show ?thesis by (simp add: q)
  qed
  have upper: "q < 2 powi (?e + 1)"
  proof -
    have "of_int a / of_int b < 2 * 2 ^ m / (2 ^ n :: rat)" using A(2) B(1) a by (intro frac_less) auto
    also have "\<dots> = 2 powi (?e + 1)" by (subst power_int_add) (simp_all only: e, simp_all)
    finally show ?thesis by (simp add: q)
  qed
  let ?k = "if 2 powi ?e \<le> q then ?e else ?e - 1"
  have k: "2 powi ?k \<le> q" "q < 2 * 2 powi ?k"
    using lower upper by (auto simp: power_int_add power_int_diff not_le mult.commute)
  have scale: "binary_scale q = ?k - 52" by (simp add: binary_scale_def ab Let_def)
  have s: "(2 :: rat) powi binary_scale q = 2 powi ?k / 2 ^ 52" unfolding scale by (simp add: power_int_diff)
  show "2 ^ 52 * 2 powi binary_scale q \<le> q" and "q < 2 ^ 53 * 2 powi binary_scale q"
    using k unfolding s by simp_all
qed

lemma round64_zero [simp]: "round64 0 = 0"
  by (simp add: round64_def)

lemma round64_error: "\<bar>round64 q - q\<bar> \<le> \<bar>q\<bar> / 2 ^ 53"
proof (cases "q = 0")
  case False
  define s :: rat where "s = 2 powi binary_scale \<bar>q\<bar>"
  have s: "0 < s" by (simp add: s_def)
  have low: "2 ^ 52 * s \<le> \<bar>q\<bar>" using binary_scale_bounds(1) [of "\<bar>q\<bar>"] False by (simp add: s_def)
  have "q = sgn q * (\<bar>q\<bar> / s) * s" using s by (simp add: sgn_mult_abs)
  then have "round64 q - q = sgn q * s * (of_int (round_half_even (\<bar>q\<bar> / s)) - \<bar>q\<bar> / s)"
    using False by (simp add: round64_def s_def [symmetric] Let_def algebra_simps)
  then have "\<bar>round64 q - q\<bar> = s * \<bar>of_int (round_half_even (\<bar>q\<bar> / s)) - \<bar>q\<bar> / s\<bar>"
    using False s by (simp add: abs_mult abs_sgn_eq)
  also have "\<dots> \<le> s * (1 / 2)" using round_half_even_error s by (intro mult_left_mono) auto
  also have "\<dots> \<le> \<bar>q\<bar> / 2 ^ 53" using low by simp
  finally show ?thesis .
qed simp

text \<open>Integers below \<open>2^53\<close> are represented exactly.\<close>

lemma round64_int:
  assumes "\<bar>n\<bar> < 2 ^ 53"
  shows "round64 (of_int n) = of_int n"
proof (cases "n = 0")
  case False
  define q :: rat where "q = \<bar>of_int n\<bar>"
  define k where "k = binary_scale q"
  have "0 < q" using False by (simp add: q_def)
  note bounds = binary_scale_bounds [OF this, folded k_def]
  have small: "q < 2 ^ 53" using assms unfolding q_def by (metis of_int_abs of_int_less_iff of_int_numeral of_int_power)
  have "k \<le> 0"
  proof (rule ccontr)
    assume "\<not> k \<le> 0"
    then have "(2 :: rat) powi 1 \<le> 2 powi k" by (intro power_int_increasing) auto
    with bounds(1) small show False by simp
  qed
  have whole: "q / 2 powi k = of_int (\<bar>n\<bar> * 2 ^ nat (- k))"
    using \<open>k \<le> 0\<close> by (simp add: q_def power_int_def field_simps)
  have "round_half_even (q / 2 powi k) = \<bar>n\<bar> * 2 ^ nat (- k)" unfolding whole by (rule round_half_even_int)
  then have "of_int (round_half_even (q / 2 powi k)) = q / 2 powi k" using whole by simp
  then have "round64 (of_int n) = sgn (of_int n) * (q / 2 powi k) * 2 powi k"
    using False unfolding round64_def Let_def q_def [symmetric] k_def [symmetric] by simp
  then show ?thesis by (simp add: q_def sgn_mult_abs)
qed simp

section \<open>The error of a computation\<close>

text \<open>\<open>near k x y\<close>: \<open>x\<close> results from \<open>y\<close> by at most \<open>k\<close> roundings of factors.\<close>

definition unit_error :: rat where "unit_error = 1 - 1 / 2 ^ 53"

definition near :: "nat \<Rightarrow> rat \<Rightarrow> rat \<Rightarrow> bool" where
  "near k x y \<longleftrightarrow> 0 < y \<and> y * unit_error ^ k \<le> x \<and> x * unit_error ^ k \<le> y"

lemma unit_error_pos [simp]: "0 < unit_error" "0 < unit_error ^ k" "0 \<le> unit_error" and unit_error_le: "unit_error \<le> 1"
  by (simp_all add: unit_error_def)

lemma near_pos: "near k x y \<Longrightarrow> 0 < x \<and> 0 < y"
  using less_le_trans [of 0 "y * unit_error ^ k" x] by (simp add: near_def)

lemma near_refl: "0 < x \<Longrightarrow> near 0 x x"
  by (simp add: near_def)

lemma near_round: "0 < q \<Longrightarrow> near 1 (round64 q) q"
proof -
  assume q: "0 < q"
  have e: "\<bar>round64 q - q\<bar> \<le> q / 2 ^ 53" using round64_error [of q] q by simp
  then have "round64 q \<le> q + q / 2 ^ 53" and "q - q / 2 ^ 53 \<le> round64 q"
    unfolding abs_le_iff by linarith+
  then have up: "round64 q \<le> q * (1 + 1 / 2 ^ 53)" and low: "q * unit_error \<le> round64 q"
    by (simp_all add: unit_error_def algebra_simps)
  have "round64 q * unit_error \<le> q * (1 + 1 / 2 ^ 53) * unit_error" using up by (intro mult_right_mono) auto
  also have "\<dots> \<le> q" using q by (simp add: unit_error_def)
  finally show ?thesis using q low by (simp add: near_def)
qed

lemma near_trans:
  assumes "near j x y" and "near k y z"
  shows "near (j + k) x z"
proof -
  have "z * unit_error ^ (j + k) = z * unit_error ^ k * unit_error ^ j" by (simp add: power_add mult_ac)
  also have "\<dots> \<le> y * unit_error ^ j"
    using assms(2) by (intro mult_right_mono) (auto simp: near_def less_imp_le)
  also have "\<dots> \<le> x" using assms(1) unfolding near_def by blast
  finally have a: "z * unit_error ^ (j + k) \<le> x" .
  have "x * unit_error ^ (j + k) = x * unit_error ^ j * unit_error ^ k" by (simp add: power_add mult_ac)
  also have "\<dots> \<le> y * unit_error ^ k"
    using assms(1) by (intro mult_right_mono) (auto simp: near_def less_imp_le)
  also have "\<dots> \<le> z" using assms(2) unfolding near_def by blast
  finally have b: "x * unit_error ^ (j + k) \<le> z" .
  from a b show ?thesis using assms(2) by (simp add: near_def)
qed

lemma near_round_step: "near k q y \<Longrightarrow> near (1 + k) (round64 q) y"
  using near_trans [OF near_round] near_pos by blast

lemma near_mult:
  assumes "near j x y" and "near k v w"
  shows "near (j + k) (x * v) (y * w)"
proof -
  have "(y * unit_error ^ j) * (w * unit_error ^ k) \<le> x * v"
    using assms near_pos [OF assms(1)] near_pos [OF assms(2)] by (intro mult_mono) (auto simp: near_def less_imp_le)
  moreover have "(x * unit_error ^ j) * (v * unit_error ^ k) \<le> y * w"
    using assms near_pos [OF assms(1)] near_pos [OF assms(2)] by (intro mult_mono) (auto simp: near_def less_imp_le)
  ultimately show ?thesis using assms unfolding near_def power_add by (simp add: mult_ac)
qed

lemma near_inverse: "near k x y \<Longrightarrow> near k (inverse x) (inverse y)"
  using near_pos [of k x y] by (auto simp: near_def field_simps)

lemma near_divide: "near j x y \<Longrightarrow> near k v w \<Longrightarrow> near (j + k) (x / v) (y / w)"
  using near_mult [OF _ near_inverse] by (simp add: divide_inverse)

lemma near_le: "near j x y \<Longrightarrow> j \<le> k \<Longrightarrow> near k x y"
proof -
  assume a: "near j x y" and "j \<le> k"
  then have "unit_error ^ k \<le> unit_error ^ j" using unit_error_le by (intro power_decreasing) auto
  then have "y * unit_error ^ k \<le> y * unit_error ^ j" "x * unit_error ^ k \<le> x * unit_error ^ j"
    using near_pos [OF a] by (auto intro: mult_left_mono)
  with a show ?thesis unfolding near_def by linarith
qed

lemma near_add: "near k x y \<Longrightarrow> near k v w \<Longrightarrow> near k (x + v) (y + w)"
  by (auto simp: near_def distrib_right)

lemma near_error:
  assumes "near 6 x y"
  shows "\<bar>x - y\<bar> \<le> y / 2 ^ 50"
proof -
  have y: "0 < y" using near_pos [OF assms] by simp
  have low: "1 - 1 / 2 ^ 50 \<le> unit_error ^ 6" and high: "1 \<le> (1 + 1 / 2 ^ 50) * unit_error ^ 6"
    by (simp_all add: unit_error_def eval_nat_numeral field_simps)
  have "y * (1 - 1 / 2 ^ 50) \<le> y * unit_error ^ 6" using y low by (intro mult_left_mono) auto
  also have "\<dots> \<le> x" using assms unfolding near_def by blast
  finally have a: "y * (1 - 1 / 2 ^ 50) \<le> x" .
  have "x * unit_error ^ 6 \<le> y * 1" using assms unfolding near_def by simp
  also have "\<dots> \<le> y * ((1 + 1 / 2 ^ 50) * unit_error ^ 6)" using high y by (intro mult_left_mono) auto
  finally have "x * unit_error ^ 6 \<le> y * ((1 + 1 / 2 ^ 50) * unit_error ^ 6)" .
  then have "x * unit_error ^ 6 \<le> (y * (1 + 1 / 2 ^ 50)) * unit_error ^ 6" by (simp only: mult.assoc)
  then have b: "x \<le> y * (1 + 1 / 2 ^ 50)" by (rule mult_right_le_imp_le) (rule unit_error_pos)
  define c :: rat where "c = 1 / 2 ^ 50"
  have "y * (1 - c) = y - y * c" "y * (1 + c) = y + y * c" "y / 2 ^ 50 = y * c"
    by (auto simp: right_diff_distrib distrib_left c_def)
  with a b show ?thesis unfolding abs_le_iff c_def [symmetric] by linarith
qed

end
