(* ===== verification/Repository_Capacity.thy ===== *)
theory Repository_Capacity
  imports Float64_Rounding Go_Texts
begin

text \<open>
  The capacity of repositories, of src/internal/store/repository_capacity.go: the policies with
  their next probe and the claim of a prober, the measured samples, and the forecast of the
  exhaustion. Byte counts are unsigned 64-bit words in the program and signed integers in the
  tables. The tokens of claims are random; they are an argument.
\<close>

section \<open>Tables\<close>

record capacity_row = capacity_policy +
  crow_ClaimToken :: string
  crow_ClaimUntil :: "instant option"

record sample_row =
  smp_ID :: nat
  smp_RepositoryID :: string
  smp_TotalBytes :: int
  smp_AvailableBytes :: int
  smp_CheckedAt :: instant
  smp_SourceAgentID :: string

record capacity_sample =
  sam_ID :: nat
  sam_RepositoryID :: string
  sam_TotalBytes :: "64 word"
  sam_UsedBytes :: "64 word"
  sam_AvailableBytes :: "64 word"
  sam_CheckedAt :: instant
  sam_SourceAgentID :: string

record repository_row =
  rr_ID :: string
  rr_Kind :: string
  rr_Status :: string

record capacity_db =
  cdb_policies :: "capacity_row list"
  cdb_samples :: "sample_row list"
  cdb_next :: nat
  cdb_capacities :: "sample_row list"
  cdb_repositories :: "repository_row list"

definition capacity_row_of :: "capacity_policy \<Rightarrow> capacity_row" where
  "capacity_row_of p = capacity_policy.extend p \<lparr>crow_ClaimToken = [], crow_ClaimUntil = None\<rparr>"

definition minutes :: "int \<Rightarrow> duration" where
  "minutes n = to_int64 (to_int64 n * go_minute)"

definition next_probe :: "capacity_row \<Rightarrow> instant \<Rightarrow> instant option" where
  "next_probe p now = (if cpol_Enabled p then Some (now + minutes (cpol_ProbeIntervalMinutes p)) else None)"

section \<open>Policies\<close>

definition insert_default_capacity_policy :: "capacity_db \<Rightarrow> string \<Rightarrow> instant \<Rightarrow> bool \<Rightarrow> capacity_db \<times> check" where
  "insert_default_capacity_policy db repository now enabled =
     (let p = (default_capacity_policy repository now)\<lparr>cpol_Enabled := enabled\<rparr>;
          q = (if enabled then p else p\<lparr>cpol_NextProbeAt := None\<rparr>) in
      case insert_row cpol_RepositoryID (capacity_row_of q) (cdb_policies db) of
        None \<Rightarrow> (db, Some Conflict)
      | Some t \<Rightarrow> (db\<lparr>cdb_policies := t\<rparr>, None))"

definition ensure_default_capacity_policy :: "capacity_db \<Rightarrow> string \<Rightarrow> instant \<Rightarrow> capacity_db" where
  "ensure_default_capacity_policy db repository now =
     (case insert_row cpol_RepositoryID (capacity_row_of (default_capacity_policy repository now)) (cdb_policies db) of
        None \<Rightarrow> db
      | Some t \<Rightarrow> db\<lparr>cdb_policies := t\<rparr>)"

definition repository_capacity_policy :: "capacity_db \<Rightarrow> string \<Rightarrow> capacity_policy outcome" where
  "repository_capacity_policy db repository =
     (case row cpol_RepositoryID repository (cdb_policies db) of
        None \<Rightarrow> Inl NoRows
      | Some p \<Rightarrow> Inr (capacity_policy.truncate p))"

definition list_capacity_policies :: "capacity_db \<Rightarrow> capacity_policy list" where
  "list_capacity_policies db = map capacity_policy.truncate (sort_key cpol_RepositoryID (cdb_policies db))"

definition save_capacity_policy :: "capacity_db \<Rightarrow> capacity_policy \<Rightarrow> instant \<Rightarrow> capacity_db \<times> check" where
  "save_capacity_policy db policy now =
     (let p = policy\<lparr>cpol_RepositoryID := trim_space (cpol_RepositoryID policy)\<rparr> in
      case capacity_policy_validate p of
        Some err \<Rightarrow> (db, Some err)
      | None \<Rightarrow>
          if now = zero_time then (db, Some (Invalid ''repository capacity policy update time is required''))
          else (case (row cpol_RepositoryID (cpol_RepositoryID p) (cdb_policies db), row rr_ID (cpol_RepositoryID p) (cdb_repositories db)) of
             (Some old, Some r) \<Rightarrow>
               if rr_Kind r = S3Repository \<and> cpol_Enabled p
               then (db, Some (Invalid ''S3 repository capacity policy cannot be enabled''))
               else
                 let due = (if cpol_Enabled old then
                              (case cpol_LastAttemptAt old of None \<Rightarrow> now | Some t \<Rightarrow> t + minutes (cpol_ProbeIntervalMinutes p))
                            else now) in
                 (db\<lparr>cdb_policies := update_where (\<lambda>q. cpol_RepositoryID q = cpol_RepositoryID p)
                    (\<lambda>q. q\<lparr>cpol_Enabled := cpol_Enabled p, cpol_ProbeIntervalMinutes := cpol_ProbeIntervalMinutes p,
                       cpol_MinimumAvailableBytes := cpol_MinimumAvailableBytes p,
                       cpol_MinimumAvailablePercent := cpol_MinimumAvailablePercent p,
                       cpol_ExhaustionWarningDays := cpol_ExhaustionWarningDays p,
                       cpol_NextProbeAt := (if cpol_Enabled p then Some due else None),
                       crow_ClaimToken := (if cpol_Enabled p then crow_ClaimToken q else []),
                       crow_ClaimUntil := (if cpol_Enabled p then crow_ClaimUntil q else None), cpol_UpdatedAt := now\<rparr>)
                    (cdb_policies db)\<rparr>, None)
           | _ \<Rightarrow> (db, Some NoRows)))"

section \<open>Probes\<close>

definition probe_due :: "instant \<Rightarrow> capacity_row \<Rightarrow> bool" where
  "probe_due now p \<longleftrightarrow> cpol_Enabled p \<and>
     (case cpol_NextProbeAt p of None \<Rightarrow> False | Some t \<Rightarrow> format_time t \<le> format_time now) \<and>
     (case crow_ClaimUntil p of None \<Rightarrow> True | Some t \<Rightarrow> format_time t \<le> format_time now)"

definition due_repositories :: "capacity_db \<Rightarrow> instant \<Rightarrow> int \<Rightarrow> string list" where
  "due_repositories db now limit =
     take (nat limit) (map cpol_RepositoryID
       (sort_key (\<lambda>p. format_time (the (cpol_NextProbeAt p))) (sort_key cpol_RepositoryID
          (filter (\<lambda>p. probe_due now p \<and>
             (case row rr_ID (cpol_RepositoryID p) (cdb_repositories db) of
                None \<Rightarrow> False | Some r \<Rightarrow> rr_Status r \<noteq> ''uninitialized'' \<and> rr_Status r \<noteq> ''disconnected''))
             (cdb_policies db)))))"

text \<open>The updates of the claims; \<open>token\<close> gives each repository its random token.\<close>

fun claim_each :: "(string \<Rightarrow> string) \<Rightarrow> instant \<Rightarrow> duration \<Rightarrow> capacity_row list \<Rightarrow> string list \<Rightarrow>
    capacity_row list \<times> (string \<times> string) list" where
  "claim_each token now lease t [] = (t, [])"
| "claim_each token now lease t (i # is) =
     (let P = (\<lambda>p. cpol_RepositoryID p = i \<and> probe_due now p);
          u = update_where P (\<lambda>p. p\<lparr>crow_ClaimToken := token i, crow_ClaimUntil := Some (now + lease), cpol_LastAttemptAt := Some now\<rparr>) t in
      case claim_each token now lease u is of
        (v, claims) \<Rightarrow> (v, (if affected P t = 1 then [(i, token i)] else []) @ claims))"

definition claim_due_policies :: "(string \<Rightarrow> string) \<Rightarrow> capacity_db \<Rightarrow> instant \<Rightarrow> int \<Rightarrow> duration \<Rightarrow>
    capacity_db \<times> (string \<times> string) list outcome" where
  "claim_due_policies token db now limit lease =
     (if now = zero_time \<or> limit < 1 \<or> limit > 100 \<or> lease \<le> 0 \<or> lease > 24 * go_hour
      then (db, Inl (Invalid ''invalid repository capacity claim request''))
      else (case claim_each token now lease (cdb_policies db) (due_repositories db now limit) of
              (t, claims) \<Rightarrow> (db\<lparr>cdb_policies := t\<rparr>, Inr claims)))"

text \<open>\<open>utf8.ValidString\<close>: no overlong encodings, no surrogates, nothing above \<open>U+10FFFF\<close>.\<close>

definition continuation :: "nat \<Rightarrow> nat \<Rightarrow> char \<Rightarrow> bool" where
  "continuation low high c \<longleftrightarrow> low \<le> of_char c \<and> (of_char c :: nat) \<le> high"

fun valid_utf8 :: "string \<Rightarrow> bool" where
  "valid_utf8 [] = True"
| "valid_utf8 (a # s) =
     (let n = (of_char a :: nat); tail = continuation 0x80 0xBF in
      if n < 0x80 then valid_utf8 s
      else case s of
        [] \<Rightarrow> False
      | b # s2 \<Rightarrow>
          if 0xC2 \<le> n \<and> n \<le> 0xDF then tail b \<and> valid_utf8 s2
          else (case s2 of
            [] \<Rightarrow> False
          | c # s3 \<Rightarrow>
              if 0xE0 \<le> n \<and> n \<le> 0xEF then
                continuation (if n = 0xE0 then 0xA0 else 0x80) (if n = 0xED then 0x9F else 0xBF) b \<and> tail c \<and> valid_utf8 s3
              else (case s3 of
                [] \<Rightarrow> False
              | d # s4 \<Rightarrow>
                  0xF0 \<le> n \<and> n \<le> 0xF4 \<and>
                  continuation (if n = 0xF0 then 0x90 else 0x80) (if n = 0xF4 then 0x8F else 0xBF) b \<and> tail c \<and> tail d \<and> valid_utf8 s4)))"

fun longest_valid :: "nat \<Rightarrow> string \<Rightarrow> string" where
  "longest_valid 0 s = []"
| "longest_valid (Suc n) s = (if valid_utf8 (take (Suc n) s) then take (Suc n) s else longest_valid n s)"

definition bounded_capacity_error :: "string \<Rightarrow> string" where
  "bounded_capacity_error value =
     (let v = trim_space (concat (map (\<lambda>c. if c = CHR 0x0D \<or> c = CHR 0x0A then '' '' else if c = CHR 0x00 then [] else [c]) value)) in
      if length v \<le> 512 then v else longest_valid 512 v)"

definition end_probe :: "instant \<Rightarrow> string \<Rightarrow> capacity_row \<Rightarrow> capacity_row" where
  "end_probe attempted failure p =
     p\<lparr>cpol_LastAttemptAt := Some attempted, cpol_LastError := failure, cpol_NextProbeAt := next_probe p attempted,
       crow_ClaimToken := [], crow_ClaimUntil := None\<rparr>"

definition update_probe :: "capacity_db \<Rightarrow> string \<Rightarrow> (capacity_row \<Rightarrow> capacity_row) \<Rightarrow> capacity_db \<times> check" where
  "update_probe db repository f =
     (case row cpol_RepositoryID repository (cdb_policies db) of
        None \<Rightarrow> (db, Some NoRows)
      | Some _ \<Rightarrow> (db\<lparr>cdb_policies := update_where (\<lambda>p. cpol_RepositoryID p = repository) f (cdb_policies db)\<rparr>, None))"

definition record_capacity_failure :: "capacity_db \<Rightarrow> string \<Rightarrow> instant \<Rightarrow> string \<Rightarrow> capacity_db \<times> check" where
  "record_capacity_failure db repository attempted failure =
     (let r = trim_space repository; text = bounded_capacity_error failure in
      if r = [] \<or> attempted = zero_time then (db, Some (Invalid ''invalid repository capacity failure''))
      else update_probe db r (end_probe attempted (if text = [] then ''capacity probe failed'' else text)))"

definition defer_capacity_probe :: "capacity_db \<Rightarrow> string \<Rightarrow> instant \<Rightarrow> capacity_db \<times> check" where
  "defer_capacity_probe db repository attempted =
     (let r = trim_space repository in
      if r = [] \<or> attempted = zero_time then (db, Some (Invalid ''invalid repository capacity deferral''))
      else update_probe db r (end_probe attempted []))"

section \<open>Measurements\<close>

definition validate_capacity :: "string \<Rightarrow> repository_capacity \<Rightarrow> check" where
  "validate_capacity repository c =
     (if blank repository \<or> cap_TotalBytes c = 0 \<or> cap_AvailableBytes c > cap_TotalBytes c \<or>
         uint (cap_TotalBytes c) > max_int64 \<or> uint (cap_AvailableBytes c) > max_int64 \<or> cap_CheckedAt c = zero_time \<or>
         length (cap_SourceAgentID c) > 256 \<or> CHR 0x00 \<in> set (cap_SourceAgentID c)
      then Some (Invalid ''invalid repository capacity'') else None)"

definition sample_of :: "nat \<Rightarrow> string \<Rightarrow> repository_capacity \<Rightarrow> sample_row" where
  "sample_of i repository c =
     \<lparr>smp_ID = i, smp_RepositoryID = repository, smp_TotalBytes = sint (cap_TotalBytes c),
      smp_AvailableBytes = sint (cap_AvailableBytes c), smp_CheckedAt = cap_CheckedAt c, smp_SourceAgentID = cap_SourceAgentID c\<rparr>"

text \<open>\<open>SaveRepositoryCapacity\<close> with \<open>saveRepositoryCapacity\<close>: one transaction.\<close>

definition save_repository_capacity :: "capacity_db \<Rightarrow> string \<Rightarrow> repository_capacity \<Rightarrow> capacity_db \<times> check" where
  "save_repository_capacity db repository c =
     (case validate_capacity repository c of
        Some err \<Rightarrow> (db, Some err)
      | None \<Rightarrow>
          if repository \<notin> set (map rr_ID (cdb_repositories db)) then (db, Some Conflict)
          else
            let db1 = ensure_default_capacity_policy db repository (cap_CheckedAt c);
                s = sample_of (cdb_next db) repository c;
                known = repository \<in> set (map smp_RepositoryID (cdb_capacities db1));
                capacities = (if known then update_where (\<lambda>q. smp_RepositoryID q = repository \<and>
                                format_time (smp_CheckedAt s) \<ge> format_time (smp_CheckedAt q)) (\<lambda>_. s) (cdb_capacities db1)
                              else cdb_capacities db1 @ [s]) in
            (db1\<lparr>cdb_samples := cdb_samples db1 @ [s], cdb_next := Suc (cdb_next db1), cdb_capacities := capacities,
                 cdb_policies := update_where (\<lambda>p. cpol_RepositoryID p = repository)
                   (\<lambda>p. (end_probe (cap_CheckedAt c) [] p)\<lparr>cpol_LastSuccessAt := Some (cap_CheckedAt c)\<rparr>) (cdb_policies db1)\<rparr>, None))"

definition scan_sample :: "sample_row \<Rightarrow> capacity_sample outcome" where
  "scan_sample s =
     (if smp_TotalBytes s \<le> 0 \<or> smp_AvailableBytes s < 0 \<or> smp_AvailableBytes s > smp_TotalBytes s
      then Inl (Invalid ''stored repository capacity sample is invalid'')
      else let total = word_of_int (smp_TotalBytes s); available = word_of_int (smp_AvailableBytes s) in
        Inr \<lparr>sam_ID = smp_ID s, sam_RepositoryID = smp_RepositoryID s, sam_TotalBytes = total, sam_UsedBytes = total - available,
             sam_AvailableBytes = available, sam_CheckedAt = smp_CheckedAt s, sam_SourceAgentID = smp_SourceAgentID s\<rparr>)"

fun scan_all :: "sample_row list \<Rightarrow> capacity_sample list outcome" where
  "scan_all [] = Inr []"
| "scan_all (s # ss) =
     (case scan_sample s of
        Inl err \<Rightarrow> Inl err
      | Inr x \<Rightarrow> (case scan_all ss of Inl err \<Rightarrow> Inl err | Inr xs \<Rightarrow> Inr (x # xs)))"

text \<open>\<open>ORDER BY checked_at ASC, id ASC\<close>; the descending order is its reverse.\<close>

definition ordered_samples :: "capacity_db \<Rightarrow> string \<Rightarrow> sample_row list" where
  "ordered_samples db repository =
     sort_key (\<lambda>s. format_time (smp_CheckedAt s)) (sort_key smp_ID (filter (\<lambda>s. smp_RepositoryID s = repository) (cdb_samples db)))"

definition list_capacity_samples :: "capacity_db \<Rightarrow> string \<Rightarrow> int \<Rightarrow> capacity_sample list outcome" where
  "list_capacity_samples db repository limit =
     (if blank repository \<or> limit < 1 \<or> limit > 1000 then Inl (Invalid ''invalid repository capacity sample query'')
      else scan_all (take (nat limit) (rev (ordered_samples db repository))))"

section \<open>Tables of an older release\<close>

text \<open>
  \<open>ensureRepositoryCapacityPersistence\<close>: every repository gets a policy, every policy the fixed
  refresh, and the last measurement becomes a sample.
\<close>

definition backfilled_policy :: "capacity_db \<Rightarrow> instant \<Rightarrow> repository_row \<Rightarrow> capacity_row" where
  "backfilled_policy db now r =
     (let p = default_capacity_policy (rr_ID r) now; s3 = (rr_Kind r = S3Repository);
          checked = map_option smp_CheckedAt (row smp_RepositoryID (rr_ID r) (cdb_capacities db)) in
      capacity_row_of (p\<lparr>cpol_Enabled := (if s3 then False else cpol_Enabled p), cpol_NextProbeAt := (if s3 then None else Some now),
        cpol_LastAttemptAt := checked, cpol_LastSuccessAt := checked\<rparr>))"

definition fixed_refresh :: "capacity_db \<Rightarrow> capacity_row \<Rightarrow> capacity_row" where
  "fixed_refresh db p =
     p\<lparr>cpol_Enabled := (case row rr_ID (cpol_RepositoryID p) (cdb_repositories db) of None \<Rightarrow> True | Some r \<Rightarrow> rr_Kind r \<noteq> S3Repository),
       cpol_ProbeIntervalMinutes := 24 * 60, cpol_MinimumAvailableBytes := 0, cpol_MinimumAvailablePercent := Finite 0,
       cpol_ExhaustionWarningDays := 0\<rparr>"

definition same_measurement :: "sample_row \<Rightarrow> sample_row \<Rightarrow> bool" where
  "same_measurement c s \<longleftrightarrow> smp_RepositoryID s = smp_RepositoryID c \<and> smp_TotalBytes s = smp_TotalBytes c \<and>
     smp_AvailableBytes s = smp_AvailableBytes c \<and> smp_CheckedAt s = smp_CheckedAt c \<and> smp_SourceAgentID s = smp_SourceAgentID c"

fun number_samples :: "nat \<Rightarrow> sample_row list \<Rightarrow> sample_row list" where
  "number_samples n [] = []"
| "number_samples n (c # cs) = c\<lparr>smp_ID := n\<rparr> # number_samples (Suc n) cs"

definition ensure_capacity_persistence :: "capacity_db \<Rightarrow> instant \<Rightarrow> capacity_db" where
  "ensure_capacity_persistence db now =
     (let missing = filter (\<lambda>r. rr_ID r \<notin> set (map cpol_RepositoryID (cdb_policies db))) (cdb_repositories db);
          unsampled = filter (\<lambda>c. \<not> list_ex (same_measurement c) (cdb_samples db)) (cdb_capacities db) in
      db\<lparr>cdb_policies := map (fixed_refresh db) (cdb_policies db @ map (backfilled_policy db now) missing),
         cdb_samples := cdb_samples db @ number_samples (cdb_next db) unsampled, cdb_next := cdb_next db + length unsampled\<rparr>)"

lemma number_samples_facts:
  "length (number_samples n cs) = length cs" "map smp_ID (number_samples n cs) = [n..<n + length cs]"
  "c \<in> set cs \<Longrightarrow> list_ex (same_measurement c) (number_samples n cs)"
proof -
  show "length (number_samples n cs) = length cs" by (induction n cs rule: number_samples.induct) auto
  show "map smp_ID (number_samples n cs) = [n..<n + length cs]"
    by (induction n cs rule: number_samples.induct) (auto simp: upt_rec)
  show "c \<in> set cs \<Longrightarrow> list_ex (same_measurement c) (number_samples n cs)"
    by (induction n cs rule: number_samples.induct) (auto simp: same_measurement_def)
qed

text \<open>Starting again changes only what the refresh fixed before: the backfill is done once.\<close>

lemma ensure_capacity_persistence_twice:
  "ensure_capacity_persistence (ensure_capacity_persistence db now) later = ensure_capacity_persistence db now"
proof -
  let ?db = "ensure_capacity_persistence db now"
  have same: "cdb_repositories ?db = cdb_repositories db" "cdb_capacities ?db = cdb_capacities db"
    by (simp_all add: ensure_capacity_persistence_def Let_def)
  have policies: "rr_ID r \<in> set (map cpol_RepositoryID (cdb_policies ?db))" if "r \<in> set (cdb_repositories db)" for r
    using that by (auto simp: ensure_capacity_persistence_def Let_def fixed_refresh_def backfilled_policy_def capacity_row_of_def
        default_capacity_policy_def capacity_policy.defs image_iff)
  have samples: "list_ex (same_measurement c) (cdb_samples ?db)" if "c \<in> set (cdb_capacities db)" for c
    using that number_samples_facts(3) [of c "filter (\<lambda>c. \<not> list_ex (same_measurement c) (cdb_samples db)) (cdb_capacities db)"]
    by (auto simp: ensure_capacity_persistence_def Let_def)
  have fixed: "fixed_refresh ?db (fixed_refresh db p) = fixed_refresh db p" for p
    by (simp add: fixed_refresh_def same)
  have "cdb_policies ?db = map (fixed_refresh db) (cdb_policies db @ map (backfilled_policy db now)
      (filter (\<lambda>r. rr_ID r \<notin> set (map cpol_RepositoryID (cdb_policies db))) (cdb_repositories db)))"
    by (simp add: ensure_capacity_persistence_def Let_def)
  then have "map (fixed_refresh ?db) (cdb_policies ?db) = cdb_policies ?db" by (simp only: map_map comp_def fixed)
  moreover have "filter (\<lambda>r. rr_ID r \<notin> set (map cpol_RepositoryID (cdb_policies ?db))) (cdb_repositories db) = []"
    using policies by (simp add: filter_empty_conv)
  moreover have "filter (\<lambda>c. \<not> list_ex (same_measurement c) (cdb_samples ?db)) (cdb_capacities db) = []"
    using samples by (simp add: filter_empty_conv)
  ultimately show ?thesis
    unfolding ensure_capacity_persistence_def [of ?db] Let_def same by simp
qed

section \<open>The forecast\<close>

record capacity_forecast =
  fc_Status :: string
  fc_SampleCount :: nat
  fc_ObservationStartedAt :: "instant option"
  fc_ObservationEndedAt :: "instant option"
  fc_GrowthBytesPerDay :: float64
  fc_EstimatedExhaustionAt :: "instant option"

abbreviation CapacityForecastReady :: string where "CapacityForecastReady \<equiv> ''ready''"
abbreviation CapacityForecastInsufficientSamples :: string where "CapacityForecastInsufficientSamples \<equiv> ''insufficient_samples''"
abbreviation CapacityForecastInsufficientSpan :: string where "CapacityForecastInsufficientSpan \<equiv> ''insufficient_span''"
abbreviation CapacityForecastNonPositiveGrowth :: string where "CapacityForecastNonPositiveGrowth \<equiv> ''non_positive_growth''"
abbreviation CapacityForecastBeyondRange :: string where "CapacityForecastBeyondRange \<equiv> ''beyond_supported_range''"

text \<open>\<open>Duration.Hours\<close>: whole hours and the rest, divided by \<open>60*60*1e9\<close>.\<close>

definition duration_hours :: "duration \<Rightarrow> rat" where
  "duration_hours d =
     round64 (round64 (of_int (quot d go_hour)) + round64 (round64 (of_int (go_rem d go_hour)) / of_int go_hour))"

definition growth_per_day :: "capacity_sample \<Rightarrow> capacity_sample \<Rightarrow> rat" where
  "growth_per_day oldest newest =
     (let grown = round64 (round64 (of_int (uint (sam_UsedBytes newest))) - round64 (of_int (uint (sam_UsedBytes oldest)))) in
      round64 (round64 (grown / duration_hours (time_sub (sam_CheckedAt newest) (sam_CheckedAt oldest))) * 24))"

text \<open>Whole nanoseconds until exhaustion: the product of the days, truncated.\<close>

definition days_remaining :: "capacity_sample \<Rightarrow> rat \<Rightarrow> rat" where
  "days_remaining newest growth = round64 (round64 (of_int (uint (sam_AvailableBytes newest))) / growth)"

definition exhaustion_offset :: "rat \<Rightarrow> duration" where
  "exhaustion_offset days = \<lfloor>round64 (days * of_int (24 * go_hour))\<rfloor>"

definition capacity_forecast :: "capacity_db \<Rightarrow> string \<Rightarrow> capacity_forecast outcome" where
  "capacity_forecast db repository =
     (let rows = ordered_samples db repository;
          empty = \<lparr>fc_Status = CapacityForecastInsufficientSamples, fc_SampleCount = length rows, fc_ObservationStartedAt = None,
                   fc_ObservationEndedAt = None, fc_GrowthBytesPerDay = Finite 0, fc_EstimatedExhaustionAt = None\<rparr> in
      if rows = [] then Inr empty
      else
        let first_at = smp_CheckedAt (hd rows); last_at = smp_CheckedAt (last rows);
            seen = empty\<lparr>fc_ObservationStartedAt := Some first_at, fc_ObservationEndedAt := Some last_at\<rparr> in
        if length rows < 3 then Inr seen
        else if time_sub last_at first_at < 24 * go_hour then Inr (seen\<lparr>fc_Status := CapacityForecastInsufficientSpan\<rparr>)
        else (case scan_sample (hd rows) of
          Inl err \<Rightarrow> Inl err
        | Inr oldest \<Rightarrow>
            (case scan_sample (last rows) of
               Inl err \<Rightarrow> Inl err
             | Inr newest \<Rightarrow>
                 let growth = growth_per_day oldest newest in
                 if growth \<le> 0 then Inr (seen\<lparr>fc_Status := CapacityForecastNonPositiveGrowth\<rparr>)
                 else
                   let days = days_remaining newest growth; grown = seen\<lparr>fc_GrowthBytesPerDay := Finite growth\<rparr> in
                   if days > 36500 then Inr (grown\<lparr>fc_Status := CapacityForecastBeyondRange\<rparr>)
                   else Inr (grown\<lparr>fc_Status := CapacityForecastReady,
                     fc_EstimatedExhaustionAt := Some (sam_CheckedAt newest + exhaustion_offset days)\<rparr>))))"

subsection \<open>How accurate it is\<close>

lemma round64_pos_iff: "0 < round64 q \<longleftrightarrow> 0 < q"
proof -
  have e: "\<bar>round64 q - q\<bar> \<le> \<bar>q\<bar> / 2 ^ 53" by (rule round64_error)
  show ?thesis
  proof (cases "0 < q")
    case True
    then have "\<bar>q\<bar> / 2 ^ 53 < q" by (simp add: field_simps)
    with e have "0 < round64 q" by linarith
    with True show ?thesis by simp
  next
    case False
    then have "\<bar>q\<bar> / 2 ^ 53 \<le> - q" by (simp add: field_simps)
    with e False show ?thesis by linarith
  qed
qed

lemma duration_hours_near:
  assumes "go_hour \<le> d" and "d \<le> max_int64"
  shows "near 2 (duration_hours d) (of_int d / of_int go_hour)"
proof -
  define h where "h = d div go_hour"
  define r where "r = d mod go_hour"
  have d: "d = h * go_hour + r" by (simp add: h_def r_def)
  have h: "1 \<le> h" "h < 2 ^ 53" using assms by (simp_all add: h_def max_int64_def)
  have r: "0 \<le> r" "r < go_hour" by (simp_all add: r_def)
  have parts: "quot d go_hour = h" "go_rem d go_hour = r"
    using assms(1) by (simp_all add: quot_nonneg go_rem_nonneg h_def r_def)
  have exact: "round64 (of_int h) = of_int h" "round64 (of_int r) = of_int r"
    using h r by (simp_all only: round64_int, simp_all add: round64_int)
  let ?q = "of_int r / of_int go_hour :: rat"
  have "near 1 (of_int h + round64 ?q) (of_int h + ?q)"
  proof (cases "r = 0")
    case True
    then show ?thesis using h by (simp add: near_le [OF near_refl])
  next
    case False
    then have "0 < ?q" using r by simp
    then show ?thesis using h by (intro near_add near_round near_le [OF near_refl]) simp_all
  qed
  moreover have "0 < of_int h + round64 ?q" using near_pos [OF calculation] by simp
  ultimately have "near (1 + 1) (duration_hours d) (of_int h + ?q)"
    unfolding duration_hours_def parts exact by (intro near_trans [OF near_round])
  moreover have "of_int h + ?q = of_int d / of_int go_hour" unfolding d by (simp add: field_simps)
  ultimately show ?thesis by (simp only: one_add_one)
qed

definition used_growth :: "sample_row \<Rightarrow> sample_row \<Rightarrow> int" where
  "used_growth a b = (smp_TotalBytes b - smp_AvailableBytes b) - (smp_TotalBytes a - smp_AvailableBytes a)"

lemma scan_sample_values:
  assumes "scan_sample s = Inr x" and "smp_TotalBytes s < 2 ^ 53"
  shows "uint (sam_UsedBytes x) = smp_TotalBytes s - smp_AvailableBytes s" and "uint (sam_AvailableBytes x) = smp_AvailableBytes s"
    and "0 \<le> smp_AvailableBytes s" and "smp_AvailableBytes s \<le> smp_TotalBytes s" and "sam_CheckedAt x = smp_CheckedAt s"
proof -
  have ok: "0 < smp_TotalBytes s" "0 \<le> smp_AvailableBytes s" "smp_AvailableBytes s \<le> smp_TotalBytes s"
    and x: "x = \<lparr>sam_ID = smp_ID s, sam_RepositoryID = smp_RepositoryID s, sam_TotalBytes = word_of_int (smp_TotalBytes s),
      sam_UsedBytes = word_of_int (smp_TotalBytes s) - word_of_int (smp_AvailableBytes s),
      sam_AvailableBytes = word_of_int (smp_AvailableBytes s), sam_CheckedAt = smp_CheckedAt s, sam_SourceAgentID = smp_SourceAgentID s\<rparr>"
    using assms(1) by (auto simp: scan_sample_def Let_def split: if_splits)
  have small: "uint (word_of_int n :: 64 word) = n" if "0 \<le> n" "n < 2 ^ 53" for n
    using that by (simp add: uint_word_of_int)
  have "(word_of_int (smp_TotalBytes s) - word_of_int (smp_AvailableBytes s) :: 64 word) =
      word_of_int (smp_TotalBytes s - smp_AvailableBytes s)" by simp
  then show "uint (sam_UsedBytes x) = smp_TotalBytes s - smp_AvailableBytes s"
    using ok assms(2) small [of "smp_TotalBytes s - smp_AvailableBytes s"] unfolding x by simp
  show "uint (sam_AvailableBytes x) = smp_AvailableBytes s" using ok assms(2) small by (simp add: x)
qed (use assms in \<open>auto simp: scan_sample_def Let_def split: if_splits\<close>)

lemma extrapolation_error:
  assumes t: "go_hour \<le> t" "t \<le> max_int64" and d: "0 < d" and a: "0 \<le> a"
    and growth: "growth = round64 (round64 (of_int d / duration_hours t) * 24)"
  shows "\<bar>of_int (exhaustion_offset (round64 (of_int a / growth))) - of_int (a * t) / of_int d\<bar> \<le> of_int (a * t) / of_int d / 2 ^ 50 + (1 :: rat)"
proof (cases "a = 0")
  case True
  then show ?thesis by (simp add: exhaustion_offset_def)
next
  case False
  let ?T = "of_int t / of_int go_hour :: rat"
  let ?D = "of_int d :: rat" and ?A = "of_int a :: rat"
  have pos: "0 < ?D" "0 < ?A" using d a False by simp_all
  have "near (0 + 2) (?D / duration_hours t) (?D / ?T)"
    by (intro near_divide near_refl duration_hours_near t pos)
  then have "near (1 + (0 + 2) + 0) (round64 (?D / duration_hours t) * 24) (?D / ?T * 24)"
    by (intro near_mult near_round_step near_refl) simp_all
  then have "near (0 + (1 + (1 + (0 + 2) + 0))) (?A / growth) (?A / (?D / ?T * 24))"
    unfolding growth by (intro near_divide near_round_step near_refl pos)
  then have "near (1 + (0 + (1 + (1 + (0 + 2) + 0))) + 0) (round64 (?A / growth) * of_int (24 * go_hour)) (?A / (?D / ?T * 24) * of_int (24 * go_hour))"
    by (intro near_mult near_round_step near_refl) simp_all
  then have "near (1 + (1 + (0 + (1 + (1 + (0 + 2) + 0))) + 0)) (round64 (round64 (?A / growth) * of_int (24 * go_hour)))
      (?A / (?D / ?T * 24) * of_int (24 * go_hour))" by (rule near_round_step)
  moreover have "?A / (?D / ?T * 24) * of_int (24 * go_hour) = of_int (a * t) / of_int d"
    using pos t by (simp add: field_simps)
  ultimately have "near 6 (round64 (round64 (?A / growth) * of_int (24 * go_hour))) (of_int (a * t) / of_int d)" by (simp add: eval_nat_numeral)
  from near_error [OF this] show ?thesis unfolding exhaustion_offset_def by linarith
qed

text \<open>
  C37: the forecast is the straight line through the oldest and the newest sample. A forecast that is
  ready rests on at least three samples over at least a day in which the used space grew; and for
  repositories below 2^53 bytes the floating-point computation is off by at most one part in 2^50
  of the time left, and a nanosecond.
\<close>
theorem forecast_accuracy:
  assumes "capacity_forecast db repository = Inr f" and "fc_Status f = CapacityForecastReady"
    and "\<forall>s \<in> set (cdb_samples db). smp_TotalBytes s < 2 ^ 53"
  shows "let rows = ordered_samples db repository; a = hd rows; b = last rows;
      elapsed = time_sub (smp_CheckedAt b) (smp_CheckedAt a);
      left = of_int (smp_AvailableBytes b * elapsed) / of_int (used_growth a b) :: rat in
    3 \<le> length rows \<and> 24 * go_hour \<le> elapsed \<and> 0 < used_growth a b \<and>
    (\<exists>t. fc_EstimatedExhaustionAt f = Some t \<and> \<bar>of_int (t - smp_CheckedAt b) - left\<bar> \<le> left / 2 ^ 50 + 1)"
proof -
  define rows where "rows = ordered_samples db repository"
  define a where "a = hd rows"
  define b where "b = last rows"
  define elapsed where "elapsed = time_sub (smp_CheckedAt b) (smp_CheckedAt a)"
  have enough: "\<not> length rows < 3" "rows \<noteq> []" and span: "\<not> elapsed < 24 * go_hour"
    using assms(1,2) by (auto simp: capacity_forecast_def Let_def rows_def a_def b_def elapsed_def split: if_splits)
  then obtain x y where x: "scan_sample a = Inr x" and y: "scan_sample b = Inr y"
    using assms(1) by (auto simp: capacity_forecast_def Let_def rows_def a_def b_def elapsed_def split: if_splits sum.splits)
  have "set rows \<subseteq> set (cdb_samples db)" by (auto simp: rows_def ordered_samples_def)
  then have "a \<in> set (cdb_samples db)" "b \<in> set (cdb_samples db)" using enough(2) by (auto simp: a_def b_def)
  then have "smp_TotalBytes a < 2 ^ 53" "smp_TotalBytes b < 2 ^ 53" using assms(3) by simp_all
  note a = scan_sample_values [OF x this(1)] and b = scan_sample_values [OF y this(2)]
  define d where "d = used_growth a b"
  have grown: "round64 (round64 (of_int (uint (sam_UsedBytes y))) - round64 (of_int (uint (sam_UsedBytes x)))) = of_int d"
  proof -
    have u: "\<bar>uint (sam_UsedBytes x)\<bar> < 2 ^ 53" "\<bar>uint (sam_UsedBytes y)\<bar> < 2 ^ 53" and d: "\<bar>d\<bar> < 2 ^ 53"
      using a b \<open>smp_TotalBytes a < 2 ^ 53\<close> \<open>smp_TotalBytes b < 2 ^ 53\<close> by (auto simp: d_def used_growth_def)
    have "of_int (uint (sam_UsedBytes y)) - of_int (uint (sam_UsedBytes x)) = (of_int d :: rat)"
      by (simp add: a b d_def used_growth_def)
    then show ?thesis by (simp only: round64_int [OF u(1)] round64_int [OF u(2)] round64_int [OF d])
  qed
  have growth: "growth_per_day x y = round64 (round64 (of_int d / duration_hours elapsed) * 24)"
    unfolding growth_per_day_def Let_def grown a(5) b(5) elapsed_def ..
  have t: "go_hour \<le> elapsed" "elapsed \<le> max_int64" using span by (auto simp: elapsed_def time_sub_def max_int64_def min_int64_def)
  have hours: "0 < duration_hours elapsed" using near_pos [OF duration_hours_near [OF t]] by simp
  have result: "\<not> growth_per_day x y \<le> 0 \<and> fc_EstimatedExhaustionAt f =
      Some (sam_CheckedAt y + exhaustion_offset (days_remaining y (growth_per_day x y)))"
    using assms(1,2) enough span x y
    by (auto simp: capacity_forecast_def Let_def rows_def a_def b_def elapsed_def split: if_splits)
  then have d: "0 < d" using hours by (simp add: growth not_le round64_pos_iff zero_less_mult_iff zero_less_divide_iff)
  have av: "\<bar>smp_AvailableBytes b\<bar> < 2 ^ 53" using b \<open>smp_TotalBytes b < 2 ^ 53\<close> by simp
  have "days_remaining y (growth_per_day x y) = round64 (of_int (smp_AvailableBytes b) / growth_per_day x y)"
    unfolding days_remaining_def b(2) round64_int [OF av] ..
  then have "\<bar>of_int (sam_CheckedAt y + exhaustion_offset (days_remaining y (growth_per_day x y)) - smp_CheckedAt b) -
      of_int (smp_AvailableBytes b * elapsed) / of_int d\<bar> \<le> of_int (smp_AvailableBytes b * elapsed) / of_int d / 2 ^ 50 + (1 :: rat)"
    using extrapolation_error [OF t d b(3) growth] by (simp add: b)
  with result enough span d show ?thesis
    unfolding Let_def rows_def [symmetric] a_def [symmetric] b_def [symmetric] elapsed_def [symmetric] d_def [symmetric]
    by (auto simp: not_less)
qed

definition sample_example :: "nat \<Rightarrow> int \<Rightarrow> sample_row" where
  "sample_example i free = \<lparr>smp_ID = i, smp_RepositoryID = ''r'', smp_TotalBytes = 100, smp_AvailableBytes = free,
     smp_CheckedAt = int i * (12 * go_hour), smp_SourceAgentID = []\<rparr>"

definition forecast_example :: capacity_db where
  "forecast_example = \<lparr>cdb_policies = [], cdb_samples = [sample_example 0 90, sample_example 1 80, sample_example 2 70],
     cdb_next = 3, cdb_capacities = [], cdb_repositories = []\<rparr>"

lemma forecast_example_value:
  "capacity_forecast forecast_example ''r'' = Inr \<lparr>fc_Status = CapacityForecastReady, fc_SampleCount = 3,
     fc_ObservationStartedAt = Some 0, fc_ObservationEndedAt = Some (24 * go_hour), fc_GrowthBytesPerDay = Finite 20,
     fc_EstimatedExhaustionAt = Some (108 * go_hour)\<rparr>"
  by code_simp

theorem forecast_accuracy_witness:
  "3 \<le> length (ordered_samples forecast_example ''r'') \<and> 0 < used_growth (sample_example 0 90) (sample_example 2 70) \<and>
   \<bar>of_int (108 * go_hour - 24 * go_hour) - of_int (70 * (24 * go_hour)) / 20\<bar> \<le> of_int (70 * (24 * go_hour)) / 20 / 2 ^ 50 + (1 :: rat)"
proof -
  have rows: "ordered_samples forecast_example ''r'' = [sample_example 0 90, sample_example 1 80, sample_example 2 70]"
    by code_simp
  have "\<forall>s \<in> set (cdb_samples forecast_example). smp_TotalBytes s < 2 ^ 53"
    by (simp add: forecast_example_def sample_example_def)
  from forecast_accuracy [OF forecast_example_value _ this]
  show ?thesis
    unfolding Let_def rows by (simp add: sample_example_def used_growth_def time_sub_def max_int64_def min_int64_def)
qed

end
