(* ===== verification/Alert_Service.thy ===== *)
theory Alert_Service
  imports Alert_Store Notification_Delivery Run_Records
begin

text \<open>
  The alert service of src/internal/alerting/service.go on top of the alert store and the
  notification service: an alert is announced when it is raised and when it is resolved, and a
  delivery that fails is itself an alert, kept in the store directly so that it announces nothing.

  The clock is that of the notification model: every observation has a number. A notifier that is
  not set is \<open>None\<close>; otherwise it answers the channels configured at its time. The call
  \<open>context.WithoutCancel\<close> is not modelled: a store statement does not fail because its context ended.
\<close>

record alert_env =
  ae_world :: notify_env
  ae_channels :: "(nat \<Rightarrow> configured_channel list outcome) option"

record alert_service =
  as_db :: alert_db
  as_notify :: notify_state

definition notification_channel_state_key :: string where
  "notification_channel_state_key = ''notification:channels:delivery''"

definition service_now :: "alert_env \<Rightarrow> alert_service \<Rightarrow> alert_service \<times> instant" where
  "service_now env svc =
     (svc\<lparr>as_notify := observed (as_notify svc)\<rparr>, env_now (ae_world env) (ns_seen (as_notify svc)))"

definition alert_message :: "alert_state \<Rightarrow> string" where
  "alert_message s =
     sig_ObjectName (ast_Signal s) @ (utf8 [0xFF1A]) @ sig_Message (ast_Signal s) @ (utf8 [0x3002, 0x6062, 0x590D, 0x6761,
        0x4EF6, 0xFF1A]) @
     sig_RecoveryCondition (ast_Signal s)"

definition channel_signal :: "delivery_result \<Rightarrow> go_error \<Rightarrow> alert_signal" where
  "channel_signal result err =
     (let channels = (if dr_FailedChannels result = [] then [''notification''] else dr_FailedChannels result);
          names = join_texts '', '' channels in
      \<lparr>sig_StateKey = notification_channel_state_key, sig_Kind = ''notification_channel'', sig_Severity = AlertCritical,
       sig_ObjectType = ''notification_channel'', sig_ObjectID = ''channels'', sig_ObjectName = names,
       sig_Reason = (utf8 [0x901A, 0x77E5, 0x6295, 0x9012, 0x6700, 0x7EC8, 0x5931, 0x8D25]),
       sig_Message = names @ ('' '' @ utf8 [0x901A, 0x77E5, 0x6295, 0x9012, 0x5931, 0x8D25, 0xFF0C, 0x6700, 0x591A,
          0x5DF2, 0x5C1D, 0x8BD5] @ '' '') @ show_int (dr_Attempts result) @ ('' '' @ utf8 [0x6B21, 0xFF1A]) @ error_text err,
       sig_TargetPage = (utf8 [0x901A, 0x77E5, 0x4E0E, 0x5BA1, 0x8BA1]),
       sig_RecoveryCondition = (utf8 [0x4E0B, 0x4E00, 0x6B21, 0x901A, 0x77E5, 0x6210, 0x529F, 0x9001, 0x8FBE, 0xFF0C,
          0x6216, 0x7BA1, 0x7406, 0x5458, 0x505C, 0x7528, 0x8BE5, 0x901A, 0x9053])\<rparr>)"

definition outcome_check :: "'a outcome \<Rightarrow> check" where
  "outcome_check r = (case r of Inl err \<Rightarrow> Some err | Inr _ \<Rightarrow> None)"

definition deliver_alert :: "alert_env \<Rightarrow> alert_service \<Rightarrow> alert_state \<Rightarrow> string \<Rightarrow> alert_service \<times> check" where
  "deliver_alert env svc s transition =
     (case ae_channels env of
        None \<Rightarrow> (svc, None)
      | Some channels \<Rightarrow>
          (case deliver_notification (ae_world env) (channels (ns_seen (as_notify svc))) (state_key s) transition
              (alert_message s) (observed (as_notify svc)) of
             (st, result, Some err) \<Rightarrow>
               (case service_now env (svc\<lparr>as_notify := st\<rparr>) of (svc1, now) \<Rightarrow>
                 (case raise_alert (as_db svc1) (channel_signal result err) now of
                    (db, r) \<Rightarrow> (svc1\<lparr>as_db := db\<rparr>, outcome_check r)))
           | (st, result, None) \<Rightarrow>
               if dr_Disabled result \<or> dr_Unconfigured result \<or> dr_Deduplicated result \<or> dr_Attempted result then
                 (case service_now env (svc\<lparr>as_notify := st\<rparr>) of (svc1, now) \<Rightarrow>
                   (case resolve_alert (as_db svc1) notification_channel_state_key now of
                      (db, r) \<Rightarrow> (svc1\<lparr>as_db := db\<rparr>, outcome_check r)))
               else (svc\<lparr>as_notify := st\<rparr>, None)))"

text \<open>The results of a call that the store refused are Go's zero values, here \<open>None\<close>.\<close>

definition service_raise :: "alert_env \<Rightarrow> alert_service \<Rightarrow> alert_signal \<Rightarrow>
    alert_service \<times> (alert_state \<times> string) option \<times> check" where
  "service_raise env svc sig =
     (case service_now env svc of (svc1, now) \<Rightarrow>
       (case raise_alert (as_db svc1) sig now of
          (db, Inl err) \<Rightarrow> (svc1\<lparr>as_db := db\<rparr>, None, Some err)
        | (db, Inr (s, transition)) \<Rightarrow>
            if transition \<noteq> AlertRaised \<or> sig_StateKey sig = notification_channel_state_key \<or> sig_Severity sig = AlertInfo
            then (svc1\<lparr>as_db := db\<rparr>, Some (s, transition), None)
            else (case deliver_alert env (svc1\<lparr>as_db := db\<rparr>) s (sig_Severity (ast_Signal s)) of
                    (svc2, err) \<Rightarrow> (svc2, Some (s, transition), err))))"

definition service_resolve :: "alert_env \<Rightarrow> alert_service \<Rightarrow> string \<Rightarrow>
    alert_service \<times> (alert_state option \<times> bool) option \<times> check" where
  "service_resolve env svc key =
     (case service_now env svc of (svc1, now) \<Rightarrow>
       (case resolve_alert (as_db svc1) key now of
          (db, Inl err) \<Rightarrow> (svc1\<lparr>as_db := db\<rparr>, None, Some err)
        | (db, Inr (None, changed)) \<Rightarrow> (svc1\<lparr>as_db := db\<rparr>, Some (None, changed), None)
        | (db, Inr (Some s, changed)) \<Rightarrow>
            if \<not> changed \<or> key = notification_channel_state_key \<or> sig_Severity (ast_Signal s) = AlertInfo
            then (svc1\<lparr>as_db := db\<rparr>, Some (Some s, changed), None)
            else (case deliver_alert env (svc1\<lparr>as_db := db\<rparr>) s ''resolved'' of
                    (svc2, err) \<Rightarrow> (svc2, Some (Some s, changed), err))))"

section \<open>The alerts of a run\<close>

definition alert_key :: "string \<Rightarrow> string \<Rightarrow> string \<Rightarrow> string" where
  "alert_key family i suff = family @ '':'' @ i @ '':'' @ suff"

definition name_or :: "string \<Rightarrow> string \<Rightarrow> string" where
  "name_or name i = (if name = [] then i else name)"

definition task_run_signal :: "task \<Rightarrow> string \<Rightarrow> alert_signal" where
  "task_run_signal t status =
     (let (severity, reason, message) =
            (if status = Partial then (AlertWarning, (utf8 [0x6700, 0x8FD1, 0x8FD0, 0x884C, 0x90E8, 0x5206, 0x6210,
               0x529F]), (utf8 [0x4EFB, 0x52A1, 0x6700, 0x8FD1, 0x4E00, 0x6B21, 0x8FD0, 0x884C, 0x53EA, 0x5B8C, 0x6210,
                  0x4E86, 0x90E8, 0x5206, 0x4FDD, 0x62A4]))
             else if status = Cancelled then (AlertInfo, (utf8 [0x6700, 0x8FD1, 0x8FD0, 0x884C, 0x5DF2, 0x53D6,
                0x6D88]), (utf8 [0x4EFB, 0x52A1, 0x6700, 0x8FD1, 0x4E00, 0x6B21, 0x8FD0, 0x884C, 0x88AB, 0x53D6, 0x6D88]))
             else if status = Skipped then (AlertWarning, (utf8 [0x6700, 0x8FD1, 0x8FD0, 0x884C, 0x88AB, 0x8DF3,
                0x8FC7]), (utf8 [0x4EFB, 0x52A1, 0x6700, 0x8FD1, 0x4E00, 0x6B21, 0x5E94, 0x6267, 0x884C, 0x8FD0, 0x884C,
                   0x88AB, 0x8DF3, 0x8FC7]))
             else (AlertCritical, (utf8 [0x6700, 0x8FD1, 0x8FD0, 0x884C, 0x5931, 0x8D25]), (utf8 [0x4EFB, 0x52A1, 0x6700,
                0x8FD1, 0x4E00, 0x6B21, 0x8FD0, 0x884C, 0x5931, 0x8D25]))) in
      \<lparr>sig_StateKey = alert_key ''task'' (task_ID t) ''run'', sig_Kind = ''task_run'', sig_Severity = severity,
       sig_ObjectType = ''task'', sig_ObjectID = task_ID t, sig_ObjectName = name_or (task_Name t) (task_ID t),
       sig_Reason = reason, sig_Message = message, sig_TargetPage = (utf8 [0x8FD0, 0x884C, 0x8BB0, 0x5F55]),
       sig_RecoveryCondition = (utf8 [0x4E0B, 0x4E00, 0x6B21, 0x4EFB, 0x52A1, 0x8FD0, 0x884C, 0x5B8C, 0x6574, 0x6210,
          0x529F])\<rparr>)"

definition observe_run :: "alert_env \<Rightarrow> alert_service \<Rightarrow> task \<Rightarrow> string \<Rightarrow> alert_service \<times> check" where
  "observe_run env svc t status0 =
     (let status = fst (parse_terminal_status status0) in
      if status = Succeeded then
        (case service_resolve env svc (alert_key ''task'' (task_ID t) ''run'') of (svc1, _, err1) \<Rightarrow>
          (case service_resolve env svc1 (alert_key ''task'' (task_ID t) ''stale'') of (svc2, _, err2) \<Rightarrow>
            (svc2, join_errors (List.map_filter id [err1, err2]))))
      else (case service_raise env svc (task_run_signal t status) of (svc1, _, err) \<Rightarrow> (svc1, err)))"

section \<open>What the service changes\<close>

text \<open>
  The delivery of an alert touches the alert of the channels only. A call that answers no error has
  the effect of the statement it makes on every other alert.
\<close>

definition channel_from :: "alert_db \<Rightarrow> alert_db \<Rightarrow> bool" where
  "channel_from db db' \<longleftrightarrow>
     (\<forall>s. alert_active db' notification_channel_state_key = Some s \<longrightarrow>
        alert_active db notification_channel_state_key = Some s \<or> sig_Kind (ast_Signal s) = ''notification_channel'')"

definition others_kept :: "alert_db \<Rightarrow> alert_db \<Rightarrow> bool" where
  "others_kept db db' \<longleftrightarrow> alert_inv db' \<and>
     (\<forall>j. j \<noteq> notification_channel_state_key \<longrightarrow> alert_active db' j = alert_active db j) \<and>
     channel_from db db'"

lemma others_kept_refl: "alert_inv db \<Longrightarrow> others_kept db db"
  by (simp add: others_kept_def channel_from_def)

lemma channel_from_refl [simp]: "channel_from db db"
  by (simp add: channel_from_def)

lemma channel_from_trans: "channel_from db db1 \<Longrightarrow> channel_from db1 db2 \<Longrightarrow> channel_from db db2"
  by (auto simp: channel_from_def)

lemma channel_from_eq:
  "alert_active db1 notification_channel_state_key = alert_active db notification_channel_state_key \<Longrightarrow> channel_from db db1"
  by (simp add: channel_from_def)

lemma alert_active_raise:
  assumes "raise_alert db sig now = (db', Inr (s, tr))"
  shows "alert_active db' j = (if j = sig_StateKey sig then Some s else alert_active db j)"
  using raise_alert_ok [OF assms] by (simp add: alert_active_def)

lemma raise_channel_keeps:
  assumes "raise_alert db (channel_signal result err) now = (db', r)" and "alert_inv db"
  shows "others_kept db db'"
proof (cases r)
  case (Inl e)
  then show ?thesis using assms by (auto dest: raise_alert_err intro: others_kept_refl)
next
  case (Inr x)
  obtain s tr where x: "x = (s, tr)" by force
  have "sig_StateKey (channel_signal result err) = notification_channel_state_key"
    "sig_Kind (channel_signal result err) = ''notification_channel''"
    by (simp_all add: channel_signal_def Let_def)
  then show ?thesis
    using raise_alert_ok(2) [of db "channel_signal result err" now db' s tr]
      alert_active_raise [of db "channel_signal result err" now db' s tr] assms(1) Inr x
      raise_alert_inv [OF assms(2), of "channel_signal result err" now]
    by (simp add: others_kept_def channel_from_def)
qed

lemma resolve_channel_keeps:
  assumes "resolve_alert db notification_channel_state_key now = (db', r)" and "alert_inv db"
  shows "others_kept db db'"
proof (cases r)
  case (Inl e)
  then show ?thesis using assms by (auto dest: resolve_alert_err intro: others_kept_refl)
next
  case (Inr x)
  obtain old changed where x: "x = (old, changed)" by force
  show ?thesis
    using resolve_alert_ok(1) [of db notification_channel_state_key now db' old changed] assms Inr x
      resolve_alert_inv [OF assms(2), of notification_channel_state_key now]
    by (simp add: others_kept_def channel_from_def)
qed

lemma as_db_service_now [simp]: "as_db (fst (service_now env svc)) = as_db svc"
  by (simp add: service_now_def)

lemma deliver_alert_keeps:
  assumes "alert_inv (as_db svc)"
  shows "others_kept (as_db svc) (as_db (fst (deliver_alert env svc s tr)))"
proof (cases "ae_channels env")
  case None
  then show ?thesis using assms by (simp add: deliver_alert_def others_kept_refl)
next
  case (Some channels)
  obtain st result err where sent: "deliver_notification (ae_world env) (channels (ns_seen (as_notify svc))) (state_key s) tr
      (alert_message s) (observed (as_notify svc)) = (st, result, err)" by (metis prod_cases3)
  obtain svc1 now where clock: "service_now env (svc\<lparr>as_notify := st\<rparr>) = (svc1, now)" by force
  have db: "as_db svc1 = as_db svc" using clock as_db_service_now [of env "svc\<lparr>as_notify := st\<rparr>"] by simp
  show ?thesis
  proof (cases err)
    case (Some e)
    obtain db' r where "raise_alert (as_db svc1) (channel_signal result e) now = (db', r)" by force
    with raise_channel_keeps [of "as_db svc"] show ?thesis
      using assms \<open>ae_channels env = Some channels\<close> sent clock db Some by (simp add: deliver_alert_def)
  next
    case None
    obtain db' r where "resolve_alert (as_db svc1) notification_channel_state_key now = (db', r)" by force
    with resolve_channel_keeps [of "as_db svc"] show ?thesis
      using assms \<open>ae_channels env = Some channels\<close> sent clock db None
      by (simp add: deliver_alert_def others_kept_refl)
  qed
qed

lemma service_raise_cases:
  assumes inv: "alert_inv (as_db svc)" and call: "service_raise env svc sig = (svc', r, err)"
  shows "alert_inv (as_db svc')"
    and "r = None \<Longrightarrow> err \<noteq> None"
    and "r = Some (s, tr) \<Longrightarrow> sig_StateKey sig \<noteq> notification_channel_state_key \<Longrightarrow> j \<noteq> notification_channel_state_key \<Longrightarrow>
      ast_Signal s = sig \<and> alert_active (as_db svc') j = (if j = sig_StateKey sig then Some s else alert_active (as_db svc) j)"
    and "sig_StateKey sig \<noteq> notification_channel_state_key \<Longrightarrow> channel_from (as_db svc) (as_db svc')"
proof -
  obtain svc1 now where clock: "service_now env svc = (svc1, now)" by force
  have db1: "as_db svc1 = as_db svc" using clock as_db_service_now [of env svc] by simp
  obtain db q where raised: "raise_alert (as_db svc1) sig now = (db, q)" by force
  have inv': "alert_inv db" using raise_alert_inv [OF inv, of sig now] raised db1 by simp
  have "alert_inv (as_db svc') \<and> (r = None \<longrightarrow> err \<noteq> None) \<and>
    (r = Some (s, tr) \<longrightarrow> sig_StateKey sig \<noteq> notification_channel_state_key \<longrightarrow> j \<noteq> notification_channel_state_key \<longrightarrow>
      ast_Signal s = sig \<and> alert_active (as_db svc') j = (if j = sig_StateKey sig then Some s else alert_active (as_db svc) j)) \<and>
    (sig_StateKey sig \<noteq> notification_channel_state_key \<longrightarrow> channel_from (as_db svc) (as_db svc'))"
  proof (cases q)
    case (Inl e)
    then have "db = as_db svc" using raised db1 raise_alert_err by auto
    then show ?thesis using call clock raised Inl inv by (auto simp: service_raise_def channel_from_def)
  next
    case (Inr x)
    obtain s' tr' where x: "x = (s', tr')" by force
    have kept: "others_kept db (as_db svc')" and r: "r = Some (s', tr')"
      using call clock raised Inr x inv' deliver_alert_keeps [of "svc1\<lparr>as_db := db\<rparr>" env s']
      by (auto simp: service_raise_def others_kept_refl split: if_splits prod.splits) (metis alert_service.select_convs(1) alert_service.surjective alert_service.update_convs(1) fst_conv)
    then show ?thesis
      using alert_active_raise [of "as_db svc" sig now db s' tr'] raise_alert_ok(2) [of "as_db svc" sig now db s' tr']
        raised Inr x db1 channel_from_trans [of "as_db svc" db "as_db svc'"] channel_from_eq [of db "as_db svc"]
      by (auto simp: others_kept_def)
  qed
  then show "alert_inv (as_db svc')" and "r = None \<Longrightarrow> err \<noteq> None"
    and "r = Some (s, tr) \<Longrightarrow> sig_StateKey sig \<noteq> notification_channel_state_key \<Longrightarrow> j \<noteq> notification_channel_state_key \<Longrightarrow>
      ast_Signal s = sig \<and> alert_active (as_db svc') j = (if j = sig_StateKey sig then Some s else alert_active (as_db svc) j)"
    and "sig_StateKey sig \<noteq> notification_channel_state_key \<Longrightarrow> channel_from (as_db svc) (as_db svc')"
    by blast+
qed

lemma service_resolve_cases:
  assumes inv: "alert_inv (as_db svc)" and call: "service_resolve env svc key = (svc', r, err)"
  shows "alert_inv (as_db svc')"
    and "r = None \<Longrightarrow> err \<noteq> None"
    and "r \<noteq> None \<Longrightarrow> j \<noteq> notification_channel_state_key \<Longrightarrow>
      alert_active (as_db svc') j = (if j = key then None else alert_active (as_db svc) j)"
    and "channel_from (as_db svc) (as_db svc')"
proof -
  obtain svc1 now where clock: "service_now env svc = (svc1, now)" by force
  have db1: "as_db svc1 = as_db svc" using clock as_db_service_now [of env svc] by simp
  obtain db q where resolved: "resolve_alert (as_db svc1) key now = (db, q)" by force
  have inv': "alert_inv db" using resolve_alert_inv [OF inv, of key now] resolved db1 by simp
  have "alert_inv (as_db svc') \<and> (r = None \<longrightarrow> err \<noteq> None) \<and>
    (r \<noteq> None \<longrightarrow> j \<noteq> notification_channel_state_key \<longrightarrow>
      alert_active (as_db svc') j = (if j = key then None else alert_active (as_db svc) j)) \<and>
    channel_from (as_db svc) (as_db svc')"
  proof (cases q)
    case (Inl e)
    then have "db = as_db svc" using resolved db1 resolve_alert_err by auto
    then show ?thesis using call clock resolved Inl inv by (auto simp: service_resolve_def channel_from_def)
  next
    case (Inr x)
    obtain old changed where x: "x = (old, changed)" by force
    have kept: "others_kept db (as_db svc')"
      using call clock resolved Inr x inv' deliver_alert_keeps [of "svc1\<lparr>as_db := db\<rparr>" env "the old" "''resolved''"]
      by (auto simp: service_resolve_def others_kept_refl split: if_splits prod.splits option.splits)
    have r: "r \<noteq> None"
      using call clock resolved Inr x by (auto simp: service_resolve_def split: if_splits prod.splits option.splits)
    have active: "alert_active db j = (if j = key then None else alert_active (as_db svc) j)" for j
      using resolve_alert_ok(1) [of "as_db svc" key now db old changed j] resolved Inr x db1 inv by simp
    then have "channel_from (as_db svc) db" by (simp add: channel_from_def)
    then show ?thesis
      using active [of j] kept channel_from_trans r by (simp add: others_kept_def) blast
  qed
  then show "alert_inv (as_db svc')" and "r = None \<Longrightarrow> err \<noteq> None"
    and "r \<noteq> None \<Longrightarrow> j \<noteq> notification_channel_state_key \<Longrightarrow>
      alert_active (as_db svc') j = (if j = key then None else alert_active (as_db svc) j)"
    and "channel_from (as_db svc) (as_db svc')"
    by blast+
qed

lemma observe_run_inv:
  assumes "alert_inv (as_db svc)"
  shows "alert_inv (as_db (fst (observe_run env svc t status)))"
proof -
  obtain svc1 r1 err1 where one: "service_resolve env svc (alert_key ''task'' (task_ID t) ''run'') = (svc1, r1, err1)"
    by (metis prod_cases3)
  obtain svc2 r2 err2 where two: "service_resolve env svc1 (alert_key ''task'' (task_ID t) ''stale'') = (svc2, r2, err2)"
    by (metis prod_cases3)
  obtain svc3 r3 err3 where three: "service_raise env svc (task_run_signal t (fst (parse_terminal_status status))) = (svc3, r3, err3)"
    by (metis prod_cases3)
  have "alert_inv (as_db svc2)" "alert_inv (as_db svc3)"
    using service_resolve_cases(1) [OF assms one] service_resolve_cases(1) [OF _ two] service_raise_cases(1) [OF assms three]
    by blast+
  then show ?thesis using one two three by (simp add: observe_run_def Let_def)
qed

end
