(* ===== verification/Utc_Text.thy ===== *)
theory Utc_Text
  imports Domain_Model
begin

text \<open>
  \<open>t.UTC().Format(time.RFC3339)\<close>: the civil date of a day count in the proleptic Gregorian
  calendar (the year starts in March inside the computation, so the leap day comes last), the
  time of day, and \<open>Z\<close>.
\<close>

definition civil_date :: "int \<Rightarrow> int \<times> int \<times> int" where
  "civil_date days =
     (let z = days + 719468; era = z div 146097; doe = z mod 146097;
          yoe = (doe - doe div 1460 + doe div 36524 - doe div 146096) div 365;
          doy = doe - (365 * yoe + yoe div 4 - yoe div 100);
          mp = (5 * doy + 2) div 153;
          month = (if mp < 10 then mp + 3 else mp - 9) in
      (yoe + era * 400 + (if month \<le> 2 then 1 else 0), month, doy - (153 * mp + 2) div 5 + 1))"

definition pad_zeros :: "nat \<Rightarrow> int \<Rightarrow> string" where
  "pad_zeros width v =
     (let ds = show_nat (nat \<bar>v\<bar>) in
      (if v < 0 then ''-'' else []) @ replicate (width - length ds) CHR ''0'' @ ds)"

definition rfc3339_text :: "instant \<Rightarrow> string" where
  "rfc3339_text t =
     (let s = seconds t; (year, month, day) = civil_date (s div 86400); r = s mod 86400 in
      pad_zeros 4 year @ ''-'' @ pad_zeros 2 month @ ''-'' @ pad_zeros 2 day @ ''T'' @
      pad_zeros 2 (r div 3600) @ '':'' @ pad_zeros 2 (r mod 3600 div 60) @ '':'' @ pad_zeros 2 (r mod 60) @ ''Z'')"

lemma rfc3339_examples:
  "rfc3339_text 0 = ''1970-01-01T00:00:00Z''"
  "rfc3339_text zero_time = ''0001-01-01T00:00:00Z''"
  "rfc3339_text (1709251199 * nanos + 5) = ''2024-02-29T23:59:59Z''"
  "rfc3339_text (-1 * nanos) = ''1969-12-31T23:59:59Z''"
  by code_simp+

end
