(* ===== verification/Alert_Reconciler.thy ===== *)
theory Alert_Reconciler
  imports Alert_Service Agent_Registry Occurrence_Store Restore_Verification Repository_Capacity Utc_Text "HOL-Library.AList"
begin

text \<open>
  The health reconciliation of src/internal/alerting/reconciler.go. What each object's state asks
  for is the list of its actions in the order of the code: an alert is seen, raised or resolved.
  Carrying them out keeps the map of active alerts beside the store's. Go's order of iteration over
  that map is an argument.

  The tables are read once, before anything is decided, so their contents are arguments; a map
  that misses a key answers \<open>None\<close> for Go's zero value.
\<close>

datatype alert_action = Seen string | Raise alert_signal | Resolve string

record reconcile_inputs =
  ri_tasks :: "task list"
  ri_health :: "string \<rightharpoonup> task_run_health"
  ri_repositories :: "repository list"
  ri_capacity :: "capacity_policy list"
  ri_forecast :: "string \<Rightarrow> capacity_forecast outcome"
  ri_agents :: "agent list"
  ri_plans :: "plan list"
  ri_maintenance :: "maintenance_policy list"
  ri_verifications :: "restore_verification_policy list"
  ri_latest :: "string \<rightharpoonup> restore_verification"
  ri_latest_success :: "string \<rightharpoonup> restore_verification"
  ri_cleanup :: "string \<rightharpoonup> restore_verification"
  ri_plan_occurrences :: "string \<rightharpoonup> occurrence"
  ri_maintenance_occurrences :: "string \<rightharpoonup> occurrence"
  ri_verification_occurrences :: "string \<rightharpoonup> occurrence"

section \<open>What each object asks for\<close>

type_synonym state_id = string
type_synonym severity = string
type_synonym message_text = string

definition signal :: "state_id \<Rightarrow> string \<Rightarrow> severity \<Rightarrow> string \<Rightarrow> string \<Rightarrow> string \<Rightarrow> string \<Rightarrow> message_text \<Rightarrow> string \<Rightarrow> message_text \<Rightarrow> alert_signal" where
  "signal key kind severity object_type object_id object_name reason message page recovery =
     \<lparr>sig_StateKey = key, sig_Kind = kind, sig_Severity = severity, sig_ObjectType = object_type, sig_ObjectID = object_id,
      sig_ObjectName = object_name, sig_Reason = reason, sig_Message = message, sig_TargetPage = page,
      sig_RecoveryCondition = recovery\<rparr>"

definition hours :: "int \<Rightarrow> duration" where
  "hours n = to_int64 (n * go_hour)"

definition reconcile_task :: "task \<Rightarrow> task_run_health option \<Rightarrow> instant \<Rightarrow> alert_action list" where
  "reconcile_task t health now =
     (let run_key = alert_key ''task'' (task_ID t) ''run''; stale_key = alert_key ''task'' (task_ID t) ''stale'';
          baseline = (case Option.bind health trh_LastSuccessAt of None \<Rightarrow> task_CreatedAt t | Some at_ \<Rightarrow> at_) in
      [Seen run_key, Seen stale_key] @
      (if \<not> task_Enabled t then [Resolve run_key, Resolve stale_key]
       else
         (case Option.bind health trh_Latest of
            None \<Rightarrow> [Resolve run_key]
          | Some latest \<Rightarrow>
              if \<not> snd (parse_terminal_status (rec_Status latest)) then []
              else if rec_Status latest = Succeeded then [Resolve run_key]
              else [Raise (task_run_signal t (rec_Status latest))]) @
         (if task_MaxSuccessAgeHours t = 0 then [Resolve stale_key]
          else if baseline = zero_time \<or> now < baseline + hours (task_MaxSuccessAgeHours t) then [Resolve stale_key]
          else [Raise (signal stale_key ''task_stale'' AlertCritical ''task'' (task_ID t) (name_or (task_Name t) (task_ID t))
            (utf8 [0x957F, 0x671F, 0x65E0, 0x5B8C, 0x6574, 0x6210, 0x529F])
            ((utf8 [0x4EFB, 0x52A1, 0x5DF2, 0x8D85,
               0x8FC7] @ '' '') @ show_int (task_MaxSuccessAgeHours t) @ ('' '' @ utf8 [0x5C0F, 0x65F6, 0x6CA1, 0x6709,
                  0x5B8C, 0x6574, 0x6210, 0x529F]))
            (utf8 [0x8FD0, 0x884C, 0x8BB0, 0x5F55])
            (utf8 [0x4EFB, 0x52A1, 0x5B8C, 0x6210, 0x4E00, 0x6B21, 0x5B8C, 0x6574, 0x6210, 0x529F, 0x8FD0, 0x884C]))])))"

text \<open>The available share in percent, each operation rounded to a \<open>float64\<close>.\<close>

definition available_percent :: "repository_capacity \<Rightarrow> rat" where
  "available_percent c =
     round64 (round64 (round64 (of_int (uint (cap_AvailableBytes c))) * 100) / round64 (of_int (uint (cap_TotalBytes c))))"

definition below_percent :: "float64 \<Rightarrow> rat \<Rightarrow> bool" where
  "below_percent limit percent =
     (case limit of NaN \<Rightarrow> False | PosInf \<Rightarrow> True | NegInf \<Rightarrow> False | Finite q \<Rightarrow> q > 0 \<and> percent < q)"

definition repository_signal :: "repository \<Rightarrow> state_id \<Rightarrow> string \<Rightarrow> severity \<Rightarrow> string \<Rightarrow> message_text \<Rightarrow> message_text \<Rightarrow> alert_signal" where
  "repository_signal r suff kind severity reason message recovery =
     signal (alert_key ''repository'' (repo_ID r) suff) kind severity ''repository'' (repo_ID r) (name_or (repo_Name r) (repo_ID r))
       reason message (utf8 [0x5907, 0x4EFD, 0x4ED3, 0x5E93]) recovery"

definition reconcile_integrity :: "repository \<Rightarrow> alert_action list" where
  "reconcile_integrity r =
     (if repo_Status r = ''abnormal'' \<or> prefix ''unprotected-partial:'' (repo_Status r)
      then [Raise (repository_signal r ''integrity'' ''repository_abnormal'' AlertCritical
        (utf8 [0x4ED3, 0x5E93, 0x72B6, 0x6001, 0x5F02, 0x5E38])
        (utf8 [0x4ED3, 0x5E93, 0x5B8C, 0x6574, 0x6027, 0x6216, 0x90E8, 0x5206, 0x5FEB, 0x7167, 0x4FDD, 0x62A4, 0x72B6,
           0x6001, 0x5F02, 0x5E38])
        ((utf8 [0x4ED3, 0x5E93, 0x68C0, 0x67E5, 0x901A, 0x8FC7, 0x4E14, 0x72B6, 0x6001, 0x6062, 0x590D, 0x4E3A] @ '' ready'')))]
      else if repo_Status r = ''ready'' \<or> repo_Status r = ''uninitialized''
      then [Resolve (alert_key ''repository'' (repo_ID r) ''integrity'')] else [])"

definition reconcile_space :: "repository \<Rightarrow> capacity_policy \<Rightarrow> capacity_forecast \<Rightarrow> instant \<Rightarrow> alert_action list" where
  "reconcile_space r p fc now =
     (let low_key = alert_key ''repository'' (repo_ID r) ''capacity-low'';
          forecast_key = alert_key ''repository'' (repo_ID r) ''capacity-forecast'' in
      case repo_Capacity r of
        None \<Rightarrow> [Resolve low_key, Resolve forecast_key]
      | Some c \<Rightarrow>
          if cap_TotalBytes c = 0 then [Resolve low_key, Resolve forecast_key]
          else
            (let percent = available_percent c;
                 below_bytes = (cpol_MinimumAvailableBytes p > 0 \<and> cap_AvailableBytes c < cpol_MinimumAvailableBytes p) in
             if below_bytes \<or> below_percent (cpol_MinimumAvailablePercent p) percent
             then [Raise (repository_signal r ''capacity-low'' ''repository_capacity_low'' AlertCritical
               (utf8 [0x4ED3, 0x5E93, 0x53EF, 0x7528, 0x5BB9, 0x91CF, 0x4E0D, 0x8DB3])
               ((utf8 [0x4ED3, 0x5E93, 0x53EF, 0x7528, 0x5BB9, 0x91CF,
                  0x4E3A] @ '' '') @ show_int (uint (cap_AvailableBytes c)) @ ('' '' @ utf8 [0x5B57, 0x8282, 0xFF08]) @
                 tenths_text percent @ (''%'' @ utf8 [0xFF09, 0xFF0C, 0x4F4E, 0x4E8E, 0x5DF2, 0x914D, 0x7F6E, 0x9608, 0x503C]))
               (utf8 [0x4ED3, 0x5E93, 0x53EF, 0x7528, 0x5BB9, 0x91CF, 0x540C, 0x65F6, 0x6062, 0x590D, 0x5230, 0x5DF2,
                  0x914D, 0x7F6E, 0x7684, 0x7EDD, 0x5BF9, 0x503C, 0x548C, 0x767E, 0x5206, 0x6BD4, 0x9608, 0x503C, 0x4EE5, 0x4E0A]))]
             else [Resolve low_key]) @
            (case fc_EstimatedExhaustionAt fc of
               None \<Rightarrow> [Resolve forecast_key]
             | Some exhausted \<Rightarrow>
                 if cpol_ExhaustionWarningDays p > 0 \<and> fc_Status fc = CapacityForecastReady \<and>
                    \<not> exhausted > now + to_int64 (cpol_ExhaustionWarningDays p * (24 * go_hour))
                 then [Raise (repository_signal r ''capacity-forecast'' ''repository_capacity_forecast'' AlertWarning
                   (utf8 [0x4ED3, 0x5E93, 0x5BB9, 0x91CF, 0x9884, 0x8BA1, 0x5373, 0x5C06, 0x8017, 0x5C3D])
                   ((utf8 [0x6309, 0x8FD1, 0x671F, 0x589E, 0x957F, 0x8D8B, 0x52BF, 0xFF0C, 0x4ED3, 0x5E93, 0x5BB9, 0x91CF,
                      0x9884, 0x8BA1, 0x5728] @ '' '') @ rfc3339_text exhausted @ ('' '' @ utf8 [0x8017, 0x5C3D]))
                   (utf8 [0x9884, 0x8BA1, 0x8017, 0x5C3D, 0x65F6, 0x95F4, 0x8D85, 0x51FA, 0x914D, 0x7F6E, 0x7684, 0x9884,
                      0x8B66, 0x5929, 0x6570, 0xFF0C, 0x6216, 0x8FD1, 0x671F, 0x6570, 0x636E, 0x4E0D, 0x518D, 0x5448, 0x6B63, 0x589E, 0x957F]))]
                 else [Resolve forecast_key]))"

definition reconcile_probe :: "repository \<Rightarrow> capacity_policy \<Rightarrow> instant \<Rightarrow> alert_action list" where
  "reconcile_probe r p now =
     (let stale_key = alert_key ''repository'' (repo_ID r) ''capacity-stale'';
          probe_key = alert_key ''repository'' (repo_ID r) ''capacity-probe'';
          baseline = (case cpol_LastSuccessAt p of None \<Rightarrow> cpol_UpdatedAt p | Some at_ \<Rightarrow> at_) in
      (if baseline = zero_time \<or> now < baseline + to_int64 (2 * cpol_ProbeIntervalMinutes p * go_minute)
       then [Resolve stale_key]
       else [Raise (repository_signal r ''capacity-stale'' ''repository_capacity_stale'' AlertWarning
         (utf8 [0x4ED3, 0x5E93, 0x5BB9, 0x91CF, 0x6570, 0x636E, 0x5DF2, 0x8FC7, 0x671F])
         ((utf8 [0x5BB9, 0x91CF, 0x63A2, 0x6D4B, 0x5DF2, 0x8D85,
            0x8FC7] @ '' '') @ show_int (to_int64 (2 * cpol_ProbeIntervalMinutes p)) @ ('' '' @ utf8 [0x5206, 0x949F,
               0x6CA1, 0x6709, 0x6210, 0x529F]))
         (utf8 [0x540E, 0x53F0, 0x6216, 0x624B, 0x52A8, 0x5BB9, 0x91CF, 0x63A2, 0x6D4B, 0x6210, 0x529F]))]) @
      (if cpol_LastError p = [] then [Resolve probe_key]
       else [Raise (repository_signal r ''capacity-probe'' ''repository_capacity_probe_failed'' AlertWarning
         (utf8 [0x4ED3, 0x5E93, 0x5BB9, 0x91CF, 0x63A2, 0x6D4B, 0x5931, 0x8D25]) (cpol_LastError p)
         (utf8 [0x4E0B, 0x4E00, 0x6B21, 0x540E, 0x53F0, 0x6216, 0x624B, 0x52A8, 0x5BB9, 0x91CF, 0x63A2, 0x6D4B, 0x6210,
            0x529F]))]))"

definition repository_suffixes :: "string list" where
  "repository_suffixes = [''integrity'', ''capacity-low'', ''capacity-forecast'', ''capacity-stale'', ''capacity-probe'']"

definition reconcile_repository :: "repository \<Rightarrow> capacity_policy \<Rightarrow> capacity_forecast \<Rightarrow> instant \<Rightarrow> alert_action list" where
  "reconcile_repository r p fc now =
     map (\<lambda>s. Seen (alert_key ''repository'' (repo_ID r) s)) repository_suffixes @
     reconcile_integrity r @
     (if \<not> cpol_Enabled p \<or> repo_Status r = ''uninitialized'' \<or> repo_Status r = ''disconnected''
      then map (\<lambda>s. Resolve (alert_key ''repository'' (repo_ID r) s)) (tl repository_suffixes)
      else reconcile_space r p fc now @ reconcile_probe r p now)"

abbreviation heartbeat_timeout :: duration where "heartbeat_timeout \<equiv> 2 * go_minute"
abbreviation agent_protocol_version :: int where "agent_protocol_version \<equiv> 1"

definition is_online :: "agent \<Rightarrow> instant \<Rightarrow> bool" where
  "is_online a now \<longleftrightarrow> ag_Status a = ''online'' \<and>
     (case ag_LastHeartbeatAt a of None \<Rightarrow> False | Some beat \<Rightarrow> \<not> beat < now + - heartbeat_timeout)"

definition agent_signal :: "agent \<Rightarrow> state_id \<Rightarrow> string \<Rightarrow> severity \<Rightarrow> string \<Rightarrow> message_text \<Rightarrow> message_text \<Rightarrow> alert_signal" where
  "agent_signal a suff kind severity reason message recovery =
     signal (alert_key ''agent'' (ag_ID a) suff) kind severity ''agent'' (ag_ID a) (ag_ID a) reason message
       (''Agent '' @ utf8 [0x8282, 0x70B9]) recovery"

definition agent_suffixes :: "string list" where
  "agent_suffixes = [''offline'', ''protocol'', ''certificate-expiry'', ''certificate-renewal'']"

definition reconcile_protocol :: "agent \<Rightarrow> alert_action list" where
  "reconcile_protocol a =
     (let low = rt_ProtocolMin (ag_Runtime a); high = rt_ProtocolMax (ag_Runtime a) in
      if low \<ge> 1 \<and> low \<le> agent_protocol_version \<and> high \<ge> agent_protocol_version
      then [Resolve (alert_key ''agent'' (ag_ID a) ''protocol'')]
      else [Raise (agent_signal a ''protocol'' ''agent_protocol'' AlertWarning
        (''Agent '' @ utf8 [0x534F, 0x8BAE, 0x4E0D, 0x517C, 0x5BB9])
        (if low = 0 \<and> high = 0 then (''Agent '' @ utf8 [0x5C1A, 0x672A, 0x4E0A, 0x62A5, 0x7ED3, 0x6784, 0x5316,
           0x534F, 0x8BAE, 0x8303, 0x56F4, 0xFF1B, 0x8BF7, 0x5347, 0x7EA7, 0x540E, 0x518D, 0x542F, 0x7528, 0x65B0, 0x4EFB, 0x52A1])
         else (''Agent '' @ utf8 [0x4E0A, 0x62A5, 0x534F, 0x8BAE, 0x8303,
            0x56F4] @ '' '') @ show_int low @ ''-'' @ show_int high @ (utf8 [0xFF0C, 0x63A7, 0x5236, 0x670D, 0x52A1,
               0x9700, 0x8981, 0x534F, 0x8BAE] @ '' '') @ show_int agent_protocol_version)
        (''Agent '' @ utf8 [0x5347, 0x7EA7, 0x5E76, 0x4E0A, 0x62A5, 0x5305, 0x542B, 0x5F53, 0x524D, 0x63A7, 0x5236,
           0x670D, 0x52A1, 0x534F, 0x8BAE, 0x7684, 0x517C, 0x5BB9, 0x8303, 0x56F4]))])"

definition reconcile_certificate :: "agent \<Rightarrow> instant \<Rightarrow> alert_action list" where
  "reconcile_certificate a now =
     (let key = alert_key ''agent'' (ag_ID a) ''certificate-expiry'' in
      case ag_CertificateNotAfter a of
        None \<Rightarrow> [Resolve key]
      | Some not_after \<Rightarrow>
          if not_after > now + 30 * 24 * go_hour then [Resolve key]
          else
            let remaining = time_sub not_after now;
                severity = (if remaining \<le> 7 * 24 * go_hour then AlertCritical
                            else if remaining \<le> 14 * 24 * go_hour then AlertWarning else AlertInfo) in
            [Raise (agent_signal a ''certificate-expiry'' ''agent_certificate_expiry'' severity
               (''Agent '' @ utf8 [0x8BC1, 0x4E66, 0x5373, 0x5C06, 0x5230, 0x671F])
               ((''Agent '' @ utf8 [0x5BA2, 0x6237, 0x7AEF, 0x8BC1, 0x4E66, 0x5C06,
                  0x5728] @ '' '') @ rfc3339_text not_after @ ('' '' @ utf8 [0x5230, 0x671F]))
               (''Agent '' @ utf8 [0x5B8C, 0x6210, 0x6EDA, 0x52A8, 0x7EED, 0x671F, 0x5E76, 0x4F7F, 0x7528, 0x65B0, 0x8BC1,
                  0x4E66, 0x6062, 0x590D, 0x5FC3, 0x8DF3]))])"

definition reconcile_agent :: "agent \<Rightarrow> instant \<Rightarrow> alert_action list" where
  "reconcile_agent a now =
     map (\<lambda>s. Seen (alert_key ''agent'' (ag_ID a) s)) agent_suffixes @
     (if ag_RevokedAt a \<noteq> None \<or> ag_UninstalledAt a \<noteq> None
      then map (\<lambda>s. Resolve (alert_key ''agent'' (ag_ID a) s)) agent_suffixes
      else
        (if is_online a now then [Resolve (alert_key ''agent'' (ag_ID a) ''offline'')]
         else [Raise (agent_signal a ''offline'' ''agent_offline'' AlertCritical
           (''Agent '' @ utf8 [0x79BB, 0x7EBF])
           (case ag_LastHeartbeatAt a of
              None \<Rightarrow> (''Agent '' @ utf8 [0x5F53, 0x524D, 0x79BB, 0x7EBF, 0x6216, 0x5C1A, 0x672A, 0x5EFA,
                 0x7ACB, 0x5FC3, 0x8DF3])
            | Some beat \<Rightarrow> (''Agent '' @ utf8 [0x6700, 0x540E, 0x5FC3, 0x8DF3, 0x65F6, 0x95F4,
               0x4E3A] @ '' '') @ rfc3339_text beat)
           (''Agent '' @ utf8 [0x6062, 0x590D, 0x6709, 0x6548, 0x5FC3, 0x8DF3]))]) @
        reconcile_protocol a @ reconcile_certificate a now @
        (if rt_RenewalStatus (ag_Runtime a) = ''failed''
         then [Raise (agent_signal a ''certificate-renewal'' ''agent_certificate_renewal'' AlertWarning
           (''Agent '' @ utf8 [0x8BC1, 0x4E66, 0x7EED, 0x671F, 0x5931, 0x8D25])
           (''Agent '' @ utf8 [0x6700, 0x8FD1, 0x4E00, 0x6B21, 0x6EDA, 0x52A8, 0x8BC1, 0x4E66, 0x7EED, 0x671F, 0x672A,
              0x5B8C, 0x6210, 0xFF1B, 0x65E7, 0x8BC1, 0x4E66, 0x4ECD, 0x4FDD, 0x6301, 0x6709, 0x6548])
           (''Agent '' @ utf8 [0x4F7F, 0x7528, 0x65E7, 0x8BC1, 0x4E66, 0x91CD, 0x8BD5, 0x5E76, 0x4EE5, 0x65B0, 0x8BC1,
              0x4E66, 0x5B8C, 0x6210, 0x6709, 0x6548, 0x5FC3, 0x8DF3]))]
         else [Resolve (alert_key ''agent'' (ag_ID a) ''certificate-renewal'')]))"

definition occurrence_reason :: "string \<Rightarrow> string \<times> string" where
  "occurrence_reason status =
     (if status = ''partial'' then (AlertWarning, (utf8 [0x8BA1, 0x5212, 0x90E8, 0x5206, 0x6210, 0x529F]))
      else if status = ''cancelled'' then (AlertInfo, (utf8 [0x8BA1, 0x5212, 0x5DF2, 0x53D6, 0x6D88]))
      else if status = ''skipped'' then (AlertWarning, (utf8 [0x8BA1, 0x5212, 0x88AB, 0x8DF3, 0x8FC7]))
      else if status = ''missed'' then (AlertCritical, (utf8 [0x8BA1, 0x5212, 0x9519, 0x8FC7]))
      else if status = ''interrupted'' then (AlertCritical, (utf8 [0x8BA1, 0x5212, 0x56E0, 0x670D, 0x52A1, 0x91CD, 0x542F,
         0x4E2D, 0x65AD]))
      else (AlertCritical, (utf8 [0x8BA1, 0x5212, 0x6267, 0x884C, 0x5931, 0x8D25])))"

definition reconcile_occurrence :: "string \<Rightarrow> string \<Rightarrow> string \<Rightarrow> string \<Rightarrow> string \<Rightarrow> string \<Rightarrow> occurrence option \<Rightarrow> alert_action list" where
  "reconcile_occurrence key kind object_type object_id object_name page occurrence =
     (case occurrence of
        None \<Rightarrow> []
      | Some occ \<Rightarrow>
          if occ_ID occ = [] \<or> occ_Status occ = ''pending'' \<or> occ_Status occ = ''running'' then []
          else if occ_Status occ = ''success'' then [Resolve key]
          else [Raise (signal key kind (fst (occurrence_reason (occ_Status occ))) object_type object_id object_name
            (snd (occurrence_reason (occ_Status occ)))
            ((utf8 [0x6700, 0x8FD1, 0x4E00, 0x6B21, 0x8BA1, 0x5212, 0x53D1, 0x751F, 0x72B6, 0x6001,
               0x4E3A] @ '' '') @ occ_Status occ) page
            (utf8 [0x4E0B, 0x4E00, 0x6B21, 0x8BA1, 0x5212, 0x53D1, 0x751F, 0x5B8C, 0x6574, 0x6210, 0x529F]))])"

definition reconcile_plan :: "plan \<Rightarrow> occurrence option \<Rightarrow> alert_action list" where
  "reconcile_plan p occurrence =
     (let key = alert_key ''plan'' (plan_ID p) ''schedule'' in
      Seen key #
      (if \<not> plan_Enabled p then [Resolve key]
       else reconcile_occurrence key ''plan_schedule'' ''plan'' (plan_ID p) (plan_Name p) (utf8 [0x5907, 0x4EFD, 0x8BA1,
          0x5212]) occurrence))"

definition reconcile_maintenance :: "maintenance_policy \<Rightarrow> string \<Rightarrow> occurrence option \<Rightarrow> alert_action list" where
  "reconcile_maintenance m name occurrence =
     (let key = alert_key ''maintenance'' (mp_RepositoryID m) ''schedule'' in
      Seen key #
      (if \<not> mp_Enabled m then [Resolve key]
       else reconcile_occurrence key ''maintenance_schedule'' ''repository'' (mp_RepositoryID m) name (utf8 [0x5907,
          0x4EFD, 0x4ED3, 0x5E93]) occurrence))"

definition verification_suffixes :: "string list" where
  "verification_suffixes = [''schedule'', ''stale'', ''result'', ''cleanup'']"

definition verification_signal :: "restore_verification_policy \<Rightarrow> string \<Rightarrow> state_id \<Rightarrow> string \<Rightarrow> severity \<Rightarrow> string \<Rightarrow> message_text \<Rightarrow> message_text \<Rightarrow> alert_signal" where
  "verification_signal p name suff kind severity reason message recovery =
     signal (alert_key ''restore-verification'' (rvp_TaskID p) suff) kind severity ''task'' (rvp_TaskID p) name reason message
       (utf8 [0x5FEB, 0x7167, 0x4E0E, 0x6062, 0x590D]) recovery"

definition reconcile_verification_occurrence :: "restore_verification_policy \<Rightarrow> string \<Rightarrow> occurrence option \<Rightarrow> alert_action list" where
  "reconcile_verification_occurrence p name occurrence =
     (case occurrence of
        None \<Rightarrow> []
      | Some occ \<Rightarrow>
          if occ_ID occ = [] \<or> occ_Status occ = ''pending'' \<or> occ_Status occ = ''running'' then []
          else if occ_Status occ = ''success'' then [Resolve (alert_key ''restore-verification'' (rvp_TaskID p) ''schedule'')]
          else
            let (severity, reason) =
                  (if occ_Status occ = ''cancelled'' then (AlertInfo, (utf8 [0x6062, 0x590D, 0x9A8C, 0x8BC1, 0x8BA1,
                     0x5212, 0x5DF2, 0x53D6, 0x6D88]))
                   else if occ_Status occ = ''missed'' then (AlertCritical, (utf8 [0x6062, 0x590D, 0x9A8C, 0x8BC1, 0x8BA1,
                      0x5212, 0x9519, 0x8FC7]))
                   else if occ_Status occ = ''interrupted'' then (AlertCritical, (utf8 [0x6062, 0x590D, 0x9A8C, 0x8BC1,
                      0x8BA1, 0x5212, 0x56E0, 0x670D, 0x52A1, 0x91CD, 0x542F, 0x4E2D, 0x65AD]))
                   else (AlertCritical, (utf8 [0x6062, 0x590D, 0x9A8C, 0x8BC1, 0x8BA1, 0x5212, 0x5931, 0x8D25]))) in
            [Raise (verification_signal p name ''schedule'' ''restore_verification_schedule'' severity reason
               ((utf8 [0x6700, 0x8FD1, 0x4E00, 0x6B21, 0x6062, 0x590D, 0x9A8C, 0x8BC1, 0x8BA1, 0x5212, 0x72B6, 0x6001,
                  0x4E3A] @ '' '') @ occ_Status occ)
               (utf8 [0x4E0B, 0x4E00, 0x6B21, 0x6062, 0x590D, 0x9A8C, 0x8BC1, 0x8BA1, 0x5212, 0x5B8C, 0x6574, 0x6210, 0x529F]))])"

definition reconcile_verification_age :: "restore_verification_policy \<Rightarrow> string \<Rightarrow> restore_verification option \<Rightarrow> instant \<Rightarrow> alert_action list" where
  "reconcile_verification_age p name latest_success now =
     (let baseline = (case latest_success of
            None \<Rightarrow> rvp_UpdatedAt p
          | Some v \<Rightarrow> if rv_ID v = [] then rvp_UpdatedAt p
                     else (case rv_FinishedAt v of None \<Rightarrow> rv_StartedAt v | Some at_ \<Rightarrow> at_)) in
      if baseline = zero_time \<or> now < baseline + hours (rvp_MaximumSuccessAgeHours p)
      then [Resolve (alert_key ''restore-verification'' (rvp_TaskID p) ''stale'')]
      else [Raise (verification_signal p name ''stale'' ''restore_verification_stale'' AlertCritical
        (utf8 [0x6062, 0x590D, 0x9A8C, 0x8BC1, 0x8FC7, 0x671F])
        ((utf8 [0x4EFB, 0x52A1, 0x5DF2, 0x8D85,
           0x8FC7] @ '' '') @ show_int (rvp_MaximumSuccessAgeHours p) @ ('' '' @ utf8 [0x5C0F, 0x65F6, 0x6CA1, 0x6709,
              0x6210, 0x529F, 0x5B8C, 0x6210, 0x771F, 0x5B9E, 0x6062, 0x590D, 0x9A8C, 0x8BC1]))
        (utf8 [0x6062, 0x590D, 0x9A8C, 0x8BC1, 0x6210, 0x529F, 0x5E76, 0x5B8C, 0x6210, 0x4E34, 0x65F6, 0x6587, 0x4EF6,
           0x6E05, 0x7406]))])"

definition reconcile_verification_result :: "restore_verification_policy \<Rightarrow> string \<Rightarrow> restore_verification option \<Rightarrow> alert_action list" where
  "reconcile_verification_result p name latest =
     (let key = alert_key ''restore-verification'' (rvp_TaskID p) ''result'' in
      case latest of
        None \<Rightarrow> [Resolve key]
      | Some v \<Rightarrow>
          if rv_ID v = [] then [Resolve key]
          else if rv_Status v = ''success'' then [Resolve key]
          else if rv_Status v = ''running'' then []
          else
            let (severity, reason) =
                  (if rv_Status v = ''cancelled'' then (AlertInfo, (utf8 [0x6062, 0x590D, 0x9A8C, 0x8BC1, 0x5DF2, 0x53D6,
                     0x6D88]))
                   else if rv_Status v = ''interrupted'' then (AlertCritical, (utf8 [0x6062, 0x590D, 0x9A8C, 0x8BC1,
                      0x56E0, 0x670D, 0x52A1, 0x91CD, 0x542F, 0x4E2D, 0x65AD]))
                   else if rv_Status v = ''cleanup_required'' then (AlertCritical, (utf8 [0x6062, 0x590D, 0x9A8C, 0x8BC1,
                      0x6E05, 0x7406, 0x5931, 0x8D25]))
                   else (AlertCritical, (utf8 [0x6062, 0x590D, 0x9A8C, 0x8BC1, 0x5931, 0x8D25])));
                message = (utf8 [0x6700, 0x8FD1, 0x4E00, 0x6B21, 0x771F, 0x5B9E, 0x6062, 0x590D, 0x9A8C, 0x8BC1, 0x72B6,
                   0x6001, 0x4E3A] @ '' '') @ rv_Status v @
                  (if rv_ErrorSummary v = [] then [] else (utf8 [0xFF1A]) @ rv_ErrorSummary v) in
            [Raise (verification_signal p name ''result'' ''restore_verification_result'' severity reason message
               (utf8 [0x6062, 0x590D, 0x9A8C, 0x8BC1, 0x6210, 0x529F, 0x5E76, 0x5B8C, 0x6210, 0x4E34, 0x65F6, 0x6587,
                  0x4EF6, 0x6E05, 0x7406]))])"

definition reconcile_verification_cleanup :: "restore_verification_policy \<Rightarrow> string \<Rightarrow> restore_verification option \<Rightarrow> alert_action list" where
  "reconcile_verification_cleanup p name cleanup =
     (if (case cleanup of None \<Rightarrow> True | Some v \<Rightarrow> rv_ID v = [])
      then [Resolve (alert_key ''restore-verification'' (rvp_TaskID p) ''cleanup'')]
      else [Raise (verification_signal p name ''cleanup'' ''restore_verification_cleanup'' AlertCritical
        (utf8 [0x6062, 0x590D, 0x9A8C, 0x8BC1, 0x6B8B, 0x7559, 0x5F85, 0x6E05, 0x7406])
        (utf8 [0x6062, 0x590D, 0x9A8C, 0x8BC1, 0x4E34, 0x65F6, 0x5185, 0x5BB9, 0x5C1A, 0x672A, 0x5B89, 0x5168, 0x5220, 0x9664])
        (utf8 [0x91CD, 0x8BD5, 0x5E76, 0x5B8C, 0x6210, 0x5E94, 0x7528, 0x4E13, 0x5C5E, 0x4E34, 0x65F6, 0x76EE, 0x5F55,
           0x6E05, 0x7406]))])"

definition reconcile_verification :: "restore_verification_policy \<Rightarrow> string \<Rightarrow> occurrence option \<Rightarrow> restore_verification option \<Rightarrow>
    restore_verification option \<Rightarrow> restore_verification option \<Rightarrow> instant \<Rightarrow> alert_action list" where
  "reconcile_verification p name occurrence latest latest_success cleanup now =
     map (\<lambda>s. Seen (alert_key ''restore-verification'' (rvp_TaskID p) s)) [''schedule'', ''result'', ''stale'', ''cleanup''] @
     (if \<not> rvp_Enabled p
      then [Resolve (alert_key ''restore-verification'' (rvp_TaskID p) ''schedule''),
            Resolve (alert_key ''restore-verification'' (rvp_TaskID p) ''stale'')]
      else reconcile_verification_occurrence p name occurrence @ reconcile_verification_age p name latest_success now) @
     reconcile_verification_result p name latest @ reconcile_verification_cleanup p name cleanup"

section \<open>All decisions of one pass\<close>

text \<open>Go's zero policy, for a repository without one, and its map of policies (the last one wins).\<close>

definition no_capacity_policy :: capacity_policy where
  "no_capacity_policy = \<lparr>cpol_RepositoryID = [], cpol_Enabled = False, cpol_ProbeIntervalMinutes = 0,
     cpol_MinimumAvailableBytes = 0, cpol_MinimumAvailablePercent = Finite 0, cpol_ExhaustionWarningDays = 0,
     cpol_NextProbeAt = None, cpol_LastAttemptAt = None, cpol_LastSuccessAt = None, cpol_LastError = [], cpol_UpdatedAt = zero_time\<rparr>"

definition policy_of :: "capacity_policy list \<Rightarrow> string \<Rightarrow> capacity_policy" where
  "policy_of policies i = (case row cpol_RepositoryID i (rev policies) of None \<Rightarrow> no_capacity_policy | Some p \<Rightarrow> p)"

definition no_forecast :: capacity_forecast where
  "no_forecast = \<lparr>fc_Status = CapacityForecastInsufficientSamples, fc_SampleCount = 0, fc_ObservationStartedAt = None,
     fc_ObservationEndedAt = None, fc_GrowthBytesPerDay = Finite 0, fc_EstimatedExhaustionAt = None\<rparr>"

text \<open>The loop over the repositories returns from \<open>Reconcile\<close> when a forecast fails.\<close>

fun decide_repositories :: "reconcile_inputs \<Rightarrow> instant \<Rightarrow> repository list \<Rightarrow> alert_action list \<times> check" where
  "decide_repositories inp now [] = ([], None)"
| "decide_repositories inp now (r # rs) =
     (let p = policy_of (ri_capacity inp) (repo_ID r);
          forecast = (if cpol_Enabled p \<and> cpol_ExhaustionWarningDays p > 0 then ri_forecast inp (repo_ID r) else Inr no_forecast) in
      case forecast of
        Inl err \<Rightarrow> ([], Some err)
      | Inr fc \<Rightarrow> (case decide_repositories inp now rs of (acts, stop) \<Rightarrow> (reconcile_repository r p fc now @ acts, stop)))"

definition name_of :: "('a \<Rightarrow> string) \<Rightarrow> ('a \<Rightarrow> string) \<Rightarrow> 'a list \<Rightarrow> string \<Rightarrow> string" where
  "name_of i name xs k = name_or (case row i k (rev xs) of None \<Rightarrow> [] | Some x \<Rightarrow> name x) k"

definition reconcile_decisions :: "reconcile_inputs \<Rightarrow> instant \<Rightarrow> alert_action list \<times> check" where
  "reconcile_decisions inp now =
     (let tasks = concat (map (\<lambda>t. reconcile_task t (ri_health inp (task_ID t)) now) (ri_tasks inp)) in
      case decide_repositories inp now (ri_repositories inp) of
        (repositories, Some err) \<Rightarrow> (tasks @ repositories, Some err)
      | (repositories, None) \<Rightarrow>
          (tasks @ repositories @
           concat (map (\<lambda>a. reconcile_agent a now) (ri_agents inp)) @
           concat (map (\<lambda>p. reconcile_plan p (ri_plan_occurrences inp (plan_ID p))) (ri_plans inp)) @
           concat (map (\<lambda>m. reconcile_maintenance m (name_of repo_ID repo_Name (ri_repositories inp) (mp_RepositoryID m))
             (ri_maintenance_occurrences inp (mp_RepositoryID m))) (ri_maintenance inp)) @
           concat (map (\<lambda>p. reconcile_verification p (name_of task_ID task_Name (ri_tasks inp) (rvp_TaskID p))
             (ri_verification_occurrences inp (rvp_TaskID p)) (ri_latest inp (rvp_TaskID p))
             (ri_latest_success inp (rvp_TaskID p)) (ri_cleanup inp (rvp_TaskID p)) now) (ri_verifications inp)),
           None))"

section \<open>Carrying them out\<close>

record reconciliation =
  rc_service :: alert_service
  rc_active :: "(string \<times> alert_state) list"
  rc_seen :: "string list"
  rc_errors :: "go_error list"

definition rc_see :: "reconciliation \<Rightarrow> string \<Rightarrow> reconciliation" where
  "rc_see r key = r\<lparr>rc_seen := key # rc_seen r\<rparr>"

definition rc_raise :: "alert_env \<Rightarrow> reconciliation \<Rightarrow> alert_signal \<Rightarrow> reconciliation" where
  "rc_raise env r0 sig =
     (let r = rc_see r0 (sig_StateKey sig) in
      if (case map_of (rc_active r) (sig_StateKey sig) of None \<Rightarrow> False | Some current \<Rightarrow> ast_Signal current = sig) then r
      else (case service_raise env (rc_service r) sig of
              (svc, res, Some err) \<Rightarrow> r\<lparr>rc_service := svc, rc_errors := rc_errors r @ [err]\<rparr>
            | (svc, None, None) \<Rightarrow> r\<lparr>rc_service := svc\<rparr>
            | (svc, Some (s, tr), None) \<Rightarrow> r\<lparr>rc_service := svc, rc_active := AList.update (sig_StateKey sig) s (rc_active r)\<rparr>))"

definition rc_resolve :: "alert_env \<Rightarrow> reconciliation \<Rightarrow> string \<Rightarrow> reconciliation" where
  "rc_resolve env r0 key =
     (let r = rc_see r0 key in
      if map_of (rc_active r) key = None then r
      else (case service_resolve env (rc_service r) key of
              (svc, res, Some err) \<Rightarrow> r\<lparr>rc_service := svc, rc_errors := rc_errors r @ [err]\<rparr>
            | (svc, res, None) \<Rightarrow> r\<lparr>rc_service := svc, rc_active := AList.delete key (rc_active r)\<rparr>))"

fun rc_act :: "alert_env \<Rightarrow> reconciliation \<Rightarrow> alert_action \<Rightarrow> reconciliation" where
  "rc_act env r (Seen key) = rc_see r key"
| "rc_act env r (Raise sig) = rc_raise env r sig"
| "rc_act env r (Resolve key) = rc_resolve env r key"

definition managed_kinds :: "string list" where
  "managed_kinds = [''task_run'', ''task_stale'', ''repository_abnormal'', ''repository_capacity'', ''repository_capacity_low'',
     ''repository_capacity_forecast'', ''repository_capacity_stale'', ''repository_capacity_probe_failed'', ''agent_offline'',
     ''agent_protocol'', ''agent_certificate_expiry'', ''agent_certificate_renewal'', ''plan_schedule'', ''maintenance_schedule'',
     ''restore_verification_schedule'', ''restore_verification_result'', ''restore_verification_stale'', ''restore_verification_cleanup'']"

definition resolve_if_removed :: "alert_env \<Rightarrow> reconciliation \<Rightarrow> string \<Rightarrow> reconciliation" where
  "resolve_if_removed env r key =
     (case map_of (rc_active r) key of
        None \<Rightarrow> r
      | Some s \<Rightarrow> if sig_Kind (ast_Signal s) \<in> set managed_kinds \<and> key \<notin> set (rc_seen r) then rc_resolve env r key else r)"

definition resolve_removed :: "alert_env \<Rightarrow> (string list \<Rightarrow> string list) \<Rightarrow> reconciliation \<Rightarrow> reconciliation" where
  "resolve_removed env order r = foldl (resolve_if_removed env) r (order (map fst (rc_active r)))"

definition current_alerts :: "alert_db \<Rightarrow> (string \<times> alert_state) list" where
  "current_alerts db = fold (\<lambda>s m. AList.update (state_key s) s m) (list_active_alerts db) []"

definition reconcile :: "alert_env \<Rightarrow> (string list \<Rightarrow> string list) \<Rightarrow> reconcile_inputs \<Rightarrow> alert_service \<Rightarrow> alert_service \<times> check" where
  "reconcile env order inp svc =
     (case service_now env svc of (svc1, now) \<Rightarrow>
       (case reconcile_decisions inp now of (acts, stop) \<Rightarrow>
         let r = foldl (rc_act env) \<lparr>rc_service = svc1, rc_active = current_alerts (as_db svc), rc_seen = [], rc_errors = []\<rparr> acts in
         case stop of
           Some err \<Rightarrow> (rc_service r, Some err)
         | None \<Rightarrow> (let r' = resolve_removed env order r in (rc_service r', join_errors (rc_errors r')))))"

section \<open>What a pass makes of the alerts\<close>

text \<open>
  The abstract view: the signal of each active alert, apart from the one of the notification
  channels. A pass overrides it by its decisions and drops the managed alerts nobody has seen.
\<close>

definition signals :: "alert_db \<Rightarrow> string \<rightharpoonup> alert_signal" where
  "signals db = (\<lambda>k. if k = notification_channel_state_key then None else map_option ast_Signal (alert_active db k))"

fun settle :: "(string \<rightharpoonup> alert_signal) \<Rightarrow> alert_action \<Rightarrow> (string \<rightharpoonup> alert_signal)" where
  "settle m (Seen key) = m"
| "settle m (Raise sig) = m(sig_StateKey sig \<mapsto> sig)"
| "settle m (Resolve key) = m(key := None)"

fun action_key :: "alert_action \<Rightarrow> string" where
  "action_key (Seen key) = key"
| "action_key (Raise sig) = sig_StateKey sig"
| "action_key (Resolve key) = key"

definition drop_removed :: "string set \<Rightarrow> (string \<rightharpoonup> alert_signal) \<Rightarrow> (string \<rightharpoonup> alert_signal)" where
  "drop_removed seen m = (\<lambda>k. case m k of
     None \<Rightarrow> None | Some sig \<Rightarrow> if sig_Kind sig \<in> set managed_kinds \<and> k \<notin> seen then None else Some sig)"

definition settled :: "alert_action list \<Rightarrow> (string \<rightharpoonup> alert_signal) \<Rightarrow> (string \<rightharpoonup> alert_signal)" where
  "settled acts m = drop_removed (action_key ` set acts) (foldl settle m acts)"

text \<open>The map of active alerts follows the store as long as no call has failed.\<close>

definition follows :: "reconciliation \<Rightarrow> bool" where
  "follows r \<longleftrightarrow> alert_inv (as_db (rc_service r)) \<and>
     (rc_errors r = [] \<longrightarrow> (\<forall>j. j \<noteq> notification_channel_state_key \<longrightarrow>
        map_of (rc_active r) j = alert_active (as_db (rc_service r)) j))"

lemma follows_see [simp]: "follows (rc_see r key) = follows r"
  by (simp add: follows_def rc_see_def)

lemma see_fields [simp]:
  "rc_service (rc_see r key) = rc_service r" "rc_active (rc_see r key) = rc_active r"
  "rc_errors (rc_see r key) = rc_errors r" "rc_seen (rc_see r key) = key # rc_seen r"
  by (simp_all add: rc_see_def)

lemma rc_raise_step:
  assumes "follows r" and "sig_StateKey sig \<noteq> notification_channel_state_key"
  shows "follows (rc_raise env r sig)"
    and "rc_errors (rc_raise env r sig) = [] \<Longrightarrow> rc_errors r = [] \<and>
      signals (as_db (rc_service (rc_raise env r sig))) = (signals (as_db (rc_service r)))(sig_StateKey sig \<mapsto> sig)"
    and "rc_seen (rc_raise env r sig) = sig_StateKey sig # rc_seen r"
    and "channel_from (as_db (rc_service r)) (as_db (rc_service (rc_raise env r sig)))"
proof -
  let ?k = "sig_StateKey sig" and ?db = "as_db (rc_service r)"
  define r' where "r' = rc_raise env r sig"
  have "follows r' \<and> (rc_errors r' = [] \<longrightarrow> rc_errors r = [] \<and> signals (as_db (rc_service r')) = (signals ?db)(?k \<mapsto> sig)) \<and>
    rc_seen r' = ?k # rc_seen r \<and> channel_from ?db (as_db (rc_service r'))"
  proof (cases "\<exists>s. map_of (rc_active r) ?k = Some s \<and> ast_Signal s = sig")
    case True
    then have "r' = rc_see r ?k" by (auto simp: r'_def rc_raise_def Let_def)
    with True assms show ?thesis by (auto simp: follows_def signals_def fun_eq_iff channel_from_def)
  next
    case False
    obtain svc res err where call: "service_raise env (rc_service r) sig = (svc, res, err)" by (metis prod_cases3)
    note facts = service_raise_cases [OF _ call]
    have inv: "alert_inv ?db" using assms(1) by (simp add: follows_def)
    show ?thesis
    proof (cases err)
      case (Some e)
      then have "r' = (rc_see r ?k)\<lparr>rc_service := svc, rc_errors := rc_errors r @ [e]\<rparr>"
        using False call by (auto simp: r'_def rc_raise_def Let_def split: option.split)
      then show ?thesis using facts(1,4) [OF inv] assms by (simp add: follows_def)
    next
      case None
      with facts(2) [OF inv] have "res \<noteq> None" by blast
      then obtain s tr where res: "res = Some (s, tr)" by auto
      have r': "r' = (rc_see r ?k)\<lparr>rc_service := svc, rc_active := AList.update ?k s (rc_active r)\<rparr>"
        using False call None res by (auto simp: r'_def rc_raise_def Let_def split: option.split)
      show ?thesis
        using facts(1,4) [OF inv] facts(3) [OF inv res assms(2)] assms
        unfolding r' by (auto simp: follows_def signals_def fun_eq_iff AList.update_conv')
    qed
  qed
  then show "follows r'" and "rc_errors r' = [] \<Longrightarrow> rc_errors r = [] \<and> signals (as_db (rc_service r')) = (signals ?db)(?k \<mapsto> sig)"
    and "rc_seen r' = ?k # rc_seen r" and "channel_from ?db (as_db (rc_service r'))" by blast+
qed

lemma rc_resolve_step:
  assumes "follows r"
  shows "follows (rc_resolve env r key)"
    and "rc_errors (rc_resolve env r key) = [] \<Longrightarrow> rc_errors r = [] \<and>
      signals (as_db (rc_service (rc_resolve env r key))) = (signals (as_db (rc_service r)))(key := None)"
    and "rc_seen (rc_resolve env r key) = key # rc_seen r"
    and "channel_from (as_db (rc_service r)) (as_db (rc_service (rc_resolve env r key)))"
proof -
  let ?db = "as_db (rc_service r)"
  define r' where "r' = rc_resolve env r key"
  have "follows r' \<and> (rc_errors r' = [] \<longrightarrow> rc_errors r = [] \<and> signals (as_db (rc_service r')) = (signals ?db)(key := None)) \<and>
    rc_seen r' = key # rc_seen r \<and> channel_from ?db (as_db (rc_service r'))"
  proof (cases "map_of (rc_active r) key")
    case None
    then have "r' = rc_see r key" by (simp add: r'_def rc_resolve_def)
    with None assms show ?thesis by (auto simp: follows_def signals_def fun_eq_iff channel_from_def)
  next
    case (Some old)
    obtain svc res err where call: "service_resolve env (rc_service r) key = (svc, res, err)" by (metis prod_cases3)
    note facts = service_resolve_cases [OF _ call]
    have inv: "alert_inv ?db" using assms by (simp add: follows_def)
    show ?thesis
    proof (cases err)
      case (Some e)
      then have "r' = (rc_see r key)\<lparr>rc_service := svc, rc_errors := rc_errors r @ [e]\<rparr>"
        using \<open>map_of (rc_active r) key = Some old\<close> call by (auto simp: r'_def rc_resolve_def Let_def)
      then show ?thesis using facts(1,4) [OF inv] by (simp add: follows_def)
    next
      case None
      with facts(2) [OF inv] have res: "res \<noteq> None" by blast
      have r': "r' = (rc_see r key)\<lparr>rc_service := svc, rc_active := AList.delete key (rc_active r)\<rparr>"
        using Some call None by (auto simp: r'_def rc_resolve_def Let_def)
      show ?thesis
        using facts(1,4) [OF inv] facts(3) [OF inv res] assms
        unfolding r' by (auto simp: follows_def signals_def fun_eq_iff AList.delete_conv')
    qed
  qed
  then show "follows r'" and "rc_errors r' = [] \<Longrightarrow> rc_errors r = [] \<and> signals (as_db (rc_service r')) = (signals ?db)(key := None)"
    and "rc_seen r' = key # rc_seen r" and "channel_from ?db (as_db (rc_service r'))" by blast+
qed

lemma rc_act_run:
  assumes "follows r" and "\<forall>a \<in> set acts. action_key a \<noteq> notification_channel_state_key"
    and r'_def: "r' = foldl (rc_act env) r acts"
  shows "follows r'"
    and "rc_errors r' = [] \<Longrightarrow> rc_errors r = [] \<and> signals (as_db (rc_service r')) = foldl settle (signals (as_db (rc_service r))) acts"
    and "set (rc_seen r') = set (rc_seen r) \<union> action_key ` set acts"
    and "channel_from (as_db (rc_service r)) (as_db (rc_service r'))"
proof -
  have "follows r' \<and> (rc_errors r' = [] \<longrightarrow> rc_errors r = [] \<and>
      signals (as_db (rc_service r')) = foldl settle (signals (as_db (rc_service r))) acts) \<and>
    set (rc_seen r') = set (rc_seen r) \<union> action_key ` set acts \<and> channel_from (as_db (rc_service r)) (as_db (rc_service r'))"
    using assms(1,2) unfolding r'_def
  proof (induction acts arbitrary: r)
    case (Cons a acts)
    let ?r = "rc_act env r a"
    have one: "follows ?r \<and> (rc_errors ?r = [] \<longrightarrow> rc_errors r = [] \<and>
        signals (as_db (rc_service ?r)) = settle (signals (as_db (rc_service r))) a) \<and>
      rc_seen ?r = action_key a # rc_seen r \<and> channel_from (as_db (rc_service r)) (as_db (rc_service ?r))"
    proof (cases a)
      case (Raise sig)
      then show ?thesis using rc_raise_step [of r sig env] Cons.prems by simp
    next
      case (Resolve key)
      then show ?thesis using rc_resolve_step [of r env key] Cons.prems by simp
    qed (use Cons.prems in simp)
    then have "channel_from (as_db (rc_service ?r)) db \<Longrightarrow> channel_from (as_db (rc_service r)) db" for db
      using channel_from_trans by blast
    with one Cons.IH [of ?r] Cons.prems show ?case by simp
  qed (simp add: channel_from_def)
  then show "follows r'"
    and "rc_errors r' = [] \<Longrightarrow> rc_errors r = [] \<and> signals (as_db (rc_service r')) = foldl settle (signals (as_db (rc_service r))) acts"
    and "set (rc_seen r') = set (rc_seen r) \<union> action_key ` set acts"
    and "channel_from (as_db (rc_service r)) (as_db (rc_service r'))" by blast+
qed

lemma drop_removed_same: "m j = m' j \<Longrightarrow> (j \<in> seen \<longleftrightarrow> j \<in> seen') \<Longrightarrow> drop_removed seen m j = drop_removed seen' m' j"
  by (auto simp: drop_removed_def split: option.split)

lemma resolve_if_removed_step:
  assumes "follows r"
  defines "m \<equiv> signals (as_db (rc_service r))"
  shows "follows (resolve_if_removed env r key)"
    and "rc_errors (resolve_if_removed env r key) = [] \<Longrightarrow> rc_errors r = [] \<and>
      signals (as_db (rc_service (resolve_if_removed env r key))) = m(key := drop_removed (set (rc_seen r)) m key) \<and>
      (set (rc_seen (resolve_if_removed env r key)) = set (rc_seen r) \<or>
       set (rc_seen (resolve_if_removed env r key)) = insert key (set (rc_seen r)) \<and> drop_removed (set (rc_seen r)) m key = None)"
    and "channel_from (as_db (rc_service r)) (as_db (rc_service (resolve_if_removed env r key)))"
proof -
  have active: "rc_errors r = [] \<Longrightarrow> key \<noteq> notification_channel_state_key \<Longrightarrow>
      m key = map_option ast_Signal (map_of (rc_active r) key)"
    and ch: "m notification_channel_state_key = None"
    using assms(1) by (auto simp: follows_def m_def signals_def)
  consider (keep) "resolve_if_removed env r key = r" "\<And>s. map_of (rc_active r) key = Some s \<Longrightarrow>
        \<not> (sig_Kind (ast_Signal s) \<in> set managed_kinds \<and> key \<notin> set (rc_seen r))"
    | (gone) s where "map_of (rc_active r) key = Some s" "sig_Kind (ast_Signal s) \<in> set managed_kinds"
        "key \<notin> set (rc_seen r)" "resolve_if_removed env r key = rc_resolve env r key"
    by (auto simp: resolve_if_removed_def split: option.splits if_splits)
  then have "follows (resolve_if_removed env r key) \<and> (rc_errors (resolve_if_removed env r key) = [] \<longrightarrow> rc_errors r = [] \<and>
      signals (as_db (rc_service (resolve_if_removed env r key))) = m(key := drop_removed (set (rc_seen r)) m key) \<and>
      (set (rc_seen (resolve_if_removed env r key)) = set (rc_seen r) \<or>
       set (rc_seen (resolve_if_removed env r key)) = insert key (set (rc_seen r)) \<and> drop_removed (set (rc_seen r)) m key = None)) \<and>
    channel_from (as_db (rc_service r)) (as_db (rc_service (resolve_if_removed env r key)))"
  proof cases
    case keep
    have "m key = drop_removed (set (rc_seen r)) m key" if "rc_errors r = []"
      using keep(2) active [OF that] ch
      by (cases "key = notification_channel_state_key") (auto simp: drop_removed_def split: option.splits)
    then show ?thesis using keep assms(1) by (auto simp: m_def [symmetric] fun_upd_triv)
  next
    case gone
    have "drop_removed (set (rc_seen r)) m key = None" if "rc_errors r = []"
      using gone active [OF that] ch
      by (cases "key = notification_channel_state_key") (auto simp: drop_removed_def)
    then show ?thesis using gone rc_resolve_step [OF assms(1), of env key] by (auto simp: m_def)
  qed
  then show "follows (resolve_if_removed env r key)"
    and "rc_errors (resolve_if_removed env r key) = [] \<Longrightarrow> rc_errors r = [] \<and>
      signals (as_db (rc_service (resolve_if_removed env r key))) = m(key := drop_removed (set (rc_seen r)) m key) \<and>
      (set (rc_seen (resolve_if_removed env r key)) = set (rc_seen r) \<or>
       set (rc_seen (resolve_if_removed env r key)) = insert key (set (rc_seen r)) \<and> drop_removed (set (rc_seen r)) m key = None)"
    and "channel_from (as_db (rc_service r)) (as_db (rc_service (resolve_if_removed env r key)))" by blast+
qed

lemma resolve_if_removed_run:
  assumes "follows r" and "r' = foldl (resolve_if_removed env) r keys"
  shows "follows r' \<and> channel_from (as_db (rc_service r)) (as_db (rc_service r')) \<and>
    (rc_errors r' = [] \<longrightarrow> rc_errors r = [] \<and> (\<forall>j. signals (as_db (rc_service r')) j =
       (if j \<in> set keys then drop_removed (set (rc_seen r)) (signals (as_db (rc_service r))) j
        else signals (as_db (rc_service r)) j)))"
  using assms
proof (induction keys arbitrary: r)
  case (Cons key keys)
  let ?r = "resolve_if_removed env r key" and ?m = "signals (as_db (rc_service r))"
  note step = resolve_if_removed_step [OF Cons.prems(1), of env key]
  have IH: "follows r' \<and> channel_from (as_db (rc_service ?r)) (as_db (rc_service r')) \<and>
    (rc_errors r' = [] \<longrightarrow> rc_errors ?r = [] \<and> (\<forall>j. signals (as_db (rc_service r')) j =
       (if j \<in> set keys then drop_removed (set (rc_seen ?r)) (signals (as_db (rc_service ?r))) j
        else signals (as_db (rc_service ?r)) j)))"
    using Cons.IH [OF step(1)] Cons.prems by simp
  have "signals (as_db (rc_service r')) j =
      (if j \<in> set (key # keys) then drop_removed (set (rc_seen r)) ?m j else ?m j)" if "rc_errors r' = []" for j
  proof (cases "j = key")
    case True
    with IH that step(2) show ?thesis by (auto simp: drop_removed_def split: option.splits)
  next
    case False
    with IH that step(2) drop_removed_same [of "signals (as_db (rc_service ?r))" j ?m "set (rc_seen ?r)" "set (rc_seen r)"]
    show ?thesis by auto
  qed
  moreover have "rc_errors r = []" if "rc_errors r' = []" using IH that step(2) by blast
  ultimately show ?case using IH channel_from_trans [OF step(3)] by blast
qed simp

lemma map_of_current_alerts:
  assumes "alert_inv db"
  shows "map_of (current_alerts db) = alert_active db"
proof
  fix k
  have "map_of (fold (\<lambda>s m. AList.update (state_key s) s m) ss m) k =
      (if k \<in> state_key ` set ss then alert_active db k else map_of m k)"
    if "\<forall>s \<in> set ss. alert_active db (state_key s) = Some s" for ss m
    using that by (induction ss arbitrary: m) (auto simp: AList.update_conv')
  then have "map_of (current_alerts db) k = (if k \<in> state_key ` set (list_active_alerts db) then alert_active db k else None)"
    using set_list_active_alerts [OF assms] by (simp add: current_alerts_def)
  also have "\<dots> = alert_active db k"
  proof (cases "alert_active db k")
    case (Some s)
    then have "state_key s = k" using row_Some_in by (fastforce simp: alert_active_def split: option.splits if_splits)
    with Some show ?thesis using set_list_active_alerts [OF assms, of s] by force
  qed simp
  finally show "map_of (current_alerts db) k = alert_active db k" .
qed

section \<open>Every object decides about its own alerts\<close>

fun decided :: "alert_action \<Rightarrow> string option" where
  "decided (Seen key) = None"
| "decided (Raise sig) = Some (sig_StateKey sig)"
| "decided (Resolve key) = Some key"

definition covers :: "string list \<Rightarrow> alert_action list \<Rightarrow> bool" where
  "covers keys acts \<longleftrightarrow> action_key ` set acts \<subseteq> set keys \<and> subseq (List.map_filter decided acts) keys"

lemma covers_Nil [simp]: "covers keys []"
  by (simp add: covers_def map_filter_simps)

lemma covers_append: "covers ks as \<Longrightarrow> covers ls bs \<Longrightarrow> covers (ks @ ls) (as @ bs)"
  by (auto simp: covers_def map_filter_def intro: list_emb_append_mono)

lemma covers_seen: "set ss \<subseteq> set ks \<Longrightarrow> covers ks acts \<Longrightarrow> covers ks (map Seen ss @ acts)"
  by (auto simp: covers_def map_filter_def)

lemma covers_resolve: "covers [k] [Resolve k]"
  by (simp add: covers_def map_filter_simps)

lemma covers_raise: "sig_StateKey sig = k \<Longrightarrow> covers [k] [Raise sig]"
  by (simp add: covers_def map_filter_simps)

lemma covers_resolves: "covers ks (map Resolve ks)"
  by (auto simp: covers_def map_filter_def comp_def)

lemma covers_concat:
  "(\<And>x. x \<in> set xs \<Longrightarrow> covers (ks x) (acts x)) \<Longrightarrow> covers (concat (map ks xs)) (concat (map acts xs))"
  by (induction xs) (auto intro: covers_append)

lemma covers_decided_once: "covers keys acts \<Longrightarrow> distinct keys \<Longrightarrow> distinct (List.map_filter decided acts)"
  unfolding covers_def using distinct_nthsI by (force simp: subseq_conv_nths)

lemma signal_key [simp]: "sig_StateKey (signal key kind sev ty i name reason message page recovery) = key"
  by (simp add: signal_def)

lemma signal_keys [simp]:
  "sig_StateKey (task_run_signal t status) = alert_key ''task'' (task_ID t) ''run''"
  "sig_StateKey (repository_signal r suff kind severity reason message recovery) = alert_key ''repository'' (repo_ID r) suff"
  "sig_StateKey (agent_signal a suff kind severity reason message recovery) = alert_key ''agent'' (ag_ID a) suff"
  "sig_StateKey (verification_signal p name suff kind severity reason message recovery) =
     alert_key ''restore-verification'' (rvp_TaskID p) suff"
  by (simp_all add: task_run_signal_def repository_signal_def agent_signal_def verification_signal_def Let_def)

definition keys_of :: "string \<Rightarrow> string list \<Rightarrow> string \<Rightarrow> string list" where
  "keys_of family sufs i = map (alert_key family i) sufs"

lemma keys_of_simps:
  "keys_of family [] i = []" "keys_of family (s # ss) i = alert_key family i s # keys_of family ss i"
  by (simp_all add: keys_of_def)

lemma covers_parts:
  "covers [k] acts \<Longrightarrow> covers ks bs \<Longrightarrow> covers (k # ks) (acts @ bs)"
  using covers_append [of "[k]" acts ks bs] by simp

lemma covers_seen_keys:
  "covers (keys_of f ss i) acts \<Longrightarrow> set ts \<subseteq> set ss \<Longrightarrow>
     covers (keys_of f ss i) (map (\<lambda>s. Seen (alert_key f i s)) ts @ acts)"
  using covers_seen [of "map (alert_key f i) ts" "keys_of f ss i" acts] by (auto simp: keys_of_def comp_def)

lemma covers_resolve_keys: "covers (keys_of f ss i) (map (\<lambda>s. Resolve (alert_key f i s)) ss)"
  using covers_resolves [of "keys_of f ss i"] by (simp add: keys_of_def comp_def)

lemma covers_two: "covers [a, b] [Resolve a, Resolve b]"
  using covers_resolves [of "[a, b]"] by simp

lemma covers_if: "(c \<Longrightarrow> covers ks as) \<Longrightarrow> (\<not> c \<Longrightarrow> covers ks bs) \<Longrightarrow> covers ks (if c then as else bs)"
  by simp

lemma covers_seen_two: "covers [a, b] acts \<Longrightarrow> covers [a, b] ([Seen a, Seen b] @ acts)"
  using covers_seen [of "[a, b]" "[a, b]" acts] by simp

lemmas covers_intros = covers_two covers_resolve covers_raise covers_Nil

lemma covers_task: "covers (keys_of ''task'' [''run'', ''stale''] (task_ID t)) (reconcile_task t health now)"
  unfolding reconcile_task_def Let_def keys_of_simps
  by (intro covers_seen_two covers_if covers_two covers_parts) (auto intro: covers_intros split: option.split)

lemma covers_space:
  "covers (keys_of ''repository'' [''capacity-low'', ''capacity-forecast''] (repo_ID r)) (reconcile_space r p fc now)"
proof (cases "\<exists>c. repo_Capacity r = Some c \<and> cap_TotalBytes c \<noteq> 0")
  case True
  then obtain c where c: "repo_Capacity r = Some c" and nonzero: "cap_TotalBytes c \<noteq> 0" by blast
  show ?thesis
    unfolding reconcile_space_def Let_def keys_of_simps c option.case if_not_P [OF nonzero]
    by (intro covers_parts) (auto intro: covers_intros split: option.split)
qed (auto simp: reconcile_space_def Let_def keys_of_simps intro: covers_two split: option.split)

lemma covers_probe:
  "covers (keys_of ''repository'' [''capacity-stale'', ''capacity-probe''] (repo_ID r)) (reconcile_probe r p now)"
  unfolding reconcile_probe_def Let_def keys_of_simps by (intro covers_parts) (auto intro!: covers_intros)

lemma covers_repository:
  "covers (keys_of ''repository'' repository_suffixes (repo_ID r)) (reconcile_repository r p fc now)"
proof -
  let ?i = "repo_ID r"
  have "covers [alert_key ''repository'' ?i ''integrity''] (reconcile_integrity r)"
    by (auto simp: reconcile_integrity_def intro: covers_intros)
  moreover have "covers (keys_of ''repository'' (tl repository_suffixes) ?i) (reconcile_space r p fc now @ reconcile_probe r p now)"
    using covers_append [OF covers_space [of r p fc now] covers_probe [of r p now]]
    by (simp add: repository_suffixes_def keys_of_simps)
  ultimately have "covers (keys_of ''repository'' repository_suffixes ?i) (reconcile_integrity r @
      (if \<not> cpol_Enabled p \<or> repo_Status r = ''uninitialized'' \<or> repo_Status r = ''disconnected''
       then map (\<lambda>s. Resolve (alert_key ''repository'' ?i s)) (tl repository_suffixes)
       else reconcile_space r p fc now @ reconcile_probe r p now))"
    using covers_parts [OF _ covers_resolve_keys, of "alert_key ''repository'' ?i ''integrity''" "reconcile_integrity r"
        "''repository''" "tl repository_suffixes" ?i] covers_parts
    by (simp add: repository_suffixes_def keys_of_simps)
  then show ?thesis unfolding reconcile_repository_def by (rule covers_seen_keys) simp
qed

lemma covers_agent: "covers (keys_of ''agent'' agent_suffixes (ag_ID a)) (reconcile_agent a now)"
proof -
  let ?i = "ag_ID a"
  have "covers [alert_key ''agent'' ?i ''protocol''] (reconcile_protocol a)"
    "covers [alert_key ''agent'' ?i ''certificate-expiry''] (reconcile_certificate a now)"
    by (auto simp: reconcile_protocol_def reconcile_certificate_def Let_def intro: covers_intros split: option.split)
  then have all: "covers (keys_of ''agent'' agent_suffixes ?i) (A @ reconcile_protocol a @ reconcile_certificate a now @ B)"
    if "covers [alert_key ''agent'' ?i ''offline''] A" "covers [alert_key ''agent'' ?i ''certificate-renewal''] B" for A B
    using that unfolding agent_suffixes_def keys_of_simps by (intro covers_parts)
  have "covers (keys_of ''agent'' agent_suffixes ?i) (if c then map (\<lambda>s. Resolve (alert_key ''agent'' ?i s)) agent_suffixes
      else (if c2 then [Resolve (alert_key ''agent'' ?i ''offline'')] else [Raise sig]) @
        reconcile_protocol a @ reconcile_certificate a now @
        (if c3 then [Raise sig3] else [Resolve (alert_key ''agent'' ?i ''certificate-renewal'')]))"
    if "sig_StateKey sig = alert_key ''agent'' ?i ''offline''" "sig_StateKey sig3 = alert_key ''agent'' ?i ''certificate-renewal''"
    for c c2 c3 sig sig3
    using that by (cases c) (simp_all only: if_True if_False covers_resolve_keys, intro all, auto intro: covers_intros)
  then show ?thesis unfolding reconcile_agent_def by (intro covers_seen_keys) simp_all
qed

lemma covers_occurrence: "covers [key] (reconcile_occurrence key kind ty i name page occurrence)"
  by (auto simp: reconcile_occurrence_def intro: covers_intros split: option.split)

lemma covers_seen_one: "covers [key] acts \<Longrightarrow> covers [key] (Seen key # acts)"
  using covers_seen [of "[key]" "[key]" acts] by simp

lemma covers_plan: "covers (keys_of ''plan'' [''schedule''] (plan_ID p)) (reconcile_plan p occurrence)"
  by (auto simp: reconcile_plan_def Let_def keys_of_simps intro!: covers_seen_one covers_occurrence covers_intros)

lemma covers_maintenance:
  "covers (keys_of ''maintenance'' [''schedule''] (mp_RepositoryID m)) (reconcile_maintenance m name occurrence)"
  by (auto simp: reconcile_maintenance_def Let_def keys_of_simps intro!: covers_seen_one covers_occurrence covers_intros)

lemma covers_verification:
  "covers (keys_of ''restore-verification'' verification_suffixes (rvp_TaskID p))
     (reconcile_verification p name occurrence latest latest_success cleanup now)"
proof -
  let ?k = "alert_key ''restore-verification'' (rvp_TaskID p)"
  have parts: "covers [?k ''result''] (reconcile_verification_result p name latest)"
      "covers [?k ''cleanup''] (reconcile_verification_cleanup p name cleanup)"
    by (auto simp: reconcile_verification_result_def reconcile_verification_cleanup_def Let_def
        intro: covers_intros split: option.split)
  have "covers [?k ''schedule''] (reconcile_verification_occurrence p name occurrence)"
      "covers [?k ''stale''] (reconcile_verification_age p name latest_success now)"
    by (auto simp: reconcile_verification_occurrence_def reconcile_verification_age_def Let_def
        intro: covers_intros split: option.split)
  then have "covers [?k ''schedule'', ?k ''stale''] (if \<not> rvp_Enabled p then [Resolve (?k ''schedule''), Resolve (?k ''stale'')]
      else reconcile_verification_occurrence p name occurrence @ reconcile_verification_age p name latest_success now)"
    using covers_two covers_parts by auto
  from covers_append [OF this covers_parts [OF parts]] show ?thesis
    unfolding reconcile_verification_def verification_suffixes_def
    by (intro covers_seen_keys) (auto simp: keys_of_simps)
qed

section \<open>The keys of different objects differ\<close>

definition plain :: "string \<Rightarrow> bool" where
  "plain t \<longleftrightarrow> CHR '':'' \<notin> set t"

lemma split_at_eq:
  "c \<notin> set xs \<Longrightarrow> c \<notin> set xs' \<Longrightarrow> xs @ c # ys = xs' @ c # ys' \<Longrightarrow> xs = xs' \<and> ys = ys'"
  by (induction xs arbitrary: xs') (auto simp: Cons_eq_append_conv append_eq_Cons_conv)

lemma alert_key_eq:
  assumes "plain f" and "plain f'" and "plain s" and "plain s'"
  shows "alert_key f i s = alert_key f' i' s' \<longleftrightarrow> f = f' \<and> i = i' \<and> s = s'"
proof
  assume *: "alert_key f i s = alert_key f' i' s'"
  then have "f = f' \<and> i @ '':'' @ s = i' @ '':'' @ s'"
    using assms split_at_eq [of "CHR '':''" f f'] by (auto simp: alert_key_def plain_def)
  moreover from this have "rev s @ CHR '':'' # rev i = rev s' @ CHR '':'' # rev i'"
    by (metis append_Cons append_Nil rev.simps(2) rev_append append_assoc)
  then have "s = s' \<and> i = i'"
    using assms split_at_eq [of "CHR '':''" "rev s" "rev s'" "rev i" "rev i'"] by (simp add: plain_def)
  ultimately show "f = f' \<and> i = i' \<and> s = s'" by simp
qed simp

definition family_keys :: "string \<Rightarrow> string list \<Rightarrow> string list \<Rightarrow> string list" where
  "family_keys f ss ids = concat (map (keys_of f ss) ids)"

lemma set_family_keys: "k \<in> set (family_keys f ss ids) \<Longrightarrow> \<exists>i. \<exists>s \<in> set ss. k = alert_key f i s"
  by (auto simp: family_keys_def keys_of_def)

lemma family_keys_distinct:
  assumes "distinct ids" and "distinct ss" and "plain f" and "\<forall>s \<in> set ss. plain s"
  shows "distinct (family_keys f ss ids)"
proof -
  have "family_keys f ss ids = map (\<lambda>(i, s). alert_key f i s) (List.product ids ss)"
    by (induction ids) (simp_all add: family_keys_def keys_of_def)
  moreover have "inj_on (\<lambda>(i, s). alert_key f i s) (set (List.product ids ss))"
    using assms by (auto simp: inj_on_def alert_key_eq)
  ultimately show ?thesis using assms by (simp add: distinct_map distinct_product)
qed

lemma family_keys_disjoint:
  assumes "plain f" and "plain f'" and "f \<noteq> f'" and "\<forall>s \<in> set ss \<union> set ss'. plain s"
  shows "set (family_keys f ss ids) \<inter> set (family_keys f' ss' ids') = {}"
  using assms by (auto simp: alert_key_eq dest!: set_family_keys)

definition alert_keys :: "reconcile_inputs \<Rightarrow> string list" where
  "alert_keys inp =
     family_keys ''task'' [''run'', ''stale''] (map task_ID (ri_tasks inp)) @
     family_keys ''repository'' repository_suffixes (map repo_ID (ri_repositories inp)) @
     family_keys ''agent'' agent_suffixes (map ag_ID (ri_agents inp)) @
     family_keys ''plan'' [''schedule''] (map plan_ID (ri_plans inp)) @
     family_keys ''maintenance'' [''schedule''] (map mp_RepositoryID (ri_maintenance inp)) @
     family_keys ''restore-verification'' verification_suffixes (map rvp_TaskID (ri_verifications inp))"

definition unique_ids :: "reconcile_inputs \<Rightarrow> bool" where
  "unique_ids inp \<longleftrightarrow> distinct (map task_ID (ri_tasks inp)) \<and> distinct (map repo_ID (ri_repositories inp)) \<and>
     distinct (map ag_ID (ri_agents inp)) \<and> distinct (map plan_ID (ri_plans inp)) \<and>
     distinct (map mp_RepositoryID (ri_maintenance inp)) \<and> distinct (map rvp_TaskID (ri_verifications inp))"

lemma suffixes_plain:
  "\<forall>s \<in> set repository_suffixes. plain s" "\<forall>s \<in> set agent_suffixes. plain s" "\<forall>s \<in> set verification_suffixes. plain s"
  "plain ''run''" "plain ''stale''" "plain ''schedule''"
  "distinct repository_suffixes" "distinct agent_suffixes" "distinct verification_suffixes"
  by (simp_all add: repository_suffixes_def agent_suffixes_def verification_suffixes_def plain_def)

lemma families_plain:
  "plain ''task''" "plain ''repository''" "plain ''agent''" "plain ''plan''" "plain ''maintenance''" "plain ''restore-verification''"
  by (simp_all add: plain_def)

lemma alert_keys_distinct: "unique_ids inp \<Longrightarrow> distinct (alert_keys inp)"
  unfolding alert_keys_def unique_ids_def
  using suffixes_plain families_plain
  by (simp add: family_keys_distinct family_keys_disjoint Int_Un_distrib ball_Un)

lemma alert_keys_not_channel: "k \<in> set (alert_keys inp) \<Longrightarrow> k \<noteq> notification_channel_state_key"
  by (auto simp: alert_keys_def alert_key_def notification_channel_state_key_def dest!: set_family_keys)

lemma covers_family:
  "(\<And>x. x \<in> set xs \<Longrightarrow> covers (keys_of f ss (i x)) (acts x)) \<Longrightarrow> covers (family_keys f ss (map i xs)) (concat (map acts xs))"
  using covers_concat [of xs "\<lambda>x. keys_of f ss (i x)" acts] by (simp add: family_keys_def comp_def)

lemma covers_repositories:
  "decide_repositories inp now rs = (acts, stop) \<Longrightarrow> \<exists>ids ids'. ids @ ids' = map repo_ID rs \<and>
     (stop = None \<longrightarrow> ids' = []) \<and> covers (family_keys ''repository'' repository_suffixes ids) acts"
proof (induction rs arbitrary: acts)
  case Nil
  then show ?case by (simp add: family_keys_def)
next
  case (Cons r rs)
  show ?case
  proof (cases "\<exists>p fc acts'. acts = reconcile_repository r p fc now @ acts' \<and> decide_repositories inp now rs = (acts', stop)")
    case True
    then obtain p fc acts' where split: "acts = reconcile_repository r p fc now @ acts'"
      and rest: "decide_repositories inp now rs = (acts', stop)" by blast
    obtain ids ids' where "ids @ ids' = map repo_ID rs" "stop = None \<longrightarrow> ids' = []"
      "covers (family_keys ''repository'' repository_suffixes ids) acts'" using Cons.IH [OF rest] by blast
    then have "(repo_ID r # ids) @ ids' = map repo_ID (r # rs)" "stop = None \<longrightarrow> ids' = []"
      "covers (family_keys ''repository'' repository_suffixes (repo_ID r # ids)) acts"
      using covers_append [OF covers_repository] by (simp_all add: family_keys_def split)
    then show ?thesis by blast
  next
    case False
    with Cons.prems have "acts = [] \<and> stop \<noteq> None"
      by (auto simp: Let_def split: if_splits sum.splits prod.splits)
    then show ?thesis by (intro exI [of _ "[]"] exI [of _ "map repo_ID (r # rs)"]) (simp add: family_keys_def)
  qed
qed

lemma covers_decisions:
  assumes "reconcile_decisions inp now = (acts, None)"
  shows "covers (alert_keys inp) acts"
proof -
  obtain repositories stop where rs: "decide_repositories inp now (ri_repositories inp) = (repositories, stop)" by force
  with assms have "stop = None" by (cases stop) (auto simp: reconcile_decisions_def Let_def)
  with covers_repositories [OF rs] have "covers (family_keys ''repository'' repository_suffixes (map repo_ID (ri_repositories inp))) repositories"
    by auto
  with assms rs \<open>stop = None\<close> show ?thesis
    unfolding alert_keys_def reconcile_decisions_def Let_def
    by (auto intro!: covers_append covers_family covers_task covers_agent covers_plan covers_maintenance covers_verification)
qed

section \<open>A pass converges\<close>

lemma settle_unnamed: "k \<notin> set (List.map_filter decided acts) \<Longrightarrow> foldl settle m acts k = m k"
proof (induction acts arbitrary: m)
  case (Cons a acts)
  then show ?case by (cases a) (auto simp: map_filter_simps)
qed simp

lemma decided_in: "a \<in> set acts \<Longrightarrow> decided a = Some k \<Longrightarrow> k \<in> set (List.map_filter decided acts)"
  by (force simp: map_filter_def)

lemma settle_decided:
  assumes "distinct (List.map_filter decided acts)" and "a \<in> set acts"
  shows "foldl settle (foldl settle m acts) [a] = foldl settle m acts"
  using assms
proof (induction acts arbitrary: m)
  case (Cons b acts)
  show ?case
  proof (cases "a = b")
    case True
    then show ?thesis using Cons.prems settle_unnamed [of _ acts "settle m a"]
      by (cases a) (auto simp: map_filter_simps fun_eq_iff)
  next
    case False
    with Cons show ?thesis by (auto simp: map_filter_simps split: option.splits)
  qed
qed simp

definition idle :: "reconciliation \<Rightarrow> alert_action \<Rightarrow> bool" where
  "idle r a \<longleftrightarrow> (case a of Seen key \<Rightarrow> True | Resolve key \<Rightarrow> map_of (rc_active r) key = None
     | Raise sig \<Rightarrow> \<exists>s. map_of (rc_active r) (sig_StateKey sig) = Some s \<and> ast_Signal s = sig)"

lemma idle_step:
  assumes "idle r a"
  shows "rc_service (rc_act env r a) = rc_service r" "rc_active (rc_act env r a) = rc_active r"
    "rc_errors (rc_act env r a) = rc_errors r" "set (rc_seen (rc_act env r a)) = insert (action_key a) (set (rc_seen r))"
  using assms by (cases a; auto simp: idle_def rc_raise_def rc_resolve_def Let_def)+

lemma idle_run:
  assumes "\<forall>a \<in> set acts. idle r a"
  shows "rc_service (foldl (rc_act env) r acts) = rc_service r \<and> rc_active (foldl (rc_act env) r acts) = rc_active r \<and>
    rc_errors (foldl (rc_act env) r acts) = rc_errors r \<and>
    set (rc_seen (foldl (rc_act env) r acts)) = set (rc_seen r) \<union> action_key ` set acts"
  using assms
proof (induction acts arbitrary: r)
  case (Cons a acts)
  have "\<forall>b \<in> set acts. idle (rc_act env r a) b"
    using Cons.prems idle_step(2) [of r a env] by (auto simp: idle_def split: alert_action.split)
  with Cons.IH [of "rc_act env r a"] Cons.prems idle_step [of r a env] show ?case by auto
qed simp

lemma nothing_removed:
  assumes "\<forall>key s. map_of (rc_active r) key = Some s \<longrightarrow> \<not> (sig_Kind (ast_Signal s) \<in> set managed_kinds \<and> key \<notin> set (rc_seen r))"
  shows "foldl (resolve_if_removed env) r keys = r"
  using assms by (induction keys) (auto simp: resolve_if_removed_def split: option.split)

lemma settled_idle:
  assumes "distinct (List.map_filter decided acts)" and "a \<in> set acts" and "settled acts m = m'"
  shows "foldl settle m' [a] = m'"
proof -
  have seen: "action_key a \<in> action_key ` set acts" using assms(2) by simp
  have "foldl settle m acts = settle (foldl settle m acts) a" using settle_decided [OF assms(1,2), of m] by simp
  moreover have "drop_removed (action_key ` set acts) (settle n a) = settle (drop_removed (action_key ` set acts) n) a" for n
    using seen by (cases a) (auto simp: drop_removed_def fun_eq_iff)
  ultimately show ?thesis using assms(3) by (metis foldl_Cons foldl_Nil settled_def)
qed

lemma reconcile_pass:
  assumes inv: "alert_inv (as_db svc)" and order: "\<forall>keys. set (order keys) = set keys"
    and ok: "reconcile env order inp svc = (svc', None)"
  defines "now \<equiv> env_now (ae_world env) (ns_seen (as_notify svc))"
  shows "\<exists>acts. reconcile_decisions inp now = (acts, None) \<and> signals (as_db svc') = settled acts (signals (as_db svc)) \<and>
    alert_inv (as_db svc') \<and> channel_from (as_db svc) (as_db svc')"
proof -
  obtain acts stop where decisions: "reconcile_decisions inp now = (acts, stop)" by force
  define svc1 where "svc1 = fst (service_now env svc)"
  have clock: "service_now env svc = (svc1, now)" by (simp add: svc1_def service_now_def now_def)
  have db1: "as_db svc1 = as_db svc" by (simp add: svc1_def)
  let ?r0 = "\<lparr>rc_service = svc1, rc_active = current_alerts (as_db svc), rc_seen = [], rc_errors = []\<rparr>"
  define r where "r = foldl (rc_act env) ?r0 acts"
  define r' where "r' = foldl (resolve_if_removed env) r (order (map fst (rc_active r)))"
  have stop: "stop = None" and svc': "svc' = rc_service r'" and errors: "rc_errors r' = []"
    using ok clock decisions unfolding r'_def r_def
    by (auto simp: reconcile_def Let_def resolve_removed_def join_errors_def split: option.splits if_splits)
  have f0: "follows ?r0" using inv db1 by (simp add: follows_def map_of_current_alerts)
  have other: "\<forall>a \<in> set acts. action_key a \<noteq> notification_channel_state_key"
    using covers_decisions [of inp now acts] decisions stop alert_keys_not_channel by (auto simp: covers_def)
  note run = rc_act_run [OF f0 other r_def]
  note removal = resolve_if_removed_run [OF run(1) r'_def]
  have none: "rc_errors r = []" using removal errors by blast
  have seen: "set (rc_seen r) = action_key ` set acts" using run(3) by simp
  have settled_r: "signals (as_db (rc_service r)) = foldl settle (signals (as_db svc)) acts" using run(2) [OF none] db1 by simp
  have "signals (as_db svc') j = settled acts (signals (as_db svc)) j" for j
  proof (cases "j \<in> set (order (map fst (rc_active r)))")
    case True
    then show ?thesis using removal errors svc' seen settled_r by (simp add: settled_def)
  next
    case False
    then have "map_of (rc_active r) j = None" using order by (simp add: map_of_eq_None_iff)
    then have "signals (as_db (rc_service r)) j = None" using run(1) none by (auto simp: follows_def signals_def)
    then show ?thesis using False removal errors svc' settled_r by (simp add: settled_def drop_removed_def)
  qed
  moreover have "channel_from (as_db svc) (as_db svc')" using run(4) removal channel_from_trans db1 svc' by fastforce
  ultimately show ?thesis using decisions stop removal svc' by (auto simp: follows_def)
qed

definition channel_alert_marked :: "alert_db \<Rightarrow> bool" where
  "channel_alert_marked db \<longleftrightarrow> (case alert_active db notification_channel_state_key of
     None \<Rightarrow> True | Some s \<Rightarrow> sig_Kind (ast_Signal s) = ''notification_channel'')"

lemma reconcile_idle:
  assumes inv: "alert_inv (as_db svc)" and once: "distinct (List.map_filter decided acts)"
    and other: "\<forall>a \<in> set acts. action_key a \<noteq> notification_channel_state_key"
    and decisions: "reconcile_decisions inp (env_now (ae_world env) (ns_seen (as_notify svc))) = (acts, None)"
    and reached: "signals (as_db svc) = settled acts m" and marked: "channel_alert_marked (as_db svc)"
  shows "as_db (fst (reconcile env order inp svc)) = as_db svc"
proof -
  define svc1 where "svc1 = fst (service_now env svc)"
  have clock: "service_now env svc = (svc1, env_now (ae_world env) (ns_seen (as_notify svc)))"
    by (simp add: svc1_def service_now_def)
  let ?r0 = "\<lparr>rc_service = svc1, rc_active = current_alerts (as_db svc), rc_seen = [], rc_errors = []\<rparr>"
  define r where "r = foldl (rc_act env) ?r0 acts"
  have active: "map_of (current_alerts (as_db svc)) = alert_active (as_db svc)" by (rule map_of_current_alerts [OF inv])
  have "idle ?r0 a" if "a \<in> set acts" for a
  proof -
    have "foldl settle (signals (as_db svc)) [a] = signals (as_db svc)" using settled_idle [OF once that] reached by simp
    then have "signals (as_db svc) (action_key a) = settle (signals (as_db svc)) a (action_key a)" by simp
    then show ?thesis using other that by (cases a) (auto simp: idle_def active signals_def)
  qed
  note run = idle_run [of acts ?r0 env, folded r_def]
  have kept: "rc_service r = svc1" "rc_active r = current_alerts (as_db svc)" "set (rc_seen r) = action_key ` set acts"
    using run \<open>\<And>a. a \<in> set acts \<Longrightarrow> idle ?r0 a\<close> by simp_all
  have "\<not> (sig_Kind (ast_Signal s) \<in> set managed_kinds \<and> key \<notin> set (rc_seen r))" if "map_of (rc_active r) key = Some s" for key s
  proof (cases "key = notification_channel_state_key")
    case True
    then show ?thesis using that marked kept active by (auto simp: channel_alert_marked_def managed_kinds_def)
  next
    case False
    then have "settled acts m key = Some (ast_Signal s)" using that kept active reached [symmetric] by (simp add: signals_def)
    then show ?thesis using kept by (auto simp: settled_def drop_removed_def split: option.splits if_splits)
  qed
  then have unremoved: "resolve_removed env order r = r" unfolding resolve_removed_def by (intro nothing_removed) blast
  have "reconcile env order inp svc = (rc_service r, join_errors (rc_errors r))"
    by (simp only: reconcile_def clock decisions prod.case option.case Let_def r_def [symmetric] unremoved)
  then show ?thesis using kept(1) by (simp add: svc1_def)
qed

text \<open>
  C38: a pass of the reconciler converges. Whatever the notifier does, in whatever order the map of
  active alerts is walked, after a pass that reports no error the active alerts are the ones before
  it, overridden by the decisions about the present state of every object and without the managed
  alerts of objects that are gone. A later pass that decides the same leaves states and log alone.
\<close>
theorem reconcile_converges:
  assumes "alert_inv (as_db svc)" and "\<forall>keys. set (order keys) = set keys"
    and "reconcile env order inp svc = (svc', None)"
    and "fst (reconcile_decisions inp (env_now (ae_world env) (ns_seen (as_notify svc)))) = acts"
  shows "signals (as_db svc') = settled acts (signals (as_db svc)) \<and>
    (unique_ids inp \<and> channel_alert_marked (as_db svc) \<and> as_db svc2 = as_db svc' \<and>
       reconcile_decisions inp2 (env_now (ae_world env2) (ns_seen (as_notify svc2))) = (acts, None) \<longrightarrow>
     as_db (fst (reconcile env2 order inp2 svc2)) = as_db svc')"
proof -
  have pass: "reconcile_decisions inp (env_now (ae_world env) (ns_seen (as_notify svc))) = (acts, None)"
    "signals (as_db svc') = settled acts (signals (as_db svc))" "alert_inv (as_db svc')" "channel_from (as_db svc) (as_db svc')"
    using reconcile_pass [OF assms(1-3)] assms(4) by auto
  have "covers (alert_keys inp) acts" using covers_decisions [OF pass(1)] .
  then have "\<forall>a \<in> set acts. action_key a \<noteq> notification_channel_state_key"
    and "unique_ids inp \<Longrightarrow> distinct (List.map_filter decided acts)"
    using alert_keys_not_channel covers_decided_once alert_keys_distinct by (auto simp: covers_def)
  moreover have "channel_alert_marked (as_db svc) \<Longrightarrow> channel_alert_marked (as_db svc')"
    using pass(4) by (auto simp: channel_alert_marked_def channel_from_def split: option.splits)
  ultimately show ?thesis using reconcile_idle [of svc2 acts inp2 env2] pass by auto
qed

text \<open>A plan whose last occurrence was missed, the alert of a task that is gone, a channel that refuses.\<close>

definition missed_plan :: plan where
  "missed_plan = \<lparr>plan_ID = ''p'', plan_Name = ''nightly'', plan_Schedule = nightly, plan_Timezone = ''UTC'',
     plan_MaxParallel = 1, plan_TaskIDs = [''t''], plan_Enabled = True, plan_CatchUpWindowMinutes = 0,
     plan_ScheduleAnchorAt = 1, plan_CreatedAt = 1, plan_UpdatedAt = 1\<rparr>"

definition inputs_example :: reconcile_inputs where
  "inputs_example = \<lparr>ri_tasks = [], ri_health = Map.empty, ri_repositories = [], ri_capacity = [],
     ri_forecast = (\<lambda>_. Inl NoRows), ri_agents = [], ri_plans = [missed_plan], ri_maintenance = [], ri_verifications = [],
     ri_latest = Map.empty, ri_latest_success = Map.empty, ri_cleanup = Map.empty,
     ri_plan_occurrences = (\<lambda>i. if i = ''p'' then Some (occurrence_example\<lparr>occ_Status := ''missed''\<rparr>) else None),
     ri_maintenance_occurrences = Map.empty, ri_verification_occurrences = Map.empty\<rparr>"

definition service_example :: alert_service where
  "service_example = \<lparr>as_db = foldl alert_step no_alerts
     [RaiseAlert (signal ''task:gone:run'' ''task_run'' AlertWarning ''task'' ''gone'' ''gone'' ''r'' ''m'' ''p'' ''c'') 1],
     as_notify = nothing_sent\<rparr>"

definition alert_env_example :: alert_env where
  "alert_env_example = \<lparr>ae_world = env_example, ae_channels = Some (\<lambda>_. Inr [leaky_channel])\<rparr>"

lemma reconcile_example:
  "snd (reconcile alert_env_example id inputs_example service_example) = None"
  by code_simp
lemma reconcile_example_alerts:
  "map state_key (list_active_alerts (as_db (fst (reconcile alert_env_example id inputs_example service_example)))) =
     [''notification:channels:delivery'', ''plan:p:schedule'']"
  by code_simp

theorem reconcile_converges_witness:
  "signals (as_db (fst (reconcile alert_env_example id inputs_example service_example))) ''plan:p:schedule'' \<noteq> None \<and>
   signals (as_db (fst (reconcile alert_env_example id inputs_example service_example))) ''task:gone:run'' = None \<and>
   as_db (fst (reconcile alert_env_example id inputs_example (fst (reconcile alert_env_example id inputs_example service_example)))) =
     as_db (fst (reconcile alert_env_example id inputs_example service_example))"
proof -
  let ?svc = "fst (reconcile alert_env_example id inputs_example service_example)"
  have decisions: "reconcile_decisions inputs_example now = (reconcile_plan missed_plan (ri_plan_occurrences inputs_example ''p''), None)" for now
    by (simp add: reconcile_decisions_def inputs_example_def missed_plan_def)
  have inv: "alert_inv (as_db service_example)"
    unfolding service_example_def alert_service.simps by (rule alert_inv_run [OF no_alerts_inv])
  have ok: "reconcile alert_env_example id inputs_example service_example = (?svc, None)"
    using reconcile_example by (metis prod.collapse)
  note pass = reconcile_converges [OF inv _ ok, of "reconcile_plan missed_plan (ri_plan_occurrences inputs_example ''p'')"
      ?svc inputs_example alert_env_example]
  have "signals (as_db ?svc) = settled (reconcile_plan missed_plan (ri_plan_occurrences inputs_example ''p'')) (signals (as_db service_example))"
    using pass by (simp add: decisions)
  moreover have "settled (reconcile_plan missed_plan (ri_plan_occurrences inputs_example ''p'')) (signals (as_db service_example)) ''plan:p:schedule'' \<noteq> None"
    "settled (reconcile_plan missed_plan (ri_plan_occurrences inputs_example ''p'')) (signals (as_db service_example)) ''task:gone:run'' = None"
    by code_simp+
  moreover have "unique_ids inputs_example" by (simp add: unique_ids_def inputs_example_def)
  moreover have "channel_alert_marked (as_db service_example)" by code_simp
  ultimately show ?thesis using pass by (simp add: decisions)
qed

end
