(* ===== verification/Resource_Tables.thy ===== *)
theory Resource_Tables
  imports Occurrence_Store Operation_Store Run_Records Agent_Work Alert_Store Notification_Delivery
    Restore_Verification Repository_Capacity Utc_Text
begin

text \<open>
  The tables of the control plane's database (src/internal/store/store.go, \<open>migrate\<close>) that hold
  resources and what belongs to them, as one state, and the logical references between them. The
  schema declares no foreign key: \<open>requireLogicalReference\<close> and the statements of a deletion keep
  the references, and src/internal/store/secrets.go refuses to delete a secret in use.

  A column with a JSON text holds the value the text encodes, and two such texts are equal when
  their values are. A nullable text column is the empty string when it is \<open>NULL\<close>.
\<close>

section \<open>Rows\<close>

record secret_row =
  sec_ID :: string
  sec_Purpose :: string
  sec_Ciphertext :: string
  sec_CreatedAt :: instant

record host_row = remote_host +
  hrow_SecretID :: string

record repo_row = repository +
  rrow_PasswordSecretID :: string

record connection_row = database_connection +
  dcrow_SecretID :: string

record key_revocation =
  rvk_RepositoryID :: string
  rvk_KeyID :: string
  rvk_SecretID :: string
  rvk_CreatedAt :: instant

record plan_task =
  pt_PlanID :: string
  pt_TaskID :: string
  pt_Position :: nat

record maintenance_preview =
  mpv_ID :: string
  mpv_RepositoryID :: string
  mpv_Retention :: retention_policy
  mpv_KeepCount :: int
  mpv_RemoveCount :: int
  mpv_CreatedAt :: instant
  mpv_ExpiresAt :: instant
  mpv_ConsumedAt :: "instant option"

record scope_preview =
  tsp_ID :: string
  tsp_TaskID :: string
  tsp_Fingerprint :: string
  tsp_Summary :: json
  tsp_RequiresDeleteConfirmation :: bool
  tsp_CreatedAt :: instant
  tsp_ExpiresAt :: instant
  tsp_ConsumedAt :: "instant option"

record snapshot_metadata =
  smd_Engine :: string
  smd_Database :: string
  smd_Format :: string
  smd_Filename :: string
  smd_ServerVersion :: string
  smd_ClientVersion :: string
  smd_Encoding :: string
  smd_Collation :: string

record snapshot_record =
  snap_RepositoryID :: string
  snap_SnapshotID :: string
  snap_MetadataVersion :: int
  snap_Metadata :: snapshot_metadata
  snap_CreatedAt :: instant

record protection_template =
  ptm_ID :: string
  ptm_Name :: string
  ptm_Retention :: retention_policy
  ptm_Resources :: resource_policy
  ptm_MaxSuccessAgeHours :: int
  ptm_Schedule :: schedule
  ptm_Timezone :: string
  ptm_MaxParallel :: int
  ptm_CatchUpWindowMinutes :: int
  ptm_CreatedAt :: instant
  ptm_UpdatedAt :: instant

record protection_draft =
  pdr_ID :: string
  pdr_Name :: string
  pdr_TemplateID :: string
  pdr_ExecutionTarget :: target
  pdr_Retention :: retention_policy
  pdr_Resources :: resource_policy
  pdr_MaxSuccessAgeHours :: int
  pdr_Schedule :: schedule
  pdr_Timezone :: string
  pdr_MaxParallel :: int
  pdr_CatchUpWindowMinutes :: int
  pdr_NotificationMode :: string
  pdr_PlanID :: string
  pdr_Status :: string
  pdr_CreatedAt :: instant
  pdr_UpdatedAt :: instant

record draft_item =
  pdi_ID :: string
  pdi_DraftID :: string
  pdi_Position :: int
  pdi_TaskName :: string
  pdi_Directory :: "directory_source option"
  pdi_Database :: "database_source option"
  pdi_RepositoryID :: string
  pdi_RepositoryName :: string
  pdi_RepositoryKind :: string
  pdi_RemoteHostID :: string
  pdi_RepositoryPath :: string
  pdi_PasswordSecretID :: string
  pdi_TaskID :: string
  pdi_Status :: string
  pdi_Error :: string
  pdi_UpdatedAt :: instant

text \<open>
  \<open>tb_channel_secrets\<close> are the secrets that the notification configurations in the table
  \<open>metadata\<close> name; the plans' tasks are in \<open>tb_plan_tasks\<close>, so \<open>plan_TaskIDs\<close> of a row is empty.
\<close>

record tables =
  tb_secrets :: "secret_row list"
  tb_channel_secrets :: "string list"
  tb_hosts :: "host_row list"
  tb_repositories :: "repo_row list"
  tb_revocations :: "key_revocation list"
  tb_capacities :: "sample_row list"
  tb_capacity_policies :: "capacity_row list"
  tb_samples :: "sample_row list"
  tb_next_sample :: nat
  tb_maintenance :: "maintenance_policy list"
  tb_maintenance_previews :: "maintenance_preview list"
  tb_snapshots :: "snapshot_record list"
  tb_connections :: "connection_row list"
  tb_tasks :: "task list"
  tb_plans :: "plan list"
  tb_plan_tasks :: "plan_task list"
  tb_agents :: "agent list"
  tb_certificates :: "agent_certificate list"
  tb_tokens :: "enrollment_token list"
  tb_leases :: "agent_lease list"
  tb_filesystem :: "work_request list"
  tb_restores :: "work_request list"
  tb_runs :: "run_record list"
  tb_operations :: "operation list"
  tb_occurrences :: "occurrence list"
  tb_scope_previews :: "scope_preview list"
  tb_verification_policies :: "restore_verification_policy list"
  tb_verifications :: "restore_verification list"
  tb_templates :: "protection_template list"
  tb_drafts :: "protection_draft list"
  tb_draft_items :: "draft_item list"
  tb_alert_states :: "alert_state list"
  tb_alert_events :: "alert_event list"
  tb_notifications :: "notification_row list"
  tb_deliveries :: "delivery list"

abbreviation secret_ids :: "tables \<Rightarrow> string list" where "secret_ids tb \<equiv> map sec_ID (tb_secrets tb)"
abbreviation host_ids :: "tables \<Rightarrow> string list" where "host_ids tb \<equiv> map host_ID (tb_hosts tb)"
abbreviation repository_ids :: "tables \<Rightarrow> string list" where "repository_ids tb \<equiv> map repo_ID (tb_repositories tb)"
abbreviation connection_ids :: "tables \<Rightarrow> string list" where "connection_ids tb \<equiv> map conn_ID (tb_connections tb)"
abbreviation task_ids :: "tables \<Rightarrow> string list" where "task_ids tb \<equiv> map task_ID (tb_tasks tb)"
abbreviation plan_ids :: "tables \<Rightarrow> string list" where "plan_ids tb \<equiv> map plan_ID (tb_plans tb)"
abbreviation registered_agents :: "tables \<Rightarrow> string list" where "registered_agents tb \<equiv> map ag_ID (tb_agents tb)"

definition no_tables :: tables where
  "no_tables = \<lparr>tb_secrets = [], tb_channel_secrets = [], tb_hosts = [], tb_repositories = [], tb_revocations = [],
     tb_capacities = [], tb_capacity_policies = [], tb_samples = [], tb_next_sample = 1, tb_maintenance = [],
     tb_maintenance_previews = [], tb_snapshots = [], tb_connections = [], tb_tasks = [], tb_plans = [], tb_plan_tasks = [],
     tb_agents = [], tb_certificates = [], tb_tokens = [], tb_leases = [], tb_filesystem = [], tb_restores = [], tb_runs = [],
     tb_operations = [], tb_occurrences = [], tb_scope_previews = [], tb_verification_policies = [], tb_verifications = [],
     tb_templates = [], tb_drafts = [], tb_draft_items = [], tb_alert_states = [], tb_alert_events = [],
     tb_notifications = [], tb_deliveries = []\<rparr>"

text \<open>The instant as it stands in a column: \<open>formatTime\<close>.\<close>

definition stored_text :: "instant \<Rightarrow> string" where
  "stored_text t = butlast (rfc3339_text t) @ frac_text t"

section \<open>Checks in a row\<close>

lemma require_reference_None [simp]: "require_reference P = None \<longleftrightarrow> P"
  by (simp add: require_reference_def)

text \<open>A transaction: it changes the tables only when every check before its commit passed.\<close>

definition transaction :: "'s \<Rightarrow> check list \<Rightarrow> 's \<Rightarrow> 's \<times> check" where
  "transaction tb checks committed =
     (case first_error checks of None \<Rightarrow> (committed, None) | Some err \<Rightarrow> (tb, Some err))"

lemma transaction_cases:
  "transaction tb checks committed = (tb', res) \<longleftrightarrow>
     (res = None \<and> tb' = committed \<and> (\<forall>c \<in> set checks. c = None)) \<or> (res \<noteq> None \<and> tb' = tb \<and> res = first_error checks)"
  by (auto simp: transaction_def first_error_None [symmetric] split: option.splits)

section \<open>Secrets\<close>

definition secret_referenced :: "tables \<Rightarrow> string \<Rightarrow> bool" where
  "secret_referenced tb i \<longleftrightarrow>
     list_ex (\<lambda>h. hrow_SecretID h = i) (tb_hosts tb) \<or>
     i \<noteq> [] \<and> list_ex (\<lambda>r. rrow_PasswordSecretID r = i \<or> repo_BackendSecretID r = i) (tb_repositories tb) \<or>
     list_ex (\<lambda>r. rvk_SecretID r = i) (tb_revocations tb) \<or>
     list_ex (\<lambda>c. dcrow_SecretID c = i) (tb_connections tb) \<or>
     list_ex (\<lambda>d. pdi_PasswordSecretID d = i) (tb_draft_items tb) \<or>
     i \<in> set (tb_channel_secrets tb)"

definition save_secret :: "tables \<Rightarrow> string \<Rightarrow> string \<Rightarrow> string \<Rightarrow> instant \<Rightarrow> tables \<times> check" where
  "save_secret tb i purpose ciphertext now =
     (case insert_row sec_ID \<lparr>sec_ID = i, sec_Purpose = purpose, sec_Ciphertext = ciphertext, sec_CreatedAt = now\<rparr> (tb_secrets tb) of
        None \<Rightarrow> (tb, Some (Wrapped ''save secret'' Constraint))
      | Some t \<Rightarrow> (tb\<lparr>tb_secrets := t\<rparr>, None))"

definition load_secret :: "tables \<Rightarrow> string \<Rightarrow> (string \<times> string) outcome" where
  "load_secret tb i =
     (case row sec_ID i (tb_secrets tb) of None \<Rightarrow> Inl NoRows | Some s \<Rightarrow> Inr (sec_Purpose s, sec_Ciphertext s))"

definition delete_secret :: "tables \<Rightarrow> string \<Rightarrow> tables \<times> check" where
  "delete_secret tb i =
     transaction tb
       [reject (secret_referenced tb i) Conflict,
        reject (affected (\<lambda>s. sec_ID s = i) (tb_secrets tb) \<noteq> 1) Conflict]
       (tb\<lparr>tb_secrets := delete_where (\<lambda>s. sec_ID s = i) (tb_secrets tb)\<rparr>)"

end
