(* ===== verification/Resource_Store.thy ===== *)
theory Resource_Store
  imports Resource_Tables
begin

text \<open>
  The resources of src/internal/store/resources.go and crud.go: remote hosts, repositories, database
  connections, tasks and plans are created, updated and listed. Their deletion is in
  \<open>Resource_Deletion\<close>. Every function is one transaction.
\<close>

definition with_value :: "'s \<times> check \<Rightarrow> 'v \<Rightarrow> 's \<times> 'v outcome" where
  "with_value r v = (fst r, case snd r of None \<Rightarrow> Inr v | Some err \<Rightarrow> Inl err)"

definition failure :: "'a outcome \<Rightarrow> check" where
  "failure r = (case r of Inl err \<Rightarrow> Some err | Inr _ \<Rightarrow> None)"

section \<open>Remote hosts\<close>

definition host_row_of :: "remote_host \<Rightarrow> string \<Rightarrow> host_row" where
  "host_row_of h secret = remote_host.extend h (host_row.fields secret)"

definition create_remote_host :: "tables \<Rightarrow> remote_host \<Rightarrow> string \<Rightarrow> tables \<times> check" where
  "create_remote_host tb h secret =
     transaction tb
       [require_reference (secret \<in> set (secret_ids tb)),
        reject (list_ex (\<lambda>g. host_ID g = host_ID h \<or> host_Name g = host_Name h) (tb_hosts tb)) Conflict]
       (tb\<lparr>tb_hosts := tb_hosts tb @ [host_row_of h secret]\<rparr>)"

definition update_remote_host :: "tables \<Rightarrow> remote_host \<Rightarrow> string \<Rightarrow> tables \<times> string outcome" where
  "update_remote_host tb h new_secret =
     (case row host_ID (host_ID h) (tb_hosts tb) of
        None \<Rightarrow> (tb, Inl NoRows)
      | Some old \<Rightarrow>
          let secret = (if new_secret \<noteq> [] then new_secret else hrow_SecretID old) in
          with_value
            (transaction tb
               [require_reference (secret \<in> set (secret_ids tb)),
                reject (list_ex (\<lambda>g. host_ID g \<noteq> host_ID h \<and> host_Name g = host_Name h) (tb_hosts tb)) Conflict]
               (tb\<lparr>tb_hosts := update_where (\<lambda>g. host_ID g = host_ID h)
                  (\<lambda>g. (host_row_of h secret)\<lparr>host_CreatedAt := host_CreatedAt g\<rparr>) (tb_hosts tb)\<rparr>))
            (hrow_SecretID old))"

definition list_remote_hosts :: "tables \<Rightarrow> remote_host list" where
  "list_remote_hosts tb = map remote_host.truncate (sort_key (\<lambda>h. (host_Name h, host_ID h)) (tb_hosts tb))"

section \<open>Repositories\<close>

text \<open>\<open>encodeRepositoryBackend\<close> (\<open>None\<close> for the empty text) and \<open>encodeRepositoryLocalTarget\<close>
  (\<open>no_target\<close> for the empty text) of repository_backend.go and repository_local_target.go.\<close>

definition encode_repository_backend :: "repository \<Rightarrow> s3_config option outcome" where
  "encode_repository_backend r =
     (if effective_kind r \<noteq> S3Repository then
        if repo_S3 r \<noteq> None \<or> repo_BackendSecretID r \<noteq> []
        then Inl (Invalid ''non-S3 repository cannot contain S3 backend material'') else Inr None
      else (case repo_S3 r of
              None \<Rightarrow> Inl (Invalid ''S3 repository requires structured settings and a credential secret'')
            | Some c \<Rightarrow>
                if repo_BackendSecretID r = []
                then Inl (Invalid ''S3 repository requires structured settings and a credential secret'')
                else Inr (Some (c\<lparr>s3_Endpoint := (if suffix ''/'' (s3_Endpoint c) then butlast (s3_Endpoint c) else s3_Endpoint c),
                                   s3_CredentialsConfigured := False\<rparr>))))"

definition encode_repository_local_target :: "repository \<Rightarrow> target outcome" where
  "encode_repository_local_target r =
     (if effective_kind r \<noteq> LocalRepository then
        if repo_LocalTarget r \<noteq> no_target
        then Inl (Invalid ''remote repository cannot declare a local filesystem owner'') else Inr no_target
      else (case target_validate (effective_local_target r) of
              Some err \<Rightarrow> Inl err
            | None \<Rightarrow> Inr (effective_local_target r)))"

definition decode_repository_local_target :: "repo_row \<Rightarrow> target outcome" where
  "decode_repository_local_target r =
     (if repo_Kind r \<noteq> LocalRepository then
        if repo_LocalTarget r \<noteq> no_target
        then Inl (Invalid ''remote repository has an invalid local filesystem owner'') else Inr no_target
      else if repo_LocalTarget r = no_target then Inr \<lparr>target_Kind = Local, target_AgentID = []\<rparr>
      else (case target_validate (repo_LocalTarget r) of
              Some err \<Rightarrow> Inl (Wrapped ''validate repository local target'' err)
            | None \<Rightarrow> Inr (repo_LocalTarget r)))"

definition decode_repository_backend :: "repo_row \<Rightarrow> repository outcome" where
  "decode_repository_backend r =
     (if repo_Kind r \<noteq> S3Repository then
        if repo_S3 r \<noteq> None \<or> repo_BackendSecretID r \<noteq> []
        then Inl (Invalid ''non-S3 repository contains S3 backend material'')
        else Inr ((repository.truncate r)\<lparr>repo_BackendSecretID := []\<rparr>)
      else (case repo_S3 r of
              None \<Rightarrow> Inl (Invalid ''S3 repository backend material is incomplete'')
            | Some c \<Rightarrow>
                if repo_BackendSecretID r = [] then Inl (Invalid ''S3 repository backend material is incomplete'')
                else Inr ((repository.truncate r)\<lparr>repo_S3 := Some (c\<lparr>s3_CredentialsConfigured := True\<rparr>)\<rparr>)))"

definition local_target_reference :: "tables \<Rightarrow> repository \<Rightarrow> check" where
  "local_target_reference tb r =
     (if effective_kind r = LocalRepository \<and> target_Kind (effective_local_target r) = Agent
      then require_reference (target_AgentID (effective_local_target r) \<in> set (registered_agents tb)) else None)"

text \<open>The partial unique indexes over the location of a repository.\<close>

datatype repository_location = At_Host string string | At_Owner target string | At_Bucket string string string

definition repository_location :: "repo_row \<Rightarrow> repository_location option" where
  "repository_location r =
     (if repo_Kind r = SFTPRepository \<or> repo_Kind r = SSHRepository then
        if repo_RemoteHostID r = [] then None else Some (At_Host (repo_RemoteHostID r) (repo_Path r))
      else if repo_Kind r = LocalRepository then Some (At_Owner (repo_LocalTarget r) (repo_Path r))
      else if repo_Kind r = S3Repository then
        map_option (\<lambda>c. At_Bucket (s3_Endpoint c) (s3_Bucket c) (repo_Path r)) (repo_S3 r)
      else None)"

definition repositories_clash :: "repo_row \<Rightarrow> repo_row \<Rightarrow> bool" where
  "repositories_clash q r \<longleftrightarrow> repo_Name q = repo_Name r \<or>
     (repository_location q \<noteq> None \<and> repository_location q = repository_location r)"

definition repo_row_of :: "repository \<Rightarrow> s3_config option \<Rightarrow> target \<Rightarrow> string \<Rightarrow> repo_row" where
  "repo_row_of r backend owner password =
     repository.extend
       (r\<lparr>repo_Engine := effective_engine (repo_Engine r), repo_Kind := effective_kind r, repo_LocalTarget := owner,
          repo_S3 := backend, repo_Capacity := None, repo_LastRun := None, repo_NextRun := []\<rparr>)
       (repo_row.fields password)"

text \<open>The row that is written; its columns are encoded before the transaction begins.\<close>

definition written_repository :: "repository \<Rightarrow> string \<Rightarrow> repo_row" where
  "written_repository r password =
     repo_row_of r (projr (encode_repository_backend r)) (projr (encode_repository_local_target r)) password"

definition encoding_errors :: "repository \<Rightarrow> check list" where
  "encoding_errors r = [failure (encode_repository_backend r), failure (encode_repository_local_target r)]"

definition repository_references :: "tables \<Rightarrow> repository \<Rightarrow> string \<Rightarrow> check list" where
  "repository_references tb r password =
     [require_reference (repo_RemoteHostID r \<noteq> [] \<longrightarrow> repo_RemoteHostID r \<in> set (host_ids tb)),
      local_target_reference tb r,
      require_reference (password \<noteq> [] \<longrightarrow> password \<in> set (secret_ids tb)),
      require_reference (repo_BackendSecretID r \<noteq> [] \<longrightarrow> repo_BackendSecretID r \<in> set (secret_ids tb))]"

text \<open>The tables of the repository's capacity, as \<open>Repository_Capacity\<close> sees them.\<close>

definition capacity_view :: "tables \<Rightarrow> capacity_db" where
  "capacity_view tb = \<lparr>cdb_policies = tb_capacity_policies tb, cdb_samples = tb_samples tb, cdb_next = tb_next_sample tb,
     cdb_capacities = tb_capacities tb,
     cdb_repositories = map (\<lambda>r. \<lparr>rr_ID = repo_ID r, rr_Kind = repo_Kind r, rr_Status = repo_Status r\<rparr>) (tb_repositories tb)\<rparr>"

definition put_capacity :: "tables \<Rightarrow> capacity_db \<Rightarrow> tables" where
  "put_capacity tb db = tb\<lparr>tb_capacity_policies := cdb_policies db, tb_samples := cdb_samples db,
     tb_next_sample := cdb_next db, tb_capacities := cdb_capacities db\<rparr>"

definition create_repository :: "tables \<Rightarrow> repository \<Rightarrow> string \<Rightarrow> instant \<Rightarrow> tables \<times> check" where
  "create_repository tb r password now =
     (let created = (if repo_CreatedAt r = zero_time then now else repo_CreatedAt r);
          (capacity, err) = insert_default_capacity_policy (capacity_view tb) (repo_ID r) created
             (effective_kind r \<noteq> S3Repository) in
      transaction tb
        (encoding_errors r @ repository_references tb r password @
         [reject (list_ex (\<lambda>q. repo_ID q = repo_ID r \<or> repositories_clash q (written_repository r password))
            (tb_repositories tb)) Conflict,
          map_option (Wrapped ''create repository capacity policy'') err])
        (put_capacity (tb\<lparr>tb_repositories := tb_repositories tb @ [written_repository r password]\<rparr>) capacity))"

definition keep_backend_secret :: "repo_row \<Rightarrow> repository \<Rightarrow> repository" where
  "keep_backend_secret old r =
     (if effective_kind r = S3Repository \<and> repo_BackendSecretID r = []
      then r\<lparr>repo_BackendSecretID := repo_BackendSecretID old\<rparr> else r)"

definition repository_moved :: "repo_row \<Rightarrow> repo_row \<Rightarrow> bool" where
  "repository_moved old new \<longleftrightarrow> repo_Kind old \<noteq> repo_Kind new \<or> repo_LocalTarget old \<noteq> repo_LocalTarget new \<or>
     repo_RemoteHostID old \<noteq> repo_RemoteHostID new \<or> repo_Path old \<noteq> repo_Path new \<or> repo_S3 old \<noteq> repo_S3 new"

definition repository_obsolete :: "repo_row \<Rightarrow> repo_row \<Rightarrow> string \<Rightarrow> string list" where
  "repository_obsolete old new new_secret =
     (if new_secret \<noteq> [] \<and> rrow_PasswordSecretID old \<noteq> [] \<and> rrow_PasswordSecretID old \<noteq> rrow_PasswordSecretID new
      then [rrow_PasswordSecretID old] else []) @
     (if repo_BackendSecretID old \<noteq> [] \<and> repo_BackendSecretID old \<noteq> repo_BackendSecretID new
      then [repo_BackendSecretID old] else [])"

definition replace_repository :: "tables \<Rightarrow> repo_row \<Rightarrow> repository \<Rightarrow> string \<Rightarrow> tables \<times> check" where
  "replace_repository tb old r secret =
     (let new = written_repository r secret in
      transaction tb
        (encoding_errors r @
         [reject (repository_moved old new \<and> list_ex (\<lambda>t. task_RepositoryID t = repo_ID r) (tb_tasks tb)) Conflict] @
         repository_references tb r secret @
         [reject (list_ex (\<lambda>q. repo_ID q \<noteq> repo_ID r \<and> repositories_clash q new) (tb_repositories tb)) Conflict])
        (tb\<lparr>tb_repositories := update_where (\<lambda>q. repo_ID q = repo_ID r)
           (\<lambda>q. new\<lparr>repo_CreatedAt := repo_CreatedAt q\<rparr>) (tb_repositories tb)\<rparr>))"

definition update_repository :: "tables \<Rightarrow> repository \<Rightarrow> string \<Rightarrow> tables \<times> string list outcome" where
  "update_repository tb r0 new_secret =
     (case row repo_ID (repo_ID r0) (tb_repositories tb) of
        None \<Rightarrow> (tb, Inl NoRows)
      | Some old \<Rightarrow>
          let r = keep_backend_secret old r0; secret = (if new_secret \<noteq> [] then new_secret else rrow_PasswordSecretID old) in
          with_value (replace_repository tb old r secret)
            (repository_obsolete old (written_repository r secret) new_secret))"

definition update_repository_status :: "tables \<Rightarrow> string \<Rightarrow> string \<Rightarrow> instant \<Rightarrow> tables" where
  "update_repository_status tb i status now =
     tb\<lparr>tb_repositories := update_where (\<lambda>r. repo_ID r = i)
          (\<lambda>r. r\<lparr>repo_Status := status, repo_UpdatedAt := now\<rparr>) (tb_repositories tb)\<rparr>"

fun collect :: "('a \<Rightarrow> 'b outcome) \<Rightarrow> 'a list \<Rightarrow> 'b list outcome" where
  "collect f [] = Inr []"
| "collect f (x # xs) =
     (case f x of Inl err \<Rightarrow> Inl err
      | Inr y \<Rightarrow> (case collect f xs of Inl err \<Rightarrow> Inl err | Inr ys \<Rightarrow> Inr (y # ys)))"

definition stored_capacity :: "tables \<Rightarrow> string \<Rightarrow> repository_capacity option" where
  "stored_capacity tb i =
     (case row smp_RepositoryID i (tb_capacities tb) of
        None \<Rightarrow> None
      | Some c \<Rightarrow>
          if smp_TotalBytes c < 0 \<or> smp_AvailableBytes c < 0 then None
          else Some \<lparr>cap_TotalBytes = word_of_int (smp_TotalBytes c),
            cap_UsedBytes = (if smp_TotalBytes c \<ge> smp_AvailableBytes c
                             then word_of_int (smp_TotalBytes c) - word_of_int (smp_AvailableBytes c) else 0),
            cap_AvailableBytes = word_of_int (smp_AvailableBytes c), cap_CheckedAt = smp_CheckedAt c,
            cap_SourceAgentID = smp_SourceAgentID c\<rparr>)"

definition read_repository :: "tables \<Rightarrow> repo_row \<Rightarrow> repository outcome" where
  "read_repository tb r =
     (case decode_repository_backend r of
        Inl err \<Rightarrow> Inl err
      | Inr q \<Rightarrow>
          (case decode_repository_local_target r of
             Inl err \<Rightarrow> Inl err
           | Inr owner \<Rightarrow> Inr (q\<lparr>repo_LocalTarget := owner, repo_Capacity := stored_capacity tb (repo_ID r)\<rparr>)))"

definition list_repositories :: "tables \<Rightarrow> repository list outcome" where
  "list_repositories tb = collect (read_repository tb) (sort_key (\<lambda>r. (repo_Name r, repo_ID r)) (tb_repositories tb))"

section \<open>Database connections\<close>

definition connection_row_of :: "database_connection \<Rightarrow> string \<Rightarrow> connection_row" where
  "connection_row_of c secret = database_connection.extend c (connection_row.fields secret)"

definition create_database_connection :: "tables \<Rightarrow> database_connection \<Rightarrow> string \<Rightarrow> tables \<times> check" where
  "create_database_connection tb c secret =
     transaction tb
       [require_reference (secret \<in> set (secret_ids tb)),
        reject (list_ex (\<lambda>d. conn_ID d = conn_ID c \<or> conn_Name d = conn_Name c) (tb_connections tb)) Conflict]
       (tb\<lparr>tb_connections := tb_connections tb @ [connection_row_of c secret]\<rparr>)"

text \<open>\<open>json_extract(source_json,'$.connectionId')\<close> of a task of kind database.\<close>

definition uses_connection :: "string \<Rightarrow> task \<Rightarrow> bool" where
  "uses_connection i t \<longleftrightarrow> task_Kind t = ''database'' \<and>
     (case task_Database t of None \<Rightarrow> False | Some d \<Rightarrow> dbs_ConnectionID d = i)"

definition update_database_connection :: "tables \<Rightarrow> database_connection \<Rightarrow> string \<Rightarrow> tables \<times> string outcome" where
  "update_database_connection tb c new_secret =
     (case row conn_ID (conn_ID c) (tb_connections tb) of
        None \<Rightarrow> (tb, Inl NoRows)
      | Some old \<Rightarrow>
          let secret = (if new_secret \<noteq> [] then new_secret else dcrow_SecretID old) in
          with_value
            (transaction tb
               [reject ((conn_Engine old \<noteq> conn_Engine c \<or> conn_Purpose old \<noteq> conn_Purpose c) \<and>
                        list_ex (uses_connection (conn_ID c)) (tb_tasks tb)) Conflict,
                require_reference (secret \<in> set (secret_ids tb)),
                reject (list_ex (\<lambda>d. conn_ID d \<noteq> conn_ID c \<and> conn_Name d = conn_Name c) (tb_connections tb)) Conflict]
               (tb\<lparr>tb_connections := update_where (\<lambda>d. conn_ID d = conn_ID c)
                  (\<lambda>d. (connection_row_of c secret)\<lparr>conn_CreatedAt := conn_CreatedAt d\<rparr>) (tb_connections tb)\<rparr>))
            (dcrow_SecretID old))"

definition list_database_connections :: "tables \<Rightarrow> database_connection list" where
  "list_database_connections tb =
     map database_connection.truncate (sort_key (\<lambda>c. (conn_Name c, conn_ID c)) (tb_connections tb))"

text \<open>
  Temporary connections older than the cutoff go, unless an operation that names them still runs;
  \<open>connection_of\<close> is \<open>json_extract(detail_json,'$.connectionId')\<close>.
\<close>

definition temporary_connection :: "string \<Rightarrow> bool" where
  "temporary_connection i \<longleftrightarrow> take 17 i = ''temporary-dbconn_''"

definition delete_expired_temporary_connections ::
  "(operation \<Rightarrow> string) \<Rightarrow> tables \<Rightarrow> instant \<Rightarrow> tables \<times> string list" where
  "delete_expired_temporary_connections connection_of tb cutoff =
     (let expired = (\<lambda>c. temporary_connection (conn_ID c) \<and> format_time (conn_CreatedAt c) < format_time cutoff \<and>
            \<not> list_ex (\<lambda>r. connection_of r = conn_ID c \<and> op_Status r \<in> set [''queued'', ''running'', ''cleanup_required''])
               (tb_operations tb)) in
      (tb\<lparr>tb_connections := delete_where expired (tb_connections tb)\<rparr>,
       map dcrow_SecretID (filter expired (tb_connections tb))))"

section \<open>Tasks\<close>

text \<open>\<open>validateTaskRepositoryTarget\<close> of repository_local_target.go.\<close>

definition validate_task_repository_target :: "tables \<Rightarrow> string \<Rightarrow> target \<Rightarrow> check" where
  "validate_task_repository_target tb repository t =
     (if repository = [] then None
      else (case row repo_ID repository (tb_repositories tb) of
              None \<Rightarrow> Some Conflict
            | Some r \<Rightarrow>
                (case decode_repository_local_target r of
                   Inl err \<Rightarrow> Some err
                 | Inr owner \<Rightarrow>
                     reject (validate_execution_target
                       ((repository.truncate r)\<lparr>repo_Engine := [], repo_LocalTarget := owner\<rparr>) t \<noteq> None) Conflict)))"

text \<open>The row of a task: the source of its engine and kind, and no retention of its own for Restic.\<close>

definition stored_task :: "task \<Rightarrow> task" where
  "stored_task t =
     (let restic = (effective_engine (task_Engine t) = ResticEngine); directory = (task_Kind t = ''directory'') in
      t\<lparr>task_Engine := effective_engine (task_Engine t), task_ExecutionTarget := task_target t,
        task_Directory := (if restic \<and> directory then task_Directory t else None),
        task_Database := (if restic \<and> \<not> directory then task_Database t else None),
        task_Rsync := (if restic then None else task_Rsync t),
        task_Retention := (if restic then no_retention else task_Retention t),
        task_ScopeConfirmation := (if scope_present (task_ScopeConfirmation t) then task_ScopeConfirmation t
          else \<lparr>scope_PreviewID = [], scope_Fingerprint = [], scope_ConfirmedBy = [], scope_ConfirmedAt = zero_time,
                scope_Summary = [], scope_DeleteConfirmed = False\<rparr>)\<rparr>)"

definition ready_repository :: "tables \<Rightarrow> string \<Rightarrow> bool" where
  "ready_repository tb i \<longleftrightarrow> (case row repo_ID i (tb_repositories tb) of None \<Rightarrow> False | Some r \<Rightarrow> repo_Status r = ''ready'')"

definition ready_rsync_repository :: "tables \<Rightarrow> string \<Rightarrow> bool" where
  "ready_rsync_repository tb i \<longleftrightarrow> ready_repository tb i \<and> repo_Engine (the (row repo_ID i (tb_repositories tb))) = RsyncEngine"

definition backup_connection :: "tables \<Rightarrow> task \<Rightarrow> bool" where
  "backup_connection tb t \<longleftrightarrow>
     (case task_Database t of
        None \<Rightarrow> False
      | Some d \<Rightarrow> (case row conn_ID (dbs_ConnectionID d) (tb_connections tb) of
                     None \<Rightarrow> False | Some c \<Rightarrow> conn_Purpose c = ''backup''))"

definition agent_reference :: "tables \<Rightarrow> task \<Rightarrow> check" where
  "agent_reference tb t =
     require_reference (target_Kind (task_target t) = Agent \<longrightarrow> target_AgentID (task_target t) \<in> set (registered_agents tb))"

definition destination_reference :: "tables \<Rightarrow> task \<Rightarrow> check" where
  "destination_reference tb t =
     (case task_Rsync t of
        None \<Rightarrow> None
      | Some s \<Rightarrow> require_reference (effective_destination_kind s = ''ssh'' \<longrightarrow> rs_DestinationHostID s \<in> set (host_ids tb)))"

definition ensure_repository_retention :: "tables \<Rightarrow> string \<Rightarrow> retention_policy \<Rightarrow> instant \<Rightarrow> instant \<Rightarrow> tables" where
  "ensure_repository_retention tb repository initial updated now =
     (let t = (if updated = zero_time then now else updated) in
      if repository = [] \<or> repository \<in> mp_RepositoryID ` set (tb_maintenance tb) then tb
      else tb\<lparr>tb_maintenance := tb_maintenance tb @
        [\<lparr>mp_RepositoryID = repository,
          mp_Schedule = \<lparr>sch_Kind = WeeklySchedule, sch_TimeOfDay = ''03:00'', sch_DayOfWeek = 0, sch_IntervalHours = 0\<rparr>,
          mp_Timezone = ''UTC'', mp_Retention = initial, mp_RetentionSource = [], mp_RetentionConflict = False,
          mp_ReviewedRetention = None, mp_PolicyFingerprint = [], mp_Enabled = False, mp_CatchUpWindowMinutes = 60,
          mp_ScheduleAnchorAt = t, mp_UpdatedAt = t\<rparr>]\<rparr>)"

definition same_repository :: "task \<Rightarrow> task \<Rightarrow> bool" where
  "same_repository s t \<longleftrightarrow> task_RepositoryID t \<noteq> [] \<and> task_RepositoryID s = task_RepositoryID t"

definition create_task :: "tables \<Rightarrow> task \<Rightarrow> instant \<Rightarrow> tables \<times> check" where
  "create_task tb t now =
     (let engine = effective_engine (task_Engine t);
          unsupported = Some (Unsupported ''unsupported task engine'' (task_Engine t));
          source = (if engine = ResticEngine then
              reject (\<not> ready_repository tb (task_RepositoryID t)) Conflict #
              (if task_Kind t = ''directory'' then []
               else [reject (task_Database t = None) (Panic ''nil pointer dereference''),
                     reject (\<not> backup_connection tb t) (Invalid ''database task requires an existing backup connection'')])
            else if engine = RsyncEngine then
              (if task_RepositoryID t \<noteq> [] then [reject (\<not> ready_rsync_repository tb (task_RepositoryID t)) Conflict]
               else [destination_reference tb t])
            else [unsupported]);
          tb' = (if engine = ResticEngine
                 then ensure_repository_retention tb (task_RepositoryID t) (task_Retention t) (task_UpdatedAt t) now else tb) in
      transaction tb
        ([agent_reference tb t, validate_task_repository_target tb (task_RepositoryID t) (task_target t)] @ source @
         [reject (list_ex (\<lambda>s. task_ID s = task_ID t \<or> task_Name s = task_Name t \<or> same_repository s t) (tb_tasks tb)) Conflict])
        (tb'\<lparr>tb_tasks := tb_tasks tb @ [stored_task t]\<rparr>))"

definition source_of :: "task \<Rightarrow> directory_source option \<times> database_source option \<times> rsync_source option" where
  "source_of t = (task_Directory t, task_Database t, task_Rsync t)"

definition task_moved :: "task \<Rightarrow> task \<Rightarrow> bool" where
  "task_moved old new \<longleftrightarrow> task_RepositoryID old \<noteq> task_RepositoryID new \<or> task_Kind old \<noteq> task_Kind new \<or>
     task_Engine old \<noteq> task_Engine new \<or> source_of old \<noteq> source_of new \<or> task_ExecutionTarget old \<noteq> task_ExecutionTarget new"

definition update_task :: "tables \<Rightarrow> task \<Rightarrow> tables \<times> check" where
  "update_task tb t =
     (case row task_ID (task_ID t) (tb_tasks tb) of
        None \<Rightarrow> (tb, Some NoRows)
      | Some old \<Rightarrow>
          let engine = effective_engine (task_Engine t); restic = (engine = ResticEngine); rsync = (engine = RsyncEngine);
              policies = (if task_Enabled t then tb_verification_policies tb
                          else update_where (\<lambda>p. rvp_TaskID p = task_ID t) (\<lambda>p. p\<lparr>rvp_Enabled := False\<rparr>) (tb_verification_policies tb)) in
          transaction tb
            [reject (restic \<and> \<not> ready_repository tb (task_RepositoryID t)) Conflict,
             agent_reference tb t,
             validate_task_repository_target tb (task_RepositoryID t) (task_target t),
             reject (rsync \<and> task_RepositoryID t \<noteq> [] \<and> \<not> ready_rsync_repository tb (task_RepositoryID t)) Conflict,
             if rsync \<and> task_RepositoryID t = [] then destination_reference tb t else None,
             reject (restic \<and> task_Database t \<noteq> None \<and> \<not> backup_connection tb t) Conflict,
             reject (list_ex (\<lambda>p. rvp_TaskID p = task_ID t) (tb_verification_policies tb) \<and>
                     (\<not> restic \<or> task_Kind t \<noteq> ''directory'' \<or> target_Kind (task_target t) \<noteq> Local)) Conflict,
             reject (\<not> restic \<and> \<not> rsync) (Unsupported ''unsupported task engine'' (task_Engine t)),
             reject (list_ex (\<lambda>r. rec_TaskID r = task_ID t \<and> rec_Status r \<in> set [''success'', ''partial'']) (tb_runs tb) \<and>
                     task_moved old (stored_task t)) Conflict,
             reject (list_ex (\<lambda>s. task_ID s \<noteq> task_ID t \<and> (task_Name s = task_Name t \<or> same_repository s t)) (tb_tasks tb)) Conflict]
            (tb\<lparr>tb_verification_policies := policies,
                tb_tasks := update_where (\<lambda>s. task_ID s = task_ID t)
                  (\<lambda>s. (stored_task t)\<lparr>task_CreatedAt := task_CreatedAt s\<rparr>) (tb_tasks tb)\<rparr>))"

definition list_tasks :: "tables \<Rightarrow> task list" where
  "list_tasks tb = sort_key (\<lambda>t. (task_Name t, task_ID t)) (tb_tasks tb)"

section \<open>Plans\<close>

definition plan_task_references :: "tables \<Rightarrow> string list \<Rightarrow> bool \<Rightarrow> check" where
  "plan_task_references tb tasks require_enabled =
     require_reference (list_all (\<lambda>i. list_ex (\<lambda>t. task_ID t = i \<and> (require_enabled \<longrightarrow> task_Enabled t)) (tb_tasks tb)) tasks)"

definition plan_task_rows :: "plan \<Rightarrow> plan_task list" where
  "plan_task_rows p = map (\<lambda>(k, i). \<lparr>pt_PlanID = plan_ID p, pt_TaskID = i, pt_Position = k\<rparr>) (enumerate 0 (plan_TaskIDs p))"

definition create_plan :: "tables \<Rightarrow> plan \<Rightarrow> tables \<times> check" where
  "create_plan tb p =
     transaction tb
       [plan_task_references tb (plan_TaskIDs p) (plan_Enabled p),
        reject (list_ex (\<lambda>q. plan_ID q = plan_ID p \<or> plan_Name q = plan_Name p) (tb_plans tb)) Conflict,
        reject (\<not> distinct (plan_TaskIDs p) \<or>
                list_ex (\<lambda>r. pt_PlanID r = plan_ID p \<and> pt_TaskID r \<in> set (plan_TaskIDs p)) (tb_plan_tasks tb))
          (Wrapped ''attach task to plan'' Constraint)]
       (tb\<lparr>tb_plans := tb_plans tb @
             [p\<lparr>plan_TaskIDs := [], plan_ScheduleAnchorAt := (if plan_ScheduleAnchorAt p = zero_time then plan_CreatedAt p
                                                                else plan_ScheduleAnchorAt p)\<rparr>],
           tb_plan_tasks := tb_plan_tasks tb @ plan_task_rows p\<rparr>)"

definition update_plan :: "tables \<Rightarrow> plan \<Rightarrow> tables \<times> check" where
  "update_plan tb p =
     (case row plan_ID (plan_ID p) (tb_plans tb) of
        None \<Rightarrow> (tb, Some NoRows)
      | Some old \<Rightarrow>
          let anchor = (if plan_Schedule old \<noteq> plan_Schedule p \<or> plan_Timezone old \<noteq> plan_Timezone p \<or>
                           \<not> plan_Enabled old \<and> plan_Enabled p
                        then plan_UpdatedAt p else plan_ScheduleAnchorAt old) in
          transaction tb
            [plan_task_references tb (plan_TaskIDs p) (plan_Enabled p),
             reject (list_ex (\<lambda>q. plan_ID q \<noteq> plan_ID p \<and> plan_Name q = plan_Name p) (tb_plans tb)) Conflict,
             reject (\<not> distinct (plan_TaskIDs p)) Conflict]
            (tb\<lparr>tb_plans := update_where (\<lambda>q. plan_ID q = plan_ID p)
                  (\<lambda>q. p\<lparr>plan_TaskIDs := [], plan_ScheduleAnchorAt := anchor, plan_CreatedAt := plan_CreatedAt q\<rparr>) (tb_plans tb),
                tb_plan_tasks := delete_where (\<lambda>r. pt_PlanID r = plan_ID p) (tb_plan_tasks tb) @ plan_task_rows p\<rparr>))"

definition list_plans :: "tables \<Rightarrow> plan list" where
  "list_plans tb =
     map (\<lambda>p. p\<lparr>plan_TaskIDs := map pt_TaskID (sort_key pt_Position (filter (\<lambda>r. pt_PlanID r = plan_ID p) (tb_plan_tasks tb)))\<rparr>)
       (sort_key (\<lambda>p. (plan_Name p, plan_ID p)) (tb_plans tb))"

end
