(* ===== verification/Resource_Policies.thy ===== *)
theory Resource_Policies
  imports Resource_Store
begin

text \<open>
  What the store keeps beside the resources: maintenance policies and their previews
  (src/internal/store/maintenance.go, maintenance_preview.go), the scope previews of tasks
  (task_preview.go), the metadata of snapshots (snapshot_metadata.go), the rotation of a
  repository's password (execution.go), and the templates and drafts of the guided setup
  (protection_setup.go).
\<close>

section \<open>Maintenance\<close>

definition save_maintenance_policy :: "tables \<Rightarrow> maintenance_policy \<Rightarrow> tables \<times> check" where
  "save_maintenance_policy tb p =
     (let previous = row mp_RepositoryID (mp_RepositoryID p) (tb_maintenance tb);
          anchor = (case previous of
              None \<Rightarrow> mp_UpdatedAt p
            | Some q \<Rightarrow>
                if mp_Schedule q \<noteq> mp_Schedule p \<or> mp_Timezone q \<noteq> mp_Timezone p \<or> \<not> mp_Enabled q \<and> mp_Enabled p
                then mp_UpdatedAt p else mp_ScheduleAnchorAt q);
          saved = p\<lparr>mp_RetentionSource := [], mp_RetentionConflict := False, mp_ReviewedRetention := None,
                    mp_PolicyFingerprint := [], mp_ScheduleAnchorAt := anchor\<rparr> in
      transaction tb [require_reference (mp_RepositoryID p \<in> set (repository_ids tb))]
        (tb\<lparr>tb_maintenance := (case previous of
             None \<Rightarrow> tb_maintenance tb @ [saved]
           | Some _ \<Rightarrow> update_where (\<lambda>q. mp_RepositoryID q = mp_RepositoryID p) (\<lambda>_. saved) (tb_maintenance tb))\<rparr>))"

definition list_maintenance_policies :: "(string \<Rightarrow> string) \<Rightarrow> tables \<Rightarrow> maintenance_policy list" where
  "list_maintenance_policies sha256 tb =
     map (\<lambda>p. p\<lparr>mp_RetentionSource := ''repository'', mp_PolicyFingerprint := retention_fingerprint sha256 (mp_Retention p)\<rparr>)
       (sort_key mp_RepositoryID (tb_maintenance tb))"

definition maintenance_policy_of :: "(string \<Rightarrow> string) \<Rightarrow> tables \<Rightarrow> string \<Rightarrow> maintenance_policy outcome" where
  "maintenance_policy_of sha256 tb i =
     (case row mp_RepositoryID i (list_maintenance_policies sha256 tb) of None \<Rightarrow> Inl NoRows | Some p \<Rightarrow> Inr p)"

definition effective_maintenance_retention :: "tables \<Rightarrow> string \<Rightarrow> retention_policy \<Rightarrow> retention_policy \<times> bool" where
  "effective_maintenance_retention tb i fallback =
     (case row mp_RepositoryID i (tb_maintenance tb) of None \<Rightarrow> (fallback, False) | Some p \<Rightarrow> (mp_Retention p, True))"

definition effective_repository_resources :: "tables \<Rightarrow> string \<Rightarrow> resource_policy \<times> bool" where
  "effective_repository_resources tb i =
     (case find (\<lambda>t. task_RepositoryID t = i \<and> i \<noteq> [] \<and> task_Engine t = ResticEngine) (tb_tasks tb) of
        None \<Rightarrow> (no_resources, False) | Some t \<Rightarrow> (task_Resources t, True))"

text \<open>A repository allows pruning only by a preview of the same repository and retention, once, in time.\<close>

definition create_maintenance_preview :: "tables \<Rightarrow> maintenance_preview \<Rightarrow> tables \<times> check" where
  "create_maintenance_preview tb p =
     transaction tb
       [require_reference (mpv_RepositoryID p \<in> set (repository_ids tb)),
        reject (mpv_ID p \<in> mpv_ID ` set (tb_maintenance_previews tb)) Constraint]
       (tb\<lparr>tb_maintenance_previews := tb_maintenance_previews tb @ [p\<lparr>mpv_ConsumedAt := None\<rparr>]\<rparr>)"

definition consume_maintenance_preview ::
  "tables \<Rightarrow> string \<Rightarrow> string \<Rightarrow> retention_policy \<Rightarrow> instant \<Rightarrow> tables \<times> maintenance_preview outcome" where
  "consume_maintenance_preview tb i repository retention now =
     (case row mpv_ID i (tb_maintenance_previews tb) of
        None \<Rightarrow> (tb, Inl NoRows)
      | Some p \<Rightarrow>
          let open_row = (\<lambda>q. mpv_ID q = i \<and> mpv_ConsumedAt q = None) in
          with_value
            (transaction tb
               [reject (mpv_RepositoryID p \<noteq> repository \<or> mpv_Retention p \<noteq> retention \<or> mpv_ConsumedAt p \<noteq> None \<or>
                        now > mpv_ExpiresAt p) Conflict,
                reject (affected open_row (tb_maintenance_previews tb) \<noteq> 1) Conflict]
               (tb\<lparr>tb_maintenance_previews :=
                  update_where open_row (\<lambda>q. q\<lparr>mpv_ConsumedAt := Some now\<rparr>) (tb_maintenance_previews tb)\<rparr>))
            (p\<lparr>mpv_ConsumedAt := Some now\<rparr>))"

section \<open>Scope previews of tasks\<close>

definition create_scope_preview :: "tables \<Rightarrow> scope_preview \<Rightarrow> tables \<times> check" where
  "create_scope_preview tb p =
     (let kept = delete_where (\<lambda>q. format_time (tsp_ExpiresAt q) < format_time (tsp_CreatedAt p - 24 * go_hour)) (tb_scope_previews tb) in
      transaction tb
        [reject (tsp_ID p = [] \<or> tsp_TaskID p = [] \<or> tsp_Fingerprint p = [] \<or> tsp_CreatedAt p = zero_time \<or>
                 \<not> tsp_ExpiresAt p > tsp_CreatedAt p) (Invalid ''task scope preview is incomplete''),
         require_reference (tsp_TaskID p \<in> set (task_ids tb)),
         reject (tsp_ID p \<in> tsp_ID ` set kept) Conflict]
        (tb\<lparr>tb_scope_previews := kept @ [p\<lparr>tsp_ConsumedAt := None\<rparr>]\<rparr>))"

definition consume_scope_preview ::
  "tables \<Rightarrow> string \<Rightarrow> string \<Rightarrow> string \<Rightarrow> string \<Rightarrow> bool \<Rightarrow> instant \<Rightarrow> tables \<times> scope_confirmation outcome" where
  "consume_scope_preview tb i task fingerprint actor delete_confirmed now =
     (if blank actor then (tb, Inl Conflict)
      else (case row tsp_ID i (tb_scope_previews tb) of
        None \<Rightarrow> (tb, Inl NoRows)
      | Some p \<Rightarrow>
          let open_row = (\<lambda>q. tsp_ID q = i \<and> tsp_ConsumedAt q = None) in
          with_value
            (transaction tb
               [reject (tsp_TaskID p \<noteq> task \<or> tsp_Fingerprint p \<noteq> fingerprint \<or> tsp_ConsumedAt p \<noteq> None \<or>
                        \<not> now < tsp_ExpiresAt p \<or> tsp_RequiresDeleteConfirmation p \<and> \<not> delete_confirmed) Conflict,
                reject (affected open_row (tb_scope_previews tb) \<noteq> 1) Conflict]
               (tb\<lparr>tb_scope_previews := update_where open_row (\<lambda>q. q\<lparr>tsp_ConsumedAt := Some now\<rparr>) (tb_scope_previews tb)\<rparr>))
            \<lparr>scope_PreviewID = tsp_ID p, scope_Fingerprint = tsp_Fingerprint p, scope_ConfirmedBy = actor,
             scope_ConfirmedAt = now, scope_Summary = tsp_Summary p,
             scope_DeleteConfirmed = (tsp_RequiresDeleteConfirmation p \<and> delete_confirmed)\<rparr>))"

section \<open>Snapshots\<close>

definition snapshot_key :: "snapshot_record \<Rightarrow> string \<times> string" where
  "snapshot_key s = (snap_RepositoryID s, snap_SnapshotID s)"

definition save_snapshot_metadata ::
  "tables \<Rightarrow> string \<Rightarrow> string \<Rightarrow> snapshot_metadata \<Rightarrow> instant \<Rightarrow> tables \<times> check" where
  "save_snapshot_metadata tb repository snapshot metadata created =
     (let s = \<lparr>snap_RepositoryID = repository, snap_SnapshotID = snapshot, snap_MetadataVersion = 1,
               snap_Metadata = metadata, snap_CreatedAt = created\<rparr> in
      transaction tb [require_reference (repository \<in> set (repository_ids tb))]
        (tb\<lparr>tb_snapshots := (if snapshot_key s \<in> snapshot_key ` set (tb_snapshots tb)
             then update_where (\<lambda>q. snapshot_key q = snapshot_key s) (\<lambda>_. s) (tb_snapshots tb)
             else tb_snapshots tb @ [s])\<rparr>))"

definition snapshot_metadata_of :: "tables \<Rightarrow> string \<Rightarrow> string \<Rightarrow> snapshot_record outcome" where
  "snapshot_metadata_of tb repository snapshot =
     (case row snapshot_key (repository, snapshot) (tb_snapshots tb) of None \<Rightarrow> Inl NoRows | Some s \<Rightarrow> Inr s)"

section \<open>Rotation of a repository's password\<close>

definition commit_password_rotation ::
  "tables \<Rightarrow> string \<Rightarrow> string \<Rightarrow> string \<Rightarrow> string \<Rightarrow> instant \<Rightarrow> tables \<times> check" where
  "commit_password_rotation tb i new_secret old_key old_secret now =
     (case row repo_ID i (tb_repositories tb) of
        None \<Rightarrow> (tb, Some NoRows)
      | Some r \<Rightarrow>
          transaction tb
            [reject (rrow_PasswordSecretID r = []) (Invalid ''converting NULL to string is unsupported''),
             reject (rrow_PasswordSecretID r \<noteq> old_secret) Conflict,
             require_reference (new_secret \<in> set (secret_ids tb)),
             reject (list_ex (\<lambda>v. rvk_RepositoryID v = i) (tb_revocations tb)) Conflict]
            (tb\<lparr>tb_revocations := tb_revocations tb @
                  [\<lparr>rvk_RepositoryID = i, rvk_KeyID = old_key, rvk_SecretID = old_secret, rvk_CreatedAt = now\<rparr>],
                tb_repositories := update_where (\<lambda>q. repo_ID q = i)
                  (\<lambda>q. q\<lparr>rrow_PasswordSecretID := new_secret, repo_UpdatedAt := now\<rparr>) (tb_repositories tb),
                tb_draft_items := update_where (\<lambda>d. pdi_RepositoryID d = i \<and> pdi_PasswordSecretID d = old_secret)
                  (\<lambda>d. d\<lparr>pdi_PasswordSecretID := new_secret, pdi_UpdatedAt := now\<rparr>) (tb_draft_items tb)\<rparr>))"

definition pending_key_revocation :: "tables \<Rightarrow> string \<Rightarrow> key_revocation option" where
  "pending_key_revocation tb i = row rvk_RepositoryID i (tb_revocations tb)"

text \<open>The revocation and the old secret go together; a secret that is still used keeps both.\<close>

definition complete_key_revocation :: "tables \<Rightarrow> string \<Rightarrow> string \<Rightarrow> tables \<times> check" where
  "complete_key_revocation tb i key =
     (let P = (\<lambda>v. rvk_RepositoryID v = i \<and> rvk_KeyID v = key) in
      case find P (tb_revocations tb) of
        None \<Rightarrow> (tb, Some NoRows)
      | Some v \<Rightarrow>
          let revoked = tb\<lparr>tb_revocations := delete_where P (tb_revocations tb)\<rparr> in
          transaction tb
            [reject (affected P (tb_revocations tb) \<noteq> 1) NoRows,
             reject (secret_referenced revoked (rvk_SecretID v)) Conflict,
             reject (affected (\<lambda>s. sec_ID s = rvk_SecretID v) (tb_secrets tb) \<noteq> 1) Conflict]
            (revoked\<lparr>tb_secrets := delete_where (\<lambda>s. sec_ID s = rvk_SecretID v) (tb_secrets tb)\<rparr>))"

section \<open>Templates and drafts\<close>

definition create_protection_template :: "tables \<Rightarrow> protection_template \<Rightarrow> tables \<times> check" where
  "create_protection_template tb p =
     transaction tb [reject (list_ex (\<lambda>q. ptm_ID q = ptm_ID p \<or> ptm_Name q = ptm_Name p) (tb_templates tb)) Conflict]
       (tb\<lparr>tb_templates := tb_templates tb @ [p]\<rparr>)"

definition protection_template_of :: "tables \<Rightarrow> string \<Rightarrow> protection_template outcome" where
  "protection_template_of tb i = (case row ptm_ID i (tb_templates tb) of None \<Rightarrow> Inl NoRows | Some p \<Rightarrow> Inr p)"

definition list_protection_templates :: "tables \<Rightarrow> protection_template list" where
  "list_protection_templates tb = sort_key (\<lambda>p. (ptm_Name p, ptm_ID p)) (tb_templates tb)"

definition bounded_setup_error :: "string \<Rightarrow> string" where
  "bounded_setup_error s = take 512 (trim_space s)"

text \<open>The unique constraints of \<open>protection_draft_items\<close>.\<close>

definition draft_items_clash :: "draft_item \<Rightarrow> draft_item \<Rightarrow> bool" where
  "draft_items_clash a b \<longleftrightarrow> pdi_ID a = pdi_ID b \<or> pdi_RepositoryID a = pdi_RepositoryID b \<or> pdi_TaskID a = pdi_TaskID b \<or>
     pdi_DraftID a = pdi_DraftID b \<and> (pdi_Position a = pdi_Position b \<or>
       pdi_RepositoryKind a = pdi_RepositoryKind b \<and> pdi_RemoteHostID a = pdi_RemoteHostID b \<and>
       pdi_RepositoryPath a = pdi_RepositoryPath b)"

fun insert_draft_items :: "draft_item list \<Rightarrow> draft_item list \<Rightarrow> draft_item list outcome" where
  "insert_draft_items t [] = Inr t"
| "insert_draft_items t (d # ds) =
     (if (pdi_Directory d = None) = (pdi_Database d = None)
      then Inl (Invalid ''protection draft item requires exactly one source'')
      else if list_ex (\<lambda>e. draft_items_clash e d) t then Inl Conflict
      else insert_draft_items (t @ [d\<lparr>pdi_Error := bounded_setup_error (pdi_Error d)\<rparr>]) ds)"

definition create_protection_draft :: "tables \<Rightarrow> protection_draft \<Rightarrow> draft_item list \<Rightarrow> tables \<times> check" where
  "create_protection_draft tb d items =
     (let inserted = insert_draft_items (tb_draft_items tb) (map (\<lambda>e. e\<lparr>pdi_DraftID := pdr_ID d\<rparr>) items) in
      transaction tb
        [reject (list_ex (\<lambda>e. pdr_ID e = pdr_ID d \<or> pdr_PlanID e = pdr_PlanID d) (tb_drafts tb)) Conflict,
         failure inserted]
        (tb\<lparr>tb_drafts := tb_drafts tb @ [d\<lparr>pdr_ExecutionTarget := target_normalized (pdr_ExecutionTarget d)\<rparr>],
            tb_draft_items := projr inserted\<rparr>))"

definition draft_items_of :: "tables \<Rightarrow> string \<Rightarrow> draft_item list" where
  "draft_items_of tb i = sort_key (\<lambda>d. (pdi_Position d, pdi_ID d)) (filter (\<lambda>d. pdi_DraftID d = i) (tb_draft_items tb))"

definition protection_draft_of :: "tables \<Rightarrow> string \<Rightarrow> (protection_draft \<times> draft_item list) outcome" where
  "protection_draft_of tb i =
     (case row pdr_ID i (tb_drafts tb) of None \<Rightarrow> Inl NoRows | Some d \<Rightarrow> Inr (d, draft_items_of tb i))"

definition list_protection_drafts :: "tables \<Rightarrow> (protection_draft \<times> draft_item list) list" where
  "list_protection_drafts tb =
     map (\<lambda>d. (d, draft_items_of tb (pdr_ID d)))
       (rev (sort_key (\<lambda>d. format_time (pdr_UpdatedAt d)) (rev (sort_key pdr_ID (tb_drafts tb)))))"

definition update_draft_status :: "tables \<Rightarrow> string \<Rightarrow> string \<Rightarrow> instant \<Rightarrow> tables \<times> check" where
  "update_draft_status tb i status updated =
     transaction tb
       [reject (status \<notin> set [''pending'', ''applying'', ''partial'', ''ready'', ''cancelled'']) (Invalid ''invalid protection draft status''),
        reject (affected (\<lambda>d. pdr_ID d = i) (tb_drafts tb) = 0) NoRows]
       (tb\<lparr>tb_drafts := update_where (\<lambda>d. pdr_ID d = i) (\<lambda>d. d\<lparr>pdr_Status := status, pdr_UpdatedAt := updated\<rparr>) (tb_drafts tb)\<rparr>)"

definition recover_interrupted_drafts :: "tables \<Rightarrow> instant \<Rightarrow> tables \<times> nat" where
  "recover_interrupted_drafts tb now =
     (let P = (\<lambda>d. pdr_Status d = ''applying'') in
      (tb\<lparr>tb_drafts := update_where P (\<lambda>d. d\<lparr>pdr_Status := ''partial'', pdr_UpdatedAt := now\<rparr>) (tb_drafts tb)\<rparr>,
       affected P (tb_drafts tb)))"

definition update_draft_item :: "tables \<Rightarrow> draft_item \<Rightarrow> tables \<times> check" where
  "update_draft_item tb d =
     (let P = (\<lambda>e. pdi_ID e = pdi_ID d \<and> pdi_DraftID e = pdi_DraftID d) in
      transaction tb
        [reject (pdi_Status d \<notin> set [''pending'', ''failed'', ''ready'', ''retained'', ''cancelled''])
           (Invalid ''invalid protection draft item status''),
         reject (affected P (tb_draft_items tb) = 0) NoRows]
        (tb\<lparr>tb_draft_items := update_where P
              (\<lambda>e. e\<lparr>pdi_PasswordSecretID := pdi_PasswordSecretID d, pdi_Status := pdi_Status d,
                     pdi_Error := bounded_setup_error (pdi_Error d), pdi_UpdatedAt := pdi_UpdatedAt d\<rparr>) (tb_draft_items tb)\<rparr>))"

end
