(* ===== verification/Resource_Deletion.thy ===== *)
theory Resource_Deletion
  imports Resource_Policies
begin

text \<open>
  Previews and deletions of resources, of src/internal/store/delete_preview.go and crud.go. A preview
  lists what still refers to a resource; a deletion checks the same under its transaction, compares
  the version the caller has seen, removes the rows the resource owns, and returns the secrets that
  nothing needs any more.
\<close>

section \<open>Dependencies\<close>

record dependency =
  dep_Type :: string
  dep_Count :: nat
  dep_Names :: "string list"

definition dependency_of :: "string \<Rightarrow> string list \<Rightarrow> dependency list" where
  "dependency_of kind names = (if names = [] then [] else [\<lparr>dep_Type = kind, dep_Count = length names, dep_Names = names\<rparr>])"

definition rsync_destination :: "string \<Rightarrow> task \<Rightarrow> bool" where
  "rsync_destination i t \<longleftrightarrow> task_Engine t = RsyncEngine \<and>
     (case task_Rsync t of None \<Rightarrow> False | Some s \<Rightarrow> rs_DestinationHostID s = i)"

definition task_names :: "(task \<Rightarrow> bool) \<Rightarrow> tables \<Rightarrow> string list" where
  "task_names P tb = sort (map task_Name (filter P (tb_tasks tb)))"

definition resource_dependencies :: "tables \<Rightarrow> string \<Rightarrow> string \<Rightarrow> dependency list" where
  "resource_dependencies tb kind i =
     (if kind = ''remote-hosts'' then
        dependency_of ''repositories'' (sort (map repo_Name (filter (\<lambda>r. i \<noteq> [] \<and> repo_RemoteHostID r = i) (tb_repositories tb)))) @
        dependency_of ''tasks'' (task_names (rsync_destination i) tb)
      else if kind = ''repositories'' then
        dependency_of ''tasks'' (task_names (\<lambda>t. i \<noteq> [] \<and> task_RepositoryID t = i) tb)
      else if kind = ''database-connections'' then dependency_of ''tasks'' (task_names (uses_connection i) tb)
      else [])"

definition active_status :: "string \<Rightarrow> bool" where
  "active_status s \<longleftrightarrow> s \<in> set [''queued'', ''running'']"

definition task_active_work :: "tables \<Rightarrow> string \<Rightarrow> dependency list" where
  "task_active_work tb i =
     dependency_of ''active-runs'' (sort (map rec_ID (filter (\<lambda>r. rec_TaskID r = i \<and> active_status (rec_Status r)) (tb_runs tb)))) @
     dependency_of ''active-operations'' (sort (map op_ID (filter (\<lambda>r. op_TaskID r = i \<and> active_status (op_Status r)) (tb_operations tb)))) @
     dependency_of ''active-agent-leases'' (sort (map lease_ID (filter (\<lambda>l. lease_TaskID l = i \<and>
       active_status (lease_Status l) \<and> lease_CompletedAt l = None) (tb_leases tb))))"

definition open_request :: "string \<Rightarrow> work_request \<Rightarrow> bool" where
  "open_request i q \<longleftrightarrow> rq_AgentID q = i \<and> rq_Status q = ''running'' \<and> rq_CompletedAt q = None"

text \<open>SQLite's \<open>LIKE 'agent_%'\<close>: letters of either case, and at least one character more.\<close>

definition agent_operation :: "string \<Rightarrow> bool" where
  "agent_operation kind \<longleftrightarrow> fold_case (take 5 kind) = ''agent'' \<and> length kind \<ge> 6"

definition agent_dependencies :: "tables \<Rightarrow> string \<Rightarrow> dependency list" where
  "agent_dependencies tb i =
     dependency_of ''tasks'' (task_names (\<lambda>t. task_ExecutionTarget t = \<lparr>target_Kind = Agent, target_AgentID = i\<rparr>) tb) @
     dependency_of ''repositories'' (sort (map repo_Name (filter (\<lambda>r. repo_Kind r = LocalRepository \<and>
       repo_LocalTarget r = \<lparr>target_Kind = Agent, target_AgentID = i\<rparr>) (tb_repositories tb)))) @
     dependency_of ''active-agent-operations'' (sort (map op_ID (filter (\<lambda>r. op_Target r = i \<and>
       agent_operation (op_Kind r) \<and> active_status (op_Status r)) (tb_operations tb)))) @
     dependency_of ''active-agent-work'' (sort
       (map (\<lambda>l. ''lease:'' @ lease_ID l) (filter (\<lambda>l. lease_AgentID l = i \<and> lease_Status l = ''running'' \<and>
          lease_CompletedAt l = None) (tb_leases tb)) @
        map (\<lambda>q. ''filesystem:'' @ rq_ID q) (filter (open_request i) (tb_filesystem tb)) @
        map (\<lambda>q. ''restore:'' @ rq_ID q) (filter (open_request i) (tb_restores tb))))"

section \<open>Previews\<close>

record delete_preview =
  prv_ResourceType :: string
  prv_ID :: string
  prv_Name :: string
  prv_UpdatedAt :: string
  prv_Dependencies :: "dependency list"
  prv_Deletable :: bool
  prv_BlockedReason :: string

text \<open>What identifies the state of an agent: a digest over its columns, \<open>NULL\<close> as the empty text.\<close>

definition agent_version :: "(string \<Rightarrow> string) \<Rightarrow> agent \<Rightarrow> string" where
  "agent_version sha256 a =
     (let column = (\<lambda>t. case t of None \<Rightarrow> [] | Some t \<Rightarrow> stored_text t) in
      hex_encode (sha256 (join_with CHR 0x00
        [ag_ID a, ag_RemoteHostID a, ag_CertificateSerial a, ag_Status a, column (ag_LastHeartbeatAt a),
         stored_text (ag_CreatedAt a), column (ag_RevokedAt a), column (ag_StoppedAt a), column (ag_UninstalledAt a),
         column (ag_DrainingAt a)])))"

definition agent_revoked :: "agent \<Rightarrow> bool" where
  "agent_revoked a \<longleftrightarrow> ag_RevokedAt a \<noteq> None \<or> ag_UninstalledAt a \<noteq> None"

text \<open>\<open>SELECT name, updated_at FROM\<close> the table of the resource: \<open>None\<close> for a type it does not know.\<close>

definition resource_header :: "tables \<Rightarrow> string \<Rightarrow> string \<Rightarrow> (string \<times> string) option option" where
  "resource_header tb kind i =
     (if kind = ''remote-hosts'' then
        Some (map_option (\<lambda>h. (host_Name h, stored_text (host_UpdatedAt h))) (row host_ID i (tb_hosts tb)))
      else if kind = ''repositories'' then
        Some (map_option (\<lambda>r. (repo_Name r, stored_text (repo_UpdatedAt r))) (row repo_ID i (tb_repositories tb)))
      else if kind = ''database-connections'' then
        Some (map_option (\<lambda>c. (conn_Name c, stored_text (conn_UpdatedAt c))) (row conn_ID i (tb_connections tb)))
      else if kind = ''plans'' then
        Some (map_option (\<lambda>p. (plan_Name p, stored_text (plan_UpdatedAt p))) (row plan_ID i (tb_plans tb)))
      else if kind = ''protection-templates'' then
        Some (map_option (\<lambda>p. (ptm_Name p, stored_text (ptm_UpdatedAt p))) (row ptm_ID i (tb_templates tb)))
      else None)"

definition agent_delete_preview :: "(string \<Rightarrow> string) \<Rightarrow> tables \<Rightarrow> string \<Rightarrow> delete_preview outcome" where
  "agent_delete_preview sha256 tb i =
     (case row ag_ID i (tb_agents tb) of
        None \<Rightarrow> Inl NoRows
      | Some a \<Rightarrow>
          let deps = agent_dependencies tb i in
          Inr \<lparr>prv_ResourceType = ''agents'', prv_ID = i, prv_Name = i, prv_UpdatedAt = agent_version sha256 a,
               prv_Dependencies = deps, prv_Deletable = (agent_revoked a \<and> deps = []),
               prv_BlockedReason =
                 (if \<not> agent_revoked a
                  then (''Agent '' @ utf8 [0x51ED, 0x636E, 0x4ECD, 0x6709, 0x6548, 0xFF1B, 0x8BF7, 0x5148, 0x64A4, 0x9500,
                     0x51ED, 0x636E, 0x6216, 0x5B8C, 0x6210, 0x505C, 0x6B62, 0x5E76, 0x5378, 0x8F7D])
                  else if deps \<noteq> [] then (''Agent '' @ utf8 [0x4ECD, 0x88AB, 0x4EFB, 0x52A1, 0x5F15, 0x7528,
                     0x6216, 0x5B58, 0x5728, 0x8FDB, 0x884C, 0x4E2D, 0x7684, 0x7BA1, 0x7406, 0x64CD, 0x4F5C]) else [])\<rparr>)"

definition task_delete_preview :: "tables \<Rightarrow> string \<Rightarrow> delete_preview outcome" where
  "task_delete_preview tb i =
     (case row task_ID i (tb_tasks tb) of
        None \<Rightarrow> Inl NoRows
      | Some t \<Rightarrow>
          let active = task_active_work tb i in
          Inr \<lparr>prv_ResourceType = ''tasks'', prv_ID = i, prv_Name = task_Name t, prv_UpdatedAt = stored_text (task_UpdatedAt t),
               prv_Dependencies = active, prv_Deletable = (\<not> task_Enabled t \<and> active = []),
               prv_BlockedReason =
                 (if task_Enabled t then (utf8 [0x8BF7, 0x5148, 0x505C, 0x7528, 0x5907, 0x4EFD, 0x4EFB, 0x52A1, 0xFF0C,
                    0x518D, 0x786E, 0x8BA4, 0x5220, 0x9664])
                  else if active \<noteq> [] then (utf8 [0x4EFB, 0x52A1, 0x4ECD, 0x5728, 0x6267, 0x884C, 0xFF0C, 0x8BF7,
                     0x7B49, 0x5F85, 0x8FD0, 0x884C, 0x3001, 0x64CD, 0x4F5C, 0x6216] @ '' Agent '' @ utf8 [0x79DF, 0x7EA6,
                        0x5B8C, 0x6210, 0x540E, 0x518D, 0x5220, 0x9664]) else [])\<rparr>)"

definition resource_delete_preview :: "(string \<Rightarrow> string) \<Rightarrow> tables \<Rightarrow> string \<Rightarrow> string \<Rightarrow> delete_preview outcome" where
  "resource_delete_preview sha256 tb kind i =
     (if kind = ''agents'' then agent_delete_preview sha256 tb i
      else if kind = ''tasks'' then task_delete_preview tb i
      else (case resource_header tb kind i of
              None \<Rightarrow> Inl (Unsupported ''unsupported resource type'' kind)
            | Some None \<Rightarrow> Inl NoRows
            | Some (Some (name, updated)) \<Rightarrow>
                let deps = resource_dependencies tb kind i in
                Inr \<lparr>prv_ResourceType = kind, prv_ID = i, prv_Name = name, prv_UpdatedAt = updated, prv_Dependencies = deps,
                     prv_Deletable = (deps = []),
                     prv_BlockedReason = (if deps = [] then [] else (utf8 [0x8D44, 0x6E90, 0x4ECD, 0x88AB, 0x5176, 0x4ED6,
                        0x914D, 0x7F6E, 0x5F15, 0x7528]))\<rparr>))"

section \<open>Owned rows\<close>

definition owned_occurrence :: "string \<Rightarrow> string \<Rightarrow> occurrence \<Rightarrow> bool" where
  "owned_occurrence kind i r \<longleftrightarrow> occ_OwnerKind r = kind \<and> occ_OwnerID r = i"

definition detach_host :: "string \<Rightarrow> tables \<Rightarrow> tables" where
  "detach_host i tb = tb\<lparr>tb_agents := update_where (\<lambda>a. i \<noteq> [] \<and> ag_RemoteHostID a = i)
     (\<lambda>a. a\<lparr>ag_RemoteHostID := []\<rparr>) (tb_agents tb)\<rparr>"

definition drop_repository_records :: "string \<Rightarrow> tables \<Rightarrow> tables" where
  "drop_repository_records i tb = tb\<lparr>
     tb_draft_items := update_where (\<lambda>d. pdi_RepositoryID d = i) (\<lambda>d. d\<lparr>pdi_PasswordSecretID := []\<rparr>) (tb_draft_items tb),
     tb_revocations := delete_where (\<lambda>v. rvk_RepositoryID v = i) (tb_revocations tb),
     tb_capacities := delete_where (\<lambda>c. smp_RepositoryID c = i) (tb_capacities tb),
     tb_capacity_policies := delete_where (\<lambda>p. cpol_RepositoryID p = i) (tb_capacity_policies tb),
     tb_samples := delete_where (\<lambda>c. smp_RepositoryID c = i) (tb_samples tb),
     tb_maintenance := delete_where (\<lambda>p. mp_RepositoryID p = i) (tb_maintenance tb),
     tb_maintenance_previews := delete_where (\<lambda>p. mpv_RepositoryID p = i) (tb_maintenance_previews tb),
     tb_snapshots := delete_where (\<lambda>s. snap_RepositoryID s = i) (tb_snapshots tb),
     tb_verifications := delete_where (\<lambda>v. rv_RepositoryID v = i) (tb_verifications tb),
     tb_occurrences := delete_where (owned_occurrence ''maintenance'' i) (tb_occurrences tb)\<rparr>"

definition drop_plan_records :: "string \<Rightarrow> tables \<Rightarrow> tables" where
  "drop_plan_records i tb = tb\<lparr>
     tb_runs := update_where (\<lambda>r. i \<noteq> [] \<and> rec_PlanID r = i) (\<lambda>r. r\<lparr>rec_PlanID := []\<rparr>) (tb_runs tb),
     tb_plan_tasks := delete_where (\<lambda>r. pt_PlanID r = i) (tb_plan_tasks tb),
     tb_occurrences := delete_where (owned_occurrence ''plan'' i) (tb_occurrences tb)\<rparr>"

definition drop_plan :: "string \<Rightarrow> tables \<Rightarrow> tables" where
  "drop_plan i tb = (drop_plan_records i tb)\<lparr>tb_plans := delete_where (\<lambda>p. plan_ID p = i) (tb_plans tb)\<rparr>"

definition drop_template_records :: "string \<Rightarrow> tables \<Rightarrow> tables" where
  "drop_template_records i tb = tb\<lparr>tb_drafts := update_where (\<lambda>d. pdr_TemplateID d = i)
     (\<lambda>d. d\<lparr>pdr_TemplateID := []\<rparr>) (tb_drafts tb)\<rparr>"

section \<open>What a task takes with it\<close>

text \<open>
  The occurrences of a plan forget the task and its runs: one without targets left goes, one that was
  still open is cancelled.
\<close>

definition prune_occurrence :: "string \<Rightarrow> string list \<Rightarrow> occurrence \<Rightarrow> occurrence option" where
  "prune_occurrence task run_ids r =
     (let targets = filter (\<lambda>t. t \<noteq> task) (occ_TargetIDs r); runs = filter (\<lambda>i. i \<notin> set run_ids) (occ_RunIDs r);
          open_status = (occ_Status r \<in> set [''pending'', ''running'']) in
      if length targets = length (occ_TargetIDs r) \<and> length runs = length (occ_RunIDs r) then Some r
      else if targets = [] then None
      else Some (r\<lparr>occ_TargetIDs := targets, occ_RunIDs := runs,
             occ_Status := (if open_status then ''cancelled'' else occ_Status r),
             occ_FinishedAt := (if open_status \<and> occ_FinishedAt r = None then Some (occ_ObservedAt r) else occ_FinishedAt r)\<rparr>))"

definition prune_plan_occurrences :: "string \<Rightarrow> string \<Rightarrow> tables \<Rightarrow> tables" where
  "prune_plan_occurrences task plan tb =
     (let run_ids = map rec_ID (filter (\<lambda>r. rec_TaskID r = task) (tb_runs tb)) in
      tb\<lparr>tb_occurrences := List.map_filter
           (\<lambda>r. if owned_occurrence ''plan'' plan r then prune_occurrence task run_ids r else Some r) (tb_occurrences tb)\<rparr>)"

definition plan_empty :: "tables \<Rightarrow> string \<Rightarrow> bool" where
  "plan_empty tb plan \<longleftrightarrow> affected (\<lambda>r. pt_PlanID r = plan) (tb_plan_tasks tb) = 0"

definition leave_plan :: "string \<Rightarrow> string \<Rightarrow> tables \<Rightarrow> tables" where
  "leave_plan task plan tb =
     (let pruned = prune_plan_occurrences task plan tb;
          left = pruned\<lparr>tb_plan_tasks := delete_where (\<lambda>r. pt_PlanID r = plan \<and> pt_TaskID r = task) (tb_plan_tasks pruned)\<rparr> in
      if plan_empty left plan then drop_plan plan left else left)"

text \<open>The plans that hold the task or once ran it; Go visits them in the order of a map.\<close>

definition plans_of_task :: "tables \<Rightarrow> string \<Rightarrow> string list" where
  "plans_of_task tb task =
     remdups (map pt_PlanID (filter (\<lambda>r. pt_TaskID r = task) (tb_plan_tasks tb)) @
       map occ_OwnerID (filter (\<lambda>r. occ_OwnerKind r = ''plan'' \<and> task \<in> set (occ_TargetIDs r)) (tb_occurrences tb)))"

definition leave_plans :: "string \<Rightarrow> tables \<Rightarrow> tables" where
  "leave_plans task tb = fold (leave_plan task) (plans_of_task tb task) tb"

definition close_draft :: "string \<times> string \<Rightarrow> tables \<Rightarrow> tables" where
  "close_draft = (\<lambda>(i, plan) tb.
     if list_ex (\<lambda>e. pdi_DraftID e = i) (tb_draft_items tb) then tb
     else
       let closed = tb\<lparr>tb_drafts := delete_where (\<lambda>d. pdr_ID d = i) (tb_drafts tb)\<rparr> in
       if plan = [] \<or> \<not> plan_empty closed plan then closed else drop_plan plan closed)"

definition leave_drafts :: "string \<Rightarrow> tables \<Rightarrow> tables" where
  "leave_drafts task tb =
     (let drafts = map (\<lambda>d. (pdr_ID d, pdr_PlanID d))
            (filter (\<lambda>d. list_ex (\<lambda>e. pdi_DraftID e = pdr_ID d \<and> pdi_TaskID e = task) (tb_draft_items tb)) (tb_drafts tb)) in
      fold close_draft (remdups drafts)
        (tb\<lparr>tb_draft_items := delete_where (\<lambda>e. pdi_TaskID e = task) (tb_draft_items tb)\<rparr>))"

definition about_task :: "string \<Rightarrow> alert_signal \<Rightarrow> bool" where
  "about_task task s \<longleftrightarrow> sig_ObjectType s = ''task'' \<and> sig_ObjectID s = task"

definition task_alert_keys :: "tables \<Rightarrow> string \<Rightarrow> string list" where
  "task_alert_keys tb task =
     map state_key (filter (\<lambda>s. about_task task (ast_Signal s)) (tb_alert_states tb)) @
     map (\<lambda>e. sig_StateKey (aev_Signal e)) (filter (\<lambda>e. about_task task (aev_Signal e)) (tb_alert_events tb))"

definition drop_task_records :: "string \<Rightarrow> tables \<Rightarrow> tables" where
  "drop_task_records task tb =
     (let keys = task_alert_keys tb task in tb\<lparr>
        tb_leases := delete_where (\<lambda>l. lease_TaskID l = task) (tb_leases tb),
        tb_operations := delete_where (\<lambda>r. op_TaskID r = task) (tb_operations tb),
        tb_runs := delete_where (\<lambda>r. rec_TaskID r = task) (tb_runs tb),
        tb_scope_previews := delete_where (\<lambda>p. tsp_TaskID p = task) (tb_scope_previews tb),
        tb_verifications := delete_where (\<lambda>v. rv_TaskID v = task) (tb_verifications tb),
        tb_verification_policies := delete_where (\<lambda>p. rvp_TaskID p = task) (tb_verification_policies tb),
        tb_occurrences := delete_where (owned_occurrence ''restore_verification'' task) (tb_occurrences tb),
        tb_deliveries := delete_where (\<lambda>d. dlv_StateKey d \<in> set keys) (tb_deliveries tb),
        tb_notifications := delete_where (\<lambda>n. ntf_StateKey n \<in> set keys) (tb_notifications tb),
        tb_alert_events := delete_where (\<lambda>e. about_task task (aev_Signal e)) (tb_alert_events tb),
        tb_alert_states := delete_where (\<lambda>s. about_task task (ast_Signal s)) (tb_alert_states tb)\<rparr>)"

text \<open>\<open>deleteTaskOwnedRecords\<close>, and the row of the task.\<close>

definition drop_task_owned :: "string \<Rightarrow> tables \<Rightarrow> tables" where
  "drop_task_owned task tb = drop_task_records task (leave_drafts task (leave_plans task tb))"

definition task_deletable :: "tables \<Rightarrow> string \<Rightarrow> string outcome" where
  "task_deletable tb i =
     (case row task_ID i (tb_tasks tb) of
        None \<Rightarrow> Inl NoRows
      | Some t \<Rightarrow>
          if task_Enabled t then Inl Conflict
          else if task_active_work tb i \<noteq> [] then Inl Conflict
          else Inr (stored_text (task_UpdatedAt t)))"

definition delete_task :: "tables \<Rightarrow> string \<Rightarrow> tables \<times> check" where
  "delete_task tb i =
     (let P = (\<lambda>t. task_ID t = i \<and> \<not> task_Enabled t); dropped = drop_task_owned i tb in
      transaction tb
        [failure (task_deletable tb i), reject (affected P (tb_tasks dropped) = 0) Conflict]
        (dropped\<lparr>tb_tasks := delete_where P (tb_tasks dropped)\<rparr>))"

definition delete_task_versioned :: "tables \<Rightarrow> string \<Rightarrow> string \<Rightarrow> tables \<times> check" where
  "delete_task_versioned tb i expected =
     (let P = (\<lambda>t. task_ID t = i \<and> stored_text (task_UpdatedAt t) = expected \<and> \<not> task_Enabled t);
          dropped = drop_task_owned i tb in
      transaction tb
        [reject (expected = []) Conflict,
         failure (task_deletable tb i),
         reject (task_deletable tb i \<noteq> Inr expected) Conflict,
         reject (affected P (tb_tasks dropped) \<noteq> 1) Conflict]
        (dropped\<lparr>tb_tasks := delete_where P (tb_tasks dropped)\<rparr>))"

section \<open>Deletions\<close>

definition delete_agent_versioned :: "(string \<Rightarrow> string) \<Rightarrow> tables \<Rightarrow> string \<Rightarrow> string \<Rightarrow> tables \<times> check" where
  "delete_agent_versioned sha256 tb i expected =
     (case row ag_ID i (tb_agents tb) of
        None \<Rightarrow> (tb, Some (if expected = [] then Conflict else NoRows))
      | Some a \<Rightarrow>
          transaction tb
            [reject (expected = []) Conflict,
             reject (agent_version sha256 a \<noteq> expected \<or> \<not> agent_revoked a) Conflict,
             reject (agent_dependencies tb i \<noteq> []) Conflict,
             reject (affected (\<lambda>b. ag_ID b = i) (tb_agents tb) \<noteq> 1) NoRows]
            (tb\<lparr>tb_certificates := delete_where (\<lambda>c. cert_AgentID c = i) (tb_certificates tb),
                tb_filesystem := delete_where (\<lambda>q. rq_AgentID q = i) (tb_filesystem tb),
                tb_restores := delete_where (\<lambda>q. rq_AgentID q = i) (tb_restores tb),
                tb_leases := delete_where (\<lambda>l. lease_AgentID l = i) (tb_leases tb),
                tb_agents := delete_where (\<lambda>b. ag_ID b = i) (tb_agents tb)\<rparr>))"

text \<open>\<open>deleteResourceOwnedRecords\<close>, and the rows of a resource with a version.\<close>

definition drop_owned :: "string \<Rightarrow> string \<Rightarrow> tables \<Rightarrow> tables" where
  "drop_owned kind i tb =
     (if kind = ''remote-hosts'' then detach_host i tb
      else if kind = ''repositories'' then drop_repository_records i tb
      else if kind = ''plans'' then drop_plan_records i tb
      else if kind = ''protection-templates'' then drop_template_records i tb
      else tb)"

definition delete_rows :: "string \<Rightarrow> string \<Rightarrow> (instant \<Rightarrow> bool) \<Rightarrow> tables \<Rightarrow> tables \<times> nat" where
  "delete_rows kind i version tb =
     (if kind = ''remote-hosts'' then
        let P = (\<lambda>h. host_ID h = i \<and> version (host_UpdatedAt h)) in
        (tb\<lparr>tb_hosts := delete_where P (tb_hosts tb)\<rparr>, affected P (tb_hosts tb))
      else if kind = ''repositories'' then
        let P = (\<lambda>r. repo_ID r = i \<and> version (repo_UpdatedAt r)) in
        (tb\<lparr>tb_repositories := delete_where P (tb_repositories tb)\<rparr>, affected P (tb_repositories tb))
      else if kind = ''database-connections'' then
        let P = (\<lambda>c. conn_ID c = i \<and> version (conn_UpdatedAt c)) in
        (tb\<lparr>tb_connections := delete_where P (tb_connections tb)\<rparr>, affected P (tb_connections tb))
      else if kind = ''plans'' then
        let P = (\<lambda>p. plan_ID p = i \<and> version (plan_UpdatedAt p)) in
        (tb\<lparr>tb_plans := delete_where P (tb_plans tb)\<rparr>, affected P (tb_plans tb))
      else
        let P = (\<lambda>p. ptm_ID p = i \<and> version (ptm_UpdatedAt p)) in
        (tb\<lparr>tb_templates := delete_where P (tb_templates tb)\<rparr>, affected P (tb_templates tb)))"

definition resource_secrets :: "tables \<Rightarrow> string \<Rightarrow> string \<Rightarrow> string list" where
  "resource_secrets tb kind i =
     filter (\<lambda>s. s \<noteq> [])
       (if kind = ''remote-hosts'' then
          (case row host_ID i (tb_hosts tb) of None \<Rightarrow> [] | Some h \<Rightarrow> [hrow_SecretID h])
        else if kind = ''repositories'' then
          (case row repo_ID i (tb_repositories tb) of
             None \<Rightarrow> [] | Some r \<Rightarrow> [rrow_PasswordSecretID r, repo_BackendSecretID r]) @
          sort (map rvk_SecretID (filter (\<lambda>v. rvk_RepositoryID v = i) (tb_revocations tb)))
        else if kind = ''database-connections'' then
          (case row conn_ID i (tb_connections tb) of None \<Rightarrow> [] | Some c \<Rightarrow> [dcrow_SecretID c])
        else [])"

definition delete_resource_versioned ::
  "(string \<Rightarrow> string) \<Rightarrow> tables \<Rightarrow> string \<Rightarrow> string \<Rightarrow> string \<Rightarrow> tables \<times> string list outcome" where
  "delete_resource_versioned sha256 tb kind i expected =
     (if kind = ''agents'' then with_value (delete_agent_versioned sha256 tb i expected) []
      else if kind = ''tasks'' then with_value (delete_task_versioned tb i expected) []
      else (case resource_header tb kind i of
              None \<Rightarrow> (tb, Inl Conflict)
            | Some None \<Rightarrow> (tb, Inl (if expected = [] then Conflict else NoRows))
            | Some (Some (name, updated)) \<Rightarrow>
                let (deleted, n) = delete_rows kind i (\<lambda>t. stored_text t = expected) (drop_owned kind i tb) in
                with_value
                  (transaction tb
                     [reject (expected = []) Conflict,
                      reject (updated \<noteq> expected) Conflict,
                      reject (resource_dependencies tb kind i \<noteq> []) Conflict,
                      reject (n \<noteq> 1) Conflict]
                     deleted)
                  (resource_secrets tb kind i)))"

text \<open>The deletions without a version, of crud.go. A repository's only answers the secret of its password.\<close>

definition delete_with_secret :: "string \<Rightarrow> tables \<Rightarrow> string \<Rightarrow> tables \<times> string outcome" where
  "delete_with_secret kind tb i =
     (case resource_header tb kind i of
        Some (Some _) \<Rightarrow>
          with_value
            (transaction tb [reject (resource_dependencies tb kind i \<noteq> []) Conflict]
               (fst (delete_rows kind i (\<lambda>_. True) (drop_owned kind i tb))))
            (if kind = ''remote-hosts'' then hrow_SecretID (the (row host_ID i (tb_hosts tb)))
             else if kind = ''repositories'' then rrow_PasswordSecretID (the (row repo_ID i (tb_repositories tb)))
             else dcrow_SecretID (the (row conn_ID i (tb_connections tb))))
      | _ \<Rightarrow> (tb, Inl NoRows))"

definition delete_remote_host :: "tables \<Rightarrow> string \<Rightarrow> tables \<times> string outcome" where
  "delete_remote_host = delete_with_secret ''remote-hosts''"

definition delete_repository :: "tables \<Rightarrow> string \<Rightarrow> tables \<times> string outcome" where
  "delete_repository = delete_with_secret ''repositories''"

definition delete_database_connection :: "tables \<Rightarrow> string \<Rightarrow> tables \<times> string outcome" where
  "delete_database_connection = delete_with_secret ''database-connections''"

definition delete_plan :: "tables \<Rightarrow> string \<Rightarrow> tables \<times> check" where
  "delete_plan tb i =
     transaction tb [reject (affected (\<lambda>p. plan_ID p = i) (tb_plans tb) = 0) NoRows] (drop_plan i tb)"

end
