(* ===== verification/Resource_References.thy ===== *)
theory Resource_References
  imports Resource_Deletion
begin

text \<open>
  The logical references between the tables. A reference is a table and an identifier; the rows of
  every table name the references they hold, and the keys are the identifiers there are. The theory
  proves of each operation of \<open>Resource_Store\<close>, \<open>Resource_Policies\<close> and \<open>Resource_Deletion\<close> that it
  leaves no reference dangling.
\<close>

section \<open>References of a row\<close>

datatype resource_table = Secrets | Hosts | Repositories | Connections | Agents | Tasks | Plans

type_synonym reference = "resource_table \<times> string"

definition optional_ref :: "resource_table \<Rightarrow> string \<Rightarrow> reference list" where
  "optional_ref k i = (if i = [] then [] else [(k, i)])"

lemma set_optional_ref [simp]: "set (optional_ref k i) \<subseteq> K \<longleftrightarrow> (i \<noteq> [] \<longrightarrow> (k, i) \<in> K)"
  by (simp add: optional_ref_def)

lemma in_optional_ref [simp]: "x \<in> set (optional_ref k i) \<longleftrightarrow> i \<noteq> [] \<and> x = (k, i)"
  by (auto simp: optional_ref_def)

definition agent_ref :: "target \<Rightarrow> reference list" where
  "agent_ref t = (if target_Kind t = Agent then [(Agents, target_AgentID t)] else [])"

definition host_refs :: "host_row \<Rightarrow> reference list" where
  "host_refs h = [(Secrets, hrow_SecretID h)]"

definition repository_refs :: "repo_row \<Rightarrow> reference list" where
  "repository_refs r =
     optional_ref Hosts (repo_RemoteHostID r) @
     (if repo_Kind r = LocalRepository then agent_ref (repo_LocalTarget r) else []) @
     optional_ref Secrets (rrow_PasswordSecretID r) @ optional_ref Secrets (repo_BackendSecretID r)"

definition revocation_refs :: "key_revocation \<Rightarrow> reference list" where
  "revocation_refs v = [(Repositories, rvk_RepositoryID v), (Secrets, rvk_SecretID v)]"

definition connection_refs :: "connection_row \<Rightarrow> reference list" where
  "connection_refs c = [(Secrets, dcrow_SecretID c)]"

text \<open>
  A task of kind database needs its connection; the temporary connections of restores are deleted
  by age alone, and no task is meant to use one.
\<close>

definition task_refs :: "task \<Rightarrow> reference list" where
  "task_refs t =
     optional_ref Repositories (task_RepositoryID t) @ agent_ref (task_ExecutionTarget t) @
     (case task_Rsync t of
        None \<Rightarrow> []
      | Some s \<Rightarrow> if task_Engine t = RsyncEngine \<and> task_RepositoryID t = [] \<and> effective_destination_kind s = ''ssh''
                  then [(Hosts, rs_DestinationHostID s)] else []) @
     (case task_Database t of
        None \<Rightarrow> []
      | Some d \<Rightarrow> if task_Kind t = ''database'' \<and> \<not> temporary_connection (dbs_ConnectionID d)
                  then [(Connections, dbs_ConnectionID d)] else [])"

definition plan_task_refs :: "plan_task \<Rightarrow> reference list" where
  "plan_task_refs r = [(Plans, pt_PlanID r), (Tasks, pt_TaskID r)]"

definition agent_refs :: "agent \<Rightarrow> reference list" where
  "agent_refs a = optional_ref Hosts (ag_RemoteHostID a)"

definition lease_refs :: "agent_lease \<Rightarrow> reference list" where
  "lease_refs l = [(Agents, lease_AgentID l), (Tasks, lease_TaskID l)]"

definition run_refs :: "run_record \<Rightarrow> reference list" where
  "run_refs r = (Tasks, rec_TaskID r) # optional_ref Plans (rec_PlanID r)"

definition occurrence_refs :: "occurrence \<Rightarrow> reference list" where
  "occurrence_refs r =
     (if occ_OwnerKind r = ''plan'' then [(Plans, occ_OwnerID r)]
      else if occ_OwnerKind r = ''maintenance'' then [(Repositories, occ_OwnerID r)]
      else if occ_OwnerKind r = ''restore_verification'' then [(Tasks, occ_OwnerID r)] else [])"

definition verification_refs :: "restore_verification \<Rightarrow> reference list" where
  "verification_refs v = [(Tasks, rv_TaskID v), (Repositories, rv_RepositoryID v)]"

lemmas row_refs =
  host_refs_def repository_refs_def revocation_refs_def connection_refs_def task_refs_def plan_task_refs_def
  agent_refs_def lease_refs_def run_refs_def occurrence_refs_def verification_refs_def

section \<open>Tables within a set of keys\<close>

definition keys :: "tables \<Rightarrow> reference set" where
  "keys tb = Pair Secrets ` set (secret_ids tb) \<union> Pair Hosts ` set (host_ids tb) \<union>
     Pair Repositories ` set (repository_ids tb) \<union> Pair Connections ` set (connection_ids tb) \<union>
     Pair Agents ` set (registered_agents tb) \<union> Pair Tasks ` set (task_ids tb) \<union> Pair Plans ` set (plan_ids tb)"

definition rows_ok :: "reference set \<Rightarrow> ('r \<Rightarrow> reference list) \<Rightarrow> 'r list \<Rightarrow> bool" where
  "rows_ok K f t \<longleftrightarrow> (\<forall>r \<in> set t. set (f r) \<subseteq> K)"

definition refs_within :: "reference set \<Rightarrow> tables \<Rightarrow> bool" where
  "refs_within K tb \<longleftrightarrow>
     rows_ok K host_refs (tb_hosts tb) \<and> rows_ok K repository_refs (tb_repositories tb) \<and>
     rows_ok K revocation_refs (tb_revocations tb) \<and> rows_ok K connection_refs (tb_connections tb) \<and>
     rows_ok K (\<lambda>c. [(Repositories, smp_RepositoryID c)]) (tb_capacities tb) \<and>
     rows_ok K (\<lambda>c. [(Repositories, cpol_RepositoryID c)]) (tb_capacity_policies tb) \<and>
     rows_ok K (\<lambda>c. [(Repositories, smp_RepositoryID c)]) (tb_samples tb) \<and>
     rows_ok K (\<lambda>p. [(Repositories, mp_RepositoryID p)]) (tb_maintenance tb) \<and>
     rows_ok K (\<lambda>p. [(Repositories, mpv_RepositoryID p)]) (tb_maintenance_previews tb) \<and>
     rows_ok K (\<lambda>s. [(Repositories, snap_RepositoryID s)]) (tb_snapshots tb) \<and>
     rows_ok K task_refs (tb_tasks tb) \<and> rows_ok K plan_task_refs (tb_plan_tasks tb) \<and>
     rows_ok K agent_refs (tb_agents tb) \<and> rows_ok K (\<lambda>c. [(Agents, cert_AgentID c)]) (tb_certificates tb) \<and>
     rows_ok K lease_refs (tb_leases tb) \<and> rows_ok K (\<lambda>q. [(Agents, rq_AgentID q)]) (tb_filesystem tb) \<and>
     rows_ok K (\<lambda>q. [(Agents, rq_AgentID q)]) (tb_restores tb) \<and> rows_ok K run_refs (tb_runs tb) \<and>
     rows_ok K (\<lambda>r. optional_ref Tasks (op_TaskID r)) (tb_operations tb) \<and>
     rows_ok K occurrence_refs (tb_occurrences tb) \<and>
     rows_ok K (\<lambda>p. [(Tasks, tsp_TaskID p)]) (tb_scope_previews tb) \<and>
     rows_ok K (\<lambda>p. [(Tasks, rvp_TaskID p)]) (tb_verification_policies tb) \<and>
     rows_ok K verification_refs (tb_verifications tb)"

definition refs_ok :: "tables \<Rightarrow> bool" where
  "refs_ok tb \<longleftrightarrow> refs_within (keys tb) tb"

lemma in_keys [simp]:
  "(Secrets, i) \<in> keys tb \<longleftrightarrow> i \<in> sec_ID ` set (tb_secrets tb)"
  "(Hosts, i) \<in> keys tb \<longleftrightarrow> i \<in> host_ID ` set (tb_hosts tb)"
  "(Repositories, i) \<in> keys tb \<longleftrightarrow> i \<in> repo_ID ` set (tb_repositories tb)"
  "(Connections, i) \<in> keys tb \<longleftrightarrow> i \<in> conn_ID ` set (tb_connections tb)"
  "(Agents, i) \<in> keys tb \<longleftrightarrow> i \<in> ag_ID ` set (tb_agents tb)"
  "(Tasks, i) \<in> keys tb \<longleftrightarrow> i \<in> task_ID ` set (tb_tasks tb)"
  "(Plans, i) \<in> keys tb \<longleftrightarrow> i \<in> plan_ID ` set (tb_plans tb)"
  by (auto simp: keys_def)

lemma rows_ok_Nil [simp]: "rows_ok K f []"
  by (simp add: rows_ok_def)

lemma rows_ok_append [simp]: "rows_ok K f (t @ u) \<longleftrightarrow> rows_ok K f t \<and> rows_ok K f u"
  by (auto simp: rows_ok_def)

lemma rows_ok_single [simp]: "rows_ok K f [r] \<longleftrightarrow> set (f r) \<subseteq> K"
  by (simp add: rows_ok_def)

lemma rows_ok_subset: "rows_ok K f t \<Longrightarrow> set u \<subseteq> set t \<Longrightarrow> rows_ok K f u"
  by (auto simp: rows_ok_def)

lemma rows_ok_delete [intro, simp]: "rows_ok K f t \<Longrightarrow> rows_ok K f (delete_where P t)"
  by (auto simp: rows_ok_def set_delete_where)

lemma rows_ok_update:
  assumes "rows_ok K f t" and "\<And>r. r \<in> set t \<Longrightarrow> P r \<Longrightarrow> set (f r) \<subseteq> K \<Longrightarrow> set (f (g r)) \<subseteq> K"
  shows "rows_ok K f (update_where P g t)"
  unfolding rows_ok_def
proof
  fix r
  assume "r \<in> set (update_where P g t)"
  then show "set (f r) \<subseteq> K"
    using assms by (elim update_where_cases) (simp_all add: rows_ok_def)
qed

lemma update_where_image:
  assumes "\<And>r. P r \<Longrightarrow> f (g r) = f r"
  shows "f ` set (update_where P g t) = f ` set t"
proof -
  have "map f (update_where P g t) = map f t"
    using assms by (simp add: update_where_def)
  from arg_cong [OF this, of set] show ?thesis by simp
qed

lemma rows_ok_update_same:
  assumes "\<And>r. P r \<Longrightarrow> f (g r) = f r"
  shows "rows_ok K f (update_where P g t) = rows_ok K f t"
proof -
  have "rows_ok K f u \<longleftrightarrow> Ball (f ` set u) (\<lambda>x. set x \<subseteq> K)" for u by (simp add: rows_ok_def)
  moreover have "f ` set (update_where P g t) = f ` set t" using assms by (rule update_where_image)
  ultimately show ?thesis by (simp only:)
qed

lemma rows_ok_mono: "rows_ok K f t \<Longrightarrow> K \<subseteq> L \<Longrightarrow> rows_ok L f t"
  by (auto simp: rows_ok_def)

lemma rows_ok_without:
  "rows_ok K f t \<Longrightarrow> (\<And>r. r \<in> set t \<Longrightarrow> x \<notin> set (f r)) \<Longrightarrow> K - {x} \<subseteq> L \<Longrightarrow> rows_ok L f t"
  by (fastforce simp: rows_ok_def)

lemma refs_within_mono: "refs_within K tb \<Longrightarrow> K \<subseteq> L \<Longrightarrow> refs_within L tb"
  by (auto simp: refs_within_def intro: rows_ok_mono)

lemma refs_ok_grows: "refs_ok tb \<Longrightarrow> keys tb \<subseteq> K \<Longrightarrow> refs_within K tb"
  by (auto simp: refs_ok_def intro: refs_within_mono)

text \<open>An operation that only adds keys keeps the references when its new rows refer to keys.\<close>

lemma refs_ok_step:
  assumes "refs_ok tb" and "keys tb \<subseteq> keys tb'" and "refs_within (keys tb') tb \<Longrightarrow> refs_within (keys tb') tb'"
  shows "refs_ok tb'"
  using assms refs_ok_grows by (simp add: refs_ok_def)

lemma refs_transaction:
  assumes "refs_ok tb" and "\<forall>c \<in> set checks. c = None \<Longrightarrow> refs_ok committed"
  shows "refs_ok (fst (transaction tb checks committed))"
  using assms by (auto simp: transaction_def first_error_None [symmetric] split: option.split)

lemma keys_subset:
  "keys tb \<subseteq> keys tb' \<longleftrightarrow>
     sec_ID ` set (tb_secrets tb) \<subseteq> sec_ID ` set (tb_secrets tb') \<and> host_ID ` set (tb_hosts tb) \<subseteq> host_ID ` set (tb_hosts tb') \<and>
     repo_ID ` set (tb_repositories tb) \<subseteq> repo_ID ` set (tb_repositories tb') \<and>
     conn_ID ` set (tb_connections tb) \<subseteq> conn_ID ` set (tb_connections tb') \<and>
     ag_ID ` set (tb_agents tb) \<subseteq> ag_ID ` set (tb_agents tb') \<and> task_ID ` set (tb_tasks tb) \<subseteq> task_ID ` set (tb_tasks tb') \<and>
     plan_ID ` set (tb_plans tb) \<subseteq> plan_ID ` set (tb_plans tb')"
  by (simp add: keys_def [of tb] image_subset_iff)

lemma keys_other [simp]:
  "keys (tb\<lparr>tb_channel_secrets := x0\<rparr>) = keys tb"
  "keys (tb\<lparr>tb_revocations := x1\<rparr>) = keys tb"
  "keys (tb\<lparr>tb_capacities := x2\<rparr>) = keys tb"
  "keys (tb\<lparr>tb_capacity_policies := x3\<rparr>) = keys tb"
  "keys (tb\<lparr>tb_samples := x4\<rparr>) = keys tb"
  "keys (tb\<lparr>tb_next_sample := x5\<rparr>) = keys tb"
  "keys (tb\<lparr>tb_maintenance := x6\<rparr>) = keys tb"
  "keys (tb\<lparr>tb_maintenance_previews := x7\<rparr>) = keys tb"
  "keys (tb\<lparr>tb_snapshots := x8\<rparr>) = keys tb"
  "keys (tb\<lparr>tb_plan_tasks := x9\<rparr>) = keys tb"
  "keys (tb\<lparr>tb_certificates := x10\<rparr>) = keys tb"
  "keys (tb\<lparr>tb_tokens := x11\<rparr>) = keys tb"
  "keys (tb\<lparr>tb_leases := x12\<rparr>) = keys tb"
  "keys (tb\<lparr>tb_filesystem := x13\<rparr>) = keys tb"
  "keys (tb\<lparr>tb_restores := x14\<rparr>) = keys tb"
  "keys (tb\<lparr>tb_runs := x15\<rparr>) = keys tb"
  "keys (tb\<lparr>tb_operations := x16\<rparr>) = keys tb"
  "keys (tb\<lparr>tb_occurrences := x17\<rparr>) = keys tb"
  "keys (tb\<lparr>tb_scope_previews := x18\<rparr>) = keys tb"
  "keys (tb\<lparr>tb_verification_policies := x19\<rparr>) = keys tb"
  "keys (tb\<lparr>tb_verifications := x20\<rparr>) = keys tb"
  "keys (tb\<lparr>tb_templates := x21\<rparr>) = keys tb"
  "keys (tb\<lparr>tb_drafts := x22\<rparr>) = keys tb"
  "keys (tb\<lparr>tb_draft_items := x23\<rparr>) = keys tb"
  "keys (tb\<lparr>tb_alert_states := x24\<rparr>) = keys tb"
  "keys (tb\<lparr>tb_alert_events := x25\<rparr>) = keys tb"
  "keys (tb\<lparr>tb_notifications := x26\<rparr>) = keys tb"
  "keys (tb\<lparr>tb_deliveries := x27\<rparr>) = keys tb"
  by (simp_all add: keys_def)

lemma fst_with_value [simp]: "fst (with_value r v) = fst r"
  by (simp add: with_value_def)

lemma row_in: "row key k t = Some r \<Longrightarrow> r \<in> set t"
  using row_Some_in [of key k t r] by simp

section \<open>Hosts, repositories and connections\<close>

lemma host_ID_row [simp]: "host_ID (host_row_of h s) = host_ID h" "hrow_SecretID (host_row_of h s) = s"
  by (simp_all add: host_row_of_def remote_host.defs host_row.defs)

lemma repo_row_simps [simp]:
  "repo_ID (repo_row_of r b t p) = repo_ID r" "repo_RemoteHostID (repo_row_of r b t p) = repo_RemoteHostID r"
  "repo_Kind (repo_row_of r b t p) = effective_kind r" "repo_LocalTarget (repo_row_of r b t p) = t"
  "rrow_PasswordSecretID (repo_row_of r b t p) = p" "repo_BackendSecretID (repo_row_of r b t p) = repo_BackendSecretID r"
  by (simp_all add: repo_row_of_def repository.defs repo_row.defs)

lemma connection_row_simps [simp]:
  "conn_ID (connection_row_of c s) = conn_ID c" "dcrow_SecretID (connection_row_of c s) = s"
  by (simp_all add: connection_row_of_def database_connection.defs connection_row.defs)

lemma refs_option:
  assumes "refs_ok tb" and "\<And>r. x = Some r \<Longrightarrow> refs_ok (fst (g r))"
  shows "refs_ok (fst (case x of None \<Rightarrow> (tb, a) | Some r \<Rightarrow> g r))"
  using assms by (simp split: option.split)

text \<open>The simplification rules of an operation that changes rows and keeps the keys.\<close>

lemmas step_simps = keys_subset refs_within_def update_where_image rows_ok_update rows_ok_update_same subset_insertI
  insert_subset subset_refl

lemma save_secret_refs: "refs_ok tb \<Longrightarrow> refs_ok (fst (save_secret tb i p c t))"
  by (simp add: save_secret_def insert_row_def)
     (rule impI, erule refs_ok_step; simp add: step_simps)

lemma create_host_refs: "refs_ok tb \<Longrightarrow> refs_ok (fst (create_remote_host tb h s))"
  unfolding create_remote_host_def
  by (rule refs_transaction, assumption, erule refs_ok_step) (simp_all add: step_simps host_refs_def)

lemma update_host_refs: "refs_ok tb \<Longrightarrow> refs_ok (fst (update_remote_host tb h s))"
  unfolding update_remote_host_def Let_def
  by (rule refs_option, assumption, simp only: fst_with_value, rule refs_transaction, assumption, erule refs_ok_step)
     (simp_all add: step_simps host_refs_def)

lemma encoded_owner:
  "failure (encode_repository_local_target r) = None \<Longrightarrow>
     projr (encode_repository_local_target r) = (if effective_kind r = LocalRepository then effective_local_target r else no_target)"
  by (auto simp: failure_def encode_repository_local_target_def split: option.splits if_splits)

lemma written_repository_simps [simp]:
  "repo_ID (written_repository r p) = repo_ID r" "rrow_PasswordSecretID (written_repository r p) = p"
  by (simp_all add: written_repository_def)

lemma repository_refs_created [simp]: "repository_refs (r\<lparr>repo_CreatedAt := t\<rparr>) = repository_refs r"
  by (simp add: repository_refs_def)

lemma keep_backend_secret_ID [simp]: "repo_ID (keep_backend_secret old r) = repo_ID r"
  by (simp add: keep_backend_secret_def)

lemma repository_row_refs:
  assumes "\<forall>c \<in> set (encoding_errors r). c = None" and refs: "\<forall>c \<in> set (repository_references tb r p). c = None"
  shows "set (repository_refs (written_repository r p)) \<subseteq> keys tb"
proof -
  have owner: "failure (encode_repository_local_target r) = None"
    using assms(1) by (simp add: encoding_errors_def)
  have "effective_kind r = LocalRepository \<longrightarrow> set (agent_ref (effective_local_target r)) \<subseteq> keys tb"
    using refs by (auto simp: repository_references_def local_target_reference_def agent_ref_def split: if_splits)
  then show ?thesis
    using refs unfolding repository_refs_def written_repository_def repo_row_simps encoded_owner [OF owner]
    by (simp add: repository_references_def split: if_splits)
qed

lemma default_policy_tables:
  assumes "insert_default_capacity_policy db i t e = (db', err)"
  shows "cdb_samples db' = cdb_samples db" and "cdb_capacities db' = cdb_capacities db" and "cdb_next db' = cdb_next db"
    and "rows_ok K (\<lambda>c. [(Repositories, cpol_RepositoryID c)]) (cdb_policies db) \<Longrightarrow> (Repositories, i) \<in> K \<Longrightarrow>
      rows_ok K (\<lambda>c. [(Repositories, cpol_RepositoryID c)]) (cdb_policies db')"
  using assms
  by (auto simp: insert_default_capacity_policy_def Let_def insert_row_def capacity_row_of_def default_capacity_policy_def
        capacity_policy.defs split: if_splits)

lemma create_repository_refs:
  assumes "refs_ok tb"
  shows "refs_ok (fst (create_repository tb r p now))"
proof -
  let ?t = "if repo_CreatedAt r = zero_time then now else repo_CreatedAt r"
  let ?row = "written_repository r p"
  obtain db err where db: "insert_default_capacity_policy (capacity_view tb) (repo_ID r) ?t (effective_kind r \<noteq> S3Repository) = (db, err)"
    by fastforce
  let ?tb' = "put_capacity (tb\<lparr>tb_repositories := tb_repositories tb @ [?row]\<rparr>) db"
  have sub: "keys tb \<subseteq> keys ?tb'" and key: "(Repositories, repo_ID r) \<in> keys ?tb'"
    by (simp_all add: keys_subset put_capacity_def subset_insertI)
  have rest: "refs_within K ?tb'" if "refs_within K tb" and "(Repositories, repo_ID r) \<in> K" and "set (repository_refs ?row) \<subseteq> K" for K
    using that default_policy_tables [OF db] by (simp add: refs_within_def put_capacity_def capacity_view_def)
  have new: "set (repository_refs ?row) \<subseteq> keys ?tb'"
    if "\<forall>c \<in> set (encoding_errors r). c = None" and "\<forall>c \<in> set (repository_references tb r p). c = None"
    using repository_row_refs [OF that] sub by (rule order_trans)
  show ?thesis
    unfolding create_repository_def Let_def db prod.case
    by (rule refs_transaction [OF assms], rule refs_ok_step [OF assms sub], erule rest [OF _ key], rule new) auto
qed

lemma replace_repository_refs:
  assumes "refs_ok tb"
  shows "refs_ok (fst (replace_repository tb old r s))"
proof -
  let ?f = "\<lambda>q. (written_repository r s)\<lparr>repo_CreatedAt := repo_CreatedAt q\<rparr>"
  let ?tb' = "tb\<lparr>tb_repositories := update_where (\<lambda>q. repo_ID q = repo_ID r) ?f (tb_repositories tb)\<rparr>"
  have sub: "keys tb \<subseteq> keys ?tb'" by (simp add: step_simps)
  have rest: "refs_within K ?tb'" if "refs_within K tb" and "set (repository_refs (written_repository r s)) \<subseteq> K" for K
    using that by (simp add: refs_within_def rows_ok_update)
  have new: "set (repository_refs (written_repository r s)) \<subseteq> keys ?tb'"
    if "\<forall>c \<in> set (encoding_errors r). c = None" and "\<forall>c \<in> set (repository_references tb r s). c = None"
    using repository_row_refs [OF that] sub by (rule order_trans)
  show ?thesis
    unfolding replace_repository_def Let_def
    by (rule refs_transaction [OF assms], rule refs_ok_step [OF assms sub], erule rest, rule new) auto
qed

lemma update_repository_refs: "refs_ok tb \<Longrightarrow> refs_ok (fst (update_repository tb r0 s))"
  by (simp add: update_repository_def Let_def replace_repository_refs split: option.split)

lemma repository_status_refs: "refs_ok tb \<Longrightarrow> refs_ok (update_repository_status tb i status now)"
  unfolding update_repository_status_def
  by (erule refs_ok_step) (simp_all add: step_simps repository_refs_def)

lemma create_connection_refs: "refs_ok tb \<Longrightarrow> refs_ok (fst (create_database_connection tb c s))"
  unfolding create_database_connection_def
  by (rule refs_transaction, assumption, erule refs_ok_step) (simp_all add: step_simps connection_refs_def)

lemma update_connection_refs: "refs_ok tb \<Longrightarrow> refs_ok (fst (update_database_connection tb c s))"
  unfolding update_database_connection_def Let_def
  by (rule refs_option, assumption, simp only: fst_with_value, rule refs_transaction, assumption, erule refs_ok_step)
     (simp_all add: step_simps connection_refs_def)

text \<open>
  A deletion: what stays referred to keys before, and refers to none of the keys \<open>D\<close> that may go.
  For most tables the second is plain, because they never refer to that kind of resource.
\<close>

lemma rows_ok_Int: "rows_ok K f t \<Longrightarrow> rows_ok L f t \<Longrightarrow> rows_ok (K \<inter> L) f t"
  by (simp add: rows_ok_def)

lemma refs_within_Int: "refs_within K tb \<Longrightarrow> refs_within L tb \<Longrightarrow> refs_within (K \<inter> L) tb"
  by (simp add: refs_within_def rows_ok_Int)

lemma refs_ok_drop:
  assumes "refs_within (keys tb) tb'" and "refs_within (- D) tb'" and "keys tb - D \<subseteq> keys tb'"
  shows "refs_ok tb'"
proof -
  have "refs_within (keys tb \<inter> - D) tb'" using assms(1,2) by (rule refs_within_Int)
  moreover have "keys tb \<inter> - D \<subseteq> keys tb'" using assms(3) by blast
  ultimately show ?thesis unfolding refs_ok_def by (rule refs_within_mono)
qed

lemma avoids_rows: "rows_ok (- D) f t \<longleftrightarrow> (\<forall>r \<in> set t. \<forall>k i. (k, i) \<in> set (f r) \<longrightarrow> (k, i) \<notin> D)"
  by (auto simp: rows_ok_def)

lemma in_repository_refs:
  "(k, i) \<in> set (repository_refs r) \<longleftrightarrow>
     k = Hosts \<and> i \<noteq> [] \<and> i = repo_RemoteHostID r \<or>
     k = Agents \<and> repo_Kind r = LocalRepository \<and> repo_LocalTarget r = \<lparr>target_Kind = Agent, target_AgentID = i\<rparr> \<or>
     k = Secrets \<and> i \<noteq> [] \<and> (rrow_PasswordSecretID r = i \<or> repo_BackendSecretID r = i)"
  by (cases "repo_LocalTarget r") (auto simp: repository_refs_def agent_ref_def)

lemma in_task_refs:
  "(k, i) \<in> set (task_refs t) \<longleftrightarrow>
     k = Repositories \<and> i \<noteq> [] \<and> task_RepositoryID t = i \<or>
     k = Agents \<and> task_ExecutionTarget t = \<lparr>target_Kind = Agent, target_AgentID = i\<rparr> \<or>
     k = Hosts \<and> rsync_destination i t \<and> task_RepositoryID t = [] \<and> effective_destination_kind (the (task_Rsync t)) = ''ssh'' \<or>
     k = Connections \<and> uses_connection i t \<and> \<not> temporary_connection i"
  by (cases "task_ExecutionTarget t")
     (auto simp: task_refs_def agent_ref_def rsync_destination_def uses_connection_def split: option.splits)

lemmas avoid_simps = refs_within_def avoids_rows in_repository_refs in_task_refs host_refs_def revocation_refs_def
  connection_refs_def plan_task_refs_def agent_refs_def lease_refs_def run_refs_def occurrence_refs_def verification_refs_def

lemma keys_minus:
  assumes "\<And>k j. (k, j) \<in> keys tb \<Longrightarrow> (k, j) \<notin> D \<Longrightarrow> (k, j) \<in> keys tb'"
  shows "keys tb - D \<subseteq> keys tb'"
  using assms by (metis DiffD1 DiffD2 subsetI surj_pair)

lemma keys_minus_rows:
  "(\<And>s. s \<in> set (tb_secrets tb) \<Longrightarrow> sec_ID s \<noteq> i \<Longrightarrow> s \<in> set S) \<Longrightarrow> keys tb - {(Secrets, i)} \<subseteq> keys (tb\<lparr>tb_secrets := S\<rparr>)"
  "(\<And>a. a \<in> set (tb_agents tb) \<Longrightarrow> ag_ID a \<noteq> i \<Longrightarrow> a \<in> set A) \<Longrightarrow> keys tb - {(Agents, i)} \<subseteq> keys (tb\<lparr>tb_agents := A\<rparr>)"
  "(\<And>t. t \<in> set (tb_tasks tb) \<Longrightarrow> task_ID t \<noteq> i \<Longrightarrow> t \<in> set T) \<Longrightarrow> keys tb - {(Tasks, i)} \<subseteq> keys (tb\<lparr>tb_tasks := T\<rparr>)"
  "(\<And>p. p \<in> set (tb_plans tb) \<Longrightarrow> plan_ID p \<noteq> i \<Longrightarrow> p \<in> set P) \<Longrightarrow> keys tb - {(Plans, i)} \<subseteq> keys (tb\<lparr>tb_plans := P\<rparr>)"
  by (rule keys_minus, rename_tac k j, case_tac k; force)+

lemma expire_connections_refs:
  assumes "refs_ok tb"
  shows "refs_ok (fst (delete_expired_temporary_connections connection_of tb cutoff))"
proof (rule refs_ok_drop [where tb = tb and D = "Pair Connections ` {i. temporary_connection i}"])
  let ?tb' = "fst (delete_expired_temporary_connections connection_of tb cutoff)"
  show "refs_within (keys tb) ?tb'"
    using assms by (simp add: refs_ok_def refs_within_def delete_expired_temporary_connections_def Let_def)
  show "refs_within (- Pair Connections ` {i. temporary_connection i}) ?tb'"
    by (simp add: avoid_simps delete_expired_temporary_connections_def Let_def image_iff)
  show "keys tb - Pair Connections ` {i. temporary_connection i} \<subseteq> keys ?tb'"
  proof
    fix x
    assume x: "x \<in> keys tb - Pair Connections ` {i. temporary_connection i}"
    obtain k i where [simp]: "x = (k, i)" by fastforce
    from x show "x \<in> keys ?tb'"
      by (cases k) (auto simp: delete_expired_temporary_connections_def Let_def set_delete_where image_iff)
  qed
qed

section \<open>Tasks and plans\<close>

lemma stored_task_simps [simp]:
  "task_ID (stored_task t) = task_ID t" "task_RepositoryID (stored_task t) = task_RepositoryID t"
  "task_ExecutionTarget (stored_task t) = task_target t" "task_Kind (stored_task t) = task_Kind t"
  "task_Engine (stored_task t) = effective_engine (task_Engine t)"
  by (simp_all add: stored_task_def Let_def)

lemma task_repository_present:
  "validate_task_repository_target tb i x = None \<Longrightarrow> i \<noteq> [] \<Longrightarrow> i \<in> repo_ID ` set (tb_repositories tb)"
  by (auto simp: validate_task_repository_target_def row_None split: option.splits) (metis not_None_eq row_None)

lemma backup_connection_present:
  "backup_connection tb t \<Longrightarrow> task_Database t = Some d \<Longrightarrow> dbs_ConnectionID d \<in> conn_ID ` set (tb_connections tb)"
  by (auto simp: backup_connection_def split: option.splits) (metis not_None_eq row_None)

lemma stored_task_refs:
  assumes "agent_reference tb t = None" and "validate_task_repository_target tb (task_RepositoryID t) x = None"
    and "effective_engine (task_Engine t) = RsyncEngine \<Longrightarrow> task_RepositoryID t = [] \<Longrightarrow> destination_reference tb t = None"
    and "effective_engine (task_Engine t) = ResticEngine \<Longrightarrow> task_Kind t \<noteq> ''directory'' \<Longrightarrow> task_Database t \<noteq> None \<Longrightarrow>
      backup_connection tb t"
  shows "set (task_refs (stored_task t)) \<subseteq> keys tb"
proof -
  have rsync: "task_Rsync (stored_task t) = (if effective_engine (task_Engine t) = ResticEngine then None else task_Rsync t)"
    and database: "task_Database (stored_task t) =
      (if effective_engine (task_Engine t) = ResticEngine \<and> task_Kind t \<noteq> ''directory'' then task_Database t else None)"
    by (simp_all add: stored_task_def Let_def)
  have "set (agent_ref (task_target t)) \<subseteq> keys tb"
    using assms(1) by (auto simp: agent_reference_def agent_ref_def)
  then show ?thesis
    using assms task_repository_present [OF assms(2)] backup_connection_present [of tb t]
    by (auto simp: task_refs_def rsync database destination_reference_def split: option.splits if_splits)
qed

lemma task_refs_created [simp]: "task_refs (t\<lparr>task_CreatedAt := x\<rparr>) = task_refs t"
  by (simp add: task_refs_def split: option.split)

lemma default_retention_refs:
  assumes "refs_within K tb" and "i \<noteq> [] \<Longrightarrow> (Repositories, i) \<in> K"
  shows "refs_within K (ensure_repository_retention tb i p t now)"
  using assms by (auto simp: ensure_repository_retention_def Let_def refs_within_def)

lemma default_retention_keys [simp]: "keys (ensure_repository_retention tb i p t now) = keys tb"
  by (simp add: ensure_repository_retention_def Let_def keys_def)

lemma create_task_refs:
  assumes "refs_ok tb"
  shows "refs_ok (fst (create_task tb t now))"
proof -
  let ?restic = "effective_engine (task_Engine t) = ResticEngine"
  let ?ret = "if ?restic then ensure_repository_retention tb (task_RepositoryID t) (task_Retention t) (task_UpdatedAt t) now else tb"
  let ?tb' = "?ret\<lparr>tb_tasks := tb_tasks tb @ [stored_task t]\<rparr>"
  have sub: "keys tb \<subseteq> keys ?tb'"
    by (simp add: ensure_repository_retention_def Let_def keys_subset subset_insertI)
  have rest: "refs_within K ?tb'"
    if K: "refs_within K tb" and task: "set (task_refs (stored_task t)) \<subseteq> K" for K
  proof -
    have "task_RepositoryID t \<noteq> [] \<Longrightarrow> (Repositories, task_RepositoryID t) \<in> K"
      using task by (force simp: in_task_refs)
    with K have "refs_within K ?ret" by (simp add: default_retention_refs)
    moreover have "tb_tasks ?ret = tb_tasks tb" by (simp add: ensure_repository_retention_def Let_def)
    ultimately show ?thesis using task by (simp add: refs_within_def)
  qed
  show ?thesis
    unfolding create_task_def Let_def
  proof (rule refs_transaction [OF assms], rule refs_ok_step [OF assms sub], erule rest, rule order_trans [OF _ sub], goal_cases)
    case 1
    then show ?case
      by (intro stored_task_refs [where x = "task_target t"]) (auto split: if_splits)
  qed
qed

lemma update_task_refs:
  assumes "refs_ok tb"
  shows "refs_ok (fst (update_task tb t))"
proof -
  let ?p = "if task_Enabled t then tb_verification_policies tb
            else update_where (\<lambda>p. rvp_TaskID p = task_ID t) (\<lambda>p. p\<lparr>rvp_Enabled := False\<rparr>) (tb_verification_policies tb)"
  let ?tb' = "tb\<lparr>tb_verification_policies := ?p,
       tb_tasks := update_where (\<lambda>s. task_ID s = task_ID t) (\<lambda>s. (stored_task t)\<lparr>task_CreatedAt := task_CreatedAt s\<rparr>) (tb_tasks tb)\<rparr>"
  have sub: "keys tb \<subseteq> keys ?tb'" by (simp add: step_simps)
  have rest: "refs_within K ?tb'" if "refs_within K tb" and "set (task_refs (stored_task t)) \<subseteq> K" for K
    using that by (simp add: refs_within_def rows_ok_update rows_ok_update_same)
  show ?thesis
    unfolding update_task_def Let_def
  proof (rule refs_option [OF assms], rule refs_transaction [OF assms], rule refs_ok_step [OF assms sub], erule rest,
      rule order_trans [OF _ sub], goal_cases)
    case 1
    then show ?case
      by (intro stored_task_refs [where x = "task_target t"]) (auto split: if_splits)
  qed
qed

lemma plan_rows_refs:
  "(Plans, plan_ID p) \<in> K \<Longrightarrow> Pair Tasks ` set (plan_TaskIDs p) \<subseteq> K \<Longrightarrow> rows_ok K plan_task_refs (plan_task_rows p)"
  by (auto simp: rows_ok_def plan_task_rows_def plan_task_refs_def in_set_enumerate_eq)

lemma plan_references_present:
  "plan_task_references tb is e = None \<Longrightarrow> set is \<subseteq> task_ID ` set (tb_tasks tb)"
  by (auto simp: plan_task_references_def list_all_iff list_ex_iff)

lemma plan_written_refs:
  assumes "refs_within K tb" and "rows_ok K plan_task_refs rs" and "(Plans, plan_ID p) \<in> K" and "Pair Tasks ` set (plan_TaskIDs p) \<subseteq> K"
  shows "refs_within K (tb\<lparr>tb_plans := ps, tb_plan_tasks := rs @ plan_task_rows p\<rparr>)"
  using assms by (simp add: refs_within_def plan_rows_refs)

lemma create_plan_refs:
  assumes "refs_ok tb"
  shows "refs_ok (fst (create_plan tb p))"
  unfolding create_plan_def
proof (rule refs_transaction [OF assms], rule refs_ok_step [OF assms], goal_cases)
  case 1
  then show ?case by (simp add: step_simps)
next
  case 2
  then have tasks: "set (plan_TaskIDs p) \<subseteq> task_ID ` set (tb_tasks tb)"
    by (auto dest: plan_references_present)
  from 2(2) show ?case
    by (rule plan_written_refs) (use 2(2) tasks in \<open>auto simp: refs_within_def image_subset_iff\<close>)
qed

lemma update_plan_refs:
  assumes "refs_ok tb"
  shows "refs_ok (fst (update_plan tb p))"
  unfolding update_plan_def Let_def
proof (rule refs_option [OF assms], rule refs_transaction [OF assms], rule refs_ok_step [OF assms], goal_cases)
  case (1 old)
  then show ?case by (simp add: step_simps)
next
  case (2 old)
  then have tasks: "set (plan_TaskIDs p) \<subseteq> task_ID ` set (tb_tasks tb)"
    by (auto dest: plan_references_present)
  have key: "plan_ID p \<in> plan_ID ` set (tb_plans tb)"
    using row_Some_in [OF 2(1)] by (metis image_eqI)
  from 2(3) show ?case
    by (rule plan_written_refs) (use 2(3) tasks key in \<open>auto simp: refs_within_def image_subset_iff update_where_image\<close>)
qed

section \<open>Policies, previews, snapshots and passwords\<close>

lemma maintenance_refs: "refs_ok tb \<Longrightarrow> refs_ok (fst (save_maintenance_policy tb p))"
  unfolding save_maintenance_policy_def Let_def
  by (rule refs_transaction, assumption, erule refs_ok_step)
     (simp_all add: refs_within_def rows_ok_update split: option.split)

lemma maintenance_preview_refs: "refs_ok tb \<Longrightarrow> refs_ok (fst (create_maintenance_preview tb p))"
  unfolding create_maintenance_preview_def
  by (rule refs_transaction, assumption, erule refs_ok_step) (simp_all add: step_simps)

lemma consume_maintenance_refs: "refs_ok tb \<Longrightarrow> refs_ok (fst (consume_maintenance_preview tb i r p now))"
  unfolding consume_maintenance_preview_def Let_def
  by (rule refs_option, assumption, simp only: fst_with_value, rule refs_transaction, assumption, erule refs_ok_step)
     (simp_all add: step_simps)

lemma scope_preview_refs: "refs_ok tb \<Longrightarrow> refs_ok (fst (create_scope_preview tb p))"
  unfolding create_scope_preview_def Let_def
  by (rule refs_transaction, assumption, erule refs_ok_step) (simp_all add: step_simps)

lemma consume_scope_refs: "refs_ok tb \<Longrightarrow> refs_ok (fst (consume_scope_preview tb i t f a d now))"
  unfolding consume_scope_preview_def Let_def
  by (cases "blank a", simp, simp only: if_False, rule refs_option, assumption, simp only: fst_with_value,
      rule refs_transaction, assumption, erule refs_ok_step)
     (simp_all add: step_simps)

lemma snapshot_refs: "refs_ok tb \<Longrightarrow> refs_ok (fst (save_snapshot_metadata tb r s m t))"
  unfolding save_snapshot_metadata_def Let_def
  by (rule refs_transaction, assumption, erule refs_ok_step) (simp_all add: step_simps)

lemma draft_tables_refs [simp]:
  "refs_ok (tb\<lparr>tb_templates := x\<rparr>) = refs_ok tb" "refs_ok (tb\<lparr>tb_drafts := d\<rparr>) = refs_ok tb"
  "refs_ok (tb\<lparr>tb_draft_items := e\<rparr>) = refs_ok tb"
  by (simp_all add: refs_ok_def refs_within_def keys_def)

lemma template_refs: "refs_ok tb \<Longrightarrow> refs_ok (fst (create_protection_template tb p))"
  unfolding create_protection_template_def by (rule refs_transaction) simp_all

lemma draft_refs: "refs_ok tb \<Longrightarrow> refs_ok (fst (create_protection_draft tb d is))"
  unfolding create_protection_draft_def Let_def by (rule refs_transaction) simp_all

lemma draft_status_refs: "refs_ok tb \<Longrightarrow> refs_ok (fst (update_draft_status tb i s t))"
  unfolding update_draft_status_def by (rule refs_transaction) simp_all

lemma draft_item_refs: "refs_ok tb \<Longrightarrow> refs_ok (fst (update_draft_item tb d))"
  unfolding update_draft_item_def Let_def by (rule refs_transaction) simp_all

lemma recover_drafts_refs: "refs_ok tb \<Longrightarrow> refs_ok (fst (recover_interrupted_drafts tb now))"
  by (simp add: recover_interrupted_drafts_def Let_def)

lemma rotation_refs:
  assumes "refs_ok tb"
  shows "refs_ok (fst (commit_password_rotation tb i s k old now))"
  unfolding commit_password_rotation_def Let_def
proof (rule refs_option [OF assms], rule refs_transaction [OF assms], rule refs_ok_step [OF assms], goal_cases)
  case (1 r)
  then show ?case by (simp add: step_simps)
next
  case (2 r)
  have r: "r \<in> set (tb_repositories tb)" "repo_ID r = i" using row_Some_in [OF 2(1)] by auto
  have within: "refs_within (keys tb) tb" using assms by (simp add: refs_ok_def)
  let ?new = "update_where (\<lambda>q. repo_ID q = i) (\<lambda>q. q\<lparr>rrow_PasswordSecretID := s, repo_UpdatedAt := now\<rparr>) (tb_repositories tb)"
  let ?v = "\<lparr>rvk_RepositoryID = i, rvk_KeyID = k, rvk_SecretID = old, rvk_CreatedAt = now\<rparr>"
  let ?K = "keys (tb\<lparr>tb_revocations := tb_revocations tb @ [?v], tb_repositories := ?new,
      tb_draft_items := update_where (\<lambda>d. pdi_RepositoryID d = i \<and> pdi_PasswordSecretID d = old)
        (\<lambda>d. d\<lparr>pdi_PasswordSecretID := s, pdi_UpdatedAt := now\<rparr>) (tb_draft_items tb)\<rparr>)"
  have K: "x \<in> keys tb \<Longrightarrow> x \<in> ?K" for x
    by (cases x, case_tac a) (simp_all add: update_where_image)
  have old: "rrow_PasswordSecretID r = old" "old \<noteq> []" and new: "s \<in> set (secret_ids tb)" using 2(2) by auto
  have "rows_ok (keys tb) repository_refs (tb_repositories tb)" using within by (simp add: refs_within_def)
  with r(1) have "set (repository_refs r) \<subseteq> keys tb" by (simp add: rows_ok_def)
  with old have "(Secrets, old) \<in> keys tb" unfolding repository_refs_def by simp
  moreover have "(Repositories, i) \<in> keys tb" using r by (metis image_eqI in_keys(3))
  ultimately have "set (revocation_refs ?v) \<subseteq> keys tb" by (simp add: revocation_refs_def)
  then have "set (revocation_refs ?v) \<subseteq> ?K" using K by blast
  moreover have "rows_ok ?K repository_refs ?new"
  proof (rule rows_ok_update)
    show "rows_ok ?K repository_refs (tb_repositories tb)" using 2(3) by (simp add: refs_within_def)
    fix q
    assume "set (repository_refs q) \<subseteq> ?K"
    moreover have "(Secrets, s) \<in> ?K" using new by (intro K) simp
    ultimately show "set (repository_refs (q\<lparr>rrow_PasswordSecretID := s, repo_UpdatedAt := now\<rparr>)) \<subseteq> ?K"
      unfolding repository_refs_def by (simp split: if_splits)
  qed
  ultimately show ?case using 2(3) by (simp add: refs_within_def)
qed

section \<open>Deletions\<close>

text \<open>Fewer rows, with the same references.\<close>

lemma secret_unreferenced:
  "\<not> secret_referenced tb i \<Longrightarrow> refs_within (- {(Secrets, i)}) tb"
  by (auto simp: secret_referenced_def avoid_simps list_ex_iff)

lemma delete_secret_refs:
  assumes "refs_ok tb"
  shows "refs_ok (fst (delete_secret tb i))"
  unfolding delete_secret_def
proof (rule refs_transaction [OF assms], rule refs_ok_drop [where tb = tb and D = "{(Secrets, i)}"], goal_cases)
  case 1
  then show ?case using assms by (simp add: refs_ok_def refs_within_def)
next
  case 2
  then have "refs_within (- {(Secrets, i)}) tb" by (intro secret_unreferenced) simp
  then show ?case by (simp add: refs_within_def)
next
  case 3
  then show ?case by (intro keys_minus_rows) (simp add: set_delete_where)
qed

lemma complete_revocation_refs:
  assumes "refs_ok tb"
  shows "refs_ok (fst (complete_key_revocation tb i k))"
  unfolding complete_key_revocation_def Let_def
proof (rule refs_option [OF assms], rule refs_transaction [OF assms], goal_cases)
  case (1 v)
  let ?s = "rvk_SecretID v"
  let ?P = "\<lambda>v. rvk_RepositoryID v = i \<and> rvk_KeyID v = k"
  let ?revoked = "tb\<lparr>tb_revocations := delete_where ?P (tb_revocations tb)\<rparr>"
  have "refs_within (- {(Secrets, ?s)}) ?revoked"
    using 1(2) by (intro secret_unreferenced) simp
  moreover have "refs_within (keys tb) ?revoked" using assms by (simp add: refs_ok_def refs_within_def)
  moreover have "keys ?revoked - {(Secrets, ?s)} \<subseteq> keys (?revoked\<lparr>tb_secrets := delete_where (\<lambda>s. sec_ID s = ?s) (tb_secrets ?revoked)\<rparr>)"
    by (rule keys_minus_rows) (simp add: set_delete_where)
  then have "keys tb - {(Secrets, ?s)} \<subseteq> keys (?revoked\<lparr>tb_secrets := delete_where (\<lambda>s. sec_ID s = ?s) (tb_secrets ?revoked)\<rparr>)"
    by simp
  ultimately show ?case
    by (intro refs_ok_drop [where tb = tb and D = "{(Secrets, ?s)}"]) (simp_all add: refs_within_def)
qed

definition deleted_key :: "string \<Rightarrow> string \<Rightarrow> reference set" where
  "deleted_key kind i =
     (if kind = ''remote-hosts'' then {(Hosts, i)} else if kind = ''repositories'' then {(Repositories, i)}
      else if kind = ''database-connections'' then {(Connections, i)} else if kind = ''plans'' then {(Plans, i)} else {})"

lemma delete_rows_within: "refs_within K tb \<Longrightarrow> refs_within K (fst (delete_rows kind i v tb))"
  by (simp add: delete_rows_def Let_def refs_within_def)

lemma delete_rows_keys: "keys tb - deleted_key kind i \<subseteq> keys (fst (delete_rows kind i v tb))"
proof
  fix x
  assume x: "x \<in> keys tb - deleted_key kind i"
  obtain k j where [simp]: "x = (k, j)" by fastforce
  from x show "x \<in> keys (fst (delete_rows kind i v tb))"
    by (cases k) (auto simp: delete_rows_def Let_def deleted_key_def set_delete_where split: if_splits)
qed

lemma drop_plan_records_within: "refs_within K tb \<Longrightarrow> refs_within K (drop_plan_records i tb)"
  by (auto simp: drop_plan_records_def refs_within_def run_refs_def optional_ref_def intro!: rows_ok_update)

lemma detach_host_within: "refs_within K tb \<Longrightarrow> refs_within K (detach_host i tb)"
  by (simp add: detach_host_def refs_within_def rows_ok_update agent_refs_def)

lemma drop_repository_within: "refs_within K tb \<Longrightarrow> refs_within K (drop_repository_records i tb)"
  by (simp add: drop_repository_records_def refs_within_def)

lemma drop_template_within: "refs_within K tb \<Longrightarrow> refs_within K (drop_template_records i tb)"
  by (simp add: drop_template_records_def refs_within_def)

lemma drop_owned_within: "refs_within K tb \<Longrightarrow> refs_within K (drop_owned kind i tb)"
  by (simp add: drop_owned_def detach_host_within drop_repository_within drop_template_within drop_plan_records_within)

lemma drop_records_keys [simp]:
  "keys (drop_plan_records i tb) = keys tb" "keys (drop_repository_records i tb) = keys tb"
  "keys (drop_template_records i tb) = keys tb" "keys (detach_host i tb) = keys tb"
  by (simp_all add: drop_plan_records_def drop_repository_records_def drop_template_records_def)
     (simp add: detach_host_def keys_def update_where_image)

lemma drop_owned_keys [simp]: "keys (drop_owned kind i tb) = keys tb"
  by (simp add: drop_owned_def)

lemma avoids_update:
  "rows_ok (- D) f (update_where P g t) \<longleftrightarrow> (\<forall>r \<in> set t. \<forall>k i. (k, i) \<in> set (f (if P r then g r else r)) \<longrightarrow> (k, i) \<notin> D)"
  by (auto simp: rows_ok_def update_where_def)

lemma dependency_of_Nil [simp]: "dependency_of kind names = [] \<longleftrightarrow> names = []"
  by (simp add: dependency_of_def)

lemma task_names_Nil [simp]: "task_names P tb = [] \<longleftrightarrow> (\<forall>t \<in> set (tb_tasks tb). \<not> P t)"
proof -
  have "sort xs = [] \<longleftrightarrow> xs = []" for xs :: "string list" by (metis length_0_conv length_sort)
  then show ?thesis by (simp add: task_names_def filter_empty_conv)
qed

lemma drop_plan_records_avoids: "refs_within (- {(Plans, i)}) (drop_plan_records i tb)"
  by (auto simp: refs_within_def drop_plan_records_def avoids_update)
     (auto simp: avoid_simps set_delete_where owned_occurrence_def split: if_splits)

lemma drop_owned_avoids:
  assumes "resource_dependencies tb kind i = []"
  shows "refs_within (- deleted_key kind i) (drop_owned kind i tb)"
proof -
  have sort_Nil: "sort xs = [] \<longleftrightarrow> xs = []" for xs :: "string list" by (metis length_0_conv length_sort)
  have "kind \<in> {''remote-hosts'', ''repositories'', ''database-connections'', ''plans''} \<or> deleted_key kind i = {}"
    by (simp add: deleted_key_def)
  then consider "kind = ''remote-hosts''" | "kind = ''repositories''" | "kind = ''database-connections''" | "kind = ''plans''"
    | "deleted_key kind i = {}" by blast
  then show ?thesis
  proof cases
    case 1
    then have "\<forall>r \<in> set (tb_repositories tb). i \<noteq> [] \<longrightarrow> repo_RemoteHostID r \<noteq> i" "\<forall>t \<in> set (tb_tasks tb). \<not> rsync_destination i t"
      using assms by (auto simp: resource_dependencies_def sort_Nil filter_empty_conv)
    with 1 show ?thesis
      by (simp add: deleted_key_def drop_owned_def detach_host_def refs_within_def avoids_update)
         (auto simp: avoid_simps split: if_splits)
  next
    case 2
    then have "\<forall>t \<in> set (tb_tasks tb). i \<noteq> [] \<longrightarrow> task_RepositoryID t \<noteq> i"
      using assms by (auto simp: resource_dependencies_def)
    with 2 show ?thesis
      by (auto simp: deleted_key_def drop_owned_def drop_repository_records_def avoid_simps set_delete_where
          owned_occurrence_def split: if_splits)
  next
    case 3
    then have "\<forall>t \<in> set (tb_tasks tb). \<not> uses_connection i t"
      using assms by (auto simp: resource_dependencies_def)
    with 3 show ?thesis by (auto simp: deleted_key_def drop_owned_def avoid_simps split: if_splits)
  next
    case 4
    then show ?thesis by (simp add: deleted_key_def drop_owned_def drop_plan_records_avoids)
  next
    case 5
    then show ?thesis by (simp add: refs_within_def rows_ok_def)
  qed
qed

lemma drop_resource_refs:
  assumes "refs_ok tb" and "resource_dependencies tb kind i = []"
  shows "refs_ok (fst (delete_rows kind i v (drop_owned kind i tb)))"
proof (rule refs_ok_drop [where tb = tb and D = "deleted_key kind i"])
  show "refs_within (keys tb) (fst (delete_rows kind i v (drop_owned kind i tb)))"
    using assms(1) by (simp add: refs_ok_def delete_rows_within drop_owned_within)
  show "refs_within (- deleted_key kind i) (fst (delete_rows kind i v (drop_owned kind i tb)))"
    using assms(2) by (simp add: delete_rows_within drop_owned_avoids)
  show "keys tb - deleted_key kind i \<subseteq> keys (fst (delete_rows kind i v (drop_owned kind i tb)))"
    using delete_rows_keys [of "drop_owned kind i tb"] by simp
qed

lemma delete_with_secret_refs: "refs_ok tb \<Longrightarrow> refs_ok (fst (delete_with_secret kind tb i))"
  unfolding delete_with_secret_def
  by (split option.split, intro conjI impI allI, simp, split option.split, intro conjI impI allI, simp,
      simp only: fst_with_value, rule refs_transaction)
     (simp_all add: drop_resource_refs)

lemma drop_plan_refs:
  assumes "refs_ok tb"
  shows "refs_ok (drop_plan i tb)"
proof (rule refs_ok_drop [where tb = tb and D = "{(Plans, i)}"])
  show "refs_within (keys tb) (drop_plan i tb)"
    using drop_plan_records_within [of "keys tb" tb i] assms by (simp add: drop_plan_def refs_ok_def refs_within_def)
  show "refs_within (- {(Plans, i)}) (drop_plan i tb)"
    using drop_plan_records_avoids [of i tb] by (simp add: drop_plan_def refs_within_def)
  have "keys (drop_plan_records i tb) - {(Plans, i)} \<subseteq> keys (drop_plan i tb)"
    unfolding drop_plan_def by (rule keys_minus_rows) (simp add: drop_plan_records_def set_delete_where)
  then show "keys tb - {(Plans, i)} \<subseteq> keys (drop_plan i tb)" by simp
qed

lemma delete_plan_refs: "refs_ok tb \<Longrightarrow> refs_ok (fst (delete_plan tb i))"
  unfolding delete_plan_def by (rule refs_transaction) (simp_all add: drop_plan_refs)

lemma delete_agent_refs:
  assumes "refs_ok tb"
  shows "refs_ok (fst (delete_agent_versioned sha256 tb i v))"
  unfolding delete_agent_versioned_def
proof (rule refs_option [OF assms], rule refs_transaction [OF assms], rule refs_ok_drop [where tb = tb and D = "{(Agents, i)}"], goal_cases)
  case (1 a)
  then show ?case using assms by (simp add: refs_ok_def refs_within_def)
next
  case (2 a)
  have sort_Nil: "sort xs = [] \<longleftrightarrow> xs = []" for xs :: "string list" by (metis length_0_conv length_sort)
  have "\<forall>t \<in> set (tb_tasks tb). task_ExecutionTarget t \<noteq> \<lparr>target_Kind = Agent, target_AgentID = i\<rparr>"
    "\<forall>r \<in> set (tb_repositories tb). repo_Kind r = LocalRepository \<longrightarrow> repo_LocalTarget r \<noteq> \<lparr>target_Kind = Agent, target_AgentID = i\<rparr>"
    using 2(2) by (auto simp: agent_dependencies_def sort_Nil filter_empty_conv)
  then show ?case by (auto simp: avoid_simps set_delete_where split: if_splits)
next
  case (3 a)
  let ?rest = "tb\<lparr>tb_certificates := delete_where (\<lambda>c. cert_AgentID c = i) (tb_certificates tb),
      tb_filesystem := delete_where (\<lambda>q. rq_AgentID q = i) (tb_filesystem tb),
      tb_restores := delete_where (\<lambda>q. rq_AgentID q = i) (tb_restores tb),
      tb_leases := delete_where (\<lambda>l. lease_AgentID l = i) (tb_leases tb)\<rparr>"
  have "keys ?rest - {(Agents, i)} \<subseteq> keys (?rest\<lparr>tb_agents := delete_where (\<lambda>b. ag_ID b = i) (tb_agents tb)\<rparr>)"
    by (rule keys_minus_rows) (simp add: set_delete_where)
  then show ?case by simp
qed

section \<open>Deleting a task\<close>

lemma prune_occurrence_cases:
  assumes "prune_occurrence task is r = Some q"
  obtains "q = r" "length (filter (\<lambda>t. t \<noteq> task) (occ_TargetIDs r)) = length (occ_TargetIDs r)"
  | runs status finished where "q = r\<lparr>occ_TargetIDs := filter (\<lambda>t. t \<noteq> task) (occ_TargetIDs r), occ_RunIDs := runs,
      occ_Status := status, occ_FinishedAt := finished\<rparr>"
  using assms unfolding prune_occurrence_def Let_def
  by (split if_split_asm, blast, split if_split_asm, blast) blast

lemma prune_occurrence_refs: "prune_occurrence task is r = Some q \<Longrightarrow> occurrence_refs q = occurrence_refs r"
  by (erule prune_occurrence_cases) (simp_all add: occurrence_refs_def)

lemma in_map_filter: "x \<in> set (List.map_filter f xs) \<longleftrightarrow> (\<exists>y \<in> set xs. f y = Some x)"
  by (induction xs) (auto simp: List.map_filter_simps split: option.splits)

lemma prune_rows:
  "rows_ok K occurrence_refs t \<Longrightarrow>
     rows_ok K occurrence_refs (List.map_filter (\<lambda>r. if P r then prune_occurrence task is r else Some r) t)"
proof (unfold rows_ok_def, intro ballI)
  fix q
  assume rows: "\<forall>r \<in> set t. set (occurrence_refs r) \<subseteq> K"
    and "q \<in> set (List.map_filter (\<lambda>r. if P r then prune_occurrence task is r else Some r) t)"
  then obtain r where r: "r \<in> set t" "(if P r then prune_occurrence task is r else Some r) = Some q"
    by (auto simp: in_map_filter)
  then have "occurrence_refs q = occurrence_refs r"
    by (cases "P r") (simp_all add: prune_occurrence_refs)
  with rows r(1) show "set (occurrence_refs q) \<subseteq> K" by simp
qed

lemma prune_plan_within: "refs_within K tb \<Longrightarrow> refs_within K (prune_plan_occurrences task plan tb)"
  by (simp add: prune_plan_occurrences_def Let_def refs_within_def prune_rows)

lemma prune_plan_keys [simp]: "keys (prune_plan_occurrences task plan tb) = keys tb"
  by (simp add: prune_plan_occurrences_def Let_def)

lemma leave_plan_refs:
  assumes "refs_ok tb"
  shows "refs_ok (leave_plan task plan tb)"
proof -
  let ?pruned = "prune_plan_occurrences task plan tb"
  let ?left = "?pruned\<lparr>tb_plan_tasks := delete_where (\<lambda>r. pt_PlanID r = plan \<and> pt_TaskID r = task) (tb_plan_tasks ?pruned)\<rparr>"
  have "refs_within (keys tb) ?pruned"
    using assms by (simp add: refs_ok_def prune_plan_within)
  then have "refs_ok ?left" by (simp add: refs_ok_def refs_within_def)
  then show ?thesis by (simp add: leave_plan_def Let_def drop_plan_refs)
qed

lemma leave_plans_refs: "refs_ok tb \<Longrightarrow> refs_ok (leave_plans task tb)"
  unfolding leave_plans_def
  by (rule fold_invariant [where Q = "\<lambda>_. True"]) (simp_all add: leave_plan_refs)

lemma close_draft_refs: "refs_ok tb \<Longrightarrow> refs_ok (close_draft d tb)"
  by (simp add: close_draft_def Let_def drop_plan_refs split: prod.split)

lemma leave_drafts_refs: "refs_ok tb \<Longrightarrow> refs_ok (leave_drafts task tb)"
  unfolding leave_drafts_def Let_def
  by (rule fold_invariant [where Q = "\<lambda>_. True"]) (simp_all add: close_draft_refs)

lemma drop_task_records_keys [simp]: "keys (drop_task_records i tb) = keys tb"
  by (simp add: drop_task_records_def Let_def)

lemma drop_task_records_within: "refs_within K tb \<Longrightarrow> refs_within K (drop_task_records i tb)"
  by (simp add: drop_task_records_def Let_def refs_within_def)

lemma drop_task_owned_refs: "refs_ok tb \<Longrightarrow> refs_ok (drop_task_owned task tb)"
  using leave_drafts_refs [OF leave_plans_refs, of tb task task]
  by (simp add: drop_task_owned_def refs_ok_def drop_task_records_within)

text \<open>No plan lists the task any more.\<close>

lemma drop_plan_tables [simp]:
  "tb_plan_tasks (drop_plan i tb) = delete_where (\<lambda>r. pt_PlanID r = i) (tb_plan_tasks tb)"
  "tb_tasks (drop_plan i tb) = tb_tasks tb" "tb_draft_items (drop_plan i tb) = tb_draft_items tb"
  by (simp_all add: drop_plan_def drop_plan_records_def)

lemma leave_plan_tables [simp]:
  "tb_tasks (leave_plan task plan tb) = tb_tasks tb" "tb_draft_items (leave_plan task plan tb) = tb_draft_items tb"
  by (simp_all add: leave_plan_def Let_def prune_plan_occurrences_def)

lemma leave_plan_rows:
  "r \<in> set (tb_plan_tasks (leave_plan task plan tb)) \<Longrightarrow> r \<in> set (tb_plan_tasks tb) \<and> \<not> (pt_PlanID r = plan \<and> pt_TaskID r = task)"
  by (auto simp: leave_plan_def Let_def prune_plan_occurrences_def set_delete_where split: if_splits)

lemma leave_plan_fold:
  "r \<in> set (tb_plan_tasks (fold (leave_plan task) plans tb)) \<Longrightarrow>
     r \<in> set (tb_plan_tasks tb) \<and> \<not> (pt_PlanID r \<in> set plans \<and> pt_TaskID r = task)"
  by (induction plans arbitrary: tb) (auto dest: leave_plan_rows)

lemma leave_plans_rows:
  assumes "r \<in> set (tb_plan_tasks (leave_plans task tb))"
  shows "r \<in> set (tb_plan_tasks tb)" and "pt_TaskID r \<noteq> task"
proof -
  have r: "r \<in> set (tb_plan_tasks tb) \<and> \<not> (pt_PlanID r \<in> set (plans_of_task tb task) \<and> pt_TaskID r = task)"
    using assms unfolding leave_plans_def by (rule leave_plan_fold)
  then show "r \<in> set (tb_plan_tasks tb)" by simp
  from r show "pt_TaskID r \<noteq> task" by (auto simp: plans_of_task_def)
qed

lemma close_draft_tables [simp]:
  "tb_tasks (close_draft d tb) = tb_tasks tb" "tb_draft_items (close_draft d tb) = tb_draft_items tb"
  "set (tb_plan_tasks (close_draft d tb)) \<subseteq> set (tb_plan_tasks tb)"
  by (auto simp: close_draft_def Let_def set_delete_where split: prod.split)

lemma close_drafts_tables:
  "tb_tasks (fold close_draft ds tb) = tb_tasks tb \<and> tb_draft_items (fold close_draft ds tb) = tb_draft_items tb \<and>
   set (tb_plan_tasks (fold close_draft ds tb)) \<subseteq> set (tb_plan_tasks tb)"
proof (induction ds arbitrary: tb)
  case (Cons d ds)
  show ?case using Cons.IH [of "close_draft d tb"] close_draft_tables [of d tb] by (auto simp: subset_iff)
qed simp

lemma leave_plans_tables [simp]:
  "tb_tasks (leave_plans task tb) = tb_tasks tb" "tb_draft_items (leave_plans task tb) = tb_draft_items tb"
  unfolding leave_plans_def by (rule fold_invariant [where Q = "\<lambda>_. True"]; simp)+

lemma drop_task_owned_tasks [simp]: "tb_tasks (drop_task_owned task tb) = tb_tasks tb"
  by (simp add: drop_task_owned_def drop_task_records_def leave_drafts_def Let_def close_drafts_tables)

lemma drop_task_plan_rows:
  assumes "r \<in> set (tb_plan_tasks (drop_task_owned task tb))"
  shows "r \<in> set (tb_plan_tasks tb) \<and> pt_TaskID r \<noteq> task"
proof -
  have "r \<in> set (tb_plan_tasks (leave_plans task tb))"
    using assms close_drafts_tables by (fastforce simp: drop_task_owned_def drop_task_records_def leave_drafts_def Let_def)
  then show ?thesis using leave_plans_rows by blast
qed

lemma drop_task_owned_avoids: "refs_within (- {(Tasks, task)}) (drop_task_owned task tb)"
proof -
  have "\<forall>r \<in> set (tb_plan_tasks (drop_task_owned task tb)). pt_TaskID r \<noteq> task"
    using drop_task_plan_rows by blast
  then show ?thesis
    by (auto simp: avoid_simps drop_task_owned_def drop_task_records_def Let_def set_delete_where owned_occurrence_def split: if_splits)
qed

lemma drop_task_refs:
  assumes "refs_ok tb" and "\<And>t. P t \<Longrightarrow> task_ID t = i"
  shows "refs_ok ((drop_task_owned i tb)\<lparr>tb_tasks := delete_where P (tb_tasks tb)\<rparr>)"
proof (rule refs_ok_drop [where tb = "drop_task_owned i tb" and D = "{(Tasks, i)}"])
  show "refs_within (keys (drop_task_owned i tb)) ((drop_task_owned i tb)\<lparr>tb_tasks := delete_where P (tb_tasks tb)\<rparr>)"
    using drop_task_owned_refs [OF assms(1), of i] by (simp add: refs_ok_def refs_within_def)
  show "refs_within (- {(Tasks, i)}) ((drop_task_owned i tb)\<lparr>tb_tasks := delete_where P (tb_tasks tb)\<rparr>)"
    using drop_task_owned_avoids [of i tb] by (simp add: refs_within_def)
  show "keys (drop_task_owned i tb) - {(Tasks, i)} \<subseteq> keys ((drop_task_owned i tb)\<lparr>tb_tasks := delete_where P (tb_tasks tb)\<rparr>)"
    using assms(2) by (intro keys_minus_rows) (auto simp: set_delete_where)
qed

lemma delete_task_refs: "refs_ok tb \<Longrightarrow> refs_ok (fst (delete_task tb i))"
  unfolding delete_task_def Let_def
  by (rule refs_transaction, assumption, simp only: drop_task_owned_tasks, rule drop_task_refs) simp_all

lemma delete_task_versioned_refs: "refs_ok tb \<Longrightarrow> refs_ok (fst (delete_task_versioned tb i v))"
  unfolding delete_task_versioned_def Let_def
  by (rule refs_transaction, assumption, simp only: drop_task_owned_tasks, rule drop_task_refs) simp_all

lemma delete_resource_refs: "refs_ok tb \<Longrightarrow> refs_ok (fst (delete_resource_versioned sha256 tb kind i v))"
  by (auto simp: delete_resource_versioned_def delete_agent_refs delete_task_versioned_refs
      split: option.split prod.split intro!: refs_transaction)
     (metis drop_resource_refs fst_conv)+

end
