(* ===== verification/Resource_Integrity.thy ===== *)
theory Resource_Integrity
  imports Resource_References
begin

text \<open>
  The control plane's tables under every operation of the store that is modelled: the resources
  (\<open>Resource_Store\<close>, \<open>Resource_Policies\<close>, \<open>Resource_Deletion\<close>) and, through views onto their tables,
  the capacities, the schedule occurrences, the operations, the agents and their work, the runs and
  the restore verifications. Identifiers stay unique and no reference ever dangles.
\<close>

section \<open>Operations on the resources\<close>

record store_env =
  env_sha256 :: "string \<Rightarrow> string"
  env_connection :: "operation \<Rightarrow> string"
  env_render :: "stamp \<Rightarrow> string"
  env_expiry :: "string \<Rightarrow> string \<Rightarrow> string"
  env_zones :: zones
  env_schedule_json :: "schedule \<Rightarrow> string"
  env_token :: "string \<Rightarrow> string"

datatype resource_op =
    SaveSecret string string string instant
  | DeleteSecret string
  | CreateHost remote_host string
  | UpdateHost remote_host string
  | DeleteHost string
  | CreateRepository repository string instant
  | UpdateRepository repository string
  | DeleteRepository string
  | SetRepositoryStatus string string instant
  | CreateConnection database_connection string
  | UpdateConnection database_connection string
  | DeleteConnection string
  | ExpireConnections instant
  | CreateTask task instant
  | UpdateTask task
  | DeleteTask string
  | CreatePlan plan
  | UpdatePlan plan
  | DeletePlan string
  | DeleteResource string string string
  | SaveMaintenance maintenance_policy
  | PreviewMaintenance maintenance_preview
  | ConsumeMaintenance string string retention_policy instant
  | PreviewScope scope_preview
  | ConsumeScope string string string string bool instant
  | SaveSnapshot string string snapshot_metadata instant
  | CommitRotation string string string string instant
  | CompleteRevocation string string
  | CreateTemplate protection_template
  | CreateDraft protection_draft "draft_item list"
  | SetDraftStatus string string instant
  | SetDraftItem draft_item
  | RecoverDrafts instant

definition as_check :: "'s \<times> 'v outcome \<Rightarrow> 's \<times> check" where
  "as_check r = (fst r, failure (snd r))"

fun resource_step :: "store_env \<Rightarrow> tables \<Rightarrow> resource_op \<Rightarrow> tables \<times> check" where
  "resource_step env tb (SaveSecret i p c t) = save_secret tb i p c t"
| "resource_step env tb (DeleteSecret i) = delete_secret tb i"
| "resource_step env tb (CreateHost h s) = create_remote_host tb h s"
| "resource_step env tb (UpdateHost h s) = as_check (update_remote_host tb h s)"
| "resource_step env tb (DeleteHost i) = as_check (delete_remote_host tb i)"
| "resource_step env tb (CreateRepository r p t) = create_repository tb r p t"
| "resource_step env tb (UpdateRepository r s) = as_check (update_repository tb r s)"
| "resource_step env tb (DeleteRepository i) = as_check (delete_repository tb i)"
| "resource_step env tb (SetRepositoryStatus i s t) = (update_repository_status tb i s t, None)"
| "resource_step env tb (CreateConnection c s) = create_database_connection tb c s"
| "resource_step env tb (UpdateConnection c s) = as_check (update_database_connection tb c s)"
| "resource_step env tb (DeleteConnection i) = as_check (delete_database_connection tb i)"
| "resource_step env tb (ExpireConnections t) = (fst (delete_expired_temporary_connections (env_connection env) tb t), None)"
| "resource_step env tb (CreateTask t now) = create_task tb t now"
| "resource_step env tb (UpdateTask t) = update_task tb t"
| "resource_step env tb (DeleteTask i) = delete_task tb i"
| "resource_step env tb (CreatePlan p) = create_plan tb p"
| "resource_step env tb (UpdatePlan p) = update_plan tb p"
| "resource_step env tb (DeletePlan i) = delete_plan tb i"
| "resource_step env tb (DeleteResource k i v) = as_check (delete_resource_versioned (env_sha256 env) tb k i v)"
| "resource_step env tb (SaveMaintenance p) = save_maintenance_policy tb p"
| "resource_step env tb (PreviewMaintenance p) = create_maintenance_preview tb p"
| "resource_step env tb (ConsumeMaintenance i r p t) = as_check (consume_maintenance_preview tb i r p t)"
| "resource_step env tb (PreviewScope p) = create_scope_preview tb p"
| "resource_step env tb (ConsumeScope i t f a d now) = as_check (consume_scope_preview tb i t f a d now)"
| "resource_step env tb (SaveSnapshot r s m t) = save_snapshot_metadata tb r s m t"
| "resource_step env tb (CommitRotation i s k old t) = commit_password_rotation tb i s k old t"
| "resource_step env tb (CompleteRevocation i k) = complete_key_revocation tb i k"
| "resource_step env tb (CreateTemplate p) = create_protection_template tb p"
| "resource_step env tb (CreateDraft d is) = create_protection_draft tb d is"
| "resource_step env tb (SetDraftStatus i s t) = update_draft_status tb i s t"
| "resource_step env tb (SetDraftItem d) = update_draft_item tb d"
| "resource_step env tb (RecoverDrafts t) = (fst (recover_interrupted_drafts tb t), None)"

lemma fst_as_check [simp]: "fst (as_check r) = fst r"
  by (simp add: as_check_def)

lemma resource_step_refs: "refs_ok tb \<Longrightarrow> refs_ok (fst (resource_step env tb op))"
  by (cases op)
     (simp_all add: save_secret_refs delete_secret_refs create_host_refs update_host_refs create_repository_refs
        update_repository_refs repository_status_refs create_connection_refs update_connection_refs expire_connections_refs
        create_task_refs update_task_refs delete_task_refs create_plan_refs update_plan_refs delete_plan_refs
        delete_resource_refs maintenance_refs maintenance_preview_refs consume_maintenance_refs scope_preview_refs
        consume_scope_refs snapshot_refs rotation_refs complete_revocation_refs template_refs draft_refs draft_status_refs
        draft_item_refs recover_drafts_refs delete_remote_host_def delete_repository_def delete_database_connection_def
        delete_with_secret_refs)

section \<open>Unique identifiers\<close>

definition ids_unique :: "tables \<Rightarrow> bool" where
  "ids_unique tb \<longleftrightarrow> unique_keys sec_ID (tb_secrets tb) \<and> unique_keys host_ID (tb_hosts tb) \<and>
     unique_keys repo_ID (tb_repositories tb) \<and> unique_keys conn_ID (tb_connections tb) \<and> unique_keys task_ID (tb_tasks tb) \<and>
     unique_keys plan_ID (tb_plans tb) \<and> unique_keys ag_ID (tb_agents tb) \<and> unique_keys ptm_ID (tb_templates tb)"

lemma unique_update:
  assumes "\<And>r. P r \<Longrightarrow> key (g r) = key r"
  shows "unique_keys key (update_where P g t) = unique_keys key t"
proof -
  have "map key (update_where P g t) = map key t" using assms by (simp add: update_where_def)
  then show ?thesis by (simp add: unique_keys_def)
qed

lemma transaction_ids:
  "ids_unique tb \<Longrightarrow> (\<forall>c \<in> set checks. c = None \<Longrightarrow> ids_unique committed) \<Longrightarrow> ids_unique (fst (transaction tb checks committed))"
  by (auto simp: transaction_def first_error_None [symmetric] split: option.split)

lemma option_ids:
  "ids_unique tb \<Longrightarrow> (\<And>r. x = Some r \<Longrightarrow> ids_unique (fst (g r))) \<Longrightarrow>
     ids_unique (fst (case x of None \<Rightarrow> (tb, a) | Some r \<Rightarrow> g r))"
  by (simp split: option.split)

lemmas ids_simps = ids_unique_def unique_update unique_snoc unique_delete_where list_ex_iff image_iff

lemma create_host_ids: "ids_unique tb \<Longrightarrow> ids_unique (fst (create_remote_host tb h s))"
  unfolding create_remote_host_def Let_def by (rule transaction_ids) (auto simp: ids_simps)

lemma create_connection_ids: "ids_unique tb \<Longrightarrow> ids_unique (fst (create_database_connection tb c s))"
  unfolding create_database_connection_def Let_def by (rule transaction_ids) (auto simp: ids_simps)

lemma create_plan_ids: "ids_unique tb \<Longrightarrow> ids_unique (fst (create_plan tb p))"
  unfolding create_plan_def Let_def by (rule transaction_ids) (auto simp: ids_simps)

lemma delete_secret_ids: "ids_unique tb \<Longrightarrow> ids_unique (fst (delete_secret tb i))"
  unfolding delete_secret_def Let_def by (rule transaction_ids) (auto simp: ids_simps)

lemma maintenance_ids: "ids_unique tb \<Longrightarrow> ids_unique (fst (save_maintenance_policy tb p))"
  unfolding save_maintenance_policy_def Let_def by (rule transaction_ids) (auto simp: ids_simps)

lemma maintenance_preview_ids: "ids_unique tb \<Longrightarrow> ids_unique (fst (create_maintenance_preview tb p))"
  unfolding create_maintenance_preview_def Let_def by (rule transaction_ids) (auto simp: ids_simps)

lemma scope_preview_ids: "ids_unique tb \<Longrightarrow> ids_unique (fst (create_scope_preview tb p))"
  unfolding create_scope_preview_def Let_def by (rule transaction_ids) (auto simp: ids_simps)

lemma snapshot_ids: "ids_unique tb \<Longrightarrow> ids_unique (fst (save_snapshot_metadata tb r s m t))"
  unfolding save_snapshot_metadata_def Let_def by (rule transaction_ids) (auto simp: ids_simps)

lemma template_ids: "ids_unique tb \<Longrightarrow> ids_unique (fst (create_protection_template tb p))"
  unfolding create_protection_template_def Let_def by (rule transaction_ids) (auto simp: ids_simps)

lemma draft_ids: "ids_unique tb \<Longrightarrow> ids_unique (fst (create_protection_draft tb d xs))"
  unfolding create_protection_draft_def Let_def by (rule transaction_ids) (auto simp: ids_simps)

lemma draft_status_ids: "ids_unique tb \<Longrightarrow> ids_unique (fst (update_draft_status tb i s t))"
  unfolding update_draft_status_def Let_def by (rule transaction_ids) (auto simp: ids_simps)

lemma draft_item_ids: "ids_unique tb \<Longrightarrow> ids_unique (fst (update_draft_item tb d))"
  unfolding update_draft_item_def Let_def by (rule transaction_ids) (auto simp: ids_simps)

lemma update_host_ids: "ids_unique tb \<Longrightarrow> ids_unique (fst (update_remote_host tb h s))"
  unfolding update_remote_host_def Let_def by (rule option_ids, assumption, simp only: fst_with_value, rule transaction_ids) (auto simp: ids_simps)

lemma update_connection_ids: "ids_unique tb \<Longrightarrow> ids_unique (fst (update_database_connection tb c s))"
  unfolding update_database_connection_def Let_def by (rule option_ids, assumption, simp only: fst_with_value, rule transaction_ids) (auto simp: ids_simps)

lemma update_task_ids: "ids_unique tb \<Longrightarrow> ids_unique (fst (update_task tb t))"
  unfolding update_task_def Let_def by (rule option_ids, assumption, rule transaction_ids) (auto simp: ids_simps)

lemma update_plan_ids: "ids_unique tb \<Longrightarrow> ids_unique (fst (update_plan tb p))"
  unfolding update_plan_def Let_def by (rule option_ids, assumption, rule transaction_ids) (auto simp: ids_simps)

lemma consume_maintenance_ids: "ids_unique tb \<Longrightarrow> ids_unique (fst (consume_maintenance_preview tb i r p now))"
  unfolding consume_maintenance_preview_def Let_def by (rule option_ids, assumption, simp only: fst_with_value, rule transaction_ids) (auto simp: ids_simps)

lemma rotation_ids: "ids_unique tb \<Longrightarrow> ids_unique (fst (commit_password_rotation tb i s k old now))"
  unfolding commit_password_rotation_def Let_def by (rule option_ids, assumption, rule transaction_ids) (auto simp: ids_simps)

lemma save_secret_ids: "ids_unique tb \<Longrightarrow> ids_unique (fst (save_secret tb i p c t))"
  by (auto simp: save_secret_def ids_simps insert_row_def split: option.split)

lemma create_repository_ids: "ids_unique tb \<Longrightarrow> ids_unique (fst (create_repository tb r p now))"
  unfolding create_repository_def Let_def
  by (cases "insert_default_capacity_policy (capacity_view tb) (repo_ID r)
        (if repo_CreatedAt r = zero_time then now else repo_CreatedAt r) (effective_kind r \<noteq> S3Repository)";
      simp only: prod.case; rule transaction_ids)
     (auto simp: ids_simps put_capacity_def repositories_clash_def)

lemma replace_repository_ids: "ids_unique tb \<Longrightarrow> ids_unique (fst (replace_repository tb old r s))"
  unfolding replace_repository_def Let_def by (rule transaction_ids) (auto simp: ids_simps)

lemma update_repository_ids: "ids_unique tb \<Longrightarrow> ids_unique (fst (update_repository tb r s))"
  by (simp add: update_repository_def Let_def replace_repository_ids split: option.split)

lemma repository_status_ids: "ids_unique tb \<Longrightarrow> ids_unique (update_repository_status tb i s now)"
  by (simp add: update_repository_status_def ids_simps)

lemma expire_connections_ids: "ids_unique tb \<Longrightarrow> ids_unique (fst (delete_expired_temporary_connections f tb t))"
  by (simp add: delete_expired_temporary_connections_def Let_def ids_simps)

lemma create_task_ids: "ids_unique tb \<Longrightarrow> ids_unique (fst (create_task tb t now))"
  unfolding create_task_def Let_def
  by (rule transaction_ids) (auto simp: ids_simps ensure_repository_retention_def Let_def)

lemma consume_scope_ids: "ids_unique tb \<Longrightarrow> ids_unique (fst (consume_scope_preview tb i t f a d now))"
  unfolding consume_scope_preview_def Let_def
  by (cases "blank a", simp, simp only: if_False, rule option_ids, assumption, simp only: fst_with_value, rule transaction_ids)
     (auto simp: ids_simps)

lemma complete_revocation_ids: "ids_unique tb \<Longrightarrow> ids_unique (fst (complete_key_revocation tb i k))"
  unfolding complete_key_revocation_def Let_def by (rule option_ids, assumption, rule transaction_ids) (auto simp: ids_simps)

lemma recover_drafts_ids: "ids_unique tb \<Longrightarrow> ids_unique (fst (recover_interrupted_drafts tb now))"
  by (simp add: recover_interrupted_drafts_def Let_def ids_simps)

lemma drop_plan_ids: "ids_unique tb \<Longrightarrow> ids_unique (drop_plan i tb)"
  by (simp add: drop_plan_def drop_plan_records_def ids_simps)

lemma drop_owned_ids: "ids_unique tb \<Longrightarrow> ids_unique (drop_owned kind i tb)"
  by (simp add: drop_owned_def detach_host_def drop_repository_records_def drop_plan_records_def drop_template_records_def ids_simps)

lemma delete_rows_ids: "ids_unique tb \<Longrightarrow> ids_unique (fst (delete_rows kind i v tb))"
  by (simp add: delete_rows_def Let_def ids_simps)

lemma leave_plan_ids: "ids_unique tb \<Longrightarrow> ids_unique (leave_plan task plan tb)"
  using drop_plan_ids by (auto simp: leave_plan_def Let_def prune_plan_occurrences_def ids_unique_def)

lemma leave_plans_ids: "ids_unique tb \<Longrightarrow> ids_unique (leave_plans task tb)"
  unfolding leave_plans_def by (rule fold_invariant [where Q = "\<lambda>_. True"]) (simp_all add: leave_plan_ids)

lemma close_draft_ids: "ids_unique tb \<Longrightarrow> ids_unique (close_draft d tb)"
  using drop_plan_ids by (auto simp: close_draft_def Let_def ids_unique_def split: prod.split)

lemma leave_drafts_ids: "ids_unique tb \<Longrightarrow> ids_unique (leave_drafts task tb)"
  unfolding leave_drafts_def Let_def
  by (rule fold_invariant [where Q = "\<lambda>_. True"]) (simp_all add: close_draft_ids, simp add: ids_unique_def)

lemma drop_task_owned_ids: "ids_unique tb \<Longrightarrow> ids_unique (drop_task_owned task tb)"
  using leave_drafts_ids [OF leave_plans_ids, of tb task task] by (simp add: drop_task_owned_def drop_task_records_def Let_def ids_unique_def)

lemma drop_task_ids: "ids_unique tb \<Longrightarrow> ids_unique ((drop_task_owned i tb)\<lparr>tb_tasks := delete_where P (tb_tasks tb)\<rparr>)"
  using drop_task_owned_ids [of tb i] by (simp add: ids_unique_def unique_delete_where)

lemma delete_task_ids: "ids_unique tb \<Longrightarrow> ids_unique (fst (delete_task tb i))"
  unfolding delete_task_def Let_def by (rule transaction_ids) (simp_all add: drop_task_ids)

lemma delete_task_versioned_ids: "ids_unique tb \<Longrightarrow> ids_unique (fst (delete_task_versioned tb i v))"
  unfolding delete_task_versioned_def Let_def by (rule transaction_ids) (simp_all add: drop_task_ids)

lemma delete_agent_ids: "ids_unique tb \<Longrightarrow> ids_unique (fst (delete_agent_versioned sha256 tb i v))"
  unfolding delete_agent_versioned_def by (rule option_ids, assumption, rule transaction_ids) (auto simp: ids_simps)

lemma delete_plan_ids: "ids_unique tb \<Longrightarrow> ids_unique (fst (delete_plan tb i))"
  unfolding delete_plan_def by (rule transaction_ids) (simp_all add: drop_plan_ids)

lemma delete_with_secret_ids: "ids_unique tb \<Longrightarrow> ids_unique (fst (delete_with_secret kind tb i))"
  by (auto simp: delete_with_secret_def delete_rows_ids drop_owned_ids intro!: transaction_ids split: option.split)

lemma delete_resource_ids: "ids_unique tb \<Longrightarrow> ids_unique (fst (delete_resource_versioned sha256 tb kind i v))"
  by (auto simp: delete_resource_versioned_def delete_agent_ids delete_task_versioned_ids
      split: option.split prod.split intro!: transaction_ids)
     (metis delete_rows_ids drop_owned_ids fst_conv)+

lemma resource_step_ids: "ids_unique tb \<Longrightarrow> ids_unique (fst (resource_step env tb op))"
  by (cases op)
     (simp_all add: save_secret_ids delete_secret_ids create_host_ids update_host_ids create_repository_ids
        update_repository_ids repository_status_ids create_connection_ids update_connection_ids expire_connections_ids
        create_task_ids update_task_ids delete_task_ids create_plan_ids update_plan_ids delete_plan_ids
        delete_resource_ids maintenance_ids maintenance_preview_ids consume_maintenance_ids scope_preview_ids
        consume_scope_ids snapshot_ids rotation_ids complete_revocation_ids template_ids draft_ids draft_status_ids
        draft_item_ids recover_drafts_ids delete_remote_host_def delete_repository_def delete_database_connection_def
        delete_with_secret_ids)

end
