(* ===== verification/Deletion_Laws.thy ===== *)
theory Deletion_Laws
  imports Resource_Integrity
begin

text \<open>
  What a deletion promises: it succeeds exactly when its preview says so, it changes nothing when it
  is refused, and after the deletion of a task nothing is left that mentions the task, while every
  other task, and every plan with another task, stays.
\<close>

section \<open>Refused operations\<close>

lemma snd_transaction_None: "snd (transaction tb checks committed) = None \<longleftrightarrow> (\<forall>c \<in> set checks. c = None)"
  using first_error_None [of checks] by (cases "first_error checks") (simp_all add: transaction_def)

lemma fst_transaction_refused: "snd (transaction tb checks committed) \<noteq> None \<Longrightarrow> fst (transaction tb checks committed) = tb"
  by (cases "first_error checks") (simp_all add: transaction_def)

lemma transaction_done: "snd (transaction tb checks committed) = None \<Longrightarrow> fst (transaction tb checks committed) = committed"
  by (cases "first_error checks") (simp_all add: transaction_def)

lemma snd_with_value: "snd (with_value r v) = Inr w \<longleftrightarrow> snd r = None \<and> w = v"
  by (auto simp: with_value_def split: option.split)

lemma snd_as_check_with_value: "snd (as_check (with_value r v)) = snd r"
  by (simp add: as_check_def with_value_def failure_def split: option.split)

text \<open>An operation that keeps the tables when it answers an error.\<close>

definition atomic :: "'s \<Rightarrow> 's \<times> check \<Rightarrow> bool" where
  "atomic tb r \<longleftrightarrow> snd r \<noteq> None \<longrightarrow> fst r = tb"

lemma atomic_transaction [simp, intro]: "atomic tb (transaction tb checks committed)"
  by (simp add: atomic_def fst_transaction_refused)

lemma atomic_same [simp]: "atomic tb (tb, c)"
  by (simp add: atomic_def)

lemma atomic_done [simp]: "atomic tb (tb', None)"
  by (simp add: atomic_def)

lemma atomic_with_value [simp]: "atomic tb (as_check (with_value r v)) = atomic tb r"
  by (simp add: atomic_def snd_as_check_with_value)

lemma atomic_failed [simp]: "atomic tb (as_check (tb, c))"
  by (simp add: atomic_def)

lemma atomic_option [intro]:
  "atomic tb d \<Longrightarrow> (\<And>r. x = Some r \<Longrightarrow> atomic tb (g r)) \<Longrightarrow> atomic tb (case x of None \<Rightarrow> d | Some r \<Rightarrow> g r)"
  by (simp split: option.split)








section \<open>Previews\<close>

text \<open>A state with a plan of two tasks, one of them disabled.\<close>

definition disabled_task :: task where
  "disabled_task = \<lparr>task_ID = ''t1'', task_Name = ''home'', task_Engine = ResticEngine, task_Kind = ''directory'',
     task_ExecutionTarget = \<lparr>target_Kind = Local, target_AgentID = []\<rparr>, task_RepositoryID = [], task_Directory = None, task_Database = None,
     task_Rsync = None, task_Retention = no_retention, task_Resources = no_resources, task_MaxSuccessAgeHours = 24,
     task_ScopeConfirmation = \<lparr>scope_PreviewID = [], scope_Fingerprint = [], scope_ConfirmedBy = [],
       scope_ConfirmedAt = zero_time, scope_Summary = [], scope_DeleteConfirmed = False\<rparr>,
     task_Enabled = False, task_CreatedAt = 0, task_UpdatedAt = 0\<rparr>"

definition tables_example :: tables where
  "tables_example = no_tables\<lparr>
     tb_tasks := [disabled_task, disabled_task\<lparr>task_ID := ''t2'', task_Name := ''mail'', task_Enabled := True\<rparr>],
     tb_plans := [(probe_plan ''nightly'' nightly ''UTC'' ''t1'' 0)\<lparr>plan_ID := ''p1'', plan_TaskIDs := []\<rparr>],
     tb_plan_tasks := [\<lparr>pt_PlanID = ''p1'', pt_TaskID = ''t1'', pt_Position = 0\<rparr>,
                       \<lparr>pt_PlanID = ''p1'', pt_TaskID = ''t2'', pt_Position = 1\<rparr>],
     tb_runs := [run_example]\<rparr>"

lemma epoch_text: "stored_text 0 = ''1970-01-01T00:00:00Z''"
  by code_simp

lemma tables_example_ids: "ids_unique tables_example"
  by (simp add: ids_unique_def tables_example_def no_tables_def disabled_task_def unique_Cons)

lemma disabled_task_deletable:
  "task_delete_preview tables_example ''t1'' = Inr \<lparr>prv_ResourceType = ''tasks'', prv_ID = ''t1'', prv_Name = ''home'',
     prv_UpdatedAt = ''1970-01-01T00:00:00Z'', prv_Dependencies = [], prv_Deletable = True, prv_BlockedReason = []\<rparr>"
  by (simp add: task_delete_preview_def tables_example_def no_tables_def disabled_task_def row_def task_active_work_def
      run_example_def active_status_def epoch_text)

lemma deleted_once:
  assumes "unique_keys key t" and "row key i t = Some r"
  shows "affected (\<lambda>s. key s = i \<and> Q s) t = Suc 0 \<longleftrightarrow> Q r"
proof -
  have r: "r \<in> set t" "key r = i" using row_Some_in [OF assms(2)] by auto
  have "affected (\<lambda>s. key s = i \<and> Q s) t = 1 \<longleftrightarrow> (\<exists>s \<in> set t. key s = i \<and> Q s)"
    by (rule affected_iff [OF assms(1)]) simp
  also have "\<dots> \<longleftrightarrow> Q r"
    using r unique_keys_eq [OF assms(1)] by metis
  finally show ?thesis by simp
qed

lemma drop_owned_tables [simp]:
  "tb_hosts (drop_owned kind i tb) = tb_hosts tb" "tb_repositories (drop_owned kind i tb) = tb_repositories tb"
  "tb_connections (drop_owned kind i tb) = tb_connections tb" "tb_plans (drop_owned kind i tb) = tb_plans tb"
  "tb_templates (drop_owned kind i tb) = tb_templates tb"
  by (simp_all add: drop_owned_def detach_host_def drop_repository_records_def drop_plan_records_def drop_template_records_def)

lemma delete_rows_affected:
  assumes "ids_unique tb" and "resource_header tb kind i = Some (Some (name, updated))"
  shows "snd (delete_rows kind i (\<lambda>t. stored_text t = v) (drop_owned kind i tb)) = Suc 0 \<longleftrightarrow> updated = v"
  using assms
  by (auto simp: resource_header_def delete_rows_def Let_def ids_unique_def split: if_splits)
     (simp_all add: deleted_once)

lemma deleted_agent: "ids_unique tb \<Longrightarrow> row ag_ID i (tb_agents tb) = Some a \<Longrightarrow> affected (\<lambda>b. ag_ID b = i) (tb_agents tb) = Suc 0"
  using deleted_once [of ag_ID "tb_agents tb" i a "\<lambda>_. True"] by (simp add: ids_unique_def)

lemma delete_agent_exact:
  assumes "ids_unique tb"
  shows "snd (delete_agent_versioned sha256 tb i v) = None \<longleftrightarrow>
    v \<noteq> [] \<and> (\<exists>p. agent_delete_preview sha256 tb i = Inr p \<and> prv_Deletable p \<and> prv_UpdatedAt p = v)"
proof (cases "row ag_ID i (tb_agents tb)")
  case (Some a)
  then show ?thesis
    using deleted_agent [OF assms Some]
    by (auto simp: delete_agent_versioned_def agent_delete_preview_def snd_transaction_None Let_def)
qed (simp add: delete_agent_versioned_def agent_delete_preview_def)

lemma delete_task_exact:
  assumes "ids_unique tb"
  shows "snd (delete_task_versioned tb i v) = None \<longleftrightarrow>
    v \<noteq> [] \<and> (\<exists>p. task_delete_preview tb i = Inr p \<and> prv_Deletable p \<and> prv_UpdatedAt p = v)"
proof (cases "row task_ID i (tb_tasks tb)")
  case None
  then show ?thesis
    by (simp add: delete_task_versioned_def task_delete_preview_def task_deletable_def failure_def snd_transaction_None Let_def)
next
  case (Some t)
  have "affected (\<lambda>s. task_ID s = i \<and> stored_text (task_UpdatedAt s) = v \<and> \<not> task_Enabled s) (tb_tasks tb) = Suc 0 \<longleftrightarrow>
      stored_text (task_UpdatedAt t) = v \<and> \<not> task_Enabled t"
    using assms Some by (intro deleted_once) (simp add: ids_unique_def)
  with Some show ?thesis
    by (auto simp: delete_task_versioned_def task_delete_preview_def task_deletable_def failure_def snd_transaction_None Let_def)
qed

text \<open>
  C11: the versioned deletion of a resource succeeds exactly when the preview of its deletion says that
  it can be deleted and shows the version the caller names; so a preview and the deletion after it
  disagree only when something has changed in between, and then nothing is deleted.
\<close>
theorem deletion_follows_preview:
  assumes "ids_unique tb"
  shows "(\<exists>secrets. snd (delete_resource_versioned sha256 tb kind i v) = Inr secrets) \<longleftrightarrow>
    v \<noteq> [] \<and> (\<exists>p. resource_delete_preview sha256 tb kind i = Inr p \<and> prv_Deletable p \<and> prv_UpdatedAt p = v)"
proof -
  consider "kind = ''agents''" | "kind = ''tasks''" | "kind \<notin> {''agents'', ''tasks''}" by blast
  then show ?thesis
  proof cases
    case 1
    then show ?thesis
      using delete_agent_exact [OF assms]
      by (simp add: delete_resource_versioned_def resource_delete_preview_def snd_with_value)
  next
    case 2
    then show ?thesis
      using delete_task_exact [OF assms]
      by (simp add: delete_resource_versioned_def resource_delete_preview_def snd_with_value)
  next
    case 3
    show ?thesis
    proof (cases "resource_header tb kind i")
      case (Some header)
      then show ?thesis
      proof (cases header)
        case (Some h)
        obtain name updated where h: "h = (name, updated)" by fastforce
        have "snd (delete_rows kind i (\<lambda>t. stored_text t = v) (drop_owned kind i tb)) = Suc 0 \<longleftrightarrow> updated = v"
          using \<open>resource_header tb kind i = Some header\<close> Some h by (intro delete_rows_affected [OF assms]) simp
        then show ?thesis
          using 3 \<open>resource_header tb kind i = Some header\<close> Some h
          by (cases "delete_rows kind i (\<lambda>t. stored_text t = v) (drop_owned kind i tb)")
             (auto simp: delete_resource_versioned_def resource_delete_preview_def snd_with_value snd_transaction_None Let_def)
      qed (use 3 in \<open>simp add: delete_resource_versioned_def resource_delete_preview_def\<close>)
    qed (use 3 in \<open>simp add: delete_resource_versioned_def resource_delete_preview_def\<close>)
  qed
qed

theorem deletion_follows_preview_witness:
  "\<exists>secrets. snd (delete_resource_versioned id tables_example ''tasks'' ''t1'' ''1970-01-01T00:00:00Z'') = Inr secrets"
  using deletion_follows_preview [OF tables_example_ids, of id "''tasks''" "''t1''" "''1970-01-01T00:00:00Z''"]
    disabled_task_deletable by (simp add: resource_delete_preview_def)

section \<open>What the deletion of a task leaves\<close>

text \<open>The rows of a plan that are about other tasks, and the plan, stay while the plan has such a row.\<close>

definition plan_kept :: "string \<Rightarrow> plan \<Rightarrow> plan_task list \<Rightarrow> tables \<Rightarrow> bool" where
  "plan_kept task p rs tb \<longleftrightarrow> p \<in> set (tb_plans tb) \<and> set rs \<subseteq> set (tb_plan_tasks tb)"

definition others_of :: "string \<Rightarrow> plan \<Rightarrow> tables \<Rightarrow> plan_task list" where
  "others_of task p tb = filter (\<lambda>r. pt_PlanID r = plan_ID p \<and> pt_TaskID r \<noteq> task) (tb_plan_tasks tb)"

lemma plan_not_empty: "set rs \<subseteq> set (tb_plan_tasks tb) \<Longrightarrow> r \<in> set rs \<Longrightarrow> pt_PlanID r = plan \<Longrightarrow> \<not> plan_empty tb plan"
  by (auto simp: plan_empty_def affected_def filter_empty_conv)

lemma plan_kept_drop:
  assumes "plan_kept task p rs tb" and "\<forall>r \<in> set rs. pt_PlanID r = plan_ID p" and "plan \<noteq> plan_ID p"
  shows "plan_kept task p rs (drop_plan plan tb)"
  using assms by (auto simp: plan_kept_def drop_plan_def drop_plan_records_def set_delete_where)

lemma plan_kept_leave:
  assumes kept: "plan_kept task p rs tb" and rs: "\<forall>r \<in> set rs. pt_PlanID r = plan_ID p \<and> pt_TaskID r \<noteq> task" and "rs \<noteq> []"
  shows "plan_kept task p rs (leave_plan task plan tb)"
proof -
  let ?pruned = "prune_plan_occurrences task plan tb"
  let ?left = "?pruned\<lparr>tb_plan_tasks := delete_where (\<lambda>r. pt_PlanID r = plan \<and> pt_TaskID r = task) (tb_plan_tasks ?pruned)\<rparr>"
  have left: "plan_kept task p rs ?left"
    using kept rs by (auto simp: plan_kept_def prune_plan_occurrences_def set_delete_where)
  have "plan \<noteq> plan_ID p" if "plan_empty ?left plan"
    using that left rs \<open>rs \<noteq> []\<close> plan_not_empty [of rs ?left "hd rs" plan] by (auto simp: plan_kept_def)
  with left rs show ?thesis by (auto simp: leave_plan_def Let_def intro: plan_kept_drop)
qed

lemma plan_kept_close:
  assumes kept: "plan_kept task p rs tb" and rs: "\<forall>r \<in> set rs. pt_PlanID r = plan_ID p \<and> pt_TaskID r \<noteq> task" and "rs \<noteq> []"
  shows "plan_kept task p rs (close_draft d tb)"
proof -
  obtain i plan where d: "d = (i, plan)" by fastforce
  let ?closed = "tb\<lparr>tb_drafts := delete_where (\<lambda>d. pdr_ID d = i) (tb_drafts tb)\<rparr>"
  have closed: "plan_kept task p rs ?closed" using kept by (simp add: plan_kept_def)
  have "plan \<noteq> plan_ID p" if "plan_empty ?closed plan"
    using that closed rs \<open>rs \<noteq> []\<close> plan_not_empty [of rs ?closed "hd rs" plan] by (auto simp: plan_kept_def)
  with kept closed rs show ?thesis by (auto simp: d close_draft_def Let_def intro: plan_kept_drop)
qed

lemma plan_kept_owned:
  assumes "p \<in> set (tb_plans tb)" and "others_of task p tb \<noteq> []"
  shows "plan_kept task p (others_of task p tb) (drop_task_owned task tb)"
proof -
  let ?rs = "others_of task p tb"
  have rs: "\<forall>r \<in> set ?rs. pt_PlanID r = plan_ID p \<and> pt_TaskID r \<noteq> task" by (simp add: others_of_def)
  have start: "plan_kept task p ?rs tb" using assms(1) by (auto simp: plan_kept_def others_of_def)
  have "plan_kept task p ?rs (leave_plans task tb)"
    unfolding leave_plans_def
    by (rule fold_invariant [where Q = "\<lambda>_. True" and P = "plan_kept task p ?rs"]) (simp_all add: start plan_kept_leave rs assms(2))
  then have "plan_kept task p ?rs (leave_drafts task (leave_plans task tb))"
    unfolding leave_drafts_def Let_def
    by (intro fold_invariant [where Q = "\<lambda>_. True" and P = "plan_kept task p ?rs"])
       (simp_all add: plan_kept_close rs assms(2), simp add: plan_kept_def)
  then show ?thesis by (simp add: drop_task_owned_def drop_task_records_def Let_def plan_kept_def)
qed

text \<open>The occurrences of plans that no longer target the task.\<close>

definition targets_free :: "string \<Rightarrow> string \<Rightarrow> tables \<Rightarrow> bool" where
  "targets_free task plan tb \<longleftrightarrow> (\<forall>r \<in> set (tb_occurrences tb). owned_occurrence ''plan'' plan r \<longrightarrow> task \<notin> set (occ_TargetIDs r))"

lemma prune_occurrence_targets:
  assumes "prune_occurrence task is r = Some q"
  shows "occ_OwnerKind q = occ_OwnerKind r" and "occ_OwnerID q = occ_OwnerID r"
    and "set (occ_TargetIDs q) \<subseteq> set (occ_TargetIDs r)" and "task \<notin> set (occ_TargetIDs q)"
  using assms
  by (elim prune_occurrence_cases; use length_filter_less [of task "occ_TargetIDs r" "\<lambda>t. t \<noteq> task"] in auto)+

lemma leave_plan_targets:
  assumes "q \<in> set (tb_occurrences (leave_plan task plan tb))"
  shows "\<exists>r \<in> set (tb_occurrences tb). occ_OwnerKind q = occ_OwnerKind r \<and> occ_OwnerID q = occ_OwnerID r \<and>
      set (occ_TargetIDs q) \<subseteq> set (occ_TargetIDs r)"
    and "owned_occurrence ''plan'' plan q \<Longrightarrow> task \<notin> set (occ_TargetIDs q)"
proof -
  have "q \<in> set (tb_occurrences (prune_plan_occurrences task plan tb))"
    using assms by (auto simp: leave_plan_def Let_def drop_plan_def drop_plan_records_def set_delete_where split: if_splits)
  then obtain r "is" where r: "r \<in> set (tb_occurrences tb)"
      "(if owned_occurrence ''plan'' plan r then prune_occurrence task is r else Some r) = Some q"
    by (auto simp: prune_plan_occurrences_def Let_def in_map_filter)
  from r show "\<exists>r \<in> set (tb_occurrences tb). occ_OwnerKind q = occ_OwnerKind r \<and> occ_OwnerID q = occ_OwnerID r \<and>
      set (occ_TargetIDs q) \<subseteq> set (occ_TargetIDs r)"
    by (cases "owned_occurrence ''plan'' plan r") (auto dest: prune_occurrence_targets)
  assume "owned_occurrence ''plan'' plan q"
  with r show "task \<notin> set (occ_TargetIDs q)"
    by (cases "owned_occurrence ''plan'' plan r") (auto simp: owned_occurrence_def dest: prune_occurrence_targets)
qed

lemma leave_plan_free:
  "targets_free task i tb \<or> i = plan \<Longrightarrow> targets_free task i (leave_plan task plan tb)"
  using leave_plan_targets [of _ task plan tb] by (fastforce simp: targets_free_def owned_occurrence_def)

lemma leave_plans_free_fold:
  "targets_free task i tb \<or> i \<in> set plans \<Longrightarrow> targets_free task i (fold (leave_plan task) plans tb)"
  by (induction plans arbitrary: tb) (auto intro: leave_plan_free)

lemma leave_plans_free: "targets_free task i (leave_plans task tb)"
proof -
  have "targets_free task i tb \<or> i \<in> set (plans_of_task tb task)"
    by (auto simp: targets_free_def owned_occurrence_def plans_of_task_def)
  then show ?thesis unfolding leave_plans_def by (rule leave_plans_free_fold)
qed

lemma close_drafts_occurrences: "set (tb_occurrences (fold close_draft ds tb)) \<subseteq> set (tb_occurrences tb)"
proof (induction ds arbitrary: tb)
  case (Cons d ds)
  have "set (tb_occurrences (close_draft d tb)) \<subseteq> set (tb_occurrences tb)"
    by (auto simp: close_draft_def Let_def drop_plan_def drop_plan_records_def set_delete_where split: prod.split)
  with Cons.IH [of "close_draft d tb"] show ?case by auto
qed simp

lemma drop_task_owned_free: "targets_free task i (drop_task_owned task tb)"
proof -
  have "set (tb_occurrences (drop_task_owned task tb)) \<subseteq> set (tb_occurrences (leave_plans task tb))"
    using close_drafts_occurrences [of _ "(leave_plans task tb)\<lparr>tb_draft_items :=
        delete_where (\<lambda>e. pdi_TaskID e = task) (tb_draft_items (leave_plans task tb))\<rparr>"]
    by (auto simp: drop_task_owned_def drop_task_records_def leave_drafts_def Let_def set_delete_where)
  with leave_plans_free [of task i tb] show ?thesis by (auto simp: targets_free_def)
qed

text \<open>No row of any table mentions the task.\<close>

definition task_forgotten :: "string \<Rightarrow> tables \<Rightarrow> bool" where
  "task_forgotten i tb \<longleftrightarrow> i \<notin> set (task_ids tb) \<and> refs_within (- {(Tasks, i)}) tb \<and>
     (\<forall>e \<in> set (tb_draft_items tb). pdi_TaskID e \<noteq> i) \<and>
     (\<forall>r \<in> set (tb_occurrences tb). occ_OwnerKind r = ''plan'' \<longrightarrow> i \<notin> set (occ_TargetIDs r)) \<and>
     (\<forall>s \<in> set (tb_alert_states tb). \<not> about_task i (ast_Signal s)) \<and>
     (\<forall>e \<in> set (tb_alert_events tb). \<not> about_task i (aev_Signal e))"

text \<open>The other tasks, and the plans that hold another task with its place in them.\<close>

definition others_kept :: "string \<Rightarrow> tables \<Rightarrow> tables \<Rightarrow> bool" where
  "others_kept i tb tb' \<longleftrightarrow> (\<forall>t \<in> set (tb_tasks tb). task_ID t \<noteq> i \<longrightarrow> t \<in> set (tb_tasks tb')) \<and>
     (\<forall>p \<in> set (tb_plans tb). others_of i p tb \<noteq> [] \<longrightarrow>
        p \<in> set (tb_plans tb') \<and> set (others_of i p tb) \<subseteq> set (tb_plan_tasks tb'))"

lemma dropped_task:
  assumes "i \<notin> task_ID ` set T"
  shows "task_forgotten i ((drop_task_owned i tb)\<lparr>tb_tasks := T\<rparr>)"
proof -
  let ?owned = "drop_task_owned i tb"
  have "task_refs t = [] \<or> (Tasks, i) \<notin> set (task_refs t)" for t by (simp add: in_task_refs)
  then have "refs_within (- {(Tasks, i)}) (?owned\<lparr>tb_tasks := T\<rparr>)"
    using drop_task_owned_avoids [of i tb] by (auto simp: refs_within_def avoids_rows in_task_refs)
  moreover have "targets_free i j ?owned" for j by (rule drop_task_owned_free)
  moreover have "\<forall>e \<in> set (tb_draft_items ?owned). pdi_TaskID e \<noteq> i"
    by (simp add: drop_task_owned_def drop_task_records_def leave_drafts_def Let_def close_drafts_tables set_delete_where)
  moreover have "\<forall>s \<in> set (tb_alert_states ?owned). \<not> about_task i (ast_Signal s)"
    "\<forall>e \<in> set (tb_alert_events ?owned). \<not> about_task i (aev_Signal e)"
    by (simp_all add: drop_task_owned_def drop_task_records_def Let_def set_delete_where)
  ultimately show ?thesis using assms by (auto simp: task_forgotten_def targets_free_def owned_occurrence_def)
qed

lemma dropped_others:
  assumes "\<And>t. P t \<Longrightarrow> task_ID t = i"
  shows "others_kept i tb ((drop_task_owned i tb)\<lparr>tb_tasks := delete_where P (tb_tasks tb)\<rparr>)"
proof -
  have "plan_kept i p (others_of i p tb) (drop_task_owned i tb)" if "p \<in> set (tb_plans tb)" "others_of i p tb \<noteq> []" for p
    using that by (rule plan_kept_owned)
  then show ?thesis using assms by (auto simp: others_kept_def plan_kept_def set_delete_where)
qed

text \<open>
  C10: after the deletion of a task no row mentions it, neither a run, an operation, a lease, a preview,
  a verification, a draft or an alert, nor a plan or the target of a plan's occurrence; every other
  task is still there, and every plan that holds another task keeps it at its place. A task is deleted
  only when it is disabled and nothing of it is queued or running.
\<close>
theorem deleted_task_forgotten:
  assumes "ids_unique tb" and "delete_task_versioned tb i v = (tb', None)"
  shows "task_forgotten i tb' \<and> others_kept i tb tb' \<and>
    (\<exists>t. row task_ID i (tb_tasks tb) = Some t \<and> \<not> task_Enabled t \<and> stored_text (task_UpdatedAt t) = v) \<and> task_active_work tb i = []"
proof -
  let ?P = "\<lambda>t. task_ID t = i \<and> stored_text (task_UpdatedAt t) = v \<and> \<not> task_Enabled t"
  have ok: "snd (delete_task_versioned tb i v) = None" using assms(2) by simp
  then have "fst (delete_task_versioned tb i v) = (drop_task_owned i tb)\<lparr>tb_tasks := delete_where ?P (tb_tasks tb)\<rparr>"
    using transaction_done [OF ok [unfolded delete_task_versioned_def Let_def]]
    by (simp add: delete_task_versioned_def Let_def)
  then have tb': "tb' = (drop_task_owned i tb)\<lparr>tb_tasks := delete_where ?P (tb_tasks tb)\<rparr>"
    using assms(2) by simp
  from ok obtain t where t: "row task_ID i (tb_tasks tb) = Some t" "\<not> task_Enabled t" "stored_text (task_UpdatedAt t) = v"
    and idle: "task_active_work tb i = []"
    by (auto simp: delete_task_versioned_def Let_def snd_transaction_None task_deletable_def failure_def split: option.splits if_splits)
  have "s = t" if "s \<in> set (tb_tasks tb)" "task_ID s = i" for s
    using unique_keys_eq [of task_ID "tb_tasks tb"] row_Some_in [OF t(1)] assms(1) that by (auto simp: ids_unique_def)
  with t have "i \<notin> task_ID ` set (delete_where ?P (tb_tasks tb))" by (auto simp: set_delete_where)
  then have "task_forgotten i tb'" unfolding tb' by (rule dropped_task)
  moreover have "others_kept i tb tb'" unfolding tb' by (rule dropped_others) simp
  ultimately show ?thesis using t idle by simp
qed

theorem deleted_task_forgotten_witness:
  "\<exists>tb'. delete_task_versioned tables_example ''t1'' ''1970-01-01T00:00:00Z'' = (tb', None) \<and>
     task_forgotten ''t1'' tb' \<and> set (tb_plans tables_example) \<subseteq> set (tb_plans tb')"
proof -
  let ?r = "delete_task_versioned tables_example ''t1'' ''1970-01-01T00:00:00Z''"
  have "snd ?r = None"
    unfolding delete_task_exact [OF tables_example_ids] disabled_task_deletable by simp
  then have r: "?r = (fst ?r, None)" by (simp add: prod_eq_iff)
  have "task_forgotten ''t1'' (fst ?r)" and "others_kept ''t1'' tables_example (fst ?r)"
    using deleted_task_forgotten [OF tables_example_ids r] by blast+
  moreover have "\<forall>p \<in> set (tb_plans tables_example). others_of ''t1'' p tables_example \<noteq> []"
    by (simp add: tables_example_def no_tables_def others_of_def)
  ultimately have "set (tb_plans tables_example) \<subseteq> set (tb_plans (fst ?r))"
    by (simp only: others_kept_def subset_iff) blast
  with \<open>task_forgotten ''t1'' (fst ?r)\<close> r show ?thesis by blast
qed

end
