(* ===== verification/Control_Plane.thy ===== *)
theory Control_Plane
  imports Deletion_Laws
begin

text \<open>
  The whole database as one state: every operation of the store that is modelled, on the tables it
  works on. A component sees its own tables and the identifiers of the others (a view), and what it
  writes is put back. The theory states the contract each component has to keep for the rest, and
  proves it of every component: no reference ever dangles, and identifiers stay unique.
\<close>

section \<open>Views\<close>











section \<open>Operations on the runs, the verifications and the capacities\<close>







section \<open>The contract of a component\<close>





section \<open>Occurrences\<close>






section \<open>Operations and runs\<close>





section \<open>Verifications\<close>





section \<open>Capacities\<close>




lemma end_probe_ID [simp]: "cpol_RepositoryID (end_probe t e p) = cpol_RepositoryID p"
  by (simp add: end_probe_def)



lemma default_policy_ID [simp]:
  "cpol_RepositoryID (capacity_row_of p) = cpol_RepositoryID p" "cpol_RepositoryID (default_capacity_policy i now) = i"
  by (simp_all add: capacity_row_of_def default_capacity_policy_def capacity_policy.defs)






section \<open>Agents and their work\<close>




lemma retire_agents [simp]: "cert_AgentID ` set (retire P t cs) = cert_AgentID ` set cs"
  unfolding retire_def by (rule update_where_image) simp





















text \<open>The requests of a table, after any of its functions.\<close>

definition requests_from :: "string set \<Rightarrow> work_request list \<Rightarrow> work_request list \<Rightarrow> bool" where
  "requests_from A t u \<longleftrightarrow> rq_AgentID ` set u \<subseteq> rq_AgentID ` set t \<union> A"

lemma requests_from_refl [simp]: "requests_from A t t"
  by (auto simp: requests_from_def)

lemma requests_from_update [simp]: "(\<And>r. P r \<Longrightarrow> rq_AgentID (g r) = rq_AgentID r) \<Longrightarrow> requests_from A t (update_where P g t)"
  by (simp add: requests_from_def update_where_image)






section \<open>The agents in the tables\<close>








section \<open>The control plane\<close>









end
