(* ===== verification/Output_Streams.thy ===== *)
theory Output_Streams
  imports Run_Records Domain_Validation
begin

text \<open>
  The processes the program starts and the bytes they write, which arrive in chunks: the environment
  and the bounded buffers of src/internal/command/executor.go, and the loop over the lines of a chunk
  that the readers of src/internal/repository/service.go and src/internal/restic/engine.go share.

  The process itself is an argument of the definitions that start it: what it writes in which chunks,
  its exit code and whether it could be started and waited for.
\<close>

section \<open>Processes\<close>

record command_spec =
  cmd_Program :: string
  cmd_Args :: "string list"
  cmd_Env :: "(string \<times> string) list"

record process_result =
  prs_ExitCode :: int
  prs_Stdout :: string
  prs_Stderr :: string

text \<open>How a wait can fail: the program is not there, may not be run, or anything else.\<close>

datatype process_error = Not_Exist | Not_Permitted | Other_Failure string

record process_run =
  prc_Result :: process_result
  prc_Chunks :: "string list"
  prc_Error :: "process_error option"

text \<open>\<open>strings.Cut\<close> at a one-byte separator.\<close>

fun cut_at :: "char \<Rightarrow> string \<Rightarrow> (string \<times> string) option" where
  "cut_at c [] = None"
| "cut_at c (x # xs) = (if x = c then Some ([], xs) else map_option (\<lambda>(a, b). (x # a, b)) (cut_at c xs))"

definition allowed_names :: "string list" where
  "allowed_names = [''PATH'', ''HOME'', ''TMPDIR'', ''TMP'', ''TEMP'', ''LANG'', ''LC_ALL'', ''TZ'', ''USER'',
     ''LOGNAME'', ''XDG_CACHE_HOME'', ''XDG_CONFIG_HOME'']"

definition allowed_environment :: "string list \<Rightarrow> string list" where
  "allowed_environment base =
     filter (\<lambda>item. case cut_at CHR ''='' item of None \<Rightarrow> False | Some (key, _) \<Rightarrow> key \<in> set allowed_names) base"

definition environment_pairs :: "string list \<Rightarrow> (string \<times> string) list" where
  "environment_pairs base = rev (List.map_filter (cut_at CHR ''='') base)"

definition merge_environment :: "string list \<Rightarrow> (string \<times> string) list \<Rightarrow> string list" where
  "merge_environment base overrides =
     (let values = overrides @ environment_pairs base in
      map (\<lambda>key. key @ CHR ''='' # the (map_of values key)) (sort (remdups (map fst values))))"

section \<open>A buffer that keeps the first bytes\<close>

record limited_buffer =
  lb_buffer :: string
  lb_remaining :: int

definition new_limited_buffer :: "int \<Rightarrow> limited_buffer" where
  "new_limited_buffer limit = \<lparr>lb_buffer = [], lb_remaining = limit\<rparr>"

definition limited_write :: "string \<Rightarrow> limited_buffer \<Rightarrow> limited_buffer" where
  "limited_write chunk b =
     (if lb_remaining b > 0 then
        let keep = min (int (length chunk)) (lb_remaining b) in
        b\<lparr>lb_buffer := lb_buffer b @ take (nat keep) chunk, lb_remaining := lb_remaining b - keep\<rparr>
      else b)"

definition output_limit :: "int \<Rightarrow> int" where
  "output_limit configured = (if configured \<le> 0 then 4 * 2 ^ 20 else configured)"

text \<open>What \<open>Run\<close> answers about the standard output: at most the limit, and everything in chunks to the writer.\<close>

definition captured :: "int \<Rightarrow> string list \<Rightarrow> string" where
  "captured configured chunks = lb_buffer (fold limited_write chunks (new_limited_buffer (output_limit configured)))"

lemma limited_write_take:
  "lb_remaining b = int n \<Longrightarrow>
     limited_write chunk b = \<lparr>lb_buffer = lb_buffer b @ take n chunk, lb_remaining = int (n - length chunk)\<rparr>"
  by (cases "length chunk \<le> n") (auto simp: limited_write_def Let_def min_def of_nat_diff intro: limited_buffer.equality)

lemma limited_writes:
  "lb_remaining b = int n \<Longrightarrow>
     fold limited_write chunks b =
       \<lparr>lb_buffer = lb_buffer b @ take n (concat chunks), lb_remaining = int (n - length (concat chunks))\<rparr>"
proof (induction chunks arbitrary: b n)
  case (Cons chunk chunks)
  then show ?case by (simp add: limited_write_take Cons.IH [where n = "n - length chunk"])
qed simp

lemma captured_take: "captured configured chunks = take (nat (output_limit configured)) (concat chunks)"
proof -
  have "0 \<le> output_limit configured" by (simp add: output_limit_def)
  then show ?thesis
    using limited_writes [of "new_limited_buffer (output_limit configured)" "nat (output_limit configured)" chunks]
    by (simp add: captured_def new_limited_buffer_def)
qed

section \<open>The lines of a chunk\<close>

text \<open>
  Go's loop over a chunk: the part up to the next line feed is taken, and the line ends when there
  was one.
\<close>

function each_line :: "(string \<Rightarrow> 's \<Rightarrow> 's) \<Rightarrow> ('s \<Rightarrow> 's) \<Rightarrow> string \<Rightarrow> 's \<Rightarrow> 's" where
  "each_line take_part line_end input s =
     (if input = [] then s
      else let part = takeWhile (\<lambda>c. c \<noteq> newline) input in
        case dropWhile (\<lambda>c. c \<noteq> newline) input of
          [] \<Rightarrow> take_part part s
        | _ # rest \<Rightarrow> each_line take_part line_end rest (line_end (take_part part s)))"
  by pat_completeness auto
termination
proof (relation "measure (\<lambda>(_, _, input, _). length input)", simp, clarsimp)
  fix input :: string and c rest
  assume "dropWhile (\<lambda>c. c \<noteq> newline) input = c # rest"
  then show "length rest < length input"
    using length_dropWhile_le [of "\<lambda>c. c \<noteq> newline" input] by simp
qed

declare each_line.simps [simp del]

lemma each_line_Nil [simp]: "each_line take_part line_end [] s = s"
  by (simp add: each_line.simps)

lemma before_newline:
  assumes "newline \<notin> set x"
  shows "takeWhile (\<lambda>c. c \<noteq> newline) x = x" and "dropWhile (\<lambda>c. c \<noteq> newline) x = []"
    and "takeWhile (\<lambda>c. c \<noteq> newline) (x @ newline # y) = x" and "dropWhile (\<lambda>c. c \<noteq> newline) (x @ newline # y) = newline # y"
  using assms by (induction x) auto

lemma each_line_last:
  "newline \<notin> set x \<Longrightarrow> x \<noteq> [] \<Longrightarrow> each_line take_part line_end x s = take_part x s"
  by (subst each_line.simps) (simp add: before_newline)

lemma each_line_line:
  "newline \<notin> set x \<Longrightarrow>
     each_line take_part line_end (x @ newline # y) s = each_line take_part line_end y (line_end (take_part x s))"
  by (subst each_line.simps) (simp add: before_newline)

lemma line_cases:
  obtains "newline \<notin> set input" | x y where "newline \<notin> set x" and "input = x @ newline # y"
  by (meson in_set_conv_decomp_first)

lemma each_line_hom:
  assumes "\<And>x s. take_part x (h s) = h (take_part x s)" and "\<And>s. line_end (h s) = h (line_end s)"
  shows "each_line take_part line_end x (h s) = h (each_line take_part line_end x s)"
proof (induction "length x" arbitrary: x s rule: less_induct)
  case less
  show ?case
    by (cases x rule: line_cases; cases "x = []") (use less in \<open>simp_all add: each_line_last each_line_line assms\<close>)
qed

text \<open>
  What a reader of lines promises: taking a part and then another one is taking both, in every state
  its operations can reach.
\<close>

locale line_sink =
  fixes ok :: "'s \<Rightarrow> bool" and take_part :: "string \<Rightarrow> 's \<Rightarrow> 's" and line_end :: "'s \<Rightarrow> 's"
  assumes ok_take: "ok s \<Longrightarrow> ok (take_part x s)"
    and ok_end: "ok s \<Longrightarrow> ok (line_end s)"
    and take_Nil: "ok s \<Longrightarrow> take_part [] s = s"
    and take_append: "ok s \<Longrightarrow> take_part y (take_part x s) = take_part (x @ y) s"
begin

abbreviation "reading \<equiv> each_line take_part line_end"

lemma reading_last: "ok s \<Longrightarrow> newline \<notin> set x \<Longrightarrow> reading x s = take_part x s"
  by (cases "x = []") (simp_all add: each_line_last take_Nil)

lemma ok_reading: "ok s \<Longrightarrow> ok (reading x s)"
proof (induction "length x" arbitrary: x s rule: less_induct)
  case less
  show ?case
    by (cases x rule: line_cases) (use less in \<open>simp_all add: reading_last each_line_line ok_take ok_end\<close>)
qed

lemma take_reading: "ok s \<Longrightarrow> newline \<notin> set x \<Longrightarrow> reading y (take_part x s) = reading (x @ y) s"
proof (cases y rule: line_cases)
  case 1
  assume "ok s" "newline \<notin> set x"
  with 1 show ?thesis by (simp add: reading_last ok_take take_append)
next
  case (2 u v)
  assume "ok s" "newline \<notin> set x"
  with 2 show ?thesis
    using each_line_line [of "x @ u" take_part line_end v s] by (simp add: each_line_line take_append)
qed

lemma reading_append: "ok s \<Longrightarrow> reading y (reading x s) = reading (x @ y) s"
proof (induction "length x" arbitrary: x s rule: less_induct)
  case less
  show ?case
  proof (cases x rule: line_cases)
    case 1
    with less.prems show ?thesis by (simp add: reading_last take_reading)
  next
    case (2 u v)
    then show ?thesis using less by (simp add: each_line_line ok_take ok_end)
  qed
qed

lemma reading_chunks: "ok s \<Longrightarrow> fold reading chunks s = reading (concat chunks) s"
  by (induction chunks arbitrary: s) (simp_all add: ok_reading reading_append)

lemma reading_split:
  "ok s \<Longrightarrow> reading x s =
     take_part (last (split_on newline x)) (fold (\<lambda>l s. line_end (take_part l s)) (butlast (split_on newline x)) s)"
proof (induction "length x" arbitrary: x s rule: less_induct)
  case less
  show ?case
  proof (cases x rule: line_cases)
    case 1
    then have "split_on newline x = [x]" using split_join_with [of "[x]" newline] by simp
    with 1 less.prems show ?thesis by (simp add: reading_last)
  next
    case (2 u v)
    then have "split_on newline u = [u]" using split_join_with [of "[u]" newline] by simp
    with 2 have "split_on newline x = u # split_on newline v" by (simp add: split_on_append)
    with 2 less show ?thesis by (simp add: each_line_line ok_take ok_end)
  qed
qed

end

end
