(* ===== verification/Go_Paths.thy ===== *)
theory Go_Paths
  imports Domain_Validation
begin

text \<open>
  The rest of Go's \<open>path/filepath\<close> and \<open>strings\<close> packages on Unix that the services call:
  \<open>filepath.Rel\<close>, \<open>Dir\<close>, \<open>Base\<close> and \<open>Join\<close>, \<open>strings.Index\<close>, \<open>LastIndex\<close>, \<open>TrimPrefix\<close> and
  \<open>TrimSuffix\<close>.
\<close>

section \<open>Paths\<close>

fun skip_common :: "string list \<Rightarrow> string list \<Rightarrow> string list \<times> string list" where
  "skip_common (b # bs) (t # ts) = (if b = t then skip_common bs ts else (b # bs, t # ts))"
| "skip_common bs ts = (bs, ts)"

text \<open>
  \<open>filepath.Rel\<close> of two absolute paths; of an absolute and a relative path it is an error. The program
  does not call it with two relative ones.
\<close>

definition rel_path :: "string \<Rightarrow> string \<Rightarrow> string option" where
  "rel_path base target =
     (if \<not> is_abs base \<or> \<not> is_abs target then None
      else if clean_path base = clean_path target then Some ''.''
      else let (up, down) = skip_common (path_segments base) (path_segments target) in
        Some (join_with CHR ''/'' (replicate (length up) ''..'' @ down)))"

text \<open>\<open>filepath.Dir\<close>: the path up to its last separator, cleaned.\<close>

definition dir_path :: "string \<Rightarrow> string" where
  "dir_path s = clean_path (rev (dropWhile (\<lambda>c. c \<noteq> CHR ''/'') (rev s)))"

definition base_path :: "string \<Rightarrow> string" where
  "base_path s =
     (if s = [] then ''.''
      else let trimmed = rev (dropWhile (\<lambda>c. c = CHR ''/'') (rev s)) in
        if trimmed = [] then ''/'' else rev (takeWhile (\<lambda>c. c \<noteq> CHR ''/'') (rev trimmed)))"

definition join_paths :: "string list \<Rightarrow> string" where
  "join_paths elems =
     (let named = filter (\<lambda>e. e \<noteq> []) elems in
      if named = [] then [] else clean_path (join_with CHR ''/'' named))"

section \<open>Texts\<close>

fun index_of :: "string \<Rightarrow> string \<Rightarrow> nat option" where
  "index_of sub s =
     (if prefix sub s then Some 0 else case s of [] \<Rightarrow> None | _ # rest \<Rightarrow> map_option Suc (index_of sub rest))"

definition last_index_of :: "char \<Rightarrow> string \<Rightarrow> nat option" where
  "last_index_of c s =
     (if c \<in> set s then Some (length s - 1 - length (takeWhile (\<lambda>d. d \<noteq> c) (rev s))) else None)"

definition trim_prefix :: "string \<Rightarrow> string \<Rightarrow> string" where
  "trim_prefix p s = (if prefix p s then drop (length p) s else s)"

definition trim_suffix :: "string \<Rightarrow> string \<Rightarrow> string" where
  "trim_suffix p s = (if suffix p s then take (length s - length p) s else s)"

text \<open>\<open>strings.Trim\<close> with a set of ASCII characters.\<close>

definition trim_chars :: "string \<Rightarrow> string \<Rightarrow> string" where
  "trim_chars cs s = rev (dropWhile (\<lambda>c. c \<in> set cs) (rev (dropWhile (\<lambda>c. c \<in> set cs) s)))"

declare index_of.simps [simp del]

section \<open>Relative paths\<close>

lemma skip_common_prefix: "prefix bs ts \<Longrightarrow> skip_common bs ts = ([], drop (length bs) ts)"
  by (induction bs ts rule: skip_common.induct) auto

lemma skip_common_other: "\<not> prefix bs ts \<Longrightarrow> \<exists>u us ds. skip_common bs ts = (u # us, ds)"
  by (induction bs ts rule: skip_common.induct) (auto simp: neq_Nil_conv)

lemma rooted_no_parent:
  assumes "is_abs s" and "seg \<in> set (path_segments s)"
  shows "seg \<noteq> ''..'' \<and> seg \<noteq> [] \<and> seg \<noteq> ''.'' \<and> CHR ''/'' \<notin> set seg"
proof -
  have "clean_rev True (rev (path_segments s))" using path_segments_facts [of s] assms by simp
  moreover have "clean_rev True ss \<Longrightarrow> seg \<in> set ss \<Longrightarrow> seg \<noteq> ''..''" for ss by (induction ss) auto
  ultimately show ?thesis using clean_rev_mem path_segments_facts [of s] assms(2) by fastforce
qed

definition escapes :: "string \<Rightarrow> bool" where
  "escapes relative \<longleftrightarrow> relative = ''.'' \<or> relative = ''..'' \<or> prefix ''../'' relative"

lemma join_with_head: "join_with c (a # as) = (if as = [] then a else a @ c # join_with c as)"
  by (cases as) auto

lemma escapes_first: "escapes r \<Longrightarrow> takeWhile (\<lambda>c. c \<noteq> CHR ''/'') r = ''.'' \<or> takeWhile (\<lambda>c. c \<noteq> CHR ''/'') r = ''..''"
  by (auto simp: escapes_def prefix_def)

lemma first_segment:
  assumes "CHR ''/'' \<notin> set t"
  shows "takeWhile (\<lambda>c. c \<noteq> CHR ''/'') (join_with CHR ''/'' (t # ts)) = t"
  using assms by (induction t) (auto simp: join_with_head)

text \<open>A path lies below an absolute one exactly when its relative path neither stays nor goes up.\<close>

lemma rel_path_below:
  assumes "is_abs base" and "is_abs target"
  shows "(\<exists>r. rel_path base target = Some r \<and> \<not> escapes r) \<longleftrightarrow>
         strict_prefix (path_segments base) (path_segments target)"
proof (cases "path_segments base = path_segments target")
  case True
  with assms show ?thesis by (simp add: rel_path_def clean_path_eq_iff escapes_def)
next
  case False
  then have differ: "clean_path base \<noteq> clean_path target" using assms by (simp add: clean_path_eq_iff)
  show ?thesis
  proof (cases "prefix (path_segments base) (path_segments target)")
    case True
    with False obtain t ts where down: "path_segments target = path_segments base @ t # ts"
      by (metis append_Nil2 list.exhaust prefix_def)
    then have "t \<in> set (path_segments target)" by simp
    note rooted_no_parent [OF assms(2) this]
    then have "\<not> escapes (join_with CHR ''/'' (t # ts))"
      using escapes_first first_segment by metis
    with True False differ down assms show ?thesis
      by (auto simp: rel_path_def skip_common_prefix strict_prefix_def)
  next
    case False
    then obtain u us ds where "skip_common (path_segments base) (path_segments target) = (u # us, ds)"
      using skip_common_other by blast
    then have "rel_path base target = Some (join_with CHR ''/'' (''..'' # replicate (length us) ''..'' @ ds))"
      using differ assms by (simp add: rel_path_def)
    moreover have "escapes (join_with CHR ''/'' (''..'' # rest))" for rest
      by (simp add: escapes_def join_with_head)
    ultimately show ?thesis using False by (auto simp: strict_prefix_def)
  qed
qed

end
