(* ===== verification/Restic_Engine.thy ===== *)
theory Restic_Engine
  imports Output_Streams Go_Paths Go_Texts Float64_Rounding "HOL-Library.AList"
begin

text \<open>
  The Restic engine of src/internal/restic/engine.go: the command line of an operation, the material
  of the repository it works on, the classification of the result and the summary of a backup, which
  is read from the output while it arrives.

  The operating system and the parsers of JSON, URLs and known hosts files are arguments
  (\<open>engine_env\<close>). Temporary files are given by the names \<open>os.MkdirTemp\<close> answers; their removal, which
  the code defers, and \<open>CommandCleanup\<close>, a callback without a result, do not appear.
\<close>

section \<open>Operations\<close>

record restic_repository =
  rsr_Location :: string
  rsr_Password :: string
  rsr_SSHPrivateKey :: string
  rsr_SSHPort :: int
  rsr_KnownHosts :: string
  rsr_S3AccessKey :: string
  rsr_S3SecretKey :: string
  rsr_S3Region :: string
  rsr_S3BucketLookup :: string

record directory_backup =
  dbk_Path :: string
  dbk_Exclusions :: "string list"
  dbk_SkipIfUnchanged :: bool
  dbk_Compression :: string

record restic_operation =
  rop_Kind :: string
  rop_Repository :: restic_repository
  rop_Directory :: "directory_backup option"
  rop_Command :: "command_spec option"
  rop_Filename :: string
  rop_Arguments :: "string list"
  rop_NewPassword :: string

abbreviation InitializeRepo :: string where "InitializeRepo \<equiv> ''initialize-repository''"
abbreviation BackupDirectory :: string where "BackupDirectory \<equiv> ''backup-directory''"
abbreviation BackupCommand :: string where "BackupCommand \<equiv> ''backup-command''"
abbreviation VerifyRepository :: string where "VerifyRepository \<equiv> ''verify-repository''"
abbreviation ListSnapshots :: string where "ListSnapshots \<equiv> ''list-snapshots''"
abbreviation ListSnapshotContents :: string where "ListSnapshotContents \<equiv> ''list-snapshot-contents''"
abbreviation ForgetSnapshots :: string where "ForgetSnapshots \<equiv> ''forget-snapshots''"
abbreviation PruneRepository :: string where "PruneRepository \<equiv> ''prune-repository''"
abbreviation CheckRepository :: string where "CheckRepository \<equiv> ''check-repository''"
abbreviation DumpSnapshot :: string where "DumpSnapshot \<equiv> ''dump-snapshot''"
abbreviation RestoreDirectory :: string where "RestoreDirectory \<equiv> ''restore-directory''"
abbreviation ListKeys :: string where "ListKeys \<equiv> ''list-keys''"
abbreviation AddKey :: string where "AddKey \<equiv> ''add-key''"
abbreviation RemoveKey :: string where "RemoveKey \<equiv> ''remove-key''"
abbreviation TagSnapshot :: string where "TagSnapshot \<equiv> ''tag-snapshot''"

definition build_operation_arguments :: "restic_operation \<Rightarrow> string list outcome" where
  "build_operation_arguments op =
     (let kind = rop_Kind op; args = rop_Arguments op in
      if kind = InitializeRepo then Inr [''init'', ''--json'']
      else if kind = BackupDirectory then
        (case rop_Directory op of
           None \<Rightarrow> Inl (Invalid ''directory backup source is required'')
         | Some d \<Rightarrow>
             if dbk_Path d = [] then Inl (Invalid ''directory backup source is required'')
             else Inr ([''backup'', ''--json''] @ args @
               (if dbk_SkipIfUnchanged d then [''--skip-if-unchanged''] else []) @
               (if dbk_Compression d \<noteq> [] then [''--compression'', dbk_Compression d] else []) @
               concat (map (\<lambda>x. [''--exclude'', x]) (dbk_Exclusions d)) @ [dbk_Path d]))
      else if kind = BackupCommand then
        (case rop_Command op of
           None \<Rightarrow> Inl (Invalid ''command backup requires program and snapshot filename'')
         | Some c \<Rightarrow>
             if cmd_Program c = [] \<or> rop_Filename op = []
             then Inl (Invalid ''command backup requires program and snapshot filename'')
             else Inr ([''backup'', ''--json''] @ args @
               [''--stdin-filename'', rop_Filename op, ''--stdin-from-command'', ''--'', cmd_Program c] @ cmd_Args c))
      else if kind = VerifyRepository then
        if args \<noteq> [] then Inl (Invalid ''repository verification does not accept caller arguments'')
        else Inr [''snapshots'', ''--json'', ''--no-lock'']
      else if kind = ListSnapshots then Inr ([''snapshots'', ''--json''] @ args)
      else if kind = ListSnapshotContents then Inr ([''ls''] @ args @ [''--json''])
      else if kind = ForgetSnapshots then Inr ([''forget'', ''--json''] @ args)
      else if kind = PruneRepository then Inr ([''prune'', ''--json''] @ args)
      else if kind = CheckRepository then Inr ([''check'', ''--json''] @ args)
      else if kind = DumpSnapshot then Inr ([''dump''] @ args)
      else if kind = RestoreDirectory then Inr ([''restore'', ''--json''] @ args)
      else if kind = ListKeys then Inr ([''key'', ''list'', ''--json''] @ args)
      else if kind = AddKey then Inr ([''key'', ''add'', ''--json''] @ args)
      else if kind = RemoveKey then
        (case args of [key] \<Rightarrow> Inr [''key'', ''remove'', key] | _ \<Rightarrow> Inl (Invalid ''key removal requires exact key ID''))
      else if kind = TagSnapshot then Inr ([''tag'', ''--json''] @ args)
      else Inl (Unsupported ''unsupported restic operation'' kind))"

section \<open>The messages of a backup\<close>

text \<open>What \<open>json.Unmarshal\<close> reads of a line into the structures of the file; \<open>None\<close> is an error.\<close>

record summary_message =
  srm_MessageType :: string
  srm_SnapshotID :: string
  srm_FilesNew :: "int option"
  srm_FilesChanged :: "int option"
  srm_FilesUnmodified :: "int option"
  srm_TotalFilesProcessed :: "int option"
  srm_TotalBytesProcessed :: "int option"
  srm_DataAdded :: "int option"
  srm_DataAddedPacked :: "int option"
  srm_TotalDuration :: "float64 option"

record status_message =
  stm_MessageType :: string
  stm_TotalFiles :: "int option"

record source_error_message =
  sem_MessageType :: string
  sem_During :: string
  sem_Item :: string

record restic_json =
  rjs_Summary :: "string \<Rightarrow> summary_message option"
  rjs_Status :: "string \<Rightarrow> status_message option"
  rjs_Error :: "string \<Rightarrow> source_error_message option"
  rjs_SnapshotID :: "string \<Rightarrow> string option"

definition valid_non_negative :: "int option \<Rightarrow> bool" where
  "valid_non_negative v \<longleftrightarrow> (case v of None \<Rightarrow> False | Some n \<Rightarrow> n \<ge> 0)"

definition source_error_item :: "restic_json \<Rightarrow> string \<Rightarrow> string option" where
  "source_error_item js line =
     (case rjs_Error js line of
        None \<Rightarrow> None
      | Some m \<Rightarrow>
          if sem_MessageType m \<noteq> ''error'' \<or> sem_During m \<noteq> ''archival'' \<or> sem_Item m = [] then None else Some (sem_Item m))"

text \<open>A set of items that failed is the list of them, without repetitions.\<close>

record summary_state =
  sms_latest :: "summary_message option"
  sms_expected :: "int option"
  sms_failed :: "string list"

definition no_summary :: summary_state where
  "no_summary = \<lparr>sms_latest = None, sms_expected = None, sms_failed = []\<rparr>"

definition consume_status :: "restic_json \<Rightarrow> string \<Rightarrow> summary_state \<Rightarrow> summary_state" where
  "consume_status js line st =
     (case rjs_Status js line of
        None \<Rightarrow> st
      | Some m \<Rightarrow>
          if stm_MessageType m = ''status'' \<and> valid_non_negative (stm_TotalFiles m) \<and>
             (case sms_expected st of None \<Rightarrow> True | Some e \<Rightarrow> the (stm_TotalFiles m) > e)
          then st\<lparr>sms_expected := stm_TotalFiles m\<rparr> else st)"

definition consume_error :: "restic_json \<Rightarrow> string \<Rightarrow> summary_state \<Rightarrow> summary_state" where
  "consume_error js line st =
     (case source_error_item js line of
        None \<Rightarrow> st
      | Some item \<Rightarrow> st\<lparr>sms_failed := (if item \<in> set (sms_failed st) then sms_failed st else sms_failed st @ [item])\<rparr>)"

definition consume_summary :: "restic_json \<Rightarrow> string \<Rightarrow> summary_state \<Rightarrow> summary_state" where
  "consume_summary js line st =
     (case rjs_Summary js line of
        None \<Rightarrow> st
      | Some m \<Rightarrow> if srm_MessageType m = ''summary'' then st\<lparr>sms_latest := Some m\<rparr> else st)"

text \<open>
  \<open>resticSummaryValues\<close>. The duration in milliseconds is \<open>math.Round\<close> of a \<open>float64\<close> product; the
  greatest duration is the constant \<open>float64(math.MaxInt64)/1000\<close>.
\<close>

definition put_count :: "string \<Rightarrow> int option \<Rightarrow> summary \<Rightarrow> summary" where
  "put_count key v s = (if valid_non_negative v then AList.update key (AnyInt (the v)) s else s)"

definition non_negative_or_zero :: "int option \<Rightarrow> int" where
  "non_negative_or_zero v = (if valid_non_negative v then the v else 0)"

definition put_changed :: "summary_message \<Rightarrow> summary \<Rightarrow> summary" where
  "put_changed m s =
     (if srm_FilesNew m \<noteq> None \<or> srm_FilesChanged m \<noteq> None then
        let new_files = non_negative_or_zero (srm_FilesNew m); changed_files = non_negative_or_zero (srm_FilesChanged m) in
        if new_files \<le> max_int64 - changed_files
        then AList.update ''filesChanged'' (AnyInt (new_files + changed_files)) s else s
      else s)"

definition put_duration :: "float64 option \<Rightarrow> summary \<Rightarrow> summary" where
  "put_duration d s =
     (case d of
        Some (Finite q) \<Rightarrow>
          if 0 \<le> q \<and> q \<le> round64 (2 ^ 63 / 1000)
          then AList.update ''durationMilliseconds'' (AnyInt \<lfloor>round64 (q * 1000) + 1 / 2\<rfloor>)
            (AList.update ''totalDurationSeconds'' (AnyFloat (Finite q)) s)
          else s
      | _ \<Rightarrow> s)"

definition restic_summary_values :: "summary_message \<Rightarrow> int option \<Rightarrow> int \<Rightarrow> string \<times> summary" where
  "restic_summary_values m expected failures =
     (srm_SnapshotID m,
      (put_duration (srm_TotalDuration m) \<circ>
       put_count ''bytesChanged'' (srm_DataAdded m) \<circ>
       put_changed m \<circ>
       put_count ''dataAddedPacked'' (srm_DataAddedPacked m) \<circ>
       put_count ''dataAdded'' (srm_DataAdded m) \<circ>
       put_count ''bytesProcessed'' (srm_TotalBytesProcessed m) \<circ>
       (if failures > 0 then AList.update ''filesFailed'' (AnyInt failures) else id) \<circ>
       put_count ''filesProcessed'' (srm_TotalFilesProcessed m) \<circ>
       put_count ''filesExpected'' expected \<circ>
       put_count ''filesUnmodified'' (srm_FilesUnmodified m) \<circ>
       put_count ''filesModified'' (srm_FilesChanged m) \<circ>
       put_count ''filesNew'' (srm_FilesNew m)) [])"

definition summary_result :: "summary_state \<Rightarrow> string \<times> summary option" where
  "summary_result st =
     (case sms_latest st of
        None \<Rightarrow> ([], None)
      | Some m \<Rightarrow> (case restic_summary_values m (sms_expected st) (int (length (sms_failed st))) of (i, s) \<Rightarrow> (i, Some s)))"

text \<open>
  The lines of a \<open>bufio.Scanner\<close> with a buffer of the given size: without their line end, up to the
  first one that with its line feed does not fit into the buffer.
\<close>

definition drop_return :: "string \<Rightarrow> string" where
  "drop_return line = (if line \<noteq> [] \<and> last line = CHR 0x0D then butlast line else line)"

definition output_lines :: "string \<Rightarrow> string list" where
  "output_lines output =
     (let lines = split_on newline output in if last lines = [] then butlast lines else lines)"

definition scan_lines :: "nat \<Rightarrow> string \<Rightarrow> string list" where
  "scan_lines limit output = map drop_return (takeWhile (\<lambda>line. length line < limit) (output_lines output))"

definition parsed_backup_summary :: "restic_json \<Rightarrow> string \<Rightarrow> string \<times> summary option" where
  "parsed_backup_summary js output =
     summary_result
       (fold (\<lambda>line. consume_summary js line \<circ> consume_error js line \<circ> consume_status js line)
         (scan_lines (2 ^ 20) output) no_summary)"

definition snapshot_id_of :: "restic_json \<Rightarrow> string \<Rightarrow> string" where
  "snapshot_id_of js output =
     (case find (\<lambda>i. i \<noteq> []) (List.map_filter (rjs_SnapshotID js) (scan_lines (64 * 1024) output)) of
        None \<Rightarrow> [] | Some i \<Rightarrow> i)"

text \<open>The collector, which reads the same messages while the output arrives.\<close>

record summary_collector = summary_state +
  smc_buffer :: string
  smc_seen :: bool

definition new_collector :: summary_collector where
  "new_collector = summary_state.extend no_summary \<lparr>smc_buffer = [], smc_seen = False\<rparr>"

abbreviation maximum_line_bytes :: nat where "maximum_line_bytes \<equiv> 2 ^ 20"

definition collector_append :: "string \<Rightarrow> summary_collector \<Rightarrow> summary_collector" where
  "collector_append chunk c =
     (let remaining = maximum_line_bytes - length (smc_buffer c) in
      if remaining > 0 then c\<lparr>smc_buffer := smc_buffer c @ take remaining chunk\<rparr> else c)"

definition collector_consume :: "restic_json \<Rightarrow> string \<Rightarrow> summary_collector \<Rightarrow> summary_collector" where
  "collector_consume js line c =
     summary_state.extend
       ((consume_summary js line \<circ> consume_status js line \<circ> consume_error js line) (summary_state.truncate c))
       \<lparr>smc_buffer = smc_buffer c, smc_seen = smc_seen c\<rparr>"

definition collector_line_end :: "restic_json \<Rightarrow> summary_collector \<Rightarrow> summary_collector" where
  "collector_line_end js c = (collector_consume js (smc_buffer c) c)\<lparr>smc_buffer := []\<rparr>"

definition collector_write :: "restic_json \<Rightarrow> string \<Rightarrow> summary_collector \<Rightarrow> summary_collector" where
  "collector_write js chunk c =
     each_line collector_append (collector_line_end js) chunk (c\<lparr>smc_seen := smc_seen c \<or> chunk \<noteq> []\<rparr>)"

definition collector_result :: "restic_json \<Rightarrow> summary_collector \<Rightarrow> string \<times> summary option" where
  "collector_result js c =
     summary_result (summary_state.truncate (if smc_buffer c \<noteq> [] then collector_line_end js c else c))"

section \<open>Evidence about the files\<close>

definition int64_at :: "summary \<Rightarrow> string \<Rightarrow> int option" where
  "int64_at s key = (case map_of s key of Some (AnyInt n) \<Rightarrow> Some n | _ \<Rightarrow> None)"

definition complete_file_evidence :: "bool \<Rightarrow> summary \<Rightarrow> summary" where
  "complete_file_evidence everything s =
     (case int64_at s ''filesProcessed'' of
        None \<Rightarrow> s
      | Some processed \<Rightarrow>
          let failures = (case int64_at s ''filesFailed'' of Some f \<Rightarrow> f | None \<Rightarrow> 0);
              minimum = (if failures > 0 \<and> processed \<le> max_int64 - failures then processed + failures
                         else if \<not> everything \<and> processed < max_int64 then processed + 1 else processed);
              expected = (case int64_at s ''filesExpected'' of
                  None \<Rightarrow> minimum | Some e \<Rightarrow> if e < minimum then minimum else if e < processed then processed else e);
              s' = (if int64_at s ''filesExpected'' = Some expected then s else AList.update ''filesExpected'' (AnyInt expected) s) in
          if expected \<ge> processed then AList.update ''filesFailed'' (AnyInt (expected - processed)) s' else s')"

definition file_evidence_differs :: "summary option \<Rightarrow> bool" where
  "file_evidence_differs s =
     (case s of
        None \<Rightarrow> False
      | Some s \<Rightarrow>
          (case (int64_at s ''filesExpected'', int64_at s ''filesProcessed'') of
             (Some expected, Some processed) \<Rightarrow> expected \<noteq> processed | _ \<Rightarrow> False))"

section \<open>The material of a repository\<close>

record engine_env =
  eng_Program :: string
  eng_TempRoot :: string
  eng_MkdirAll :: "string \<Rightarrow> check"
  eng_MkdirTemp :: "string \<Rightarrow> string \<Rightarrow> string outcome"
  eng_WriteFile :: "string \<Rightarrow> string \<Rightarrow> check"
  eng_KnownHosts :: "string \<Rightarrow> string outcome list"
  eng_Net :: net_env
  eng_Json :: restic_json
  eng_Lower :: "string \<Rightarrow> string"
  eng_Run :: "command_spec \<Rightarrow> process_run"

definition uses_s3 :: "restic_repository \<Rightarrow> bool" where
  "uses_s3 r \<longleftrightarrow> prefix ''s3:'' (rsr_Location r) \<or> rsr_S3AccessKey r \<noteq> [] \<or> rsr_S3SecretKey r \<noteq> [] \<or>
     rsr_S3Region r \<noteq> [] \<or> rsr_S3BucketLookup r \<noteq> []"

definition validate_s3_material :: "net_env \<Rightarrow> restic_repository \<Rightarrow> check" where
  "validate_s3_material net r =
     (if \<not> prefix ''s3:'' (rsr_Location r) \<or> rsr_S3AccessKey r = [] \<or> rsr_S3SecretKey r = [] \<or> rsr_S3Region r = []
      then Some (Invalid ''structured S3 location, access key, secret key, and region are required'')
      else if contains_any line_breaks (rsr_S3AccessKey r @ rsr_S3SecretKey r)
      then Some (Invalid ''S3 credentials contain control characters'')
      else if \<not> list_all (\<lambda>v. is_ascii_letter v \<or> is_digit v \<or> v = CHR ''-'' \<or> v = CHR ''_'') (rsr_S3Region r)
      then Some (Invalid ''S3 region is invalid'')
      else if rsr_S3BucketLookup r \<noteq> ''path'' \<and> rsr_S3BucketLookup r \<noteq> ''dns''
      then Some (Invalid ''S3 bucket lookup must be path or dns'')
      else (case parse_request_uri net (trim_prefix ''s3:'' (rsr_Location r)) of
          None \<Rightarrow> Some (Invalid ''S3 repository location is invalid'')
        | Some u \<Rightarrow>
            if uri_Host u = [] \<or> uri_User u \<or> uri_RawQuery u \<noteq> [] \<or> uri_Fragment u \<noteq> [] \<or> uri_Path u = [] \<or> uri_Path u = ''/''
            then Some (Invalid ''S3 repository location is invalid'')
            else if uri_Scheme u \<noteq> ''https'' \<and>
              (uri_Scheme u \<noteq> ''http'' \<or> \<not> (fold_case (uri_Hostname u) = ''localhost'' \<or> loopback_ip net (uri_Hostname u)))
            then Some (Invalid ''S3 repository location requires HTTPS'')
            else None))"

definition sftp_endpoint :: "string \<Rightarrow> string outcome" where
  "sftp_endpoint location =
     (let value = trim_prefix ''sftp:'' location;
          delimiter = (case index_of '']:'' value of Some bracket \<Rightarrow> Some (bracket + 1) | None \<Rightarrow> index_of '':'' value) in
      case delimiter of
        None \<Rightarrow> Inl (Invalid ''invalid SFTP repository location'')
      | Some d \<Rightarrow>
          if d = 0 then Inl (Invalid ''invalid SFTP repository location'')
          else let endpoint = take d value in
            (case last_index_of CHR ''@'' endpoint of
               None \<Rightarrow> Inl (Invalid ''SFTP repository must include user and host'')
             | Some n \<Rightarrow>
                 if n < 1 \<or> n = length endpoint - 1 then Inl (Invalid ''SFTP repository must include user and host'')
                 else let host = drop (n + 1) endpoint;
                   raw = (if prefix ''['' host \<and> suffix '']'' host then trim_suffix '']'' (trim_prefix ''['' host) else host) in
                   Inr (take (n + 1) endpoint @ raw)))"

abbreviation quote_char :: char where "quote_char \<equiv> CHR 0x27"
abbreviation double_quote :: char where "double_quote \<equiv> CHR 0x22"

definition quote_ssh_argument :: "string \<Rightarrow> string" where
  "quote_ssh_argument value =
     [quote_char] @ replace_all [quote_char] [quote_char, backslash, quote_char, quote_char] value @ [quote_char]"

definition quote_config_value :: "string \<Rightarrow> string" where
  "quote_config_value value =
     [double_quote] @ replace_all [double_quote] [backslash, double_quote] (replace_all [backslash] [backslash, backslash] value)
     @ [double_quote]"

text \<open>Key types and signature algorithms of \<open>golang.org/x/crypto/ssh\<close>, by their registered names.\<close>

definition host_key_algorithms :: "string \<Rightarrow> string list" where
  "host_key_algorithms key =
     (if key = ''ssh-rsa'' then [''rsa-sha2-512'', ''rsa-sha2-256'']
      else if key \<in> set [''ecdsa-sha2-nistp256'', ''ecdsa-sha2-nistp384'', ''ecdsa-sha2-nistp521'', ''ssh-ed25519'',
          ''sk-ecdsa-sha2-nistp256@openssh.com'', ''sk-ssh-ed25519@openssh.com''] then [key]
      else [])"

fun collect_algorithms :: "string outcome list \<Rightarrow> string list \<Rightarrow> string list outcome" where
  "collect_algorithms [] found = Inr found"
| "collect_algorithms (Inl err # rest) found = Inl (Wrapped ''parse pinned SSH host key'' err)"
| "collect_algorithms (Inr key # rest) found =
     (if host_key_algorithms key = [] then Inl (Unsupported ''unsupported pinned SSH host key algorithm'' key)
      else collect_algorithms rest (found @ filter (\<lambda>a. a \<notin> set found) (host_key_algorithms key)))"

definition pinned_host_key_algorithms :: "string outcome list \<Rightarrow> string outcome" where
  "pinned_host_key_algorithms keys =
     (case collect_algorithms keys [] of
        Inl err \<Rightarrow> Inl err
      | Inr found \<Rightarrow> if found = [] then Inl (Invalid ''pinned SSH host key is empty'') else Inr (join_with CHR '','' found))"

definition ssh_config :: "string \<Rightarrow> string \<Rightarrow> string" where
  "ssh_config known_hosts algorithms =
     ''Host *'' @ [newline] @
     ''  BatchMode yes'' @ [newline] @
     ''  StrictHostKeyChecking yes'' @ [newline] @
     ''  UserKnownHostsFile '' @ quote_config_value known_hosts @ [newline] @
     ''  HostKeyAlgorithms '' @ algorithms @ [newline]"

definition ssh_command :: "engine_env \<Rightarrow> restic_repository \<Rightarrow> string \<Rightarrow> string outcome" where
  "ssh_command env r dir =
     (let key_path = join_paths [dir, ''identity'']; config_path = join_paths [dir, ''ssh_config''];
          known_hosts_path = join_paths [dir, ''known_hosts''];
          port = show_int (if rsr_SSHPort r = 0 then 22 else rsr_SSHPort r) in
      case sftp_endpoint (rsr_Location r) of
        Inl err \<Rightarrow> Inl err
      | Inr endpoint \<Rightarrow>
          (case
             (if rsr_KnownHosts r = [] then Inr (''ssh -i '' @ quote_ssh_argument key_path @ '' -p '' @ port @ '' -o BatchMode=yes'')
              else (case pinned_host_key_algorithms (eng_KnownHosts env (rsr_KnownHosts r)) of
                  Inl err \<Rightarrow> Inl err
                | Inr algorithms \<Rightarrow>
                    (case first_error [map_option (Wrapped ''write known hosts'') (eng_WriteFile env known_hosts_path (rsr_KnownHosts r)),
                        map_option (Wrapped ''write ssh config'') (eng_WriteFile env config_path (ssh_config known_hosts_path algorithms))] of
                       Some err \<Rightarrow> Inl err
                     | None \<Rightarrow> Inr (''ssh -F '' @ quote_ssh_argument config_path @ '' -i '' @ quote_ssh_argument key_path @ '' -p '' @ port))))
           of Inl err \<Rightarrow> Inl err
            | Inr command \<Rightarrow> Inr (command @ '' '' @ quote_ssh_argument endpoint @ '' -s sftp'')))"

definition ssh_arguments :: "engine_env \<Rightarrow> restic_repository \<Rightarrow> string list outcome" where
  "ssh_arguments env r =
     (case eng_MkdirAll env (eng_TempRoot env) of
        Some err \<Rightarrow> Inl (Wrapped ''create restic temp root'' err)
      | None \<Rightarrow>
          (case eng_MkdirTemp env (eng_TempRoot env) ''restic-run-'' of
             Inl err \<Rightarrow> Inl (Wrapped ''create restic temp directory'' err)
           | Inr dir \<Rightarrow>
               (case eng_WriteFile env (join_paths [dir, ''identity'']) (rsr_SSHPrivateKey r) of
                  Some err \<Rightarrow> Inl (Wrapped ''write ssh identity'' err)
                | None \<Rightarrow>
                    (case ssh_command env r dir of
                       Inl err \<Rightarrow> Inl err
                     | Inr command \<Rightarrow> Inr [''-o'', ''sftp.command='' @ command]))))"

section \<open>Running an operation\<close>

record restic_result =
  rsx_Outcome :: string
  rsx_SnapshotID :: string
  rsx_ExitCode :: int
  rsx_Stdout :: string
  rsx_Stderr :: string
  rsx_Summary :: "summary option"

abbreviation Success :: string where "Success \<equiv> ''success''"
abbreviation Partial :: string where "Partial \<equiv> ''partial''"
abbreviation Failure :: string where "Failure \<equiv> ''failure''"

datatype restic_error =
    Refused go_error
  | Execution_Error string int string "process_error option"

definition refused_result :: restic_result where
  "refused_result = \<lparr>rsx_Outcome = Failure, rsx_SnapshotID = [], rsx_ExitCode = -1, rsx_Stdout = [], rsx_Stderr = [],
     rsx_Summary = None\<rparr>"

fun process_error_text :: "process_error \<Rightarrow> string" where
  "process_error_text Not_Exist = ''file does not exist''"
| "process_error_text Not_Permitted = ''permission denied''"
| "process_error_text (Other_Failure msg) = msg"

fun restic_error_text :: "restic_error \<Rightarrow> string" where
  "restic_error_text (Refused err) = error_text err"
| "restic_error_text (Execution_Error kind code stderr cause) =
     ''restic '' @ kind @ '' failed with exit code '' @ show_int code @
       (if trim_space stderr \<noteq> [] then '': '' @ trim_space stderr else []) @
       (case cause of None \<Rightarrow> [] | Some e \<Rightarrow> '': '' @ process_error_text e)"

definition temporary_fragments :: "string list" where
  "temporary_fragments = [''connection refused'', ''connection reset'', ''network is unreachable'', ''no route to host'',
     ''i/o timeout'', ''timed out'', ''temporary failure'', ''ssh: connect'']"

fun restic_error_temporary :: "(string \<Rightarrow> string) \<Rightarrow> restic_error \<Rightarrow> bool" where
  "restic_error_temporary lower (Refused err) = False"
| "restic_error_temporary lower (Execution_Error kind code stderr cause) \<longleftrightarrow>
     code = 11 \<or> list_ex (\<lambda>fragment. sublist fragment (lower stderr)) temporary_fragments"

definition collects_summary :: "string \<Rightarrow> bool" where
  "collects_summary kind \<longleftrightarrow> kind = BackupDirectory \<or> kind = BackupCommand"

definition backup_summary :: "restic_json \<Rightarrow> string \<Rightarrow> process_run \<Rightarrow> string \<times> summary option" where
  "backup_summary js kind p =
     (let c = fold (collector_write js) (prc_Chunks p) new_collector in
      if collects_summary kind \<and> smc_seen c then collector_result js c
      else parsed_backup_summary js (prs_Stdout (prc_Result p)))"

definition interpret_run :: "restic_json \<Rightarrow> string \<Rightarrow> process_run \<Rightarrow> restic_result \<times> restic_error option" where
  "interpret_run js kind p =
     (let r = prc_Result p; (snapshot, summary) = backup_summary js kind p;
          result = \<lparr>rsx_Outcome = Success,
            rsx_SnapshotID = (if snapshot = [] then snapshot_id_of js (prs_Stdout r) else snapshot),
            rsx_ExitCode = prs_ExitCode r, rsx_Stdout = prs_Stdout r, rsx_Stderr = prs_Stderr r, rsx_Summary = summary\<rparr> in
      if prs_ExitCode r = 3 \<and> kind = BackupDirectory
      then (result\<lparr>rsx_Outcome := Partial, rsx_Summary := map_option (complete_file_evidence False) summary\<rparr>, None)
      else if prc_Error p = Some Not_Exist \<or> prc_Error p = Some Not_Permitted
      then (result, Some (Refused (Invalid
        ''restic executable is missing or not executable; install Restic before repository operations'')))
      else if prc_Error p \<noteq> None \<or> prs_ExitCode r \<noteq> 0
      then (result\<lparr>rsx_Outcome := Failure\<rparr>, Some (Execution_Error kind (prs_ExitCode r) (prs_Stderr r) (prc_Error p)))
      else if kind = BackupDirectory then
        let completed = map_option (complete_file_evidence True) summary in
        (result\<lparr>rsx_Outcome := (if file_evidence_differs completed then Partial else Success), rsx_Summary := completed\<rparr>, None)
      else (result, None))"

definition operation_environment :: "restic_operation \<Rightarrow> (string \<times> string) list" where
  "operation_environment op =
     (let r = rop_Repository op in
      (if uses_s3 r
       then AList.update ''AWS_DEFAULT_REGION'' (rsr_S3Region r) \<circ>
            AList.update ''AWS_SECRET_ACCESS_KEY'' (rsr_S3SecretKey r) \<circ>
            AList.update ''AWS_ACCESS_KEY_ID'' (rsr_S3AccessKey r)
       else id)
      (AList.update ''RESTIC_PASSWORD'' (rsr_Password r)
        (case rop_Command op of None \<Rightarrow> [] | Some c \<Rightarrow> cmd_Env c)))"

text \<open>A refusal is the result and the error; a failure to write the new password gives the empty result.\<close>

type_synonym refusal = "restic_result \<times> go_error"

abbreviation refuse :: "go_error \<Rightarrow> refusal + 'a" where "refuse err \<equiv> Inl (refused_result, err)"

definition empty_result :: restic_result where
  "empty_result = refused_result\<lparr>rsx_Outcome := [], rsx_ExitCode := 0\<rparr>"

definition add_key_arguments :: "engine_env \<Rightarrow> restic_operation \<Rightarrow> refusal + string list" where
  "add_key_arguments env op =
     (if rop_Kind op \<noteq> AddKey then Inr (rop_Arguments op)
      else if rop_NewPassword op = [] then refuse (Invalid ''new repository password is required'')
      else (case eng_MkdirTemp env (eng_TempRoot env) ''restic-key-'' of
          Inl err \<Rightarrow> Inl (empty_result, err)
        | Inr dir \<Rightarrow>
            let path = join_paths [dir, ''new-password''] in
            (case eng_WriteFile env path (rop_NewPassword op) of
               Some err \<Rightarrow> Inl (empty_result, err)
             | None \<Rightarrow> Inr (rop_Arguments op @ [''--new-password-file'', path]))))"

definition operation_spec :: "engine_env \<Rightarrow> restic_operation \<Rightarrow> refusal + command_spec" where
  "operation_spec env op =
     (let r = rop_Repository op in
      if eng_Program env = [] \<or> rsr_Location r = [] \<or> rsr_Password r = []
      then refuse (Invalid ''restic program, repository and password are required'')
      else (case (if uses_s3 r then validate_s3_material (eng_Net env) r else None) of
        Some err \<Rightarrow> refuse err
      | None \<Rightarrow>
          (case (if rsr_SSHPrivateKey r \<noteq> [] then ssh_arguments env r else Inr []) of
             Inl err \<Rightarrow> refuse err
           | Inr ssh \<Rightarrow>
               (case add_key_arguments env op of
                  Inl refusal \<Rightarrow> Inl refusal
                | Inr args \<Rightarrow>
                    (case build_operation_arguments (op\<lparr>rop_Arguments := args\<rparr>) of
                       Inl err \<Rightarrow> refuse err
                     | Inr operation_args \<Rightarrow>
                         Inr \<lparr>cmd_Program = eng_Program env,
                           cmd_Args = [''-r'', rsr_Location r] @
                             (if uses_s3 r then [''-o'', ''s3.region='' @ rsr_S3Region r,
                                ''-o'', ''s3.bucket-lookup='' @ rsr_S3BucketLookup r] else []) @
                             ssh @ operation_args,
                           cmd_Env = operation_environment op\<rparr>)))))"

text \<open>\<open>Execute\<close>: the result, the error, and the chunks the caller's writer is given.\<close>

definition restic_execute :: "engine_env \<Rightarrow> restic_operation \<Rightarrow> restic_result \<times> restic_error option \<times> string list" where
  "restic_execute env op =
     (case operation_spec env op of
        Inl (result, err) \<Rightarrow> (result, Some (Refused err), [])
      | Inr spec \<Rightarrow>
          let p = eng_Run env spec; (result, err) = interpret_run (eng_Json env) (rop_Kind op) p in
          (result, err, prc_Chunks p))"

section \<open>The collector reads what the output says\<close>

lemma consume_orders:
  "(consume_summary js line \<circ> consume_status js line \<circ> consume_error js line) st =
   (consume_summary js line \<circ> consume_error js line \<circ> consume_status js line) st"
  by (auto simp: consume_status_def consume_error_def split: option.splits
      intro!: arg_cong [where f = "consume_summary js line"] summary_state.equality)

interpretation collecting: line_sink "\<lambda>c. length (smc_buffer c) \<le> maximum_line_bytes" collector_append "collector_line_end js" for js
proof
  fix c :: summary_collector and x y :: string
  assume ok: "length (smc_buffer c) \<le> maximum_line_bytes"
  show "length (smc_buffer (collector_append x c)) \<le> maximum_line_bytes"
    using ok by (auto simp: collector_append_def Let_def min_def)
  show "length (smc_buffer (collector_line_end js c)) \<le> maximum_line_bytes" by (simp add: collector_line_end_def)
  show "collector_append [] c = c" by (simp add: collector_append_def Let_def)
  show "collector_append y (collector_append x c) = collector_append (x @ y) c"
    using ok by (simp add: collector_append_def Let_def)
qed

lemma collector_chunks:
  assumes "length (smc_buffer c) \<le> maximum_line_bytes"
  shows "fold (collector_write js) chunks c =
         (each_line collector_append (collector_line_end js) (concat chunks) c)
           \<lparr>smc_seen := smc_seen c \<or> concat chunks \<noteq> []\<rparr>"
proof -
  have keeps: "each_line collector_append (collector_line_end js) x (c\<lparr>smc_seen := b\<rparr>) =
      (each_line collector_append (collector_line_end js) x c)\<lparr>smc_seen := b\<rparr>" for x b and c :: summary_collector
    by (rule each_line_hom [where h = "smc_seen_update (\<lambda>_. b)"])
      (simp_all add: collector_append_def collector_line_end_def collector_consume_def Let_def summary_state.defs)
  show ?thesis using assms
  proof (induction chunks arbitrary: c)
    case (Cons x chunks)
    let ?read = "each_line collector_append (collector_line_end js)"
    let ?c = "(?read x c)\<lparr>smc_seen := smc_seen c \<or> x \<noteq> []\<rparr>"
    have "length (smc_buffer ?c) \<le> maximum_line_bytes"
      using collecting.ok_reading [OF Cons.prems, of js x] by simp
    from Cons.IH [OF this] have "fold (collector_write js) chunks ?c =
        (?read (concat chunks) (?read x c))\<lparr>smc_seen := (smc_seen c \<or> x \<noteq> []) \<or> concat chunks \<noteq> []\<rparr>"
      by (simp add: keeps)
    moreover have "collector_write js x c = ?c" by (simp add: collector_write_def keeps)
    ultimately show ?case by (simp add: collecting.reading_append [OF Cons.prems])
  qed simp
qed

abbreviation consume_line :: "restic_json \<Rightarrow> string \<Rightarrow> summary_state \<Rightarrow> summary_state" where
  "consume_line js line \<equiv> consume_summary js line \<circ> consume_error js line \<circ> consume_status js line"

lemma fold_last: "xs \<noteq> [] \<Longrightarrow> fold f xs st = f (last xs) (fold f (butlast xs) st)"
  by (induction xs rule: rev_induct) simp_all

lemma extended_state:
  "smc_buffer (summary_state.extend st \<lparr>smc_buffer = b, smc_seen = seen\<rparr>) = b"
  "smc_seen (summary_state.extend st \<lparr>smc_buffer = b, smc_seen = seen\<rparr>) = seen"
  "summary_state.truncate (summary_state.extend st \<lparr>smc_buffer = b, smc_seen = seen\<rparr>) = st"
  by (simp_all add: summary_state.defs)

lemma collector_line:
  assumes "smc_buffer c = []" and "length line \<le> maximum_line_bytes"
  shows "collector_line_end js (collector_append line c) =
         summary_state.extend (consume_line js line (summary_state.truncate c)) \<lparr>smc_buffer = [], smc_seen = smc_seen c\<rparr>"
  using assms consume_orders [of js line]
  by (simp add: collector_append_def collector_line_end_def collector_consume_def summary_state.defs)

lemma collector_lines:
  assumes "\<forall>line \<in> set ls. length line \<le> maximum_line_bytes" and "smc_buffer c = []"
  shows "fold (\<lambda>line c. collector_line_end js (collector_append line c)) ls c =
         summary_state.extend (fold (consume_line js) ls (summary_state.truncate c)) \<lparr>smc_buffer = [], smc_seen = smc_seen c\<rparr>"
  using assms
proof (induction ls arbitrary: c)
  case Nil
  then show ?case by (simp add: summary_state.defs)
next
  case (Cons line ls)
  let ?c = "collector_line_end js (collector_append line c)"
  have c: "?c = summary_state.extend (consume_line js line (summary_state.truncate c)) \<lparr>smc_buffer = [], smc_seen = smc_seen c\<rparr>"
    using Cons.prems by (intro collector_line) simp_all
  then have "smc_buffer ?c = []" and "summary_state.truncate ?c = consume_line js line (summary_state.truncate c)"
    and "smc_seen ?c = smc_seen c"
    by (simp_all only: extended_state)
  with Cons.IH [of ?c] Cons.prems show ?case by simp
qed

lemma consume_line_return:
  assumes "\<forall>line. rjs_Summary js (line @ [CHR 0x0D]) = rjs_Summary js line"
    and "\<forall>line. rjs_Status js (line @ [CHR 0x0D]) = rjs_Status js line"
    and "\<forall>line. rjs_Error js (line @ [CHR 0x0D]) = rjs_Error js line"
  shows "consume_line js (drop_return line) = consume_line js line"
proof (cases "line \<noteq> [] \<and> last line = CHR 0x0D")
  case True
  then obtain l where "line = l @ [CHR 0x0D]" by (metis append_butlast_last_id)
  with assms show ?thesis
    by (simp add: drop_return_def fun_eq_iff consume_summary_def consume_status_def consume_error_def source_error_item_def)
next
  case False
  then have "drop_return line = line" by (auto simp: drop_return_def)
  then show ?thesis by simp
qed

lemma collector_reads_lines:
  assumes "\<forall>line \<in> set (split_on newline x). length line < 2 ^ 20" and "smc_buffer c = []"
  shows "collector_result js (each_line collector_append (collector_line_end js) x c) =
         summary_result (fold (consume_line js) (output_lines x) (summary_state.truncate c))"
proof -
  let ?ls = "split_on newline x" and ?step = "\<lambda>line c. collector_line_end js (collector_append line c)"
  let ?c = "fold ?step (butlast ?ls) c"
  have short: "\<forall>line \<in> set (butlast ?ls). length line \<le> maximum_line_bytes" "length (last ?ls) < maximum_line_bytes"
    using assms(1) in_set_butlastD less_imp_le last_in_set [OF split_on_nonempty] by meson+
  have c: "?c = summary_state.extend (fold (consume_line js) (butlast ?ls) (summary_state.truncate c))
      \<lparr>smc_buffer = [], smc_seen = smc_seen c\<rparr>"
    using short(1) assms(2) by (rule collector_lines)
  then have buffer: "smc_buffer ?c = []" and state: "summary_state.truncate ?c = fold (consume_line js) (butlast ?ls) (summary_state.truncate c)"
    by (simp_all only: extended_state)
  have read: "each_line collector_append (collector_line_end js) x c = collector_append (last ?ls) ?c"
    using assms(2) by (intro collecting.reading_split) simp
  have kept: "smc_buffer (collector_append (last ?ls) ?c) = last ?ls"
    "summary_state.truncate (collector_append (last ?ls) ?c) = summary_state.truncate ?c"
    using buffer short(2) by (simp_all add: collector_append_def summary_state.defs)
  show ?thesis
  proof (cases "last ?ls = []")
    case True
    with kept state show ?thesis by (simp add: read collector_result_def output_lines_def)
  next
    case False
    have "fold (consume_line js) ?ls st = consume_line js (last ?ls) (fold (consume_line js) (butlast ?ls) st)" for st
      by (rule fold_last) simp
    moreover have "summary_state.truncate (collector_line_end js (collector_append (last ?ls) ?c)) =
        consume_line js (last ?ls) (summary_state.truncate ?c)"
      using collector_line [OF buffer, of "last ?ls" js] short(2) by (simp only: extended_state less_imp_le)
    ultimately show ?thesis using False kept(1) state by (simp add: read collector_result_def output_lines_def)
  qed
qed

lemma backup_summary_parsed:
  assumes "\<forall>line. rjs_Summary js (line @ [CHR 0x0D]) = rjs_Summary js line"
    and "\<forall>line. rjs_Status js (line @ [CHR 0x0D]) = rjs_Status js line"
    and "\<forall>line. rjs_Error js (line @ [CHR 0x0D]) = rjs_Error js line"
    and "\<forall>line \<in> set (split_on newline (concat (prc_Chunks p))). length line < 2 ^ 20"
    and "prs_Stdout (prc_Result p) = captured limit (prc_Chunks p)" and "collects_summary kind"
  shows "backup_summary js kind p = parsed_backup_summary js (concat (prc_Chunks p))"
proof -
  let ?x = "concat (prc_Chunks p)" and ?c = "fold (collector_write js) (prc_Chunks p) new_collector"
  have new: "smc_buffer new_collector = []" "summary_state.truncate new_collector = no_summary" "\<not> smc_seen new_collector"
    by (simp_all add: new_collector_def extended_state)
  have c: "?c = (each_line collector_append (collector_line_end js) ?x new_collector)\<lparr>smc_seen := ?x \<noteq> []\<rparr>"
    using collector_chunks [of new_collector js "prc_Chunks p"] new by simp
  have "set (output_lines ?x) \<subseteq> set (split_on newline ?x)" by (auto simp: output_lines_def Let_def dest: in_set_butlastD)
  then have "takeWhile (\<lambda>line. length line < 2 ^ 20) (output_lines ?x) = output_lines ?x"
    using assms(4) by (intro takeWhile_eq_all_conv [THEN iffD2]) blast
  note whole = this
  have "fold (\<lambda>line. consume_line js line) (map drop_return ls) st = fold (consume_line js) ls st" for ls st
    using consume_line_return [OF assms(1-3)] by (induction ls arbitrary: st) simp_all
  then have parsed: "parsed_backup_summary js ?x = summary_result (fold (consume_line js) (output_lines ?x) no_summary)"
    unfolding parsed_backup_summary_def scan_lines_def whole by simp
  have seen: "collector_result js (d\<lparr>smc_seen := b\<rparr>) = collector_result js d" for d b
    by (simp add: collector_result_def collector_line_end_def collector_consume_def summary_state.defs)
  show ?thesis
  proof (cases "?x = []")
    case True
    have "captured limit (prc_Chunks p) = ?x" unfolding captured_take True by simp
    with assms(5,6) c True show ?thesis unfolding backup_summary_def Let_def by (simp only: simp_thms if_False) simp
  next
    case False
    with assms(6) c show ?thesis
      using collector_reads_lines [OF assms(4) new(1), of js] by (simp add: backup_summary_def parsed seen new(2))
  qed
qed

definition json_example :: restic_json where
  "json_example = \<lparr>rjs_Summary = (\<lambda>line. if filter (\<lambda>c. c \<noteq> CHR 0x0D) line = ''done''
       then Some \<lparr>srm_MessageType = ''summary'', srm_SnapshotID = ''5e1f'', srm_FilesNew = Some 2, srm_FilesChanged = None,
         srm_FilesUnmodified = None, srm_TotalFilesProcessed = Some 2, srm_TotalBytesProcessed = None, srm_DataAdded = None,
         srm_DataAddedPacked = None, srm_TotalDuration = None\<rparr> else None),
     rjs_Status = (\<lambda>line. None),
     rjs_Error = (\<lambda>line. if filter (\<lambda>c. c \<noteq> CHR 0x0D) line = ''lost'' then Some \<lparr>sem_MessageType = ''error'',
       sem_During = ''archival'', sem_Item = ''/srv/a''\<rparr> else None),
     rjs_SnapshotID = (\<lambda>line. None)\<rparr>"

definition run_of :: "int \<Rightarrow> string list \<Rightarrow> process_run" where
  "run_of code chunks = \<lparr>prc_Result = \<lparr>prs_ExitCode = code, prs_Stdout = captured 0 chunks, prs_Stderr = []\<rparr>,
     prc_Chunks = chunks, prc_Error = (if code = 0 then None else Some (Other_Failure ''exit status''))\<rparr>"

definition observed_example :: summary where
  "observed_example = [(''filesNew'', AnyInt 2), (''filesProcessed'', AnyInt 2), (''filesFailed'', AnyInt 1), (''filesChanged'', AnyInt 2)]"

lemma json_example_return:
  "\<forall>line. rjs_Summary json_example (line @ [CHR 0x0D]) = rjs_Summary json_example line"
  "\<forall>line. rjs_Status json_example (line @ [CHR 0x0D]) = rjs_Status json_example line"
  "\<forall>line. rjs_Error json_example (line @ [CHR 0x0D]) = rjs_Error json_example line"
  by (simp_all add: json_example_def)

lemma parsed_example:
  "parsed_backup_summary json_example (''lost'' @ [newline] @ ''done'' @ [newline]) = (''5e1f'', Some observed_example)"
  by (simp add: parsed_backup_summary_def scan_lines_def output_lines_def drop_return_def consume_summary_def
      consume_error_def consume_status_def source_error_item_def json_example_def no_summary_def summary_result_def
      restic_summary_values_def put_count_def put_changed_def put_duration_def valid_non_negative_def non_negative_or_zero_def
      max_int64_def observed_example_def)

text \<open>
  C19: the summary of a backup does not depend on how its output arrives: whatever the chunks, and
  also when the output is longer than what the executor keeps of it, the engine reports what
  \<open>parsedBackupSummary\<close> reads from the whole output, provided no line is longer than the scanner's
  buffer and a carriage return before a line feed is white space to the JSON parser.
\<close>
theorem collector_reads_output:
  assumes "\<forall>line. rjs_Summary js (line @ [CHR 0x0D]) = rjs_Summary js line"
    and "\<forall>line. rjs_Status js (line @ [CHR 0x0D]) = rjs_Status js line"
    and "\<forall>line. rjs_Error js (line @ [CHR 0x0D]) = rjs_Error js line"
    and "\<forall>line \<in> set (split_on newline (concat (prc_Chunks p))). length line < 2 ^ 20"
    and "prs_Stdout (prc_Result p) = captured limit (prc_Chunks p)" and "collects_summary kind"
  shows "backup_summary js kind p = parsed_backup_summary js (concat (prc_Chunks p))"
  using assms by (rule backup_summary_parsed)

theorem collector_reads_output_witness:
  "backup_summary json_example BackupDirectory (run_of 3 [''lo'', ''st'' @ [newline] @ ''do'', ''ne'' @ [newline]]) =
   (''5e1f'', Some observed_example)"
  using collector_reads_output [OF json_example_return, of "run_of 3 [''lo'', ''st'' @ [newline] @ ''do'', ''ne'' @ [newline]]"
      0 BackupDirectory] parsed_example
  by (simp add: run_of_def collects_summary_def)

section \<open>The outcome of a directory backup\<close>

lemma int64_at_update [simp]:
  "int64_at (AList.update key (AnyInt n) s) key' = (if key' = key then Some n else int64_at s key')"
  by (simp add: int64_at_def update_conv')

text \<open>
  C9: the outcome of a directory backup is honest about the files that were not read. When the engine
  accepts the run and knows how many files were processed, the stored evidence adds up: expected is
  processed plus failed, every failure Restic named is counted, the exit code 3 counts at least one,
  and the outcome is a success exactly when none failed.
\<close>
theorem backup_outcome_is_honest:
  assumes "interpret_run js BackupDirectory p = (r, None)" and "snd (backup_summary js BackupDirectory p) = Some observed"
    and "int64_at observed ''filesProcessed'' = Some processed" and "processed < max_int64"
    and "\<forall>f. int64_at observed ''filesFailed'' = Some f \<longrightarrow> processed + f \<le> max_int64"
  shows "\<exists>s failed. rsx_Summary r = Some s \<and> int64_at s ''filesProcessed'' = Some processed \<and>
           int64_at s ''filesFailed'' = Some failed \<and> int64_at s ''filesExpected'' = Some (processed + failed) \<and>
           0 \<le> failed \<and> (\<forall>f. int64_at observed ''filesFailed'' = Some f \<longrightarrow> f \<le> failed) \<and>
           (rsx_ExitCode r = 3 \<longrightarrow> failed > 0) \<and> (rsx_Outcome r = Success \<longleftrightarrow> failed = 0)"
proof -
  have evidence: "\<exists>failed. int64_at (complete_file_evidence b observed) ''filesProcessed'' = Some processed \<and>
      int64_at (complete_file_evidence b observed) ''filesFailed'' = Some failed \<and>
      int64_at (complete_file_evidence b observed) ''filesExpected'' = Some (processed + failed) \<and>
      0 \<le> failed \<and> (\<forall>f. int64_at observed ''filesFailed'' = Some f \<longrightarrow> f \<le> failed) \<and> (\<not> b \<longrightarrow> failed > 0)" for b
    using assms(3-5)
    by (cases "int64_at observed ''filesFailed''"; cases "int64_at observed ''filesExpected''")
       (auto simp: complete_file_evidence_def Let_def)
  show ?thesis
  proof (cases "prs_ExitCode (prc_Result p) = 3")
    case True
    with assms(1,2) have "rsx_Summary r = Some (complete_file_evidence False observed)" and "rsx_Outcome r = Partial"
      by (auto simp: interpret_run_def Let_def split: prod.splits)
    then show ?thesis using evidence [of False] by auto
  next
    case False
    with assms(1,2) have "rsx_Summary r = Some (complete_file_evidence True observed)"
      and "rsx_Outcome r = (if file_evidence_differs (rsx_Summary r) then Partial else Success)" and "rsx_ExitCode r = 0"
      by (auto simp: interpret_run_def Let_def split: prod.splits if_splits)
    then show ?thesis using evidence [of True] by (auto simp: file_evidence_differs_def)
  qed
qed

lemma observed_run: "backup_summary json_example BackupDirectory (run_of 0 [''lost'' @ [newline] @ ''done'' @ [newline]]) = (''5e1f'', Some observed_example)"
  using backup_summary_parsed [OF json_example_return, of "run_of 0 [''lost'' @ [newline] @ ''done'' @ [newline]]" 0 BackupDirectory]
    parsed_example
  by (simp add: run_of_def collects_summary_def)

theorem backup_outcome_is_honest_witness:
  "\<exists>r. interpret_run json_example BackupDirectory (run_of 0 [''lost'' @ [newline] @ ''done'' @ [newline]]) = (r, None) \<and>
       rsx_Outcome r \<noteq> Success"
proof -
  let ?p = "run_of 0 [''lost'' @ [newline] @ ''done'' @ [newline]]"
  have "snd (interpret_run json_example BackupDirectory ?p) = None"
    using observed_run by (simp add: interpret_run_def run_of_def Let_def)
  then obtain r where r: "interpret_run json_example BackupDirectory ?p = (r, None)" by (metis prod.collapse)
  have "\<exists>s failed. rsx_Summary r = Some s \<and> int64_at s ''filesProcessed'' = Some 2 \<and>
      int64_at s ''filesFailed'' = Some failed \<and> int64_at s ''filesExpected'' = Some (2 + failed) \<and> 0 \<le> failed \<and>
      (\<forall>f. int64_at observed_example ''filesFailed'' = Some f \<longrightarrow> f \<le> failed) \<and>
      (rsx_ExitCode r = 3 \<longrightarrow> failed > 0) \<and> (rsx_Outcome r = Success \<longleftrightarrow> failed = 0)"
    by (rule backup_outcome_is_honest [OF r], simp only: observed_run snd_conv)
      (simp_all add: observed_example_def int64_at_def max_int64_def)
  then have "rsx_Outcome r \<noteq> Success" by (auto simp: observed_example_def int64_at_def)
  with r show ?thesis by blast
qed

end
