(* ===== verification/Snapshot_Contents.thy ===== *)
theory Snapshot_Contents
  imports Restic_Engine Resource_Tables "HOL-Library.Multiset"
begin

text \<open>
  Reading the contents of snapshots, of src/internal/repository/service.go: the writer that cuts a
  listing into lines while it arrives, the pages of \<open>BrowseSnapshotContents\<close> with their cursors, and
  the comparison of two snapshots.

  A listing is what an operation of the engine answers for its arguments: the result, an error, and
  the chunks given to the writer. The JSON decoders, the encoding of a cursor (JSON in base64),
  \<open>strings.ToLower\<close> and SHA-256 are arguments.
\<close>

section \<open>Nodes and queries\<close>

record snapshot_node =
  sno_Name :: string
  sno_Type :: string
  sno_Path :: string
  sno_Size :: int
  sno_ModTime :: string

record contents_query =
  cq_Path :: string
  cq_Search :: string
  cq_Cursor :: string
  cq_Limit :: int
  cq_Recursive :: bool

record contents_page =
  cpg_Items :: "snapshot_node list"
  cpg_Path :: string
  cpg_Search :: string
  cpg_Recursive :: bool
  cpg_Truncated :: bool
  cpg_NextCursor :: string

record contents_env =
  cen_Node :: "string \<Rightarrow> (string \<times> snapshot_node) outcome"
  cen_Lower :: "string \<Rightarrow> string"
  cen_Sha256 :: "string \<Rightarrow> string"
  cen_EncodeCursor :: "int \<times> string \<Rightarrow> string"
  cen_DecodeCursor :: "string \<Rightarrow> (int \<times> string) option"

definition safe_snapshot_id :: "string \<Rightarrow> bool" where
  "safe_snapshot_id value \<longleftrightarrow> value \<noteq> [] \<and> \<not> prefix ''-'' value \<and> length value \<le> 128 \<and>
     list_all (\<lambda>c. is_ascii_letter c \<or> is_digit c) value"

definition normalize_snapshot_path :: "string \<Rightarrow> string outcome" where
  "normalize_snapshot_path path =
     (let trimmed = trim_space path in
      if contains_any line_breaks trimmed then Inl (Invalid ''snapshot path contains an invalid character'')
      else if trimmed = [] then Inr []
      else if \<not> is_abs (clean_path trimmed) then Inl (Invalid ''snapshot path must be absolute'')
      else Inr (clean_path trimmed))"

definition normalize_contents_query :: "string \<Rightarrow> contents_query \<Rightarrow> contents_query outcome" where
  "normalize_contents_query snapshot query =
     (if \<not> safe_snapshot_id snapshot then Inl (Invalid ''valid snapshot id is required'')
      else (case normalize_snapshot_path (cq_Path query) of
        Inl err \<Rightarrow> Inl err
      | Inr path \<Rightarrow>
          let search = trim_space (cq_Search query); limit = (if cq_Limit query = 0 then 200 else cq_Limit query) in
          if length search > 256 \<or> contains_any line_breaks search then Inl (Invalid ''snapshot search is invalid'')
          else if limit < 1 \<or> limit > 500 then Inl (Invalid ''snapshot page limit must be between 1 and 500'')
          else Inr (query\<lparr>cq_Path := path, cq_Search := search, cq_Limit := limit,
              cq_Recursive := cq_Recursive query \<or> search \<noteq> []\<rparr>)))"

definition contents_canonical :: "contents_env \<Rightarrow> string \<Rightarrow> contents_query \<Rightarrow> string" where
  "contents_canonical env snapshot query =
     ''snapshot-contents/v1'' @ [newline] @ ''snapshot='' @ snapshot @ [newline] @ ''path='' @ cq_Path query @ [newline] @
     ''search='' @ cen_Lower env (cq_Search query) @ [newline] @
     ''recursive='' @ (if cq_Recursive query then ''true'' else ''false'') @ [newline] @
     ''limit='' @ show_int (cq_Limit query) @ [newline]"

definition contents_fingerprint :: "contents_env \<Rightarrow> string \<Rightarrow> contents_query \<Rightarrow> string" where
  "contents_fingerprint env snapshot query = hex_encode (take 16 (cen_Sha256 env (contents_canonical env snapshot query)))"

definition contents_offset :: "contents_env \<Rightarrow> string \<Rightarrow> contents_query \<Rightarrow> int outcome" where
  "contents_offset env snapshot query =
     (if cq_Cursor query = [] then Inr 0
      else (case cen_DecodeCursor env (cq_Cursor query) of
          None \<Rightarrow> Inl (Invalid ''snapshot cursor is invalid'')
        | Some (offset, fingerprint) \<Rightarrow>
            if offset < 1 \<or> fingerprint \<noteq> contents_fingerprint env snapshot query
            then Inl (Invalid ''snapshot cursor does not match this query'') else Inr offset))"

definition encode_contents_cursor :: "contents_env \<Rightarrow> string \<Rightarrow> contents_query \<Rightarrow> int \<Rightarrow> string" where
  "encode_contents_cursor env snapshot query offset =
     cen_EncodeCursor env (offset, contents_fingerprint env snapshot query)"

definition node_matches :: "contents_env \<Rightarrow> snapshot_node \<Rightarrow> contents_query \<Rightarrow> bool" where
  "node_matches env node query \<longleftrightarrow>
     (cq_Path query = [] \<or>
       (case rel_path (cq_Path query) (sno_Path node) of
          None \<Rightarrow> False
        | Some relative \<Rightarrow> \<not> escapes relative \<and> (cq_Recursive query \<or> dir_path (sno_Path node) = cq_Path query))) \<and>
     (cq_Search query = [] \<or>
       sublist (cen_Lower env (cq_Search query)) (cen_Lower env (sno_Path node)) \<or>
       sublist (cen_Lower env (cq_Search query)) (cen_Lower env (sno_Name node)))"

definition decode_snapshot_node :: "contents_env \<Rightarrow> string \<Rightarrow> snapshot_node option outcome" where
  "decode_snapshot_node env line =
     (if blank line then Inr None
      else (case cen_Node env line of
          Inl err \<Rightarrow> Inl err
        | Inr (struct_type, node) \<Rightarrow>
            if struct_type \<noteq> ''node'' \<or> (sno_Type node \<noteq> ''dir'' \<and> sno_Type node \<noteq> ''file'') \<or>
               \<not> is_abs (clean_path (sno_Path node)) \<or> clean_path (sno_Path node) \<noteq> sno_Path node
            then Inr None else Inr (Some node)))"

section \<open>The line writer\<close>

abbreviation maximum_snapshot_line :: nat where "maximum_snapshot_line \<equiv> 2 ^ 20"

text \<open>The writer carries what its \<open>visit\<close> closure changes, \<open>lw_Seen\<close>.\<close>

record 'a line_writer =
  lw_Pending :: string
  lw_Err :: check
  lw_Written :: nat
  lw_Discarding :: bool
  lw_Seen :: 'a

type_synonym 'a visitor = "string \<Rightarrow> 'a \<Rightarrow> 'a \<times> check"

definition new_line_writer :: "'a \<Rightarrow> 'a line_writer" where
  "new_line_writer seen = \<lparr>lw_Pending = [], lw_Err = None, lw_Written = 0, lw_Discarding = False, lw_Seen = seen\<rparr>"

definition line_too_long :: go_error where
  "line_too_long = Invalid ''snapshot content line exceeds the safety limit''"

definition lw_take :: "string \<Rightarrow> 'a line_writer \<Rightarrow> 'a line_writer" where
  "lw_take part w =
     (if lw_Discarding w then w
      else if length (lw_Pending w) + length part > maximum_snapshot_line
      then w\<lparr>lw_Err := (if lw_Err w = None then Some line_too_long else lw_Err w), lw_Pending := [], lw_Discarding := True\<rparr>
      else w\<lparr>lw_Pending := lw_Pending w @ part\<rparr>)"

definition lw_visit :: "'a visitor \<Rightarrow> 'a line_writer \<Rightarrow> 'a line_writer" where
  "lw_visit visit w =
     (if \<not> lw_Discarding w \<and> lw_Pending w \<noteq> [] \<and> lw_Err w = None
      then (case visit (lw_Pending w) (lw_Seen w) of (seen, err) \<Rightarrow> w\<lparr>lw_Seen := seen, lw_Err := err\<rparr>)
      else w)"

definition lw_line_end :: "'a visitor \<Rightarrow> 'a line_writer \<Rightarrow> 'a line_writer" where
  "lw_line_end visit w = (lw_visit visit w)\<lparr>lw_Pending := [], lw_Discarding := False\<rparr>"

definition lw_write :: "'a visitor \<Rightarrow> string \<Rightarrow> 'a line_writer \<Rightarrow> 'a line_writer" where
  "lw_write visit input w = each_line lw_take (lw_line_end visit) input (w\<lparr>lw_Written := lw_Written w + length input\<rparr>)"

definition lw_finish :: "'a visitor \<Rightarrow> 'a line_writer \<Rightarrow> 'a line_writer" where
  "lw_finish visit w = (lw_visit visit w)\<lparr>lw_Pending := []\<rparr>"

type_synonym listing = "restic_result \<times> check \<times> string list"

definition listing_arguments :: "string \<Rightarrow> string \<Rightarrow> bool \<Rightarrow> string list" where
  "listing_arguments snapshot path recursive =
     [snapshot] @ (if path \<noteq> [] then [path] else []) @ (if recursive then [''--recursive''] else [])"

definition node_visitor :: "contents_env \<Rightarrow> (snapshot_node \<Rightarrow> 'a \<Rightarrow> 'a \<times> check) \<Rightarrow> 'a visitor" where
  "node_visitor env visit line seen =
     (case decode_snapshot_node env line of
        Inl err \<Rightarrow> (seen, Some err)
      | Inr None \<Rightarrow> (seen, None)
      | Inr (Some node) \<Rightarrow> visit node seen)"

definition stream_snapshot_contents ::
  "contents_env \<Rightarrow> (string list \<Rightarrow> listing) \<Rightarrow> string \<Rightarrow> string \<Rightarrow> bool \<Rightarrow> (snapshot_node \<Rightarrow> 'a \<Rightarrow> 'a \<times> check) \<Rightarrow> 'a \<Rightarrow> 'a \<times> check" where
  "stream_snapshot_contents env exec snapshot path recursive visit seen =
     (let (result, err, chunks) = exec (listing_arguments snapshot path recursive);
          write = lw_write (node_visitor env visit);
          lines = fold write chunks (new_line_writer seen);
          all_lines = (if lw_Written lines = 0 \<and> rsx_Stdout result \<noteq> [] then write (rsx_Stdout result) lines else lines);
          done_lines = lw_finish (node_visitor env visit) all_lines in
      (lw_Seen done_lines,
       if err \<noteq> None then err else map_option (Wrapped ''decode snapshot contents'') (lw_Err done_lines)))"

section \<open>Pages\<close>

definition browse_visit ::
  "contents_env \<Rightarrow> contents_query \<Rightarrow> int \<Rightarrow> snapshot_node \<Rightarrow> int \<times> snapshot_node list \<times> bool \<Rightarrow> (int \<times> snapshot_node list \<times> bool) \<times> check" where
  "browse_visit env query offset node = (\<lambda>(matched, items, truncated).
     (if \<not> node_matches env node query then (matched, items, truncated)
      else if matched < offset then (matched + 1, items, truncated)
      else if int (length items) < cq_Limit query then (matched + 1, items @ [node], truncated)
      else (matched, items, True), None))"

definition browse_snapshot_contents ::
  "contents_env \<Rightarrow> (string list \<Rightarrow> listing) \<Rightarrow> string \<Rightarrow> contents_query \<Rightarrow> contents_page outcome" where
  "browse_snapshot_contents env exec snapshot query0 =
     (case normalize_contents_query snapshot query0 of
        Inl err \<Rightarrow> Inl err
      | Inr query \<Rightarrow>
          (case contents_offset env snapshot query of
             Inl err \<Rightarrow> Inl err
           | Inr offset \<Rightarrow>
               (case stream_snapshot_contents env exec snapshot (cq_Path query) (cq_Recursive query)
                    (browse_visit env query offset) (0, [], False) of
                  (_, Some err) \<Rightarrow> Inl err
                | ((_, items, truncated), None) \<Rightarrow>
                    Inr \<lparr>cpg_Items = items, cpg_Path = cq_Path query, cpg_Search = cq_Search query,
                      cpg_Recursive = cq_Recursive query, cpg_Truncated = truncated,
                      cpg_NextCursor = (if truncated
                        then encode_contents_cursor env snapshot query (offset + int (length items)) else [])\<rparr>)))"

section \<open>Comparing snapshots\<close>

record diff_query =
  dq_Path :: string
  dq_Limit :: int

record snapshot_change =
  chg_Path :: string
  chg_Change :: string
  chg_Type :: string
  chg_Size :: int
  chg_Previous :: int

record snapshot_diff =
  sdf_From :: string
  sdf_To :: string
  sdf_Path :: string
  sdf_Added :: int
  sdf_Modified :: int
  sdf_Removed :: int
  sdf_Items :: "snapshot_change list"
  sdf_ExamplesTruncated :: bool
  sdf_Incomplete :: bool

text \<open>The index of a snapshot is a Go map: the association list of its paths, in the order of their first occurrence.\<close>

type_synonym snapshot_index = "(string \<times> snapshot_node) list"

abbreviation maximum_diff_nodes :: nat where "maximum_diff_nodes \<equiv> 1000000"

definition index_visit ::
  "contents_env \<Rightarrow> string \<Rightarrow> snapshot_node \<Rightarrow> snapshot_index \<times> bool \<Rightarrow> (snapshot_index \<times> bool) \<times> check" where
  "index_visit env path node = (\<lambda>(index, incomplete).
     (if path \<noteq> [] \<and> \<not> node_matches env node
           \<lparr>cq_Path = path, cq_Search = [], cq_Cursor = [], cq_Limit = 0, cq_Recursive = True\<rparr> then (index, incomplete)
      else if map_of index (sno_Path node) = None \<and> length index \<ge> maximum_diff_nodes then (index, True)
      else (AList.update (sno_Path node) node index, incomplete), None))"

definition snapshot_index ::
  "contents_env \<Rightarrow> (string list \<Rightarrow> listing) \<Rightarrow> string \<Rightarrow> string \<Rightarrow> (snapshot_index \<times> bool) \<times> check" where
  "snapshot_index env exec snapshot path =
     stream_snapshot_contents env exec snapshot path True (index_visit env path) ([], False)"

definition node_differs :: "snapshot_node \<Rightarrow> snapshot_node \<Rightarrow> bool" where
  "node_differs previous current \<longleftrightarrow>
     sno_Type previous \<noteq> sno_Type current \<or> sno_Size previous \<noteq> sno_Size current \<or> sno_ModTime previous \<noteq> sno_ModTime current"

definition added_change :: "string \<Rightarrow> snapshot_node \<Rightarrow> snapshot_change" where
  "added_change path current =
     \<lparr>chg_Path = path, chg_Change = ''added'', chg_Type = sno_Type current, chg_Size = sno_Size current, chg_Previous = 0\<rparr>"

definition modified_change :: "string \<Rightarrow> snapshot_node \<Rightarrow> snapshot_node \<Rightarrow> snapshot_change" where
  "modified_change path previous current =
     \<lparr>chg_Path = path, chg_Change = ''modified'', chg_Type = sno_Type current, chg_Size = sno_Size current,
      chg_Previous = sno_Size previous\<rparr>"

definition removed_change :: "string \<Rightarrow> snapshot_node \<Rightarrow> snapshot_change" where
  "removed_change path previous =
     \<lparr>chg_Path = path, chg_Change = ''removed'', chg_Type = sno_Type previous, chg_Size = 0, chg_Previous = sno_Size previous\<rparr>"

definition diff_after :: "snapshot_index \<Rightarrow> string \<times> snapshot_node \<Rightarrow> snapshot_diff \<times> snapshot_change list \<Rightarrow> snapshot_diff \<times> snapshot_change list" where
  "diff_after before = (\<lambda>(path, current) (diff, changes).
     (case map_of before path of
        None \<Rightarrow> (diff\<lparr>sdf_Added := sdf_Added diff + 1\<rparr>, changes @ [added_change path current])
      | Some previous \<Rightarrow>
          if node_differs previous current
          then (diff\<lparr>sdf_Modified := sdf_Modified diff + 1\<rparr>, changes @ [modified_change path previous current])
          else (diff, changes)))"

definition diff_before :: "snapshot_index \<Rightarrow> string \<times> snapshot_node \<Rightarrow> snapshot_diff \<times> snapshot_change list \<Rightarrow> snapshot_diff \<times> snapshot_change list" where
  "diff_before after = (\<lambda>(path, previous) (diff, changes).
     (if map_of after path \<noteq> None then (diff, changes)
      else (diff\<lparr>sdf_Removed := sdf_Removed diff + 1\<rparr>, changes @ [removed_change path previous])))"

text \<open>\<open>sort.Slice\<close> by path and then by the kind of change.\<close>

definition sort_changes :: "snapshot_change list \<Rightarrow> snapshot_change list" where
  "sort_changes changes = sort_key chg_Path (sort_key chg_Change changes)"

definition diff_indexes :: "snapshot_index \<Rightarrow> snapshot_index \<Rightarrow> int \<Rightarrow> snapshot_diff \<Rightarrow> snapshot_diff" where
  "diff_indexes before after limit diff0 =
     (case fold (diff_before after) before (fold (diff_after before) after (diff0, [])) of
        (diff, changes) \<Rightarrow>
          let sorted_changes = sort_changes changes in
          if int (length sorted_changes) > limit
          then diff\<lparr>sdf_ExamplesTruncated := True, sdf_Items := take (nat limit) sorted_changes\<rparr>
          else diff\<lparr>sdf_Items := sorted_changes\<rparr>)"

definition compare_snapshots ::
  "contents_env \<Rightarrow> (string list \<Rightarrow> listing) \<Rightarrow> string \<Rightarrow> string \<Rightarrow> diff_query \<Rightarrow> snapshot_diff outcome" where
  "compare_snapshots env exec from_id to_id query =
     (if \<not> safe_snapshot_id from_id \<or> \<not> safe_snapshot_id to_id \<or> from_id = to_id
      then Inl (Invalid ''two different valid snapshot ids are required'')
      else (case normalize_snapshot_path (dq_Path query) of
        Inl err \<Rightarrow> Inl err
      | Inr path \<Rightarrow>
          let limit = (if dq_Limit query = 0 then 100 else dq_Limit query) in
          if limit < 1 \<or> limit > 500 then Inl (Invalid ''snapshot diff example limit must be between 1 and 500'')
          else (case snapshot_index env exec from_id path of
            (_, Some err) \<Rightarrow> Inl err
          | ((before, before_incomplete), None) \<Rightarrow>
              (case snapshot_index env exec to_id path of
                 (_, Some err) \<Rightarrow> Inl err
               | ((after, after_incomplete), None) \<Rightarrow>
                   Inr (diff_indexes before after limit
                     \<lparr>sdf_From = from_id, sdf_To = to_id, sdf_Path = path, sdf_Added = 0, sdf_Modified = 0, sdf_Removed = 0,
                      sdf_Items = [], sdf_ExamplesTruncated = False, sdf_Incomplete = before_incomplete \<or> after_incomplete\<rparr>)))))"

section \<open>The writer reads the lines of the whole listing\<close>

interpretation listing_writer: line_sink "\<lambda>w. length (lw_Pending w) \<le> maximum_snapshot_line" lw_take "lw_line_end visit"
  for visit :: "'a visitor"
proof
  fix w :: "'a line_writer" and x y :: string
  assume ok: "length (lw_Pending w) \<le> maximum_snapshot_line"
  show "length (lw_Pending (lw_take x w)) \<le> maximum_snapshot_line" using ok by (simp add: lw_take_def)
  show "length (lw_Pending (lw_line_end visit w)) \<le> maximum_snapshot_line" by (simp add: lw_line_end_def)
  show "lw_take [] w = w" using ok by (simp add: lw_take_def)
  show "lw_take y (lw_take x w) = lw_take (x @ y) w" by (simp add: lw_take_def)
qed

definition read_line :: "'a visitor \<Rightarrow> string \<Rightarrow> 'a \<times> check \<Rightarrow> 'a \<times> check" where
  "read_line visit line = (\<lambda>(seen, err).
     if length line > maximum_snapshot_line then (seen, Some (case err of None \<Rightarrow> line_too_long | Some e \<Rightarrow> e))
     else if line \<noteq> [] \<and> err = None then visit line seen
     else (seen, err))"

abbreviation writer_state :: "'a line_writer \<Rightarrow> 'a \<times> check" where "writer_state w \<equiv> (lw_Seen w, lw_Err w)"

lemma writer_line:
  assumes "lw_Pending w = []" and "\<not> lw_Discarding w"
  shows "writer_state (lw_visit visit (lw_take line w)) = read_line visit line (writer_state w)"
  using assms by (auto simp: lw_visit_def lw_take_def read_line_def split: prod.splits option.splits)

lemma writer_lines:
  assumes "lw_Pending w = []" and "\<not> lw_Discarding w"
  shows "let w' = fold (\<lambda>line w. lw_line_end visit (lw_take line w)) ls w in
         lw_Pending w' = [] \<and> \<not> lw_Discarding w' \<and> writer_state w' = fold (read_line visit) ls (writer_state w)"
  using assms
proof (induction ls arbitrary: w)
  case (Cons line ls)
  let ?w = "lw_line_end visit (lw_take line w)"
  have "writer_state ?w = read_line visit line (writer_state w)"
    using writer_line [OF Cons.prems, of visit line] by (simp add: lw_line_end_def)
  moreover have "lw_Pending ?w = []" "\<not> lw_Discarding ?w" by (simp_all add: lw_line_end_def)
  ultimately show ?case using Cons.IH [of ?w] by simp
qed simp

lemma writer_chunks:
  assumes "length (lw_Pending w) \<le> maximum_snapshot_line"
  shows "fold (lw_write visit) chunks w =
         (each_line lw_take (lw_line_end visit) (concat chunks) w)\<lparr>lw_Written := lw_Written w + length (concat chunks)\<rparr>"
proof -
  have keeps: "each_line lw_take (lw_line_end visit) x (w\<lparr>lw_Written := n\<rparr>) =
      (each_line lw_take (lw_line_end visit) x w)\<lparr>lw_Written := n\<rparr>" for x n and w :: "'a line_writer"
    by (rule each_line_hom [where h = "lw_Written_update (\<lambda>_. n)"])
      (simp_all add: lw_take_def lw_line_end_def lw_visit_def split: prod.splits)
  show ?thesis using assms
  proof (induction chunks arbitrary: w)
    case (Cons x chunks)
    let ?read = "each_line lw_take (lw_line_end visit)"
    let ?w = "(?read x w)\<lparr>lw_Written := lw_Written w + length x\<rparr>"
    have "length (lw_Pending ?w) \<le> maximum_snapshot_line"
      using listing_writer.ok_reading [OF Cons.prems, of visit x] by simp
    from Cons.IH [OF this] have "fold (lw_write visit) chunks ?w =
        (?read (concat chunks) (?read x w))\<lparr>lw_Written := lw_Written w + length x + length (concat chunks)\<rparr>"
      by (simp add: keeps)
    moreover have "lw_write visit x w = ?w" by (simp add: lw_write_def keeps)
    ultimately show ?case by (simp add: listing_writer.reading_append [OF Cons.prems])
  qed simp
qed

lemma finished_writer:
  "writer_state (lw_finish visit (each_line lw_take (lw_line_end visit) x (new_line_writer seen))) =
   fold (read_line visit) (split_on newline x) (seen, None)"
proof -
  let ?ls = "split_on newline x" and ?new = "new_line_writer seen :: 'a line_writer"
  let ?w = "fold (\<lambda>line w. lw_line_end visit (lw_take line w)) (butlast ?ls) ?new"
  have new: "lw_Pending ?new = []" "\<not> lw_Discarding ?new" "writer_state ?new = (seen, None)" by (simp_all add: new_line_writer_def)
  have w: "lw_Pending ?w = []" "\<not> lw_Discarding ?w" "writer_state ?w = fold (read_line visit) (butlast ?ls) (seen, None)"
    using writer_lines [OF new(1,2), of visit "butlast ?ls"] new(3) by (simp_all add: Let_def)
  have "each_line lw_take (lw_line_end visit) x ?new = lw_take (last ?ls) ?w"
    using new(1) by (intro listing_writer.reading_split) simp
  then show ?thesis
    using writer_line [OF w(1,2), of visit "last ?ls"] w(3) fold_last [OF split_on_nonempty, of "read_line visit" newline x "(seen, None)"]
    by (simp add: lw_finish_def)
qed

text \<open>What an operation printed: the chunks, or the captured output when no chunk arrived.\<close>

definition listing_output :: "listing \<Rightarrow> string" where
  "listing_output l = (case l of (result, err, chunks) \<Rightarrow> if concat chunks = [] then rsx_Stdout result else concat chunks)"

lemma stream_reads_lines:
  "stream_snapshot_contents env exec snapshot path recursive visit seen =
     (let l = exec (listing_arguments snapshot path recursive);
          (seen', err) = fold (read_line (node_visitor env visit)) (split_on newline (listing_output l)) (seen, None) in
      (seen', if fst (snd l) \<noteq> None then fst (snd l) else map_option (Wrapped ''decode snapshot contents'') err))"
proof -
  obtain result err chunks where l: "exec (listing_arguments snapshot path recursive) = (result, err, chunks)"
    by (metis prod_cases3)
  let ?v = "node_visitor env visit" and ?new = "new_line_writer seen :: 'a line_writer"
  have pending: "length (lw_Pending ?new) \<le> maximum_snapshot_line" by (simp add: new_line_writer_def)
  have same: "writer_state (lw_finish ?v (w\<lparr>lw_Written := n\<rparr>)) = writer_state (lw_finish ?v w)" for w n
    by (simp add: lw_finish_def lw_visit_def split: prod.splits)
  define w where "w = fold (lw_write ?v) chunks ?new"
  have w: "w = (each_line lw_take (lw_line_end ?v) (concat chunks) ?new)\<lparr>lw_Written := length (concat chunks)\<rparr>"
    using writer_chunks [OF pending, of ?v chunks] by (simp add: w_def new_line_writer_def)
  have "writer_state (lw_finish ?v (if lw_Written w = 0 \<and> rsx_Stdout result \<noteq> [] then lw_write ?v (rsx_Stdout result) w else w)) =
      fold (read_line ?v) (split_on newline (listing_output (result, err, chunks))) (seen, None)"
  proof (cases "concat chunks = []")
    case True
    then have new: "w = ?new" and out: "listing_output (result, err, chunks) = rsx_Stdout result"
      unfolding w True listing_output_def prod.case by (simp_all add: new_line_writer_def)
    have "lw_write ?v (rsx_Stdout result) ?new =
        (each_line lw_take (lw_line_end ?v) (rsx_Stdout result) ?new)\<lparr>lw_Written := length (rsx_Stdout result)\<rparr>"
      using writer_chunks [OF pending, of ?v "[rsx_Stdout result]"] by (simp add: new_line_writer_def)
    then have "writer_state (lw_finish ?v (lw_write ?v (rsx_Stdout result) ?new)) =
        fold (read_line ?v) (split_on newline (rsx_Stdout result)) (seen, None)"
      by (simp only: same finished_writer)
    moreover have "writer_state (lw_finish ?v ?new) = fold (read_line ?v) (split_on newline []) (seen, None)"
      using finished_writer [of ?v "[]" seen] by (simp only: each_line_Nil)
    ultimately show ?thesis unfolding out unfolding new by (cases "rsx_Stdout result = []") (simp_all add: new_line_writer_def)
  next
    case False
    have "lw_Written w = length (concat chunks)" unfolding w by simp
    with False have "lw_Written w \<noteq> 0" by (metis length_0_conv)
    then have "(if lw_Written w = 0 \<and> rsx_Stdout result \<noteq> [] then lw_write ?v (rsx_Stdout result) w else w) = w" by simp
    moreover have "listing_output (result, err, chunks) = concat chunks"
      using False unfolding listing_output_def prod.case by (rule if_not_P)
    ultimately show ?thesis unfolding w by (simp only: same finished_writer)
  qed
  note state = this
  show ?thesis
    unfolding stream_snapshot_contents_def Let_def l prod.case w_def [symmetric] state [symmetric] by simp
qed

section \<open>The nodes of a listing\<close>

definition node_of_line :: "contents_env \<Rightarrow> string \<Rightarrow> snapshot_node option" where
  "node_of_line env line = (case decode_snapshot_node env line of Inl _ \<Rightarrow> None | Inr n \<Rightarrow> n)"

definition listing_nodes :: "contents_env \<Rightarrow> listing \<Rightarrow> snapshot_node list" where
  "listing_nodes env l = List.map_filter (node_of_line env) (split_on newline (listing_output l))"

definition line_readable :: "contents_env \<Rightarrow> string \<Rightarrow> bool" where
  "line_readable env line \<longleftrightarrow> length line \<le> maximum_snapshot_line \<and> \<not> isl (decode_snapshot_node env line)"

definition readable :: "contents_env \<Rightarrow> listing \<Rightarrow> bool" where
  "readable env l \<longleftrightarrow> fst (snd l) = None \<and> list_all (line_readable env) (split_on newline (listing_output l))"

lemma decode_empty [simp]: "decode_snapshot_node env [] = Inr None"
  by (simp add: decode_snapshot_node_def)

lemma read_line_failed: "snd (fold (read_line visit) ls (seen, Some err)) \<noteq> None"
  by (induction ls arbitrary: err seen) (auto simp: read_line_def)

lemma read_lines_total:
  assumes total: "\<And>n seen. snd (visit n seen) = None"
  shows "fold (read_line (node_visitor env visit)) ls (seen, None) = (seen', err) \<Longrightarrow>
           (err = None \<longleftrightarrow> list_all (line_readable env) ls) \<and>
           (err = None \<longrightarrow> seen' = fold (\<lambda>n seen. fst (visit n seen)) (List.map_filter (node_of_line env) ls) seen)"
proof (induction ls arbitrary: seen)
  case Nil
  then show ?case by (simp add: map_filter_simps)
next
  case (Cons line ls)
  let ?v = "node_visitor env visit"
  show ?case
  proof (cases "line_readable env line")
    case True
    then obtain n where n: "decode_snapshot_node env line = Inr n" and short: "length line \<le> maximum_snapshot_line"
      by (cases "decode_snapshot_node env line") (auto simp: line_readable_def)
    have "read_line ?v line (seen, None) = ((case n of None \<Rightarrow> seen | Some m \<Rightarrow> fst (visit m seen)), None)"
      using n short total by (auto simp: read_line_def node_visitor_def prod_eq_iff split: option.splits)
    with Cons.IH Cons.prems n True show ?thesis
      by (auto simp: node_of_line_def map_filter_simps split: option.splits)
  next
    case False
    then have "snd (read_line ?v line (seen, None)) \<noteq> None"
      by (cases "decode_snapshot_node env line"; cases "line = []")
         (auto simp: line_readable_def read_line_def node_visitor_def)
    then obtain t e where "read_line ?v line (seen, None) = (t, Some e)" by (cases "read_line ?v line (seen, None)") auto
    with False Cons.prems read_line_failed [of ?v ls t e] show ?thesis by auto
  qed
qed

lemma stream_total:
  assumes l: "exec (listing_arguments snapshot path recursive) = l"
    and total: "\<And>n seen. snd (visit n seen) = None"
  shows "snd (stream_snapshot_contents env exec snapshot path recursive visit seen) = None \<longleftrightarrow> readable env l"
    and "readable env l \<Longrightarrow> stream_snapshot_contents env exec snapshot path recursive visit seen =
           (fold (\<lambda>n seen. fst (visit n seen)) (listing_nodes env l) seen, None)"
proof -
  obtain seen' err where f: "fold (read_line (node_visitor env visit)) (split_on newline (listing_output l)) (seen, None) = (seen', err)"
    by force
  have s: "stream_snapshot_contents env exec snapshot path recursive visit seen =
      (seen', if fst (snd l) \<noteq> None then fst (snd l) else map_option (Wrapped ''decode snapshot contents'') err)"
    unfolding stream_reads_lines l Let_def f by simp
  note r = read_lines_total [of visit, OF total f]
  show "snd (stream_snapshot_contents env exec snapshot path recursive visit seen) = None \<longleftrightarrow> readable env l"
    using r by (auto simp: s readable_def)
  show "readable env l \<Longrightarrow> stream_snapshot_contents env exec snapshot path recursive visit seen =
      (fold (\<lambda>n seen. fst (visit n seen)) (listing_nodes env l) seen, None)"
    using r by (auto simp: s readable_def listing_nodes_def)
qed

section \<open>Following the cursor\<close>

definition matching_nodes :: "contents_env \<Rightarrow> contents_query \<Rightarrow> listing \<Rightarrow> snapshot_node list" where
  "matching_nodes env query l = filter (\<lambda>n. node_matches env n query) (listing_nodes env l)"

lemma browse_fold:
  assumes "cq_Limit query = int limit"
  shows "fold (\<lambda>n st. fst (browse_visit env query (int offset) n st)) ns (0, [], False) =
    (let m = filter (\<lambda>n. node_matches env n query) ns in
      (int (min (length m) (offset + limit)), take limit (drop offset m), length m > offset + limit))"
proof (induction ns rule: rev_induct)
  case (snoc n ns)
  then show ?case
    by (cases "length (filter (\<lambda>n. node_matches env n query) ns) < offset")
       (auto simp: browse_visit_def assms Let_def)
qed simp

lemma normalized_limit: "normalize_contents_query snapshot query = Inr q \<Longrightarrow> 1 \<le> cq_Limit q \<and> cq_Limit q \<le> 500 \<and> cq_Cursor q = cq_Cursor query"
  by (auto simp: normalize_contents_query_def Let_def split: sum.splits if_splits)

lemma normalize_cursor:
  "normalize_contents_query snapshot query = Inr q \<Longrightarrow>
   normalize_contents_query snapshot (query\<lparr>cq_Cursor := c\<rparr>) = Inr (q\<lparr>cq_Cursor := c\<rparr>)"
  by (auto simp: normalize_contents_query_def Let_def split: sum.splits if_splits)

lemma cursor_irrelevant [simp]:
  "node_matches env n (q\<lparr>cq_Cursor := c\<rparr>) = node_matches env n q"
  "contents_fingerprint env snapshot (q\<lparr>cq_Cursor := c\<rparr>) = contents_fingerprint env snapshot q"
  "matching_nodes env (q\<lparr>cq_Cursor := c\<rparr>) l = matching_nodes env q l"
  by (simp_all add: node_matches_def contents_fingerprint_def contents_canonical_def matching_nodes_def cong: option.case_cong)

lemma browse_page:
  assumes q: "normalize_contents_query snapshot query = Inr q" and off: "contents_offset env snapshot q = Inr (int offset)"
    and l: "readable env (exec (listing_arguments snapshot (cq_Path q) (cq_Recursive q)))"
  shows "let m = matching_nodes env q (exec (listing_arguments snapshot (cq_Path q) (cq_Recursive q)));
             limit = nat (cq_Limit q) in
    browse_snapshot_contents env exec snapshot query = Inr
      \<lparr>cpg_Items = take limit (drop offset m), cpg_Path = cq_Path q, cpg_Search = cq_Search q, cpg_Recursive = cq_Recursive q,
       cpg_Truncated = (length m > offset + limit),
       cpg_NextCursor = (if length m > offset + limit
         then encode_contents_cursor env snapshot q (int (offset + limit)) else [])\<rparr>"
proof -
  let ?l = "exec (listing_arguments snapshot (cq_Path q) (cq_Recursive q))"
  have limit: "cq_Limit q = int (nat (cq_Limit q))" using normalized_limit [OF q] by simp
  have total: "snd (browse_visit env q (int offset) n st) = None" for n st
    by (simp add: browse_visit_def split: prod.splits)
  have "stream_snapshot_contents env exec snapshot (cq_Path q) (cq_Recursive q) (browse_visit env q (int offset)) (0, [], False) =
      (let m = matching_nodes env q ?l; limit = nat (cq_Limit q) in
        (int (min (length m) (offset + limit)), take limit (drop offset m), length m > offset + limit), None)"
    using stream_total(2) [where visit = "browse_visit env q (int offset)" and exec = exec and seen = "(0, [], False)",
        OF refl total l]
      browse_fold [OF limit, of env offset "listing_nodes env ?l"]
    by (simp add: matching_nodes_def Let_def)
  then show ?thesis
    using off by (auto simp: browse_snapshot_contents_def q Let_def)
qed

text \<open>A client that asks for page after page until it is given no cursor.\<close>

fun follow_pages :: "nat \<Rightarrow> (contents_query \<Rightarrow> contents_page outcome) \<Rightarrow> contents_query \<Rightarrow> contents_page list outcome" where
  "follow_pages requests browse query =
     (case browse query of
        Inl err \<Rightarrow> Inl err
      | Inr page \<Rightarrow>
          if cpg_NextCursor page = [] then Inr [page]
          else (case requests of
              0 \<Rightarrow> Inr [page]
            | Suc n \<Rightarrow> map_sum id (Cons page) (follow_pages n browse (query\<lparr>cq_Cursor := cpg_NextCursor page\<rparr>))))"

declare follow_pages.simps [simp del]

lemma follow_from:
  assumes q: "normalize_contents_query snapshot query = Inr q"
    and l: "readable env (exec (listing_arguments snapshot (cq_Path q) (cq_Recursive q)))"
    and cursors: "\<And>n fp. 1 \<le> n \<Longrightarrow> cen_DecodeCursor env (cen_EncodeCursor env (n, fp)) = Some (n, fp) \<and> cen_EncodeCursor env (n, fp) \<noteq> []"
    and m: "matching_nodes env q (exec (listing_arguments snapshot (cq_Path q) (cq_Recursive q))) = m"
  shows "length m \<le> offset + requests \<Longrightarrow> contents_offset env snapshot (q\<lparr>cq_Cursor := c\<rparr>) = Inr (int offset) \<Longrightarrow>
    \<exists>pages. follow_pages requests (browse_snapshot_contents env exec snapshot) (query\<lparr>cq_Cursor := c\<rparr>) = Inr pages \<and>
      pages \<noteq> [] \<and> concat (map cpg_Items pages) = drop offset m \<and> \<not> cpg_Truncated (last pages) \<and>
      (\<forall>page \<in> set pages. length (cpg_Items page) \<le> nat (cq_Limit q))"
proof (induction requests arbitrary: offset c)
  case (0 offset c)
  then show ?case
    using browse_page [OF normalize_cursor [OF q, of c], of env offset exec] l m
    by (simp add: follow_pages.simps)
next
  case (Suc requests)
  let ?limit = "nat (cq_Limit q)"
  have limit: "1 \<le> ?limit" using normalized_limit [OF q] by linarith
  let ?cursor = "encode_contents_cursor env snapshot q (int (offset + ?limit))"
  have same: "encode_contents_cursor env snapshot (q\<lparr>cq_Cursor := c\<rparr>) n = encode_contents_cursor env snapshot q n" for n
    by (simp add: encode_contents_cursor_def)
  note page = browse_page [OF normalize_cursor [OF q, of c] Suc.prems(2), of exec] 
  have "c' \<noteq> [] \<and> contents_offset env snapshot (q\<lparr>cq_Cursor := c'\<rparr>) = Inr n"
    if "1 \<le> n" "c' = encode_contents_cursor env snapshot q n" for n c'
    using that cursors [OF that(1)] by (simp add: encode_contents_cursor_def contents_offset_def)
  moreover have "1 \<le> int (offset + ?limit)" using limit by linarith
  ultimately have cursor: "?cursor \<noteq> []" "contents_offset env snapshot (q\<lparr>cq_Cursor := ?cursor\<rparr>) = Inr (int (offset + ?limit))"
    by blast+
  show ?case
  proof (cases "length m > offset + ?limit")
    case True
    have "length m \<le> offset + ?limit + requests" using Suc.prems(1) limit by simp
    from Suc.IH [OF this cursor(2)] obtain pages where pages:
      "follow_pages requests (browse_snapshot_contents env exec snapshot) (query\<lparr>cq_Cursor := ?cursor\<rparr>) = Inr pages"
      "pages \<noteq> []" "concat (map cpg_Items pages) = drop (offset + ?limit) m" "\<not> cpg_Truncated (last pages)"
      "\<forall>page \<in> set pages. length (cpg_Items page) \<le> ?limit" by blast
    have "take ?limit (drop offset m) @ drop (offset + ?limit) m = drop offset m"
      by (metis add.commute append_take_drop_id drop_drop)
    with True pages cursor(1) page l m show ?thesis
      by (subst follow_pages.simps) (simp add: same Let_def)
  next
    case False
    with page l m show ?thesis by (simp add: follow_pages.simps Let_def)
  qed
qed

definition contents_env_example :: contents_env where
  "contents_env_example = \<lparr>cen_Node = (\<lambda>line. if prefix ''/'' line
       then Inr (''node'', \<lparr>sno_Name = line, sno_Type = ''file'', sno_Path = line, sno_Size = int (length line), sno_ModTime = []\<rparr>)
       else Inl (Invalid ''invalid character'')),
     cen_Lower = id, cen_Sha256 = (\<lambda>s. replicate 32 CHR 0x00),
     cen_EncodeCursor = (\<lambda>(n, fp). replicate (nat n) CHR ''1'' @ CHR ''.'' # fp),
     cen_DecodeCursor = (\<lambda>c. Some (int (length (takeWhile (\<lambda>d. d = CHR ''1'') c)), tl (dropWhile (\<lambda>d. d = CHR ''1'') c)))\<rparr>"

definition listing_example :: "string list \<Rightarrow> listing" where
  "listing_example args = (refused_result\<lparr>rsx_Outcome := Success, rsx_ExitCode := 0\<rparr>, None,
     [''/a'' @ [newline] @ ''/'', ''b'' @ [newline] @ ''/c''])"

lemma cursors_example:
  "1 \<le> n \<Longrightarrow> cen_DecodeCursor contents_env_example (cen_EncodeCursor contents_env_example (n, fp)) = Some (n, fp) \<and>
     cen_EncodeCursor contents_env_example (n, fp) \<noteq> []"
  by (simp add: contents_env_example_def takeWhile_append dropWhile_append)

text \<open>
  C16: following the cursors of \<open>BrowseSnapshotContents\<close> from the first page shows every matching node
  of the listing exactly once and in its order, in pages of at most the limit, and ends: when the
  listing can be read and a cursor decodes to what was encoded, as many requests as there are matching
  nodes are enough for an untruncated last page.
\<close>
theorem browsing_lists_every_node:
  assumes "normalize_contents_query snapshot query = Inr q" and "cq_Cursor query = []"
    and "readable env (exec (listing_arguments snapshot (cq_Path q) (cq_Recursive q)))"
    and "\<And>n fp. 1 \<le> n \<Longrightarrow> cen_DecodeCursor env (cen_EncodeCursor env (n, fp)) = Some (n, fp) \<and> cen_EncodeCursor env (n, fp) \<noteq> []"
    and "length (matching_nodes env q (exec (listing_arguments snapshot (cq_Path q) (cq_Recursive q)))) \<le> requests"
  shows "\<exists>pages. follow_pages requests (browse_snapshot_contents env exec snapshot) query = Inr pages \<and>
    concat (map cpg_Items pages) = matching_nodes env q (exec (listing_arguments snapshot (cq_Path q) (cq_Recursive q))) \<and>
    pages \<noteq> [] \<and> \<not> cpg_Truncated (last pages) \<and> (\<forall>page \<in> set pages. length (cpg_Items page) \<le> nat (cq_Limit q))"
proof -
  have "contents_offset env snapshot (q\<lparr>cq_Cursor := []\<rparr>) = Inr (int 0)" by (simp add: contents_offset_def)
  moreover have "query\<lparr>cq_Cursor := []\<rparr> = query" using assms(2) by (cases query) simp
  ultimately show ?thesis
    using follow_from [OF assms(1) _ assms(4) refl, of exec 0 requests "[]"] assms(3,5) by auto
qed

definition browse_query_example :: contents_query where
  "browse_query_example = \<lparr>cq_Path = [], cq_Search = [], cq_Cursor = [], cq_Limit = 2, cq_Recursive = True\<rparr>"

theorem browsing_lists_every_node_witness:
  "\<exists>pages. follow_pages 3 (browse_snapshot_contents contents_env_example listing_example ''5e1f'') browse_query_example = Inr pages \<and>
     map sno_Path (concat (map cpg_Items pages)) = [''/a'', ''/b'', ''/c'']"
proof -
  have q: "normalize_contents_query ''5e1f'' browse_query_example = Inr browse_query_example"
    by code_simp
  have r: "readable contents_env_example (listing_example (listing_arguments ''5e1f'' [] True))"
    by (simp add: readable_def listing_example_def listing_output_def line_readable_def)
       (simp add: decode_snapshot_node_def contents_env_example_def)
  have m: "map sno_Path (matching_nodes contents_env_example browse_query_example (listing_example (listing_arguments ''5e1f'' [] True))) =
      [''/a'', ''/b'', ''/c'']"
    by code_simp
  then have "length (matching_nodes contents_env_example browse_query_example (listing_example (listing_arguments ''5e1f'' [] True))) \<le> 3"
    by (metis length_map list.size(3,4) One_nat_def add_Suc_right add_0_right numeral_3_eq_3 order_refl)
  with q r cursors_example m show ?thesis
    using browsing_lists_every_node [of "''5e1f''" browse_query_example browse_query_example contents_env_example listing_example 3]
    by (auto simp: browse_query_example_def)
qed

section \<open>The comparison is exact\<close>

text \<open>
  What has happened to a path, given what the two snapshots say of it: a path present in both is
  unchanged when type, size and modification time agree.
\<close>

definition change_at :: "(string \<rightharpoonup> snapshot_node) \<Rightarrow> (string \<rightharpoonup> snapshot_node) \<Rightarrow> string \<Rightarrow> snapshot_change option" where
  "change_at before after path =
     (case (before path, after path) of
        (None, None) \<Rightarrow> None
      | (None, Some new) \<Rightarrow>
          Some \<lparr>chg_Path = path, chg_Change = ''added'', chg_Type = sno_Type new, chg_Size = sno_Size new, chg_Previous = 0\<rparr>
      | (Some old, None) \<Rightarrow>
          Some \<lparr>chg_Path = path, chg_Change = ''removed'', chg_Type = sno_Type old, chg_Size = 0, chg_Previous = sno_Size old\<rparr>
      | (Some old, Some new) \<Rightarrow>
          if (sno_Type old, sno_Size old, sno_ModTime old) = (sno_Type new, sno_Size new, sno_ModTime new) then None
          else Some \<lparr>chg_Path = path, chg_Change = ''modified'', chg_Type = sno_Type new, chg_Size = sno_Size new,
            chg_Previous = sno_Size old\<rparr>)"

definition changes_between :: "(string \<rightharpoonup> snapshot_node) \<Rightarrow> (string \<rightharpoonup> snapshot_node) \<Rightarrow> snapshot_change list" where
  "changes_between before after = List.map_filter (change_at before after) (sorted_list_of_set (dom before \<union> dom after))"

lemmas change_defs = added_change_def modified_change_def removed_change_def node_differs_def

lemma change_at_path: "change_at before after path = Some c \<Longrightarrow> chg_Path c = path"
  by (auto simp: change_at_def split: option.splits if_splits)

abbreviation of_kind :: "string \<Rightarrow> snapshot_change list \<Rightarrow> int" where
  "of_kind kind cs \<equiv> int (length (filter (\<lambda>c. chg_Change c = kind) cs))"

abbreviation counted :: "snapshot_diff \<Rightarrow> snapshot_change list \<Rightarrow> snapshot_diff" where
  "counted diff cs \<equiv> diff\<lparr>sdf_Added := sdf_Added diff + of_kind ''added'' cs, sdf_Modified := sdf_Modified diff + of_kind ''modified'' cs,
     sdf_Removed := sdf_Removed diff + of_kind ''removed'' cs\<rparr>"

lemma map_filter_Cons: "List.map_filter f (x # xs) = (case f x of None \<Rightarrow> List.map_filter f xs | Some y \<Rightarrow> y # List.map_filter f xs)"
  by (simp add: map_filter_simps)

lemma map_filter_Nil [simp]: "List.map_filter f [] = []"
  by (simp add: map_filter_simps)

lemma set_map_filter: "set (List.map_filter f xs) = {y. \<exists>x \<in> set xs. f x = Some y}"
  by (induction xs) (auto simp: map_filter_Cons split: option.splits)

lemma diff_after_changes:
  assumes "distinct (map fst xs)" and "\<forall>(path, node) \<in> set xs. after path = Some node"
  shows "fold (diff_after before) xs (diff, cs) =
    (let new = List.map_filter (change_at (map_of before) after) (map fst xs) in (counted diff new, cs @ new))"
  using assms
proof (induction xs arbitrary: diff cs)
  case (Cons x xs)
  obtain path node where x: "x = (path, node)" by force
  then have "after path = Some node" using Cons.prems by simp
  moreover have "fold (diff_after before) xs (d, l) =
      (let new = List.map_filter (change_at (map_of before) after) (map fst xs) in (counted d new, l @ new))" for d l
    using Cons by simp
  ultimately show ?case
    by (cases "map_of before path")
       (simp_all add: x diff_after_def change_at_def [of "map_of before" after path] map_filter_Cons change_defs Let_def)
qed simp

lemma diff_before_changes:
  assumes "distinct (map fst xs)" and "\<forall>(path, node) \<in> set xs. before path = Some node"
  shows "fold (diff_before after) xs (diff, cs) =
    (let new = List.map_filter (change_at before (map_of after)) (filter (\<lambda>path. map_of after path = None) (map fst xs)) in
      (counted diff new, cs @ new))"
  using assms
proof (induction xs arbitrary: diff cs)
  case (Cons x xs)
  obtain path node where x: "x = (path, node)" by force
  then have "before path = Some node" using Cons.prems by simp
  moreover have "fold (diff_before after) xs (d, l) =
      (let new = List.map_filter (change_at before (map_of after)) (filter (\<lambda>path. map_of after path = None) (map fst xs)) in
        (counted d new, l @ new))" for d l
    using Cons by simp
  ultimately show ?case
    by (cases "map_of after path")
       (simp_all add: x diff_before_def change_at_def [of before "map_of after" path] map_filter_Cons change_defs Let_def)
qed simp

lemma changes_between_facts:
  assumes "finite (dom before)" and "finite (dom after)"
  shows "set (changes_between before after) = {c. \<exists>path. change_at before after path = Some c}"
    and "sorted (map chg_Path (changes_between before after))" and "distinct (map chg_Path (changes_between before after))"
proof -
  let ?d = "dom before \<union> dom after"
  have fin: "finite ?d" using assms by simp
  have "path \<in> ?d" if "change_at before after path = Some c" for path c
    using that by (auto simp: change_at_def split: option.splits)
  then show "set (changes_between before after) = {c. \<exists>path. change_at before after path = Some c}"
    using fin by (force simp: changes_between_def set_map_filter)
  have paths: "map chg_Path (List.map_filter (change_at before after) xs) = filter (\<lambda>p. change_at before after p \<noteq> None) xs" for xs
    by (induction xs) (auto simp: map_filter_Cons change_at_path split: option.splits)
  show "sorted (map chg_Path (changes_between before after))" "distinct (map chg_Path (changes_between before after))"
    using fin by (simp_all add: changes_between_def paths sorted_filter [where f = id, simplified])
qed

lemma sort_changes_between:
  assumes "set cs = set (changes_between before after)" and "distinct (map chg_Path cs)"
    and "finite (dom before)" and "finite (dom after)"
  shows "sort_changes cs = changes_between before after"
proof (rule map_sorted_distinct_set_unique [where f = chg_Path])
  note facts = changes_between_facts [OF assms(3,4)]
  show "inj_on chg_Path (set (sort_changes cs) \<union> set (changes_between before after))"
    using assms(1) facts(3) by (simp add: sort_changes_def distinct_map)
  show "distinct (map chg_Path (sort_changes cs))"
    using assms(2) unfolding sort_changes_def by (simp add: distinct_map distinct_sort)
qed (use changes_between_facts [OF assms(3,4)] assms(1) in \<open>simp_all add: sort_changes_def\<close>)

lemma filtered:
  "mset (xs @ ys) = mset zs \<Longrightarrow> length (filter P xs) + length (filter P ys) = length (filter P zs)"
  by (metis filter_append length_append mset_filter size_mset)

lemma diff_indexes_exact:
  assumes "distinct (map fst before)" and "distinct (map fst after)"
  shows "diff_indexes before after limit diff =
    (let cs = changes_between (map_of before) (map_of after); d = counted diff cs in
      if int (length cs) > limit then d\<lparr>sdf_ExamplesTruncated := True, sdf_Items := take (nat limit) cs\<rparr>
      else d\<lparr>sdf_Items := cs\<rparr>)"
proof -
  let ?B = "map_of before" and ?A = "map_of after"
  let ?new = "List.map_filter (change_at ?B ?A) (map fst after)"
  let ?gone = "List.map_filter (change_at ?B ?A) (filter (\<lambda>path. ?A path = None) (map fst before))"
  have fold: "fold (diff_before after) before (fold (diff_after before) after (diff, [])) = (counted (counted diff ?new) ?gone, ?new @ ?gone)"
    using assms by (simp add: diff_after_changes [where after = ?A] diff_before_changes [where before = ?B] Let_def)
  have members: "set (?new @ ?gone) = set (changes_between ?B ?A)"
  proof -
    have "path \<in> set (map fst after) \<or> path \<in> set (filter (\<lambda>path. ?A path = None) (map fst before))"
      if "change_at ?B ?A path = Some c" for path c
      using that by (auto simp: change_at_def split: option.splits dest!: map_of_SomeD intro: rev_image_eqI)
    then have "set (?new @ ?gone) = {c. \<exists>path. change_at ?B ?A path = Some c}"
      unfolding set_append set_map_filter by blast
    then show ?thesis by (simp add: changes_between_facts finite_dom_map_of)
  qed
  have paths: "map chg_Path (List.map_filter (change_at ?B ?A) xs) = filter (\<lambda>p. change_at ?B ?A p \<noteq> None) xs" for xs
    by (induction xs) (auto simp: map_filter_Cons change_at_path split: option.splits)
  have "distinct (map chg_Path (?new @ ?gone))"
    using assms by (auto simp: paths map_of_eq_None_iff)
  then have sorted: "sort_changes (?new @ ?gone) = changes_between ?B ?A"
    using members by (intro sort_changes_between) (simp_all add: finite_dom_map_of)
  have "mset (?new @ ?gone) = mset (changes_between ?B ?A)" 
    using sorted by (metis mset_sort sort_changes_def)
  from filtered [OF this] have "of_kind kind ?new + of_kind kind ?gone = of_kind kind (changes_between ?B ?A)" for kind
    by (simp only: of_nat_add [symmetric])
  then have "counted (counted diff ?new) ?gone = counted diff (changes_between ?B ?A)" by (simp add: add.assoc)
  then show ?thesis unfolding diff_indexes_def fold prod.case sorted Let_def by simp
qed

text \<open>What a snapshot says of a path: the last node of its listing with that path.\<close>

definition in_path :: "contents_env \<Rightarrow> string \<Rightarrow> snapshot_node \<Rightarrow> bool" where
  "in_path env path node \<longleftrightarrow> path = [] \<or>
     node_matches env node \<lparr>cq_Path = path, cq_Search = [], cq_Cursor = [], cq_Limit = 0, cq_Recursive = True\<rparr>"

definition latest_nodes :: "snapshot_node list \<Rightarrow> string \<rightharpoonup> snapshot_node" where
  "latest_nodes ns = map_of (rev (map (\<lambda>n. (sno_Path n, n)) ns))"

lemma index_visit_in_path:
  "fst (index_visit env path n (i, b)) =
     (if \<not> in_path env path n then (i, b)
      else if map_of i (sno_Path n) = None \<and> length i \<ge> maximum_diff_nodes then (i, True)
      else (AList.update (sno_Path n) n i, b))"
  unfolding index_visit_def in_path_def prod.case fst_conv by (rule if_cong) auto

lemma index_fold:
  assumes "fold (\<lambda>n st. fst (index_visit env path n st)) ns ([], False) = (index, incomplete)"
  shows "distinct (map fst index) \<and> (\<not> incomplete \<longrightarrow> map_of index = latest_nodes (filter (in_path env path) ns))"
  using assms
proof (induction ns arbitrary: index incomplete rule: rev_induct)
  case (snoc n ns)
  obtain i b where ib: "fold (\<lambda>n st. fst (index_visit env path n st)) ns ([], False) = (i, b)" by force
  have last: "latest_nodes (xs @ [n]) = (latest_nodes xs)(sno_Path n \<mapsto> n)" for xs
    by (simp add: latest_nodes_def)
  from snoc.prems have "fst (index_visit env path n (i, b)) = (index, incomplete)" by (simp add: ib)
  then show ?case
    using snoc.IH [OF ib]
    by (cases "in_path env path n"; cases "map_of i (sno_Path n) = None \<and> length i \<ge> maximum_diff_nodes")
       (auto simp: index_visit_in_path last update_conv' split: if_splits intro: distinct_update)
qed (simp add: latest_nodes_def)

lemma snapshot_index_exact:
  assumes "snapshot_index env exec snapshot path = ((index, incomplete), None)"
  shows "distinct (map fst index)"
    and "\<not> incomplete \<Longrightarrow> map_of index =
      latest_nodes (filter (in_path env path) (listing_nodes env (exec (listing_arguments snapshot path True))))"
proof -
  have total: "snd (index_visit env path n st) = None" for n st by (simp add: index_visit_def split: prod.splits)
  note stream = stream_total [where visit = "index_visit env path" and exec = exec and seen = "([], False)", OF refl total]
  have "readable env (exec (listing_arguments snapshot path True))"
    using assms stream(1) [where snapshot = snapshot and path = path and recursive = True and env = env] by (simp add: snapshot_index_def)
  from stream(2) [OF this] assms have
    "fold (\<lambda>n st. fst (index_visit env path n st)) (listing_nodes env (exec (listing_arguments snapshot path True))) ([], False) =
      (index, incomplete)"
    by (simp add: snapshot_index_def)
  from index_fold [OF this] show "distinct (map fst index)"
    and "\<not> incomplete \<Longrightarrow> map_of index =
      latest_nodes (filter (in_path env path) (listing_nodes env (exec (listing_arguments snapshot path True))))"
    by blast+
qed

definition snapshot_state :: "contents_env \<Rightarrow> (string list \<Rightarrow> listing) \<Rightarrow> string \<Rightarrow> string \<Rightarrow> string \<rightharpoonup> snapshot_node" where
  "snapshot_state env exec path snapshot =
     latest_nodes (filter (in_path env path) (listing_nodes env (exec (listing_arguments snapshot path True))))"

lemma compared_snapshots:
  assumes "compare_snapshots env exec from_id to_id query = Inr d"
  obtains path limit before before_inc after after_inc where "1 \<le> limit" and "limit \<le> 500"
    and "snapshot_index env exec from_id path = ((before, before_inc), None)"
    and "snapshot_index env exec to_id path = ((after, after_inc), None)"
    and "d = diff_indexes before after limit
      \<lparr>sdf_From = from_id, sdf_To = to_id, sdf_Path = path, sdf_Added = 0, sdf_Modified = 0, sdf_Removed = 0,
       sdf_Items = [], sdf_ExamplesTruncated = False, sdf_Incomplete = before_inc \<or> after_inc\<rparr>"
proof -
  define limit where "limit = (if dq_Limit query = 0 then 100 else dq_Limit query)"
  have ids: "\<not> (\<not> safe_snapshot_id from_id \<or> \<not> safe_snapshot_id to_id \<or> from_id = to_id)"
    by (rule notI) (use assms in \<open>simp add: compare_snapshots_def\<close>)
  obtain path where path: "normalize_snapshot_path (dq_Path query) = Inr path"
    using assms ids by (cases "normalize_snapshot_path (dq_Path query)") (auto simp: compare_snapshots_def)
  have limits: "\<not> (limit < 1 \<or> limit > 500)"
    by (rule notI) (use assms ids path in \<open>simp add: compare_snapshots_def limit_def\<close>)
  obtain before before_inc e where before: "snapshot_index env exec from_id path = ((before, before_inc), e)" by (metis surj_pair)
  obtain after after_inc e' where after: "snapshot_index env exec to_id path = ((after, after_inc), e')" by (metis surj_pair)
  have "e = None" "e' = None"
    using assms ids path limits unfolding compare_snapshots_def limit_def [symmetric] Let_def
    by (simp_all add: before after split: option.splits)
  with assms ids path limits have "Inr d = (Inr (diff_indexes before after limit
      \<lparr>sdf_From = from_id, sdf_To = to_id, sdf_Path = path, sdf_Added = 0, sdf_Modified = 0, sdf_Removed = 0,
       sdf_Items = [], sdf_ExamplesTruncated = False, sdf_Incomplete = before_inc \<or> after_inc\<rparr>) :: snapshot_diff outcome)"
    unfolding compare_snapshots_def limit_def [symmetric] Let_def by (simp add: before after)
  with before after limits \<open>e = None\<close> \<open>e' = None\<close> show thesis by (intro that [of limit path]) simp_all
qed

text \<open>
  C15: a complete comparison of two snapshots is exact, whatever the order in which Go iterates over
  its maps: the counts are those of the paths added, modified and removed between what the two
  listings say of each path, and the examples are the first of all changes, ordered by path, with the
  truncation flag set exactly when there are more than the limit.
\<close>
theorem comparison_is_exact:
  assumes "compare_snapshots env exec from_id to_id query = Inr d" and "\<not> sdf_Incomplete d"
  shows "\<exists>limit. 1 \<le> limit \<and> limit \<le> 500 \<and>
    (let changes = changes_between (snapshot_state env exec (sdf_Path d) from_id) (snapshot_state env exec (sdf_Path d) to_id) in
      sdf_Added d = of_kind ''added'' changes \<and> sdf_Modified d = of_kind ''modified'' changes \<and>
      sdf_Removed d = of_kind ''removed'' changes \<and> sdf_Items d = take limit changes \<and>
      (sdf_ExamplesTruncated d \<longleftrightarrow> length changes > limit) \<and>
      sorted (map chg_Path changes) \<and> distinct (map chg_Path changes) \<and>
      set changes = {c. \<exists>path. change_at (snapshot_state env exec (sdf_Path d) from_id) (snapshot_state env exec (sdf_Path d) to_id) path = Some c})"
proof -
  from assms(1) obtain path limit before before_inc after after_inc where
    limit: "1 \<le> limit" "limit \<le> 500"
    and before: "snapshot_index env exec from_id path = ((before, before_inc), None)"
    and after: "snapshot_index env exec to_id path = ((after, after_inc), None)"
    and d: "d = diff_indexes before after limit
      \<lparr>sdf_From = from_id, sdf_To = to_id, sdf_Path = path, sdf_Added = 0, sdf_Modified = 0, sdf_Removed = 0,
       sdf_Items = [], sdf_ExamplesTruncated = False, sdf_Incomplete = before_inc \<or> after_inc\<rparr>"
    by (rule compared_snapshots)
  note exact = diff_indexes_exact [OF snapshot_index_exact(1) [OF before] snapshot_index_exact(1) [OF after], of limit]
  have complete: "\<not> before_inc" "\<not> after_inc" and path: "sdf_Path d = path"
    using assms(2) by (auto simp: d exact Let_def split: if_splits)
  have states: "map_of before = snapshot_state env exec path from_id" "map_of after = snapshot_state env exec path to_id"
    using snapshot_index_exact(2) [OF before complete(1)] snapshot_index_exact(2) [OF after complete(2)]
    by (simp_all add: snapshot_state_def)
  have fin: "finite (dom (snapshot_state env exec path i))" for i
    by (simp add: snapshot_state_def latest_nodes_def finite_dom_map_of)
  let ?changes = "changes_between (snapshot_state env exec path from_id) (snapshot_state env exec path to_id)"
  have "int (length ?changes) > limit \<longleftrightarrow> length ?changes > nat limit" using limit by linarith
  moreover have "1 \<le> nat limit" "nat limit \<le> 500" using limit by linarith+
  ultimately show ?thesis
    using changes_between_facts [OF fin fin, of from_id to_id]
    by (intro exI [of _ "nat limit"]) (simp add: path d exact states Let_def)
qed

definition old_and_new :: "string list \<Rightarrow> listing" where
  "old_and_new args = (refused_result, None, [if hd args = ''old'' then ''/a'' @ [newline] @ ''/b'' else ''/b'' @ [newline] @ ''/c''])"

lemma compared_example:
  "compare_snapshots contents_env_example old_and_new ''old'' ''new'' \<lparr>dq_Path = [], dq_Limit = 1\<rparr> = Inr
     \<lparr>sdf_From = ''old'', sdf_To = ''new'', sdf_Path = [], sdf_Added = 1, sdf_Modified = 0, sdf_Removed = 1,
      sdf_Items = [\<lparr>chg_Path = ''/a'', chg_Change = ''removed'', chg_Type = ''file'', chg_Size = 0, chg_Previous = 2\<rparr>],
      sdf_ExamplesTruncated = True, sdf_Incomplete = False\<rparr>"
proof -
  let ?file = "\<lambda>p. \<lparr>sno_Name = p, sno_Type = ''file'', sno_Path = p, sno_Size = int (length p), sno_ModTime = []\<rparr>"
  have total: "snd (index_visit env path n st) = None" for env path n st by (simp add: index_visit_def split: prod.splits)
  note stream = stream_total(2) [where visit = "index_visit contents_env_example []" and exec = old_and_new
      and seen = "([], False)", OF refl total]
  have r: "readable contents_env_example (old_and_new (listing_arguments i [] True))" for i
    by (simp add: readable_def old_and_new_def listing_output_def line_readable_def)
       (simp add: decode_snapshot_node_def contents_env_example_def)
  have old: "listing_nodes contents_env_example (old_and_new (listing_arguments ''old'' [] True)) = [?file ''/a'', ?file ''/b'']"
    and new: "listing_nodes contents_env_example (old_and_new (listing_arguments ''new'' [] True)) = [?file ''/b'', ?file ''/c'']"
    by code_simp+
  have index: "snapshot_index contents_env_example old_and_new ''old'' [] = (([(''/a'', ?file ''/a''), (''/b'', ?file ''/b'')], False), None)"
    "snapshot_index contents_env_example old_and_new ''new'' [] = (([(''/b'', ?file ''/b''), (''/c'', ?file ''/c'')], False), None)"
    by (simp_all add: snapshot_index_def stream [OF r] old new) (simp_all add: index_visit_def)
  have ids: "safe_snapshot_id ''old''" "safe_snapshot_id ''new''" and path: "normalize_snapshot_path [] = Inr []"
    by code_simp+
  show ?thesis
    by (simp add: compare_snapshots_def ids path index) code_simp
qed

theorem comparison_is_exact_witness:
  "\<exists>limit. take limit (changes_between (snapshot_state contents_env_example old_and_new [] ''old'')
       (snapshot_state contents_env_example old_and_new [] ''new'')) =
     [\<lparr>chg_Path = ''/a'', chg_Change = ''removed'', chg_Type = ''file'', chg_Size = 0, chg_Previous = 2\<rparr>]"
  using comparison_is_exact [OF compared_example] by (auto simp: Let_def)

end
