(* ===== verification/Secret_Vault.thy ===== *)
theory Secret_Vault
  imports Resource_Store
begin

text \<open>
  The secrets of src/internal/vault/vault.go, src/internal/vault/keyfile.go and
  src/internal/secret/manager.go, gate.go, controller.go: sealing a secret for a purpose, the key
  file with its optional passphrase, the manager over the table of secrets, and the throttled unlock.

  AES-GCM, Argon2 and the JSON form of the wrapped key are arguments (\<open>vault_env\<close>); random bytes are
  arguments of the operations that draw them. Writing the key file (temporary file, sync, rename) is
  one step that replaces the file or fails.
\<close>

section \<open>Sealing\<close>

record wrapped_key =
  wk_Version :: int
  wk_MemoryKiB :: nat
  wk_Iterations :: nat
  wk_Parallelism :: nat
  wk_Salt :: string
  wk_Nonce :: string
  wk_Ciphertext :: string

record vault_env =
  ven_Seal :: "string \<Rightarrow> string \<Rightarrow> string \<Rightarrow> string \<Rightarrow> string"
  ven_Open :: "string \<Rightarrow> string \<Rightarrow> string \<Rightarrow> string \<Rightarrow> string option"
  ven_Argon2 :: "string \<Rightarrow> string \<Rightarrow> nat \<Rightarrow> nat \<Rightarrow> nat \<Rightarrow> string"
  ven_EncodeKey :: "wrapped_key \<Rightarrow> string"
  ven_DecodeKey :: "string \<Rightarrow> wrapped_key outcome"

text \<open>A nonce of GCM has 12 bytes and its tag 16.\<close>

definition vault_seal :: "vault_env \<Rightarrow> string \<Rightarrow> string \<Rightarrow> string \<Rightarrow> string \<Rightarrow> string outcome" where
  "vault_seal env key nonce purpose plaintext =
     (if purpose = [] then Inl (Invalid ''secret purpose is required'')
      else Inr ([CHR 0x01] @ nonce @ ven_Seal env key nonce purpose plaintext))"

definition vault_open :: "vault_env \<Rightarrow> string \<Rightarrow> string \<Rightarrow> string \<Rightarrow> string outcome" where
  "vault_open env key purpose ciphertext =
     (if length ciphertext < 1 + 12 + 16 then Inl (Invalid ''invalid encrypted secret'')
      else if ciphertext ! 0 \<noteq> CHR 0x01 then Inl (Invalid ''unsupported encrypted secret format'')
      else (case ven_Open env key (take 12 (drop 1 ciphertext)) purpose (drop 13 ciphertext) of
          None \<Rightarrow> Inl (Invalid ''secret authentication failed'')
        | Some plaintext \<Rightarrow> Inr plaintext))"

definition key_length :: "string \<Rightarrow> check" where
  "key_length key =
     (if length key \<noteq> 32 then Some (Invalid (''vault key must be 32 bytes, got '' @ show_nat (length key))) else None)"

section \<open>The manager\<close>

text \<open>The gate: \<open>None\<close> while the vault is locked, and the master key otherwise.\<close>

type_synonym gate = "string option"

abbreviation ErrLocked :: go_error where "ErrLocked \<equiv> Invalid ''secret vault is locked''"

definition gate_unlock :: "gate \<Rightarrow> string \<Rightarrow> gate \<times> check" where
  "gate_unlock g master = (case key_length master of Some err \<Rightarrow> (g, Some err) | None \<Rightarrow> (Some master, None))"

definition gate_lock :: "gate \<Rightarrow> gate" where
  "gate_lock g = None"

definition master_key :: "gate \<Rightarrow> string outcome" where
  "master_key g =
     (case g of None \<Rightarrow> Inl ErrLocked | Some key \<Rightarrow> if length key \<noteq> 32 then Inl ErrLocked else Inr key)"

text \<open>The identifier is \<open>sec_\<close> and 16 random bytes in hexadecimal.\<close>

definition secret_id_of :: "string \<Rightarrow> string" where
  "secret_id_of random = ''sec_'' @ hex_encode random"

definition put_secret ::
  "vault_env \<Rightarrow> gate \<Rightarrow> tables \<Rightarrow> string \<Rightarrow> string \<Rightarrow> string \<Rightarrow> string \<Rightarrow> instant \<Rightarrow> tables \<times> string outcome" where
  "put_secret env g tb nonce random purpose plaintext now =
     (if purpose = [] \<or> plaintext = [] then (tb, Inl (Invalid ''secret purpose and value are required''))
      else (case g of
        None \<Rightarrow> (tb, Inl ErrLocked)
      | Some key \<Rightarrow>
          (case vault_seal env key nonce purpose plaintext of
             Inl err \<Rightarrow> (tb, Inl err)
           | Inr ciphertext \<Rightarrow>
               with_value (save_secret tb (secret_id_of random) purpose ciphertext now) (secret_id_of random))))"

definition get_secret :: "vault_env \<Rightarrow> gate \<Rightarrow> tables \<Rightarrow> string \<Rightarrow> string \<Rightarrow> string outcome" where
  "get_secret env g tb i purpose =
     (case g of
        None \<Rightarrow> Inl ErrLocked
      | Some key \<Rightarrow>
          (case load_secret tb i of
             Inl err \<Rightarrow> Inl err
           | Inr (stored, ciphertext) \<Rightarrow>
               if stored \<noteq> purpose then Inl (Invalid ''secret purpose mismatch'') else vault_open env key purpose ciphertext))"

definition remove_secret :: "gate \<Rightarrow> tables \<Rightarrow> string \<Rightarrow> tables \<times> check" where
  "remove_secret g tb i = (case g of None \<Rightarrow> (tb, Some ErrLocked) | Some key \<Rightarrow> delete_secret tb i)"

section \<open>The key file\<close>

record key_file =
  kf_Content :: string
  kf_Private :: bool

abbreviation Automatic :: string where "Automatic \<equiv> ''automatic''"
abbreviation Locked_State :: string where "Locked_State \<equiv> ''locked''"
abbreviation Unlocked_State :: string where "Unlocked_State \<equiv> ''unlocked''"
abbreviation ErrInvalidPassphrase :: go_error where "ErrInvalidPassphrase \<equiv> Invalid ''invalid vault passphrase''"
abbreviation wrap_purpose :: string where "wrap_purpose \<equiv> ''restic-control:vault-key:v1''"

definition validate_wrapped_key :: "wrapped_key \<Rightarrow> check" where
  "validate_wrapped_key w =
     (if wk_Version w \<noteq> 1 then Some (Invalid ''unsupported wrapped vault key version'')
      else if wk_MemoryKiB w < 8 * 1024 \<or> wk_MemoryKiB w > 1024 * 1024 \<or> wk_Iterations w = 0 \<or> wk_Iterations w > 10 \<or>
        wk_Parallelism w = 0 \<or> wk_Parallelism w > 16
      then Some (Invalid ''invalid wrapped vault key parameters'')
      else if length (wk_Salt w) < 16 \<or> length (wk_Salt w) > 64 \<or> length (wk_Nonce w) \<noteq> 12 \<or> length (wk_Ciphertext w) \<noteq> 48
      then Some (Invalid ''invalid wrapped vault key payload'')
      else None)"

text \<open>\<open>KeyFile.Load\<close>: the key, empty while the file is locked and no passphrase is given, and the state.\<close>

definition load_key :: "vault_env \<Rightarrow> key_file outcome \<Rightarrow> string \<Rightarrow> (string \<times> string) outcome" where
  "load_key env file passphrase =
     (case file of
        Inl err \<Rightarrow> Inl err
      | Inr f \<Rightarrow>
          if \<not> kf_Private f then Inl (Invalid ''vault key permissions must be 0600'')
          else if length (kf_Content f) = 32 then Inr (kf_Content f, Automatic)
          else (case ven_DecodeKey env (kf_Content f) of
              Inl err \<Rightarrow> Inl err
            | Inr w \<Rightarrow>
                (case validate_wrapped_key w of
                   Some err \<Rightarrow> Inl err
                 | None \<Rightarrow>
                     if passphrase = [] then Inr ([], Locked_State)
                     else (case ven_Open env (ven_Argon2 env passphrase (wk_Salt w) (wk_Iterations w) (wk_MemoryKiB w)
                              (wk_Parallelism w)) (wk_Nonce w) wrap_purpose (wk_Ciphertext w) of
                         None \<Rightarrow> Inl ErrInvalidPassphrase
                       | Some master \<Rightarrow>
                           if length master \<noteq> 32 then Inl ErrInvalidPassphrase else Inr (master, Unlocked_State)))))"

definition wrap_key :: "vault_env \<Rightarrow> string \<Rightarrow> string \<Rightarrow> nat \<Rightarrow> string \<Rightarrow> string \<Rightarrow> wrapped_key" where
  "wrap_key env master passphrase cpus salt nonce =
     (let parallelism = min cpus 4 in
      \<lparr>wk_Version = 1, wk_MemoryKiB = 64 * 1024, wk_Iterations = 3, wk_Parallelism = parallelism, wk_Salt = salt,
       wk_Nonce = nonce,
       wk_Ciphertext = ven_Seal env (ven_Argon2 env passphrase salt 3 (64 * 1024) parallelism) nonce wrap_purpose master\<rparr>)"

text \<open>
  What becomes of a write. It fails before the rename, which leaves the old file, or after it, when the
  directory cannot be synchronised, although the file has been replaced.
\<close>

datatype write_outcome = Written | Not_Written go_error | Not_Synced go_error

definition write_key_file :: "key_file outcome \<Rightarrow> string \<Rightarrow> write_outcome \<Rightarrow> key_file outcome \<times> check" where
  "write_key_file file content written =
     (let new = Inr \<lparr>kf_Content = content, kf_Private = True\<rparr> in
      case written of Written \<Rightarrow> (new, None) | Not_Written err \<Rightarrow> (file, Some err) | Not_Synced err \<Rightarrow> (new, Some err))"

definition save_locked ::
  "vault_env \<Rightarrow> key_file outcome \<Rightarrow> string \<Rightarrow> string \<Rightarrow> nat \<Rightarrow> string \<Rightarrow> string \<Rightarrow> write_outcome \<Rightarrow> key_file outcome \<times> check" where
  "save_locked env file master passphrase cpus salt nonce written =
     (case key_length master of
        Some err \<Rightarrow> (file, Some err)
      | None \<Rightarrow>
          if length passphrase < 12
          then (file, Some (Invalid ''vault passphrase must contain at least 12 characters''))
          else write_key_file file (ven_EncodeKey env (wrap_key env master passphrase cpus salt nonce)) written)"

definition save_automatic :: "key_file outcome \<Rightarrow> string \<Rightarrow> write_outcome \<Rightarrow> key_file outcome \<times> check" where
  "save_automatic file master written =
     (case key_length master of Some err \<Rightarrow> (file, Some err) | None \<Rightarrow> write_key_file file master written)"

section \<open>The controller\<close>

record vault_controller =
  vct_File :: "key_file outcome"
  vct_Gate :: gate
  vct_Mode :: string
  vct_Failures :: nat
  vct_RetryAfter :: instant

abbreviation ErrUnlockRateLimited :: go_error where
  "ErrUnlockRateLimited \<equiv> Invalid ''vault unlock temporarily rate limited''"

definition new_vault_controller :: "key_file outcome \<Rightarrow> gate \<Rightarrow> string \<Rightarrow> vault_controller" where
  "new_vault_controller file g state =
     \<lparr>vct_File = file, vct_Gate = g, vct_Mode = (if state = Automatic then ''automatic'' else ''lock-on-restart''),
      vct_Failures = 0, vct_RetryAfter = zero_time\<rparr>"

definition vault_status :: "vault_controller \<Rightarrow> string \<times> bool" where
  "vault_status c = (vct_Mode c, vct_Gate c = None)"

definition lock_on_restart ::
  "vault_env \<Rightarrow> vault_controller \<Rightarrow> string \<Rightarrow> nat \<Rightarrow> string \<Rightarrow> string \<Rightarrow> write_outcome \<Rightarrow> vault_controller \<times> check" where
  "lock_on_restart env c passphrase cpus salt nonce written =
     (case master_key (vct_Gate c) of
        Inl err \<Rightarrow> (c, Some err)
      | Inr master \<Rightarrow>
          (case save_locked env (vct_File c) master passphrase cpus salt nonce written of
             (file, Some err) \<Rightarrow> (c\<lparr>vct_File := file\<rparr>, Some err)
           | (file, None) \<Rightarrow> (c\<lparr>vct_File := file, vct_Mode := ''lock-on-restart''\<rparr>, None)))"

definition set_automatic :: "vault_controller \<Rightarrow> write_outcome \<Rightarrow> vault_controller \<times> check" where
  "set_automatic c written =
     (case master_key (vct_Gate c) of
        Inl err \<Rightarrow> (c, Some err)
      | Inr master \<Rightarrow>
          (case save_automatic (vct_File c) master written of
             (file, Some err) \<Rightarrow> (c\<lparr>vct_File := file\<rparr>, Some err)
           | (file, None) \<Rightarrow> (c\<lparr>vct_File := file, vct_Mode := ''automatic''\<rparr>, None)))"

text \<open>The clock is read before the attempt, \<open>now\<close>, and again after a failed one, \<open>later\<close>.\<close>

definition unlock_delay :: "nat \<Rightarrow> duration" where
  "unlock_delay failures = 2 ^ min (failures - 1) 5 * go_second"

definition vault_unlock :: "vault_env \<Rightarrow> vault_controller \<Rightarrow> string \<Rightarrow> instant \<Rightarrow> instant \<Rightarrow> vault_controller \<times> check" where
  "vault_unlock env c passphrase now later =
     (if now < vct_RetryAfter c then (c, Some ErrUnlockRateLimited)
      else (case load_key env (vct_File c) passphrase of
        Inl err \<Rightarrow>
          if err = ErrInvalidPassphrase then
            let failures = Suc (vct_Failures c) in
            (c\<lparr>vct_Failures := failures, vct_RetryAfter := later + unlock_delay failures\<rparr>, Some err)
          else (c, Some err)
      | Inr (master, state) \<Rightarrow>
          (case gate_unlock (vct_Gate c) master of
             (g, Some err) \<Rightarrow> (c, Some err)
           | (g, None) \<Rightarrow>
               (c\<lparr>vct_Gate := g, vct_Mode := (if state = Automatic then ''automatic'' else ''lock-on-restart''),
                  vct_Failures := 0, vct_RetryAfter := zero_time\<rparr>, None))))"

section \<open>Secrets are read back\<close>

text \<open>What AES-GCM promises: a sealed text has 16 more bytes and opens with the same key, nonce and purpose.\<close>

definition aead_ok :: "vault_env \<Rightarrow> bool" where
  "aead_ok env \<longleftrightarrow> (\<forall>key nonce purpose plaintext.
     ven_Open env key nonce purpose (ven_Seal env key nonce purpose plaintext) = Some plaintext \<and>
     length (ven_Seal env key nonce purpose plaintext) = length plaintext + 16)"

lemma open_sealed:
  assumes "aead_ok env" and "length nonce = 12" and "vault_seal env key nonce purpose plaintext = Inr c"
  shows "vault_open env key purpose c = Inr plaintext"
  using assms by (auto simp: vault_seal_def vault_open_def aead_ok_def split: if_splits)

lemma put_secret_stored:
  assumes "put_secret env g tb nonce random purpose plaintext now = (tb', Inr i)"
  obtains key c where "g = Some key" and "vault_seal env key nonce purpose plaintext = Inr c"
    and "tb' = tb\<lparr>tb_secrets := tb_secrets tb @ [\<lparr>sec_ID = i, sec_Purpose = purpose, sec_Ciphertext = c, sec_CreatedAt = now\<rparr>]\<rparr>"
    and "i = secret_id_of random" and "i \<notin> set (secret_ids tb)"
proof (cases g)
  case None
  then show thesis using assms by (simp add: put_secret_def split: if_splits)
next
  case (Some key)
  then obtain c where c: "vault_seal env key nonce purpose plaintext = Inr c"
    using assms by (auto simp: put_secret_def split: if_splits sum.splits)
  with Some assms have "with_value (save_secret tb (secret_id_of random) purpose c now) (secret_id_of random) = (tb', Inr i)"
    by (simp add: put_secret_def split: if_splits)
  then show thesis
    by (intro that [OF Some c]) (auto simp: with_value_def save_secret_def insert_row_def split: if_splits)
qed

lemma get_put_secret:
  assumes "put_secret env g tb nonce random purpose plaintext now = (tb', Inr i)" and "aead_ok env" and "length nonce = 12"
  shows "get_secret env g tb' i purpose = Inr plaintext"
proof -
  obtain key c where g: "g = Some key" and c: "vault_seal env key nonce purpose plaintext = Inr c"
    and tb': "tb' = tb\<lparr>tb_secrets := tb_secrets tb @ [\<lparr>sec_ID = i, sec_Purpose = purpose, sec_Ciphertext = c, sec_CreatedAt = now\<rparr>]\<rparr>"
    and new: "i \<notin> set (secret_ids tb)"
    using put_secret_stored [OF assms(1)] .
  have "load_secret tb' i = Inr (purpose, c)" unfolding tb' using new by (simp add: load_secret_def row_snoc)
  then show ?thesis using open_sealed [OF assms(2,3) c] by (simp add: get_secret_def g)
qed

text \<open>The JSON form of a valid wrapped key is read back and does not look like a bare key.\<close>

definition key_json_ok :: "vault_env \<Rightarrow> bool" where
  "key_json_ok env \<longleftrightarrow> (\<forall>w. validate_wrapped_key w = None \<longrightarrow> ven_DecodeKey env (ven_EncodeKey env w) = Inr w \<and> length (ven_EncodeKey env w) \<noteq> 32)"

lemma load_wrapped:
  assumes "aead_ok env" and "key_json_ok env" and "length master = 32" and "1 \<le> cpus" and "16 \<le> length salt" "length salt \<le> 64"
    and "length nonce = 12" and "passphrase \<noteq> []"
  shows "load_key env (Inr \<lparr>kf_Content = ven_EncodeKey env (wrap_key env master passphrase cpus salt nonce), kf_Private = True\<rparr>)
     passphrase = Inr (master, Unlocked_State)"
proof -
  let ?w = "wrap_key env master passphrase cpus salt nonce"
  have "length (wk_Ciphertext ?w) = 48" using assms(1,3) by (simp add: wrap_key_def aead_ok_def Let_def)
  then have valid: "validate_wrapped_key ?w = None"
    using assms(4-7) by (simp add: validate_wrapped_key_def wrap_key_def Let_def min_def)
  then have "ven_DecodeKey env (ven_EncodeKey env ?w) = Inr ?w" "length (ven_EncodeKey env ?w) \<noteq> 32"
    using assms(2) by (simp_all add: key_json_ok_def)
  moreover have "ven_Open env (ven_Argon2 env passphrase (wk_Salt ?w) (wk_Iterations ?w) (wk_MemoryKiB ?w) (wk_Parallelism ?w))
      (wk_Nonce ?w) wrap_purpose (wk_Ciphertext ?w) = Some master"
    using assms(1) by (simp add: wrap_key_def aead_ok_def Let_def)
  ultimately show ?thesis using valid assms(3,8) by (simp add: load_key_def)
qed

lemma locked_file:
  assumes "lock_on_restart env c passphrase cpus salt nonce Written = (c', None)"
  obtains master where "vct_Gate c = Some master" and "length master = 32" and "12 \<le> length passphrase"
    and "vct_File c' = Inr \<lparr>kf_Content = ven_EncodeKey env (wrap_key env master passphrase cpus salt nonce), kf_Private = True\<rparr>"
  using assms
  by (auto simp: lock_on_restart_def master_key_def save_locked_def key_length_def write_key_file_def Let_def not_less
      split: option.splits if_splits)

text \<open>
  C17: a secret survives a restart with a locked vault. When a value was stored and the key file was
  then locked with a passphrase, the restarted program refuses to read the value until it is unlocked
  with that passphrase, and then reads exactly what was stored, for its purpose only. AES-GCM opens what
  it sealed, and the JSON form of a wrapped key is read back.
\<close>
theorem secret_survives_restart:
  assumes "aead_ok env" and "key_json_ok env"
    and "put_secret env (vct_Gate c) tb nonce random purpose plaintext t = (tb', Inr i)" and "length nonce = 12"
    and "lock_on_restart env c passphrase cpus salt key_nonce Written = (c', None)"
    and "1 \<le> cpus" and "16 \<le> length salt" and "length salt \<le> 64" and "length key_nonce = 12" and "zero_time \<le> now"
  shows "\<exists>r. vault_unlock env (new_vault_controller (vct_File c') None Locked_State) passphrase now later = (r, None) \<and>
     get_secret env (vct_Gate r) tb' i purpose = Inr plaintext \<and>
     (\<forall>p. p \<noteq> purpose \<longrightarrow> isl (get_secret env (vct_Gate r) tb' i p)) \<and>
     get_secret env None tb' i purpose = Inl ErrLocked"
proof -
  obtain master where g: "vct_Gate c = Some master" and m: "length master = 32" and p: "12 \<le> length passphrase"
    and f: "vct_File c' = Inr \<lparr>kf_Content = ven_EncodeKey env (wrap_key env master passphrase cpus salt key_nonce), kf_Private = True\<rparr>"
    using locked_file [OF assms(5)] .
  have "passphrase \<noteq> []" using p by auto
  then have load: "load_key env (vct_File c') passphrase = Inr (master, Unlocked_State)"
    using load_wrapped [OF assms(1,2) m assms(6-9)] f by simp
  have get: "get_secret env (Some master) tb' i purpose = Inr plaintext"
    using get_put_secret [OF assms(3,1,4)] g by simp
  then have "load_secret tb' i \<noteq> Inl e" for e by (auto simp: get_secret_def)
  moreover have "fst (projr (load_secret tb' i)) = purpose"
    using get by (auto simp: get_secret_def split: sum.splits prod.splits if_splits)
  ultimately have other: "isl (get_secret env (Some master) tb' i p')" if "p' \<noteq> purpose" for p'
    using that by (cases "load_secret tb' i") (auto simp: get_secret_def)
  show ?thesis
    using assms(10) load get other m
    by (simp add: vault_unlock_def new_vault_controller_def gate_unlock_def key_length_def) (simp add: get_secret_def)
qed

text \<open>A vault that hides nothing and checks the first bytes of the key, with the laws above.\<close>

definition vault_example :: vault_env where
  "vault_example = \<lparr>ven_Seal = (\<lambda>key nonce purpose plaintext. plaintext @ take 16 (key @ replicate 16 CHR 0x2A)),
     ven_Open = (\<lambda>key nonce purpose c. if drop (length c - 16) c = take 16 (key @ replicate 16 CHR 0x2A)
       then Some (take (length c - 16) c) else None),
     ven_Argon2 = (\<lambda>passphrase salt t m p. passphrase @ salt),
     ven_EncodeKey = (\<lambda>w. [char_of (wk_MemoryKiB w), char_of (wk_MemoryKiB w div 256), char_of (wk_MemoryKiB w div 65536),
       char_of (wk_Iterations w), char_of (wk_Parallelism w), char_of (length (wk_Salt w))] @
       wk_Salt w @ wk_Nonce w @ wk_Ciphertext w),
     ven_DecodeKey = (\<lambda>s. let n = of_char (s ! 5) in
       Inr \<lparr>wk_Version = 1, wk_MemoryKiB = of_char (s ! 0) + 256 * of_char (s ! 1) + 65536 * of_char (s ! 2),
       wk_Iterations = of_char (s ! 3), wk_Parallelism = of_char (s ! 4), wk_Salt = take n (drop 6 s),
       wk_Nonce = take 12 (drop n (drop 6 s)), wk_Ciphertext = drop 12 (drop n (drop 6 s))\<rparr>)\<rparr>"

lemma vault_example_ok: "aead_ok vault_example" "key_json_ok vault_example"
proof -
  show "aead_ok vault_example" by (auto simp: aead_ok_def vault_example_def min_def)
  have memory: "m mod 256 + 256 * (m div 256 mod 256) + 65536 * (m div 65536 mod 256) = m" if "m \<le> 1024 * 1024" for m :: nat
  proof -
    have "m div 65536 = m div 256 div 256" by (simp add: div_mult2_eq [symmetric])
    moreover have "m div 65536 < 256" using that by (intro less_mult_imp_div_less) simp
    ultimately have "m div 65536 mod 256 = m div 256 div 256" by simp
    then show ?thesis using div_mult_mod_eq [of m 256] div_mult_mod_eq [of "m div 256" 256] by linarith
  qed
  have "ven_DecodeKey vault_example (ven_EncodeKey vault_example w) = Inr w \<and> length (ven_EncodeKey vault_example w) \<noteq> 32"
    if "validate_wrapped_key w = None" for w
  proof -
    have "wk_Version w = 1" "wk_MemoryKiB w \<le> 1024 * 1024" "wk_Iterations w < 256" "wk_Parallelism w < 256"
      "length (wk_Salt w) < 256" "length (wk_Nonce w) = 12" "length (wk_Ciphertext w) = 48"
      using that by (auto simp: validate_wrapped_key_def split: if_splits)
    then show ?thesis using memory [of "wk_MemoryKiB w"]
      by (cases w) (simp add: vault_example_def Let_def del: drop_drop)
  qed
  then show "key_json_ok vault_example" by (simp add: key_json_ok_def)
qed

definition open_controller :: vault_controller where
  "open_controller = new_vault_controller (Inr \<lparr>kf_Content = replicate 32 CHR 0x07, kf_Private = True\<rparr>)
     (Some (replicate 32 CHR 0x07)) Automatic"

theorem secret_survives_restart_witness:
  "\<exists>tb c r. put_secret vault_example (vct_Gate open_controller) no_tables (replicate 12 CHR 0x01) ''*'' ''repository-password''
        ''correct horse'' 0 = (tb, Inr ''sec_2a'') \<and>
      lock_on_restart vault_example open_controller ''a long passphrase'' 2 (replicate 16 CHR 0x03) (replicate 12 CHR 0x02) Written =
        (c, None) \<and>
      vault_unlock vault_example (new_vault_controller (vct_File c) None Locked_State) ''a long passphrase'' 10 11 = (r, None) \<and>
      get_secret vault_example (vct_Gate r) tb ''sec_2a'' ''repository-password'' = Inr ''correct horse''"
proof -
  have put: "snd (put_secret vault_example (vct_Gate open_controller) no_tables (replicate 12 CHR 0x01) ''*''
      ''repository-password'' ''correct horse'' 0) = Inr ''sec_2a''"
    by (simp add: put_secret_def open_controller_def new_vault_controller_def vault_seal_def with_value_def save_secret_def
        insert_row_def no_tables_def secret_id_of_def hex_encode_def hex_digit_def) code_simp
  have lock: "snd (lock_on_restart vault_example open_controller ''a long passphrase'' 2 (replicate 16 CHR 0x03)
      (replicate 12 CHR 0x02) Written) = None"
    by (simp add: lock_on_restart_def open_controller_def new_vault_controller_def master_key_def save_locked_def key_length_def
        write_key_file_def)
  obtain tb where tb: "put_secret vault_example (vct_Gate open_controller) no_tables (replicate 12 CHR 0x01) ''*''
      ''repository-password'' ''correct horse'' 0 = (tb, Inr ''sec_2a'')" using put by (metis prod.collapse)
  obtain c where c: "lock_on_restart vault_example open_controller ''a long passphrase'' 2 (replicate 16 CHR 0x03)
      (replicate 12 CHR 0x02) Written = (c, None)" using lock by (metis prod.collapse)
  show ?thesis
    using secret_survives_restart [OF vault_example_ok tb _ c, where now = 10 and later = 11] tb c by auto
qed

section \<open>Guessing is throttled\<close>














end
