(* ===== verification/Repository_Service.thy ===== *)
theory Repository_Service
  imports Snapshot_Contents Secret_Vault Resource_Policies
begin

text \<open>
  The repository service of src/internal/repository/service.go over the tables, the vault and the
  Restic engine: connecting, initialising and reconnecting repositories, the rotation of their
  passwords in two phases, maintenance, and the checks of a restore. src/internal/s3backend/s3backend.go
  gives the material of an S3 repository.

  The engine acts on a world outside the program, \<open>'w\<close>: the repositories, their keys and snapshots. An
  operation is one call of \<open>ren_Run\<close>, which answers the result, an error, and the chunks for the writer.
  The service holds the lock of a repository during an operation, so an operation is one step.
\<close>

section \<open>State and environment\<close>

record snapshot =
  ssh_ID :: string
  ssh_Time :: instant
  ssh_Paths :: "string list"
  ssh_Tags :: "string list"
  ssh_Hostname :: string

record repository_key =
  rky_ID :: string
  rky_Current :: bool

record s3_credentials =
  scr_AccessKey :: string
  scr_SecretKey :: string

record 'w repository_env =
  ren_Run :: "'w \<Rightarrow> restic_operation \<Rightarrow> 'w \<times> listing"
  ren_Vault :: vault_env
  ren_Net :: net_env
  ren_Contents :: contents_env
  ren_Snapshots :: "string \<Rightarrow> snapshot list option outcome"
  ren_Keys :: "string \<Rightarrow> repository_key list outcome"
  ren_Groups :: "string \<Rightarrow> (nat \<times> nat) list outcome"
  ren_DecodeCredentials :: "string \<Rightarrow> s3_credentials option"
  ren_EncodeCredentials :: "s3_credentials \<Rightarrow> string"

record 'w repository_state =
  rps_Tables :: tables
  rps_Gate :: gate
  rps_World :: 'w

record repository_execution =
  rxe_Repository :: repository
  rxe_Host :: remote_host
  rxe_PrivateKeySecretID :: string
  rxe_PasswordSecretID :: string

definition no_host :: remote_host where
  "no_host = \<lparr>host_ID = [], host_Name = [], host_Host = [], host_Port = 0, host_Username = [], host_HostFingerprint = [],
     host_CreatedAt = zero_time, host_UpdatedAt = zero_time\<rparr>"

definition load_repository_execution :: "tables \<Rightarrow> string \<Rightarrow> repository_execution outcome" where
  "load_repository_execution tb i =
     (case row repo_ID i (tb_repositories tb) of
        None \<Rightarrow> Inl NoRows
      | Some r \<Rightarrow>
          (case decode_repository_backend r of
             Inl err \<Rightarrow> Inl err
           | Inr q \<Rightarrow>
               (case decode_repository_local_target r of
                  Inl err \<Rightarrow> Inl err
                | Inr owner \<Rightarrow>
                    let host = (if repo_RemoteHostID r = [] then None else row host_ID (repo_RemoteHostID r) (tb_hosts tb)) in
                    Inr \<lparr>rxe_Repository = q\<lparr>repo_LocalTarget := owner\<rparr>,
                      rxe_Host = (case host of None \<Rightarrow> no_host | Some h \<Rightarrow> remote_host.truncate h),
                      rxe_PrivateKeySecretID = (case host of None \<Rightarrow> [] | Some h \<Rightarrow> hrow_SecretID h),
                      rxe_PasswordSecretID = rrow_PasswordSecretID r\<rparr>)))"

definition load_remote_host_execution :: "tables \<Rightarrow> string \<Rightarrow> (remote_host \<times> string) outcome" where
  "load_remote_host_execution tb i =
     (case row host_ID i (tb_hosts tb) of None \<Rightarrow> Inl NoRows | Some h \<Rightarrow> Inr (remote_host.truncate h, hrow_SecretID h))"

section \<open>The material of a repository\<close>

abbreviation credential_purpose :: string where "credential_purpose \<equiv> ''s3-credentials''"
abbreviation password_purpose :: string where "password_purpose \<equiv> ''repository-password''"
abbreviation ssh_key_purpose :: string where "ssh_key_purpose \<equiv> ''ssh-private-key''"

definition credentials_validate :: "s3_credentials \<Rightarrow> check" where
  "credentials_validate c =
     (if scr_AccessKey c = [] \<or> scr_SecretKey c = [] \<or> length (scr_AccessKey c) > 256 \<or> length (scr_SecretKey c) > 1024 \<or>
         contains_any line_breaks (scr_AccessKey c @ scr_SecretKey c)
      then Some (Invalid ''S3 access key and secret key are required and must not contain control characters'')
      else None)"

definition encode_credentials :: "'w repository_env \<Rightarrow> s3_credentials \<Rightarrow> string outcome" where
  "encode_credentials env c = (case credentials_validate c of Some err \<Rightarrow> Inl err | None \<Rightarrow> Inr (ren_EncodeCredentials env c))"

definition decode_credentials :: "'w repository_env \<Rightarrow> string \<Rightarrow> s3_credentials outcome" where
  "decode_credentials env s =
     (case ren_DecodeCredentials env s of
        None \<Rightarrow> Inl (Invalid ''decode S3 credentials'')
      | Some c \<Rightarrow> (case credentials_validate c of Some err \<Rightarrow> Inl err | None \<Rightarrow> Inr c))"

definition no_material :: restic_repository where
  "no_material = \<lparr>rsr_Location = [], rsr_Password = [], rsr_SSHPrivateKey = [], rsr_SSHPort = 0, rsr_KnownHosts = [],
     rsr_S3AccessKey = [], rsr_S3SecretKey = [], rsr_S3Region = [], rsr_S3BucketLookup = []\<rparr>"

definition s3_material :: "net_env \<Rightarrow> repository \<Rightarrow> string \<Rightarrow> s3_credentials \<Rightarrow> restic_repository outcome" where
  "s3_material net r password c =
     (if password = [] \<or> effective_kind r \<noteq> S3Repository \<or> repo_S3 r = None
      then Inl (Invalid ''S3 repository settings and password are required'')
      else (case repository_validate net r of
        Some err \<Rightarrow> Inl err
      | None \<Rightarrow>
          (case credentials_validate c of
             Some err \<Rightarrow> Inl err
           | None \<Rightarrow>
               let s3 = the (repo_S3 r) in
               Inr (no_material
                 \<lparr>rsr_Location := ''s3:'' @ trim_suffix ''/'' (s3_Endpoint s3) @ ''/'' @ s3_Bucket s3 @
                    (if repo_Path r \<noteq> [] then ''/'' @ repo_Path r else []),
                  rsr_Password := password, rsr_S3AccessKey := scr_AccessKey c, rsr_S3SecretKey := scr_SecretKey c,
                  rsr_S3Region := s3_Region s3, rsr_S3BucketLookup := (if s3_PathStyle s3 then ''path'' else ''dns'')\<rparr>))))"

definition sftp_location :: "remote_host \<Rightarrow> string \<Rightarrow> string" where
  "sftp_location h path =
     (let endpoint = (if CHR '':'' \<in> set (host_Host h) then ''['' @ trim_chars ''[]'' (host_Host h) @ '']'' else host_Host h) in
      ''sftp:'' @ host_Username h @ ''@'' @ endpoint @ '':'' @ path)"

definition repository_material ::
  "'w repository_env \<Rightarrow> 'w repository_state \<Rightarrow> repository \<Rightarrow> remote_host \<Rightarrow> string \<Rightarrow> string \<Rightarrow> s3_credentials option \<Rightarrow> restic_repository outcome" where
  "repository_material env st r h key_secret password credentials =
     (let secret = get_secret (ren_Vault env) (rps_Gate st) (rps_Tables st) in
      if effective_kind r = LocalRepository
      then Inr (no_material\<lparr>rsr_Location := repo_Path r, rsr_Password := password\<rparr>)
      else if effective_kind r = S3Repository then
        (case (case credentials of
            Some c \<Rightarrow> Inr c
          | None \<Rightarrow>
              (case secret (repo_BackendSecretID r) credential_purpose of
                 Inl err \<Rightarrow> Inl err | Inr encoded \<Rightarrow> decode_credentials env encoded)) of
           Inl err \<Rightarrow> Inl err
         | Inr c \<Rightarrow> s3_material (ren_Net env) r password c)
      else if blank (host_HostFingerprint h) then Inl (Invalid ''SSH host key is not pinned'')
      else (case secret key_secret ssh_key_purpose of
          Inl err \<Rightarrow> Inl err
        | Inr key \<Rightarrow>
            Inr (no_material\<lparr>rsr_Location := sftp_location h (repo_Path r), rsr_Password := password,
              rsr_SSHPrivateKey := key, rsr_SSHPort := host_Port h, rsr_KnownHosts := host_HostFingerprint h\<rparr>)))"

definition material :: "'w repository_env \<Rightarrow> 'w repository_state \<Rightarrow> string \<Rightarrow> (repository_execution \<times> restic_repository) outcome" where
  "material env st i =
     (case load_repository_execution (rps_Tables st) i of
        Inl err \<Rightarrow> Inl err
      | Inr e \<Rightarrow>
          (case get_secret (ren_Vault env) (rps_Gate st) (rps_Tables st) (rxe_PasswordSecretID e) password_purpose of
             Inl err \<Rightarrow> Inl err
           | Inr password \<Rightarrow>
               (case repository_material env st (rxe_Repository e) (rxe_Host e) (rxe_PrivateKeySecretID e) password None of
                  Inl err \<Rightarrow> Inl err
                | Inr m \<Rightarrow> Inr (e, m))))"

section \<open>Running the engine\<close>

definition operation_on :: "string \<Rightarrow> restic_repository \<Rightarrow> string list \<Rightarrow> restic_operation" where
  "operation_on kind m args = \<lparr>rop_Kind = kind, rop_Repository = m, rop_Directory = None, rop_Command = None, rop_Filename = [],
     rop_Arguments = args, rop_NewPassword = []\<rparr>"

definition run_restic ::
  "'w repository_env \<Rightarrow> restic_operation \<Rightarrow> 'w repository_state \<Rightarrow> 'w repository_state \<times> restic_result outcome" where
  "run_restic env op st =
     (case ren_Run env (rps_World st) op of
        (w, result, err, chunks) \<Rightarrow>
          (st\<lparr>rps_World := w\<rparr>, case err of Some e \<Rightarrow> Inl e | None \<Rightarrow> Inr result))"

definition repository_operation ::
  "'w repository_env \<Rightarrow> string \<Rightarrow> string \<Rightarrow> string list \<Rightarrow> 'w repository_state \<Rightarrow> 'w repository_state \<times> restic_result outcome" where
  "repository_operation env i kind args st =
     (case material env st i of
        Inl err \<Rightarrow> (st, Inl err)
      | Inr (e, m) \<Rightarrow> run_restic env (operation_on kind m args) st)"

text \<open>The listing that \<open>Snapshot_Contents\<close> reads; it does not change the world's repositories.\<close>

definition contents_listing :: "'w repository_env \<Rightarrow> 'w repository_state \<Rightarrow> string \<Rightarrow> string list \<Rightarrow> listing" where
  "contents_listing env st i args =
     (case material env st i of
        Inl err \<Rightarrow> (refused_result, Some err, [])
      | Inr (e, m) \<Rightarrow> snd (ren_Run env (rps_World st) (operation_on ListSnapshotContents m args)))"

definition verify_read_only ::
  "'w repository_env \<Rightarrow> restic_repository \<Rightarrow> 'w repository_state \<Rightarrow> 'w repository_state \<times> snapshot list outcome" where
  "verify_read_only env m st =
     (case run_restic env (operation_on VerifyRepository m []) st of
        (st', Inl _) \<Rightarrow> (st', Inl (Invalid ''existing repository could not be verified read only''))
      | (st', Inr result) \<Rightarrow>
          (st', case ren_Snapshots env (rsx_Stdout result) of
              Inl err \<Rightarrow> Inl (Wrapped ''decode existing repository snapshots'' err)
            | Inr None \<Rightarrow> Inl (Wrapped ''decode existing repository snapshots'' (Invalid ''snapshot response is not an array''))
            | Inr (Some snapshots) \<Rightarrow> Inr snapshots))"

definition put_tables :: "'w repository_state \<Rightarrow> tables \<Rightarrow> 'w repository_state" where
  "put_tables st tb = st\<lparr>rps_Tables := tb\<rparr>"

text \<open>Random bytes of the \<open>n\<close>-th secret an operation stores: its nonce and its identifier.\<close>

type_synonym random_source = "nat \<Rightarrow> string \<times> string"

definition store_secret ::
  "'w repository_env \<Rightarrow> string \<times> string \<Rightarrow> string \<Rightarrow> string \<Rightarrow> instant \<Rightarrow> 'w repository_state \<Rightarrow> 'w repository_state \<times> string outcome" where
  "store_secret env random purpose value now st =
     (case put_secret (ren_Vault env) (rps_Gate st) (rps_Tables st) (fst random) (snd random) purpose value now of
        (tb, res) \<Rightarrow> (put_tables st tb, res))"

definition forget_secret :: "string \<Rightarrow> 'w repository_state \<Rightarrow> 'w repository_state" where
  "forget_secret i st = put_tables st (fst (remove_secret (rps_Gate st) (rps_Tables st) i))"

section \<open>Connecting an existing repository\<close>

definition connection_material ::
  "'w repository_env \<Rightarrow> 'w repository_state \<Rightarrow> repository \<Rightarrow> string \<Rightarrow> s3_credentials option \<Rightarrow> restic_repository outcome" where
  "connection_material env st candidate password credentials =
     (case (if effective_kind candidate = SFTPRepository
            then load_remote_host_execution (rps_Tables st) (repo_RemoteHostID candidate) else Inr (no_host, [])) of
        Inl err \<Rightarrow> Inl err
      | Inr (h, key_secret) \<Rightarrow> repository_material env st candidate h key_secret password credentials)"

text \<open>The secret of the backend, when there is one: its identifier, or an error.\<close>

definition store_backend_secret ::
  "'w repository_env \<Rightarrow> string \<times> string \<Rightarrow> repository \<Rightarrow> s3_credentials option \<Rightarrow> instant \<Rightarrow> 'w repository_state \<Rightarrow> 'w repository_state \<times> string outcome" where
  "store_backend_secret env random candidate credentials now st =
     (if effective_kind candidate \<noteq> S3Repository then (st, Inr [])
      else (case credentials of
        None \<Rightarrow> (st, Inl (Invalid ''S3 credentials are required''))
      | Some c \<Rightarrow>
          (case encode_credentials env c of
             Inl err \<Rightarrow> (st, Inl err)
           | Inr encoded \<Rightarrow> store_secret env random credential_purpose encoded now st)))"

definition persist_connection ::
  "'w repository_env \<Rightarrow> random_source \<Rightarrow> repository \<Rightarrow> string \<Rightarrow> s3_credentials option \<Rightarrow> instant \<Rightarrow> 'w repository_state \<Rightarrow> 'w repository_state \<times> check" where
  "persist_connection env random candidate password credentials now st =
     (case store_secret env (random 0) password_purpose password now st of
        (st1, Inl err) \<Rightarrow> (st1, Some err)
      | (st1, Inr secret) \<Rightarrow>
          (case store_backend_secret env (random 1) candidate credentials now st1 of
             (st2, Inl err) \<Rightarrow> (forget_secret secret st2, Some err)
           | (st2, Inr backend) \<Rightarrow>
               let ready = candidate\<lparr>repo_BackendSecretID := (if effective_kind candidate = S3Repository then backend
                     else repo_BackendSecretID candidate), repo_Status := ''ready''\<rparr> in
               (case create_repository (rps_Tables st2) ready secret now of
                  (tb, None) \<Rightarrow> (put_tables st2 tb, None)
                | (tb, Some err) \<Rightarrow>
                    let st3 = forget_secret secret (put_tables st2 tb) in
                    (if backend \<noteq> [] then forget_secret backend st3 else st3, Some err))))"

definition connect_existing ::
  "'w repository_env \<Rightarrow> random_source \<Rightarrow> repository \<Rightarrow> string \<Rightarrow> s3_credentials option \<Rightarrow> instant \<Rightarrow> 'w repository_state \<Rightarrow> 'w repository_state \<times> snapshot list \<times> check" where
  "connect_existing env random candidate password credentials now st =
     (if repo_ID candidate = [] \<or> effective_engine (repo_Engine candidate) \<noteq> ResticEngine \<or> password = []
      then (st, [], Some (Invalid ''existing Restic repository identity and password are required''))
      else (case repository_validate (ren_Net env) candidate of
        Some err \<Rightarrow> (st, [], Some err)
      | None \<Rightarrow>
          (case connection_material env st candidate password credentials of
             Inl err \<Rightarrow> (st, [], Some err)
           | Inr m \<Rightarrow>
               (case verify_read_only env m st of
                  (st1, Inl err) \<Rightarrow> (st1, [], Some err)
                | (st1, Inr snapshots) \<Rightarrow>
                    (case persist_connection env random candidate password credentials now st1 of
                       (st2, err) \<Rightarrow> (st2, snapshots, err))))))"

definition verify_existing ::
  "'w repository_env \<Rightarrow> string \<Rightarrow> instant \<Rightarrow> 'w repository_state \<Rightarrow> 'w repository_state \<times> snapshot list outcome" where
  "verify_existing env i now st =
     (case material env st i of
        Inl err \<Rightarrow> (st, Inl err)
      | Inr (e, m) \<Rightarrow>
          if effective_engine (repo_Engine (rxe_Repository e)) \<noteq> ResticEngine \<or> repo_Status (rxe_Repository e) \<noteq> ''disconnected''
          then (st, Inl (Invalid (''repository cannot be reconnected while status is '' @ repo_Status (rxe_Repository e))))
          else (case verify_read_only env m st of
              (st1, Inl err) \<Rightarrow> (st1, Inl err)
            | (st1, Inr snapshots) \<Rightarrow> (put_tables st1 (update_repository_status (rps_Tables st1) i ''ready'' now), Inr snapshots)))"

definition initialize :: "'w repository_env \<Rightarrow> string \<Rightarrow> instant \<Rightarrow> 'w repository_state \<Rightarrow> 'w repository_state \<times> check" where
  "initialize env i now st =
     (case material env st i of
        Inl err \<Rightarrow> (st, Some err)
      | Inr (e, m) \<Rightarrow>
          if repo_Status (rxe_Repository e) \<noteq> ''uninitialized''
          then (st, Some (Invalid (''repository cannot be initialized while status is '' @ repo_Status (rxe_Repository e))))
          else (case run_restic env (operation_on InitializeRepo m []) st of
              (st1, Inl err) \<Rightarrow> (st1, Some err)
            | (st1, Inr _) \<Rightarrow> (put_tables st1 (update_repository_status (rps_Tables st1) i ''ready'' now), None)))"

section \<open>Rotating the password\<close>

definition current_key :: "repository_key list \<Rightarrow> string" where
  "current_key keys = (case find rky_Current keys of None \<Rightarrow> [] | Some k \<Rightarrow> rky_ID k)"

definition listed_keys ::
  "'w repository_env \<Rightarrow> restic_repository \<Rightarrow> 'w repository_state \<Rightarrow> 'w repository_state \<times> repository_key list outcome" where
  "listed_keys env m st =
     (case run_restic env (operation_on ListKeys m []) st of
        (st1, Inl err) \<Rightarrow> (st1, Inl err)
      | (st1, Inr result) \<Rightarrow>
          (st1, case ren_Keys env (rsx_Stdout result) of
              Inl err \<Rightarrow> Inl (Wrapped ''decode repository keys'' err) | Inr keys \<Rightarrow> Inr keys))"

text \<open>The new password is added, tried, and committed; when one of these fails its secret is forgotten.\<close>

definition switch_password ::
  "'w repository_env \<Rightarrow> string \<Rightarrow> restic_repository \<Rightarrow> string \<Rightarrow> string \<Rightarrow> string \<Rightarrow> string \<Rightarrow> instant \<Rightarrow> 'w repository_state \<Rightarrow> 'w repository_state \<times> check" where
  "switch_password env i old new_password new_secret old_key old_secret now st =
     (case run_restic env ((operation_on AddKey old [])\<lparr>rop_NewPassword := new_password\<rparr>) st of
        (st1, Inl err) \<Rightarrow> (forget_secret new_secret st1, Some err)
      | (st1, Inr _) \<Rightarrow>
          (case run_restic env (operation_on ListSnapshots (old\<lparr>rsr_Password := new_password\<rparr>) []) st1 of
             (st2, Inl err) \<Rightarrow> (forget_secret new_secret st2, Some (Wrapped ''verify new repository password'' err))
           | (st2, Inr _) \<Rightarrow>
               (case commit_password_rotation (rps_Tables st2) i new_secret old_key old_secret now of
                  (tb, Some err) \<Rightarrow> (forget_secret new_secret (put_tables st2 tb), Some err)
                | (tb, None) \<Rightarrow> (put_tables st2 tb, None))))"

definition rotate_password ::
  "'w repository_env \<Rightarrow> string \<times> string \<Rightarrow> string \<Rightarrow> string \<Rightarrow> instant \<Rightarrow> 'w repository_state \<Rightarrow> 'w repository_state \<times> check" where
  "rotate_password env random i new_password now st =
     (if length new_password < 12 then (st, Some (Invalid ''repository password must have at least 12 characters''))
      else (case material env st i of
        Inl err \<Rightarrow> (st, Some err)
      | Inr (e, old) \<Rightarrow>
          if pending_key_revocation (rps_Tables st) i \<noteq> None
          then (st, Some (Invalid ''repository has an old key awaiting explicit revocation''))
          else (case listed_keys env old st of
              (st1, Inl err) \<Rightarrow> (st1, Some err)
            | (st1, Inr keys) \<Rightarrow>
                if current_key keys = [] then (st1, Some (Invalid ''current repository key was not identified''))
                else (case store_secret env random password_purpose new_password now st1 of
                    (st2, Inl err) \<Rightarrow> (st2, Some err)
                  | (st2, Inr secret) \<Rightarrow>
                      switch_password env i old new_password secret (current_key keys) (rxe_PasswordSecretID e) now st2))))"

definition password_rotation_status :: "'w repository_state \<Rightarrow> string \<Rightarrow> (string \<times> instant) option" where
  "password_rotation_status st i =
     map_option (\<lambda>v. (rvk_KeyID v, rvk_CreatedAt v)) (pending_key_revocation (rps_Tables st) i)"

definition revoke_old_password :: "'w repository_env \<Rightarrow> string \<Rightarrow> 'w repository_state \<Rightarrow> 'w repository_state \<times> check" where
  "revoke_old_password env i st =
     (case pending_key_revocation (rps_Tables st) i of
        None \<Rightarrow> (st, None)
      | Some v \<Rightarrow>
          (case material env st i of
             Inl err \<Rightarrow> (st, Some err)
           | Inr (e, m) \<Rightarrow>
               (case listed_keys env m st of
                  (st1, Inl err) \<Rightarrow> (st1, Some err)
                | (st1, Inr keys) \<Rightarrow>
                    (case (if rvk_KeyID v \<in> set (map rky_ID keys)
                           then run_restic env (operation_on RemoveKey m [rvk_KeyID v]) st1 else (st1, Inr refused_result)) of
                       (st2, Inl err) \<Rightarrow> (st2, Some err)
                     | (st2, Inr _) \<Rightarrow>
                         (case complete_key_revocation (rps_Tables st2) i (rvk_KeyID v) of
                            (tb, err) \<Rightarrow> (put_tables st2 tb, err))))))"

section \<open>Maintenance\<close>

definition flag_arguments :: "string \<Rightarrow> int \<Rightarrow> string list" where
  "flag_arguments flag value = (if value > 0 then [flag, show_int value] else [])"

definition retention_args :: "retention_policy \<Rightarrow> string list" where
  "retention_args p =
     (if keep_WithinDays p > 0 then [''--keep-within'', show_int (keep_WithinDays p) @ ''d''] else []) @
     flag_arguments ''--keep-last'' (keep_Last p) @ flag_arguments ''--keep-hourly'' (keep_Hourly p) @
     flag_arguments ''--keep-daily'' (keep_Daily p) @ flag_arguments ''--keep-weekly'' (keep_Weekly p) @
     flag_arguments ''--keep-monthly'' (keep_Monthly p) @ flag_arguments ''--keep-yearly'' (keep_Yearly p)"

abbreviation protected_tag :: "string list" where "protected_tag \<equiv> [''--keep-tag'', ''rc:protected-partial'']"

definition maintenance_blocked :: "repository_execution \<Rightarrow> go_error" where
  "maintenance_blocked e = Invalid (''repository maintenance is blocked while status is '' @ repo_Status (rxe_Repository e))"

definition parse_maintenance_summary :: "'w repository_env \<Rightarrow> string \<Rightarrow> (int \<times> int) outcome" where
  "parse_maintenance_summary env output =
     (case ren_Groups env output of
        Inl err \<Rightarrow> Inl (Wrapped ''parse maintenance preview'' err)
      | Inr groups \<Rightarrow> Inr (int (sum_list (map fst groups)), int (sum_list (map snd groups))))"

definition preview_maintenance ::
  "'w repository_env \<Rightarrow> string \<Rightarrow> retention_policy \<Rightarrow> 'w repository_state \<Rightarrow> 'w repository_state \<times> (int \<times> int) outcome" where
  "preview_maintenance env i policy st =
     (case material env st i of
        Inl err \<Rightarrow> (st, Inl err)
      | Inr (e, _) \<Rightarrow>
          if repo_Status (rxe_Repository e) \<noteq> ''ready'' then (st, Inl (maintenance_blocked e))
          else (case repository_operation env i ForgetSnapshots (retention_args policy @ protected_tag @ [''--dry-run'']) st of
              (st1, Inl err) \<Rightarrow> (st1, Inl err)
            | (st1, Inr result) \<Rightarrow> (st1, parse_maintenance_summary env (rsx_Stdout result))))"

definition maintain ::
  "'w repository_env \<Rightarrow> string \<Rightarrow> retention_policy \<Rightarrow> bool \<Rightarrow> instant \<Rightarrow> 'w repository_state \<Rightarrow> 'w repository_state \<times> check" where
  "maintain env i policy dry_run now st =
     (case material env st i of
        Inl err \<Rightarrow> (st, Some err)
      | Inr (e, _) \<Rightarrow>
          if repo_Status (rxe_Repository e) \<noteq> ''ready'' then (st, Some (maintenance_blocked e))
          else (case repository_operation env i ForgetSnapshots
              (retention_args policy @ protected_tag @ (if dry_run then [''--dry-run''] else [])) st of
            (st1, Inl err) \<Rightarrow> (st1, Some err)
          | (st1, Inr _) \<Rightarrow>
              if dry_run then (st1, None)
              else (case repository_operation env i PruneRepository [] st1 of
                  (st2, Inl err) \<Rightarrow> (st2, Some err)
                | (st2, Inr _) \<Rightarrow>
                    (case repository_operation env i CheckRepository [] st2 of
                       (st3, Inl err) \<Rightarrow>
                         (put_tables st3 (update_repository_status (rps_Tables st3) i ''abnormal'' now), Some err)
                     | (st3, Inr _) \<Rightarrow>
                         (put_tables st3 (update_repository_status (rps_Tables st3) i ''ready'' now), None)))))"

section \<open>Secrets that are forgotten again\<close>

lemma delete_where_snoc:
  "key r \<notin> key ` set t \<Longrightarrow> delete_where (\<lambda>q. key q = key r) (t @ [r]) = t"
  by (induction t) (auto simp: delete_where_def)

lemma delete_where_middle:
  "key r \<notin> key ` set t \<Longrightarrow> key r \<noteq> key q \<Longrightarrow> delete_where (\<lambda>q. key q = key r) (t @ [r, q]) = t @ [q]"
  by (induction t) (auto simp: delete_where_def)

text \<open>A random identifier is fresh: no row has it, neither as a secret nor as a reference to one.\<close>

definition fresh_secret :: "tables \<Rightarrow> string \<Rightarrow> bool" where
  "fresh_secret tb i \<longleftrightarrow> i \<notin> set (secret_ids tb) \<and> \<not> secret_referenced tb i"

lemma secret_referenced_secrets [simp]: "secret_referenced (tb\<lparr>tb_secrets := s\<rparr>) i = secret_referenced tb i"
  by (simp add: secret_referenced_def)

lemma store_secret_done:
  assumes "store_secret env random purpose value now st = (st', Inr i)"
  obtains s where "st' = put_tables st ((rps_Tables st)\<lparr>tb_secrets := tb_secrets (rps_Tables st) @ [s]\<rparr>)" and "sec_ID s = i"
    and "i = secret_id_of (snd random)" and "i \<notin> set (secret_ids (rps_Tables st))" and "rps_Gate st \<noteq> None"
proof -
  obtain tb where put: "put_secret (ren_Vault env) (rps_Gate st) (rps_Tables st) (fst random) (snd random) purpose value now = (tb, Inr i)"
    and st': "st' = put_tables st tb"
    using assms by (auto simp: store_secret_def split: prod.splits)
  obtain key c where "rps_Gate st = Some key" and "i = secret_id_of (snd random)" and "i \<notin> set (secret_ids (rps_Tables st))"
    and "tb = (rps_Tables st)\<lparr>tb_secrets := tb_secrets (rps_Tables st) @
      [\<lparr>sec_ID = i, sec_Purpose = purpose, sec_Ciphertext = c, sec_CreatedAt = now\<rparr>]\<rparr>"
    using put_secret_stored [OF put] .
  then show thesis
    by (intro that [of "\<lparr>sec_ID = i, sec_Purpose = purpose, sec_Ciphertext = c, sec_CreatedAt = now\<rparr>"]) (simp_all add: st')
qed

lemma store_secret_failed: "store_secret env random purpose value now st = (st', Inl err) \<Longrightarrow> st' = st"
  by (auto simp: store_secret_def put_secret_def put_tables_def with_value_def save_secret_def insert_row_def
      split: prod.splits if_splits option.splits sum.splits)

lemma forget_stored:
  assumes "fresh_secret tb i" and "g \<noteq> None" and "sec_ID s = i" and "rps_Gate st = g"
    and "rps_Tables st = tb\<lparr>tb_secrets := tb_secrets tb @ [s]\<rparr>"
  shows "forget_secret i st = put_tables st tb"
proof -
  have "filter (\<lambda>s. sec_ID s = i) (tb_secrets tb) = []"
    using assms(1) by (auto simp: fresh_secret_def filter_empty_conv)
  then have "delete_secret (rps_Tables st) i = (tb, None)"
    using assms delete_where_snoc [of sec_ID s "tb_secrets tb"]
    by (simp add: delete_secret_def fresh_secret_def transaction_def reject_def affected_def)
  then show ?thesis using assms(2,4) by (cases g) (auto simp: forget_secret_def remove_secret_def)
qed

lemma run_restic_tables: "run_restic env op st = (st', res) \<Longrightarrow> rps_Tables st' = rps_Tables st \<and> rps_Gate st' = rps_Gate st"
  by (auto simp: run_restic_def split: prod.splits)

lemma put_tables_simps [simp]:
  "rps_Tables (put_tables st tb) = tb" "rps_Gate (put_tables st tb) = rps_Gate st" "rps_World (put_tables st tb) = rps_World st"
  "put_tables (put_tables st tb) tb' = put_tables st tb'" "put_tables st (rps_Tables st) = st"
  by (simp_all add: put_tables_def)

lemma verify_read_only_tables: "verify_read_only env m st = (st', res) \<Longrightarrow> rps_Tables st' = rps_Tables st \<and> rps_Gate st' = rps_Gate st"
  by (auto simp: verify_read_only_def split: prod.splits sum.splits dest: run_restic_tables)

lemma create_repository_failed: "create_repository tb r secret now = (tb', Some err) \<Longrightarrow> tb' = tb"
  by (auto simp: create_repository_def transaction_def Let_def split: prod.splits option.splits)

lemma forget_other:
  assumes "fresh_secret tb i" and "g \<noteq> None" and "sec_ID s = i" and "sec_ID t \<noteq> i" and "rps_Gate st = g"
    and "rps_Tables st = tb\<lparr>tb_secrets := tb_secrets tb @ [s, t]\<rparr>"
  shows "forget_secret i st = put_tables st (tb\<lparr>tb_secrets := tb_secrets tb @ [t]\<rparr>)"
proof -
  have "filter (\<lambda>s. sec_ID s = i) (tb_secrets tb) = []"
    using assms(1) by (auto simp: fresh_secret_def filter_empty_conv)
  then have "delete_secret (rps_Tables st) i = (tb\<lparr>tb_secrets := tb_secrets tb @ [t]\<rparr>, None)"
    using assms delete_where_middle [of sec_ID s "tb_secrets tb" t]
    by (simp add: delete_secret_def fresh_secret_def transaction_def reject_def affected_def)
  then show ?thesis using assms(2,5) by (cases g) (auto simp: forget_secret_def remove_secret_def)
qed

lemma backend_secret_cases:
  "store_backend_secret env random candidate credentials now st = (st', Inr b) \<Longrightarrow>
     st' = st \<and> b = [] \<or> (\<exists>encoded. store_secret env random credential_purpose encoded now st = (st', Inr b))"
  by (auto simp: store_backend_secret_def split: if_splits option.splits sum.splits)

lemma persist_failed:
  assumes "persist_connection env random candidate password credentials now st = (st', Some err)"
    and "fresh_secret (rps_Tables st) (secret_id_of (snd (random 0)))" and "fresh_secret (rps_Tables st) (secret_id_of (snd (random 1)))"
    and "secret_id_of (snd (random 0)) \<noteq> secret_id_of (snd (random 1))"
  shows "st' = st"
proof -
  let ?tb = "rps_Tables st"
  obtain st1 res1 where r1: "store_secret env (random 0) password_purpose password now st = (st1, res1)" by force
  show ?thesis
  proof (cases res1)
    case (Inl e)
    then show ?thesis using assms(1) r1 store_secret_failed [of env "random 0"] by (auto simp: persist_connection_def)
  next
    case res1: (Inr secret)
    obtain s where st1: "st1 = put_tables st (?tb\<lparr>tb_secrets := tb_secrets ?tb @ [s]\<rparr>)" and s: "sec_ID s = secret"
      and secret: "secret = secret_id_of (snd (random 0))" and g: "rps_Gate st \<noteq> None"
      using store_secret_done [OF r1 [unfolded res1]] by metis
    have forget: "forget_secret secret st1 = st"
      using forget_stored [OF _ g s, of ?tb st1] assms(2) by (simp add: st1 secret)
    obtain st2 res2 where r2: "store_backend_secret env (random 1) candidate credentials now st1 = (st2, res2)" by force
    have failed: "st2 = st1" if "res2 = Inl e" for e
      using r2 that
      by (auto simp: store_backend_secret_def split: if_splits option.splits sum.splits dest: store_secret_failed)
    have stored: "st2 = st1 \<and> backend = [] \<or>
        (\<exists>t. st2 = put_tables st (?tb\<lparr>tb_secrets := tb_secrets ?tb @ [s, t]\<rparr>) \<and> sec_ID t = backend \<and> backend = secret_id_of (snd (random 1)))"
      if "res2 = Inr backend" for backend
    proof (cases "st2 = st1 \<and> backend = []")
      case False
      then obtain encoded where "store_secret env (random 1) credential_purpose encoded now st1 = (st2, Inr backend)"
        using r2 \<open>res2 = Inr backend\<close> backend_secret_cases [of env "random 1" candidate credentials now st1 st2 backend] by blast
      then show ?thesis by (rule store_secret_done) (auto simp: st1)
    qed simp
    show ?thesis
    proof (cases res2)
      case (Inl e)
      then show ?thesis using assms(1) r1 r2 failed forget by (simp add: persist_connection_def res1)
    next
      case res2: (Inr backend)
      let ?ready = "candidate\<lparr>repo_BackendSecretID := (if effective_kind candidate = S3Repository then backend
          else repo_BackendSecretID candidate), repo_Status := ''ready''\<rparr>"
      obtain tb res where c: "create_repository (rps_Tables st2) ?ready secret now = (tb, res)" by force
      have err: "res = Some err" using assms(1) by (auto simp: persist_connection_def r1 res1 r2 [unfolded One_nat_def] res2 c Let_def split: option.splits)
      then have tb: "tb = rps_Tables st2" using create_repository_failed c by simp
      have st': "st' = (if backend \<noteq> [] then forget_secret backend (forget_secret secret st2) else forget_secret secret st2)"
        using assms(1) by (simp add: persist_connection_def r1 res1 r2 [unfolded One_nat_def] res2 c err tb Let_def cong: if_cong)
      show ?thesis
      proof (cases "st2 = st1 \<and> backend = []")
        case True
        then show ?thesis using st' forget by simp
      next
        case False
        then obtain t where st2: "st2 = put_tables st (?tb\<lparr>tb_secrets := tb_secrets ?tb @ [s, t]\<rparr>)"
          and t: "sec_ID t = backend" "backend = secret_id_of (snd (random 1))" using stored [OF res2] by auto
        have "forget_secret secret st2 = put_tables st (?tb\<lparr>tb_secrets := tb_secrets ?tb @ [t]\<rparr>)"
          using forget_other [OF _ g s, of ?tb t st2] assms(2,4) t by (simp add: st2 secret)
        moreover have "forget_secret backend (put_tables st (?tb\<lparr>tb_secrets := tb_secrets ?tb @ [t]\<rparr>)) = st"
          using forget_stored [OF _ g t(1), of ?tb "put_tables st (?tb\<lparr>tb_secrets := tb_secrets ?tb @ [t]\<rparr>)"] assms(3) t by simp
        moreover have "backend \<noteq> []" using t by (simp add: secret_id_of_def)
        ultimately show ?thesis using st' by simp
      qed
    qed
  qed
qed

lemma written_repository_fields:
  "repo_ID (written_repository r pw) = repo_ID r" "repo_Status (written_repository r pw) = repo_Status r"
  "rrow_PasswordSecretID (written_repository r pw) = pw"
  by (simp_all add: written_repository_def repo_row_of_def repository.defs repo_row.defs)

lemma created_repository:
  assumes "create_repository tb r secret now = (tb', None)"
  shows "tb_repositories tb' = tb_repositories tb @ [written_repository r secret] \<and> tb_tasks tb' = tb_tasks tb"
  using assms by (auto simp: create_repository_def transaction_def put_capacity_def Let_def split: prod.splits option.splits)

lemma persist_done:
  assumes "persist_connection env random candidate password credentials now st = (st', None)"
  shows "\<exists>r. tb_repositories (rps_Tables st') = tb_repositories (rps_Tables st) @ [r] \<and> repo_ID r = repo_ID candidate \<and>
     repo_Status r = ''ready'' \<and> rrow_PasswordSecretID r = secret_id_of (snd (random 0)) \<and>
     tb_tasks (rps_Tables st') = tb_tasks (rps_Tables st)"
proof -
  obtain st1 secret where r1: "store_secret env (random 0) password_purpose password now st = (st1, Inr secret)"
    using assms by (auto simp: persist_connection_def split: prod.splits sum.splits)
  obtain st2 backend where r2: "store_backend_secret env (random 1) candidate credentials now st1 = (st2, Inr backend)"
    using assms r1 by (auto simp: persist_connection_def split: prod.splits sum.splits)
  let ?ready = "candidate\<lparr>repo_BackendSecretID := (if effective_kind candidate = S3Repository then backend
      else repo_BackendSecretID candidate), repo_Status := ''ready''\<rparr>"
  obtain tb where c: "create_repository (rps_Tables st2) ?ready secret now = (tb, None)" and st': "st' = put_tables st2 tb"
    using assms by (auto simp: persist_connection_def r1 r2 [unfolded One_nat_def] Let_def split: prod.splits option.splits)
  have secret: "secret = secret_id_of (snd (random 0))" and t1: "tb_repositories (rps_Tables st1) = tb_repositories (rps_Tables st)"
    "tb_tasks (rps_Tables st1) = tb_tasks (rps_Tables st)"
    by (rule store_secret_done [OF r1]; simp)+
  have t2: "tb_repositories (rps_Tables st2) = tb_repositories (rps_Tables st1) \<and> tb_tasks (rps_Tables st2) = tb_tasks (rps_Tables st1)"
    using backend_secret_cases [OF r2] by (auto elim!: store_secret_done)
  show ?thesis using created_repository [OF c] t1 t2 secret by (auto simp: st' written_repository_fields)
qed

lemma connect_cases:
  assumes "connect_existing env random candidate password credentials now st = (st', snapshots, res)"
  shows "st' = st \<and> res \<noteq> None \<or>
    (\<exists>m st1 e. connection_material env st candidate password credentials = Inr m \<and> verify_read_only env m st = (st1, Inl e) \<and>
       st' = st1 \<and> res \<noteq> None) \<or>
    (\<exists>m st1. connection_material env st candidate password credentials = Inr m \<and>
       verify_read_only env m st = (st1, Inr snapshots) \<and>
       persist_connection env random candidate password credentials now st1 = (st', res))"
  using assms
  by (cases "repo_ID candidate = [] \<or> effective_engine (repo_Engine candidate) \<noteq> ResticEngine \<or> password = []";
      cases "repository_validate (ren_Net env) candidate"; cases "connection_material env st candidate password credentials")
     (auto simp: connect_existing_def split: prod.splits sum.splits)

text \<open>
  C7: connecting an existing repository is all or nothing. A failed connection leaves every table as it
  was, including the secrets it had stored for the attempt; a successful one has added exactly the
  candidate, with the status ready, after the engine has verified it read only with this password. The
  random identifiers of the secrets are new.
\<close>
theorem connection_is_all_or_nothing:
  assumes "connect_existing env random candidate password credentials now st = (st', snapshots, res)"
    and "fresh_secret (rps_Tables st) (secret_id_of (snd (random 0)))" and "fresh_secret (rps_Tables st) (secret_id_of (snd (random 1)))"
    and "secret_id_of (snd (random 0)) \<noteq> secret_id_of (snd (random 1))"
  shows "(res \<noteq> None \<longrightarrow> rps_Tables st' = rps_Tables st) \<and>
    (res = None \<longrightarrow>
      (\<exists>m w. connection_material env st candidate password credentials = Inr m \<and>
         verify_read_only env m st = (st\<lparr>rps_World := w\<rparr>, Inr snapshots)) \<and>
      (\<exists>r. tb_repositories (rps_Tables st') = tb_repositories (rps_Tables st) @ [r] \<and> repo_ID r = repo_ID candidate \<and>
         repo_Status r = ''ready'' \<and> rrow_PasswordSecretID r = secret_id_of (snd (random 0))) \<and>
      tb_tasks (rps_Tables st') = tb_tasks (rps_Tables st))"
proof -
  have verified: "st1 = st\<lparr>rps_World := rps_World st1\<rparr>" if "verify_read_only env m st = (st1, r)" for m st1 r
    using that by (auto simp: verify_read_only_def run_restic_def split: prod.splits sum.splits option.splits)
  note cases = connect_cases [OF assms(1)]
  consider "st' = st" "res \<noteq> None"
    | m st1 e where "connection_material env st candidate password credentials = Inr m" "verify_read_only env m st = (st1, Inl e)"
        "st' = st1" "res \<noteq> None"
    | m st1 where "connection_material env st candidate password credentials = Inr m" "verify_read_only env m st = (st1, Inr snapshots)"
        "persist_connection env random candidate password credentials now st1 = (st', res)"
    using cases by blast
  then show ?thesis
  proof cases
    case (2 m st1 e)
    then show ?thesis using verify_read_only_tables by fastforce
  next
    case (3 m st1)
    have same: "rps_Tables st1 = rps_Tables st" using verify_read_only_tables [OF 3(2)] by simp
    show ?thesis
    proof (cases res)
      case None
      then show ?thesis using persist_done [of env random candidate password credentials now st1 st'] 3 verified [OF 3(2)] same
        by (auto intro: exI [of _ "rps_World st1"])
    next
      case (Some err)
      then have "st' = st1" using persist_failed [of env random candidate password credentials now st1 st' err] 3(3) assms(2-4) same by simp
      then show ?thesis using Some same by simp
    qed
  qed simp
qed

section \<open>The stored password opens the repository\<close>

text \<open>
  What Restic promises about the keys of the repositories, \<open>opens w location password\<close>: only the removal
  of a key takes a password away, at this location, and never the password the removal itself uses; a
  listing that succeeds was opened with its password.
\<close>

definition engine_keeps_keys :: "'w repository_env \<Rightarrow> ('w \<Rightarrow> string \<Rightarrow> string \<Rightarrow> bool) \<Rightarrow> bool" where
  "engine_keeps_keys env opens \<longleftrightarrow>
     (\<forall>w op w' result err chunks. ren_Run env w op = (w', result, err, chunks) \<longrightarrow>
        (\<forall>location password. opens w location password \<longrightarrow>
           rop_Kind op \<noteq> RemoveKey \<or> location \<noteq> rsr_Location (rop_Repository op) \<or> password = rsr_Password (rop_Repository op) \<longrightarrow>
           opens w' location password) \<and>
        (rop_Kind op = ListSnapshots \<and> err = None \<longrightarrow>
           opens w' (rsr_Location (rop_Repository op)) (rsr_Password (rop_Repository op))))"

definition password_opens :: "'w repository_env \<Rightarrow> ('w \<Rightarrow> string \<Rightarrow> string \<Rightarrow> bool) \<Rightarrow> 'w repository_state \<Rightarrow> string \<Rightarrow> bool" where
  "password_opens env opens st i \<longleftrightarrow>
     (\<exists>e m. material env st i = Inr (e, m) \<and> opens (rps_World st) (rsr_Location m) (rsr_Password m))"

lemma run_keeps:
  assumes "engine_keeps_keys env opens" and "run_restic env op st = (st', res)"
    and "opens (rps_World st) location password"
    and "rop_Kind op \<noteq> RemoveKey \<or> location \<noteq> rsr_Location (rop_Repository op) \<or> password = rsr_Password (rop_Repository op)"
  shows "opens (rps_World st') location password"
proof -
  obtain w result err chunks where r: "ren_Run env (rps_World st) op = (w, result, err, chunks)" by (metis prod_cases4)
  moreover have "rps_World st' = w" using assms(2) r by (auto simp: run_restic_def)
  ultimately show ?thesis using assms unfolding engine_keeps_keys_def by blast
qed

lemma listing_opens:
  assumes "engine_keeps_keys env opens" and "run_restic env op st = (st', Inr result)" and "rop_Kind op = ListSnapshots"
  shows "opens (rps_World st') (rsr_Location (rop_Repository op)) (rsr_Password (rop_Repository op))"
proof -
  obtain w r err chunks where r: "ren_Run env (rps_World st) op = (w, r, err, chunks)" by (metis prod_cases4)
  moreover have "rps_World st' = w" "err = None" using assms(2) r by (auto simp: run_restic_def split: option.splits)
  ultimately show ?thesis using assms(1,3) unfolding engine_keeps_keys_def by blast
qed

lemma run_world: "run_restic env op st = (st', res) \<Longrightarrow> st' = st\<lparr>rps_World := rps_World st'\<rparr>"
  by (auto simp: run_restic_def split: prod.splits)

text \<open>The material depends on the tables through the rows of the repository, its host and its secrets.\<close>

lemma get_secret_row:
  assumes "row sec_ID i (tb_secrets tb') = row sec_ID i (tb_secrets tb)"
  shows "get_secret env g tb' i p = get_secret env g tb i p"
  unfolding get_secret_def load_secret_def assms ..

lemma material_world: "material env (st\<lparr>rps_World := w\<rparr>) i = material env st i"
  by (simp add: material_def repository_material_def Let_def
      cong: sum.case_cong prod.case_cong option.case_cong if_cong)

lemma repository_material_password:
  assumes "repository_material env st r h key pw c = Inr m" and "pw' \<noteq> []"
  shows "rsr_Password m = pw \<and> repository_material env st r h key pw' c = Inr (m\<lparr>rsr_Password := pw'\<rparr>)"
  using assms
  by (auto simp: repository_material_def s3_material_def Let_def split: if_splits option.splits sum.splits)

lemma repository_material_cong:
  assumes gate: "rps_Gate st' = rps_Gate st"
    and backend: "effective_kind r = S3Repository \<Longrightarrow>
      row sec_ID (repo_BackendSecretID r) (tb_secrets (rps_Tables st')) = row sec_ID (repo_BackendSecretID r) (tb_secrets (rps_Tables st))"
    and key: "effective_kind r \<noteq> S3Repository \<Longrightarrow> effective_kind r \<noteq> LocalRepository \<Longrightarrow>
      row sec_ID key (tb_secrets (rps_Tables st')) = row sec_ID key (tb_secrets (rps_Tables st))"
  shows "repository_material env st' r h key pw c = repository_material env st r h key pw c"
proof -
  consider "effective_kind r = LocalRepository" | "effective_kind r = S3Repository"
    | "effective_kind r \<noteq> S3Repository" "effective_kind r \<noteq> LocalRepository" by blast
  then show ?thesis
  proof cases
    case 2
    show ?thesis unfolding repository_material_def Let_def gate get_secret_row [OF backend [OF 2]] using 2 by simp
  next
    case 3
    show ?thesis unfolding repository_material_def Let_def gate get_secret_row [OF key [OF 3]] using 3 by simp
  qed (simp add: repository_material_def)
qed

lemma repository_material_dated:
  "repository_material env st (r\<lparr>repo_UpdatedAt := t\<rparr>) h key pw c = repository_material env st r h key pw c"
proof -
  have kind: "effective_kind (r\<lparr>repo_UpdatedAt := t\<rparr>) = effective_kind r" by (simp add: effective_kind_def)
  have valid: "repository_validate net (r\<lparr>repo_UpdatedAt := t\<rparr>) = repository_validate net r" for net
    by (simp add: repository_validate_def effective_local_target_def kind Let_def cong: if_cong option.case_cong)
  show ?thesis
    by (simp add: repository_material_def s3_material_def kind valid Let_def cong: if_cong option.case_cong sum.case_cong)
qed

lemma decode_dated:
  "decode_repository_backend (r\<lparr>rrow_PasswordSecretID := pw, repo_UpdatedAt := t\<rparr>) =
     map_sum id (\<lambda>q. q\<lparr>repo_UpdatedAt := t\<rparr>) (decode_repository_backend r)"
  "decode_repository_local_target (r\<lparr>rrow_PasswordSecretID := pw, repo_UpdatedAt := t\<rparr>) = decode_repository_local_target r"
  by (simp_all add: decode_repository_backend_def decode_repository_local_target_def repository.defs
      split: option.split cong: if_cong)

lemma load_execution_dated:
  assumes "load_repository_execution tb i = Inr e"
    and rows: "row repo_ID i (tb_repositories tb') =
      map_option (\<lambda>r. r\<lparr>rrow_PasswordSecretID := pw, repo_UpdatedAt := t\<rparr>) (row repo_ID i (tb_repositories tb))"
    and hosts: "tb_hosts tb' = tb_hosts tb"
  shows "load_repository_execution tb' i =
    Inr (e\<lparr>rxe_PasswordSecretID := pw, rxe_Repository := (rxe_Repository e)\<lparr>repo_UpdatedAt := t\<rparr>\<rparr>)"
proof -
  obtain r where r: "row repo_ID i (tb_repositories tb) = Some r"
    using assms(1) by (cases "row repo_ID i (tb_repositories tb)") (simp_all add: load_repository_execution_def)
  obtain q where q: "decode_repository_backend r = Inr q"
    using assms(1) by (cases "decode_repository_backend r") (simp_all add: load_repository_execution_def r)
  obtain owner where o: "decode_repository_local_target r = Inr owner"
    using assms(1) by (cases "decode_repository_local_target r") (simp_all add: load_repository_execution_def r q)
  show ?thesis
    using assms(1) by (auto simp: load_repository_execution_def rows hosts r q o decode_dated Let_def)
qed

lemma material_parts:
  assumes "material env st i = Inr (e, m)"
  obtains "load_repository_execution (rps_Tables st) i = Inr e"
    and "get_secret (ren_Vault env) (rps_Gate st) (rps_Tables st) (rxe_PasswordSecretID e) password_purpose = Inr (rsr_Password m)"
    and "repository_material env st (rxe_Repository e) (rxe_Host e) (rxe_PrivateKeySecretID e) (rsr_Password m) None = Inr m"
proof -
  obtain pw where l: "load_repository_execution (rps_Tables st) i = Inr e"
    and g: "get_secret (ren_Vault env) (rps_Gate st) (rps_Tables st) (rxe_PasswordSecretID e) password_purpose = Inr pw"
    and r: "repository_material env st (rxe_Repository e) (rxe_Host e) (rxe_PrivateKeySecretID e) pw None = Inr m"
    using assms by (auto simp: material_def split: sum.splits)
  have "rsr_Password m = pw" using repository_material_password [OF r, of "''x''"] by simp
  then show thesis using l g r by (intro that) simp_all
qed

lemma get_secret_Some: "get_secret env g tb i p = Inr x \<Longrightarrow> \<exists>s. row sec_ID i (tb_secrets tb) = Some s"
  by (auto simp: get_secret_def load_secret_def split: option.splits)

text \<open>The secrets an execution reads.\<close>

definition execution_secrets :: "repository_execution \<Rightarrow> string set" where
  "execution_secrets e = {rxe_PasswordSecretID e} \<union>
     (if effective_kind (rxe_Repository e) = S3Repository then {repo_BackendSecretID (rxe_Repository e)}
      else if effective_kind (rxe_Repository e) = LocalRepository then {} else {rxe_PrivateKeySecretID e})"

lemma execution_secrets_stored:
  assumes "material env st i = Inr (e, m)" and "k \<in> execution_secrets e"
  shows "\<exists>s. row sec_ID k (tb_secrets (rps_Tables st)) = Some s"
proof (rule material_parts [OF assms(1)])
  assume "get_secret (ren_Vault env) (rps_Gate st) (rps_Tables st) (rxe_PasswordSecretID e) password_purpose = Inr (rsr_Password m)"
    and "repository_material env st (rxe_Repository e) (rxe_Host e) (rxe_PrivateKeySecretID e) (rsr_Password m) None = Inr m"
  then show ?thesis
    using assms(2) by (auto simp: execution_secrets_def repository_material_def Let_def
        split: if_splits sum.splits dest: get_secret_Some)
qed

lemma material_kept:
  assumes m: "material env st i = Inr (e, m)" and gate: "rps_Gate st' = rps_Gate st"
    and repositories: "tb_repositories (rps_Tables st') = tb_repositories (rps_Tables st)"
    and hosts: "tb_hosts (rps_Tables st') = tb_hosts (rps_Tables st)"
    and secrets: "\<And>k. k \<in> execution_secrets e \<Longrightarrow>
      row sec_ID k (tb_secrets (rps_Tables st')) = row sec_ID k (tb_secrets (rps_Tables st))"
  shows "material env st' i = Inr (e, m)"
proof (rule material_parts [OF m])
  assume l: "load_repository_execution (rps_Tables st) i = Inr e"
    and g: "get_secret (ren_Vault env) (rps_Gate st) (rps_Tables st) (rxe_PasswordSecretID e) password_purpose = Inr (rsr_Password m)"
    and r: "repository_material env st (rxe_Repository e) (rxe_Host e) (rxe_PrivateKeySecretID e) (rsr_Password m) None = Inr m"
  have "load_repository_execution (rps_Tables st') i = Inr e"
    using l unfolding load_repository_execution_def repositories hosts .
  moreover have "get_secret (ren_Vault env) (rps_Gate st') (rps_Tables st') (rxe_PasswordSecretID e) password_purpose = Inr (rsr_Password m)"
    using g get_secret_row [OF secrets] by (simp add: gate execution_secrets_def)
  moreover have "repository_material env st' (rxe_Repository e) (rxe_Host e) (rxe_PrivateKeySecretID e) (rsr_Password m) None = Inr m"
    using r repository_material_cong [OF gate, of "rxe_Repository e" "rxe_PrivateKeySecretID e"] secrets
    by (simp add: execution_secrets_def)
  ultimately show ?thesis by (simp add: material_def)
qed

lemma row_old: "row key k t = Some r \<Longrightarrow> row key k (t @ u) = Some r"
  by (simp add: row_append)

lemma row_deleted: "k \<noteq> j \<Longrightarrow> row key k (delete_where (\<lambda>r. key r = j) t) = row key k t"
  by (induction t) (auto simp: row_def delete_where_def)

section \<open>Every step keeps the access\<close>

definition rotation_ok :: "'w repository_env \<Rightarrow> ('w \<Rightarrow> string \<Rightarrow> string \<Rightarrow> bool) \<Rightarrow> 'w repository_state \<Rightarrow> string \<Rightarrow> bool" where
  "rotation_ok env opens st i \<longleftrightarrow> password_opens env opens st i \<and> [] \<notin> set (secret_ids (rps_Tables st))"

text \<open>States that differ in the world only, where the passwords of one location still open it.\<close>

definition world_moved :: "('w \<Rightarrow> string \<Rightarrow> string \<Rightarrow> bool) \<Rightarrow> 'w repository_state \<Rightarrow> 'w repository_state \<Rightarrow> bool" where
  "world_moved opens st st' \<longleftrightarrow> st' = st\<lparr>rps_World := rps_World st'\<rparr> \<and>
     (\<forall>location password. opens (rps_World st) location password \<longrightarrow> opens (rps_World st') location password)"

lemma world_moved_refl [simp]: "world_moved opens st st"
  by (simp add: world_moved_def)

lemma world_moved_trans: "world_moved opens st st' \<Longrightarrow> world_moved opens st' st'' \<Longrightarrow> world_moved opens st st''"
  by (cases st; cases st'; cases st'') (auto simp: world_moved_def)

lemma run_moves:
  assumes "engine_keeps_keys env opens" and "run_restic env op st = (st', res)" and "rop_Kind op \<noteq> RemoveKey"
  shows "world_moved opens st st'"
  using run_world [OF assms(2)] run_keeps [OF assms(1,2)] assms(3) by (auto simp: world_moved_def)

lemma moved_tables: "world_moved opens st st' \<Longrightarrow> rps_Tables st' = rps_Tables st \<and> rps_Gate st' = rps_Gate st"
  by (cases st; cases st') (simp add: world_moved_def)

lemma moved_material: "world_moved opens st st' \<Longrightarrow> material env st' i = material env st i"
  unfolding world_moved_def by (metis material_world)

lemma moved_opens: "world_moved opens st st' \<Longrightarrow> opens (rps_World st) l pw \<Longrightarrow> opens (rps_World st') l pw"
  unfolding world_moved_def by blast

lemma moved_ok:
  assumes "world_moved opens st st'" and "rotation_ok env opens st i"
  shows "rotation_ok env opens st' i"
  using assms(2) moved_tables [OF assms(1)] moved_material [OF assms(1), of env i] moved_opens [OF assms(1)]
  unfolding rotation_ok_def password_opens_def by metis

lemma listed_moves:
  assumes "engine_keeps_keys env opens" and "listed_keys env m st = (st', res)"
  shows "world_moved opens st st'"
proof -
  obtain r where "run_restic env (operation_on ListKeys m []) st = (st', r)"
    using assms(2) by (auto simp: listed_keys_def split: prod.splits sum.splits)
  then show ?thesis using run_moves [OF assms(1)] by (simp add: operation_on_def)
qed

text \<open>After the new secret has been stored, the rest of a rotation switches to it or undoes it.\<close>

lemma switched:
  assumes laws: "engine_keeps_keys env opens"
    and switch: "switch_password env i old pw secret key old_secret now st = (st', res)"
    and fresh: "fresh_secret tb secret" and gate: "rps_Gate st \<noteq> None" and s: "sec_ID s = secret"
    and st: "rps_Tables st = tb\<lparr>tb_secrets := tb_secrets tb @ [s]\<rparr>"
  shows "(res \<noteq> None \<longrightarrow> (\<exists>st1. world_moved opens st st1 \<and> st' = put_tables st1 tb)) \<and>
    (res = None \<longrightarrow> (\<exists>st1 committed. world_moved opens st st1 \<and> opens (rps_World st1) (rsr_Location old) pw \<and>
       commit_password_rotation (rps_Tables st) i secret key old_secret now = (committed, None) \<and> st' = put_tables st1 committed))"
proof -
  have forget: "forget_secret secret st1 = put_tables st1 tb" if "world_moved opens st st1" for st1
    using moved_tables [OF that] gate st by (intro forget_stored [OF fresh _ s]) simp_all
  obtain st1 r1 where r1: "run_restic env ((operation_on AddKey old [])\<lparr>rop_NewPassword := pw\<rparr>) st = (st1, r1)" by force
  have m1: "world_moved opens st st1" by (rule run_moves [OF laws r1]) (simp add: operation_on_def)
  show ?thesis
  proof (cases r1)
    case (Inl e)
    then show ?thesis using switch forget [OF m1] m1 by (auto simp: switch_password_def r1)
  next
    case r1': (Inr x)
    obtain st2 r2 where r2: "run_restic env (operation_on ListSnapshots (old\<lparr>rsr_Password := pw\<rparr>) []) st1 = (st2, r2)" by force
    have "world_moved opens st1 st2" by (rule run_moves [OF laws r2]) (simp add: operation_on_def)
    with m1 have m2: "world_moved opens st st2" by (rule world_moved_trans)
    show ?thesis
    proof (cases r2)
      case (Inl e)
      then show ?thesis using switch forget [OF m2] m2 by (auto simp: switch_password_def r1 r1' r2)
    next
      case r2': (Inr y)
      have opens: "opens (rps_World st2) (rsr_Location old) pw"
        using listing_opens [OF laws r2 [unfolded r2']] by (simp add: operation_on_def)
      obtain committed r3 where r3: "commit_password_rotation (rps_Tables st2) i secret key old_secret now = (committed, r3)" by force
      have tables: "rps_Tables st2 = rps_Tables st" using moved_tables [OF m2] by simp
      show ?thesis
      proof (cases r3)
        case None
        then show ?thesis using switch m2 opens r3 tables by (auto simp: switch_password_def r1 r1' r2 r2')
      next
        case (Some e)
        then have "committed = rps_Tables st2"
          using r3 by (auto simp: commit_password_rotation_def transaction_def split: option.splits)
        then show ?thesis using switch forget [OF m2] m2 r3 Some by (auto simp: switch_password_def r1 r1' r2 r2')
      qed
    qed
  qed
qed

lemma committed_rotation:
  assumes "commit_password_rotation tb i secret key old_secret now = (tb', None)"
  shows "row repo_ID i (tb_repositories tb') =
      map_option (\<lambda>r. r\<lparr>rrow_PasswordSecretID := secret, repo_UpdatedAt := now\<rparr>) (row repo_ID i (tb_repositories tb)) \<and>
    tb_hosts tb' = tb_hosts tb \<and> tb_secrets tb' = tb_secrets tb \<and>
    (pending_key_revocation tb i = None \<longrightarrow>
      pending_key_revocation tb' i = Some \<lparr>rvk_RepositoryID = i, rvk_KeyID = key, rvk_SecretID = old_secret, rvk_CreatedAt = now\<rparr>)"
proof -
  have rows: "row repo_ID i (update_where (\<lambda>q. repo_ID q = i) f t) = map_option f (row repo_ID i t)"
    if "\<And>q. repo_ID (f q) = repo_ID q" for f and t :: "repo_row list"
    using that by (induction t) (auto simp: row_def update_where_def)
  show ?thesis
    using assms
    by (auto simp: commit_password_rotation_def transaction_cases rows pending_key_revocation_def row_append split: option.splits)
      (auto simp: row_def)
qed

lemma store_secret_get:
  assumes "store_secret env random purpose value now st = (st', Inr i)" and "aead_ok (ren_Vault env)" and "length (fst random) = 12"
  shows "get_secret (ren_Vault env) (rps_Gate st) (rps_Tables st') i purpose = Inr value"
proof -
  obtain tb where "put_secret (ren_Vault env) (rps_Gate st) (rps_Tables st) (fst random) (snd random) purpose value now = (tb, Inr i)"
    and "st' = put_tables st tb"
    using assms(1) by (auto simp: store_secret_def split: prod.splits)
  then show ?thesis using get_put_secret [OF _ assms(2,3)] by simp
qed

lemma rotated:
  assumes laws: "engine_keeps_keys env opens" "aead_ok (ren_Vault env)"
    and m: "material env st i = Inr (e, m)"
    and store: "store_secret env random password_purpose pw now st = (st2, Inr secret)" and nonce: "length (fst random) = 12"
    and pw: "pw \<noteq> []"
    and moved: "world_moved opens st2 st3" and opens: "opens (rps_World st3) (rsr_Location m) pw"
    and commit: "commit_password_rotation (rps_Tables st2) i secret key old_secret t = (committed, None)"
  shows "material env (put_tables st3 committed) i =
      Inr (e\<lparr>rxe_PasswordSecretID := secret, rxe_Repository := (rxe_Repository e)\<lparr>repo_UpdatedAt := t\<rparr>\<rparr>, m\<lparr>rsr_Password := pw\<rparr>)"
proof (rule material_parts [OF m])
  assume l: "load_repository_execution (rps_Tables st) i = Inr e"
    and r: "repository_material env st (rxe_Repository e) (rxe_Host e) (rxe_PrivateKeySecretID e) (rsr_Password m) None = Inr m"
  let ?st = "put_tables st3 committed" and ?q = "(rxe_Repository e)\<lparr>repo_UpdatedAt := t\<rparr>"
  obtain s where st2: "st2 = put_tables st ((rps_Tables st)\<lparr>tb_secrets := tb_secrets (rps_Tables st) @ [s]\<rparr>)"
    using store_secret_done [OF store] by metis
  have gate: "rps_Gate ?st = rps_Gate st" using moved_tables [OF moved] by (simp add: st2)
  note c = committed_rotation [OF commit]
  have secrets: "tb_secrets (rps_Tables ?st) = tb_secrets (rps_Tables st) @ [s]" using c by (simp add: st2)
  have load: "load_repository_execution (rps_Tables ?st) i = Inr (e\<lparr>rxe_PasswordSecretID := secret, rxe_Repository := ?q\<rparr>)"
    using c by (intro load_execution_dated [OF l]) (simp_all add: st2)
  have "get_secret (ren_Vault env) (rps_Gate st) (rps_Tables st2) secret password_purpose = Inr pw"
    using store_secret_get [OF store laws(2) nonce] .
  then have get: "get_secret (ren_Vault env) (rps_Gate ?st) (rps_Tables ?st) secret password_purpose = Inr pw"
    using get_secret_row [of secret "rps_Tables ?st" "rps_Tables st2"] c gate by simp
  have same: "row sec_ID k (tb_secrets (rps_Tables ?st)) = row sec_ID k (tb_secrets (rps_Tables st))" if "k \<in> execution_secrets e" for k
    using execution_secrets_stored [OF m that] row_old [of sec_ID k] secrets by auto
  have "repository_material env ?st ?q (rxe_Host e) (rxe_PrivateKeySecretID e) pw None =
      repository_material env st (rxe_Repository e) (rxe_Host e) (rxe_PrivateKeySecretID e) pw None"
    unfolding repository_material_dated using same by (intro repository_material_cong [OF gate]) (simp_all add: execution_secrets_def)
  then have "repository_material env ?st ?q (rxe_Host e) (rxe_PrivateKeySecretID e) pw None = Inr (m\<lparr>rsr_Password := pw\<rparr>)"
    using repository_material_password [OF r pw] by simp
  with load get show ?thesis by (simp add: material_def)
qed

lemma rotate_step:
  assumes laws: "engine_keeps_keys env opens" "aead_ok (ren_Vault env)" and ok: "rotation_ok env opens st i"
    and rotate: "rotate_password env random i pw now st = (st', res)"
    and fresh: "fresh_secret (rps_Tables st) (secret_id_of (snd random))" and nonce: "length (fst random) = 12"
  shows "rotation_ok env opens st' i \<and> (res \<noteq> None \<longrightarrow> rps_Tables st' = rps_Tables st) \<and>
    (res = None \<longrightarrow> (\<exists>e m. material env st' i = Inr (e, m) \<and> rsr_Password m = pw) \<and>
       pending_key_revocation (rps_Tables st') i \<noteq> None)"
proof -
  obtain e m where m: "material env st i = Inr (e, m)" and open_now: "opens (rps_World st) (rsr_Location m) (rsr_Password m)"
    and ids: "[] \<notin> set (secret_ids (rps_Tables st))"
    using ok by (auto simp: rotation_ok_def password_opens_def)
  obtain st1 r1 where r1: "listed_keys env m st = (st1, r1)" by force
  have m1: "world_moved opens st st1" using listed_moves [OF laws(1) r1] .
  have t1: "rps_Tables st1 = rps_Tables st" "rps_Gate st1 = rps_Gate st" using moved_tables [OF m1] by simp_all
  consider "st' = st" "res \<noteq> None" | "st' = st1" "res \<noteq> None"
    | keys secret st2 where "r1 = Inr keys" "12 \<le> length pw" "pending_key_revocation (rps_Tables st) i = None"
        "store_secret env random password_purpose pw now st1 = (st2, Inr secret)"
        "switch_password env i m pw secret (current_key keys) (rxe_PasswordSecretID e) now st2 = (st', res)"
    using rotate store_secret_failed [of env random password_purpose pw now st1]
    by (auto simp: rotate_password_def m r1 split: if_splits sum.splits prod.splits option.splits)
  then show ?thesis
  proof cases
    case 2
    then show ?thesis using moved_ok [OF m1 ok] t1 by auto
  next
    case (3 keys secret st2)
    obtain s where st2: "st2 = put_tables st1 ((rps_Tables st1)\<lparr>tb_secrets := tb_secrets (rps_Tables st1) @ [s]\<rparr>)"
      and s: "sec_ID s = secret" and secret: "secret = secret_id_of (snd random)" and gate: "rps_Gate st1 \<noteq> None"
      using store_secret_done [OF 3(4)] by metis
    have sw: "(res \<noteq> None \<longrightarrow> (\<exists>st3. world_moved opens st2 st3 \<and> st' = put_tables st3 (rps_Tables st))) \<and>
      (res = None \<longrightarrow> (\<exists>st3 committed. world_moved opens st2 st3 \<and> opens (rps_World st3) (rsr_Location m) pw \<and>
         commit_password_rotation (rps_Tables st2) i secret (current_key keys) (rxe_PasswordSecretID e) now = (committed, None) \<and>
         st' = put_tables st3 committed))"
      using switched [OF laws(1) 3(5) _ _ s, of "rps_Tables st"] fresh gate by (simp add: st2 t1 secret)
    have m_st1: "material env st1 i = Inr (e, m)" using moved_material [OF m1] m by simp
    show ?thesis
    proof (cases res)
      case (Some err)
      then obtain st3 where moved: "world_moved opens st2 st3" and st': "st' = put_tables st3 (rps_Tables st)" using sw by auto
      have "material env st' i = Inr (e, m)"
        using material_kept [OF m, of st'] moved_tables [OF moved] by (simp add: st' st2 t1)
      moreover have "opens (rps_World st') (rsr_Location m) (rsr_Password m)"
        using moved_opens [OF moved] moved_opens [OF m1 open_now] by (simp add: st' st2)
      ultimately show ?thesis using Some ids by (auto simp: rotation_ok_def password_opens_def st')
    next
      case None
      then obtain st3 committed where moved: "world_moved opens st2 st3" and opens: "opens (rps_World st3) (rsr_Location m) pw"
        and commit: "commit_password_rotation (rps_Tables st2) i secret (current_key keys) (rxe_PasswordSecretID e) now = (committed, None)"
        and st': "st' = put_tables st3 committed" using sw by auto
      have pw: "pw \<noteq> []" using 3(2) by auto
      note mat = rotated [OF laws m_st1 3(4) nonce pw moved opens commit]
      have "secret \<noteq> []" by (simp add: secret secret_id_of_def)
      then have "[] \<notin> set (secret_ids committed)"
        using committed_rotation [OF commit] ids s by (simp add: st2 t1)
      moreover have "pending_key_revocation committed i \<noteq> None"
        using committed_rotation [OF commit] 3(3) by (simp add: st2 t1 pending_key_revocation_def)
      ultimately show ?thesis using mat opens None by (auto simp: rotation_ok_def password_opens_def st')
    qed
  qed (use ok in auto)
qed

lemma execution_secrets_referenced:
  assumes m: "material env st i = Inr (e, m)" and k: "k \<in> execution_secrets e" and ids: "[] \<notin> set (secret_ids (rps_Tables st))"
    and tables: "tb_repositories tb = tb_repositories (rps_Tables st)" "tb_hosts tb = tb_hosts (rps_Tables st)"
  shows "secret_referenced tb k"
proof (rule material_parts [OF m])
  assume l: "load_repository_execution (rps_Tables st) i = Inr e"
  obtain s where s: "row sec_ID k (tb_secrets (rps_Tables st)) = Some s" using execution_secrets_stored [OF m k] by blast
  have "k \<in> set (secret_ids (rps_Tables st))" using row_Some_in [OF s] by (auto intro: rev_image_eqI)
  then have "k \<noteq> []" using ids by metis
  obtain r where r: "row repo_ID i (tb_repositories (rps_Tables st)) = Some r"
    using l by (cases "row repo_ID i (tb_repositories (rps_Tables st))") (simp_all add: load_repository_execution_def)
  obtain q where q: "decode_repository_backend r = Inr q"
    using l by (cases "decode_repository_backend r") (simp_all add: load_repository_execution_def r)
  obtain owner where o: "decode_repository_local_target r = Inr owner"
    using l by (cases "decode_repository_local_target r") (simp_all add: load_repository_execution_def r q)
  let ?host = "if repo_RemoteHostID r = [] then None else row host_ID (repo_RemoteHostID r) (tb_hosts (rps_Tables st))"
  have e: "rxe_PasswordSecretID e = rrow_PasswordSecretID r" "repo_BackendSecretID (rxe_Repository e) = repo_BackendSecretID q"
    "rxe_PrivateKeySecretID e = (case ?host of None \<Rightarrow> [] | Some h \<Rightarrow> hrow_SecretID h)"
    using l by (auto simp: load_repository_execution_def r q o Let_def)
  have "repo_BackendSecretID q \<in> {[], repo_BackendSecretID r}"
    using q by (auto simp: decode_repository_backend_def repository.defs split: if_splits option.splits)
  with k \<open>k \<noteq> []\<close> e consider "k = rrow_PasswordSecretID r \<or> k = repo_BackendSecretID r" | h where "?host = Some h" "k = hrow_SecretID h"
    by (auto simp: execution_secrets_def split: if_splits option.splits)
  then show ?thesis
  proof cases
    case 1
    then show ?thesis using \<open>k \<noteq> []\<close> row_Some_in [OF r] tables by (auto simp: secret_referenced_def list_ex_iff)
  next
    case (2 h)
    then have "h \<in> set (tb_hosts (rps_Tables st))" using row_Some_in [of host_ID _ "tb_hosts (rps_Tables st)" h] by (auto split: if_splits)
    then show ?thesis using 2 tables by (auto simp: secret_referenced_def list_ex_iff)
  qed
qed

lemma completed_revocation:
  assumes "complete_key_revocation tb i key = (tb', None)"
  obtains v :: key_revocation where "rvk_RepositoryID v = i" and "\<not> secret_referenced tb' (rvk_SecretID v)"
    and "tb' = tb\<lparr>tb_revocations := delete_where (\<lambda>v. rvk_RepositoryID v = i \<and> rvk_KeyID v = key) (tb_revocations tb),
      tb_secrets := delete_where (\<lambda>s. sec_ID s = rvk_SecretID v) (tb_secrets tb)\<rparr>"
    and "affected (\<lambda>v. rvk_RepositoryID v = i \<and> rvk_KeyID v = key) (tb_revocations tb) = 1"
proof -
  let ?P = "\<lambda>v. rvk_RepositoryID v = i \<and> rvk_KeyID v = key"
  obtain v where v: "find ?P (tb_revocations tb) = Some v"
    using assms by (cases "find ?P (tb_revocations tb)") (simp_all add: complete_key_revocation_def)
  then have "rvk_RepositoryID v = i" using find_Some_facts by fastforce
  then show thesis
    using assms v by (intro that [of v]) (auto simp: complete_key_revocation_def transaction_cases Let_def)
qed

lemma revoke_step:
  assumes laws: "engine_keeps_keys env opens" and ok: "rotation_ok env opens st i"
    and revoke: "revoke_old_password env i st = (st', res)"
  shows "rotation_ok env opens st' i \<and> (res \<noteq> None \<longrightarrow> rps_Tables st' = rps_Tables st)"
proof -
  obtain e m where m: "material env st i = Inr (e, m)" and open_now: "opens (rps_World st) (rsr_Location m) (rsr_Password m)"
    and ids: "[] \<notin> set (secret_ids (rps_Tables st))"
    using ok by (auto simp: rotation_ok_def password_opens_def)
  show ?thesis
  proof (cases "pending_key_revocation (rps_Tables st) i")
    case None
    then show ?thesis using revoke ok by (simp add: revoke_old_password_def)
  next
    case (Some v)
    obtain st1 r1 where r1: "listed_keys env m st = (st1, r1)" by force
    have m1: "world_moved opens st st1" using listed_moves [OF laws r1] .
    have t1: "rps_Tables st1 = rps_Tables st" "rps_Gate st1 = rps_Gate st" using moved_tables [OF m1] by simp_all
    show ?thesis
    proof (cases r1)
      case (Inl err)
      then show ?thesis using revoke Some moved_ok [OF m1 ok] t1 by (simp add: revoke_old_password_def m r1)
    next
      case (Inr keys)
      define removal where "removal = (if rvk_KeyID v \<in> set (map rky_ID keys)
        then run_restic env (operation_on RemoveKey m [rvk_KeyID v]) st1 else (st1, Inr refused_result))"
      obtain st2 r2 where r2: "removal = (st2, r2)" by force
      have t2: "rps_Tables st2 = rps_Tables st1" "rps_Gate st2 = rps_Gate st1"
        and o2: "opens (rps_World st2) (rsr_Location m) (rsr_Password m)"
        using r2 run_restic_tables [of env "operation_on RemoveKey m [rvk_KeyID v]" st1 st2 r2]
          run_keeps [OF laws, of "operation_on RemoveKey m [rvk_KeyID v]" st1 st2 r2] moved_opens [OF m1 open_now]
        by (auto simp: removal_def operation_on_def split: if_splits)
      have kept: "rotation_ok env opens (put_tables st2 (rps_Tables st)) i"
        using material_kept [OF m, of "put_tables st2 (rps_Tables st)"] o2 ids t1 t2
        by (auto simp: rotation_ok_def password_opens_def)
      have step: "(st', res) = (case r2 of Inl err \<Rightarrow> (st2, Some err)
          | Inr _ \<Rightarrow> (case complete_key_revocation (rps_Tables st2) i (rvk_KeyID v) of (tb, err) \<Rightarrow> (put_tables st2 tb, err)))"
        using revoke unfolding revoke_old_password_def Some m r1 Inr option.case sum.case prod.case removal_def [symmetric] r2 by simp
      show ?thesis
      proof (cases "\<exists>tb. r2 = Inr (projr r2) \<and> complete_key_revocation (rps_Tables st2) i (rvk_KeyID v) = (tb, None)")
        case False
        moreover have "tb = rps_Tables st2" if "complete_key_revocation (rps_Tables st2) i (rvk_KeyID v) = (tb, Some err)" for tb err
          using that by (auto simp: complete_key_revocation_def transaction_cases Let_def split: option.splits)
        ultimately have "st' = st2 \<and> res \<noteq> None"
          using step by (auto split: sum.splits prod.splits option.splits simp: put_tables_def)
        moreover have "put_tables st2 (rps_Tables st) = st2" using t1 t2 by (simp add: put_tables_def)
        with kept have "rotation_ok env opens st2 i" by (simp only:)
        ultimately show ?thesis using t1 t2 by simp
      next
        case True
        then obtain tb where c: "complete_key_revocation (rps_Tables st2) i (rvk_KeyID v) = (tb, None)" and "r2 = Inr (projr r2)" by auto
        then have st': "st' = put_tables st2 tb" "res = None" using step by (auto split: sum.splits)
        obtain w :: key_revocation where "rvk_RepositoryID w = i" and w: "\<not> secret_referenced tb (rvk_SecretID w)"
          and tb: "tb = (rps_Tables st2)\<lparr>tb_revocations := delete_where (\<lambda>u. rvk_RepositoryID u = i \<and> rvk_KeyID u = rvk_KeyID v)
              (tb_revocations (rps_Tables st2)), tb_secrets := delete_where (\<lambda>s. sec_ID s = rvk_SecretID w) (tb_secrets (rps_Tables st2))\<rparr>"
          and "affected (\<lambda>u. rvk_RepositoryID u = i \<and> rvk_KeyID u = rvk_KeyID v) (tb_revocations (rps_Tables st2)) = 1"
          by (rule completed_revocation [OF c])
        have "k \<noteq> rvk_SecretID w" if "k \<in> execution_secrets e" for k
          using execution_secrets_referenced [OF m that ids, of tb] w t1 t2 by (auto simp: tb)
        then have "row sec_ID k (delete_where (\<lambda>s. sec_ID s = rvk_SecretID w) (tb_secrets (rps_Tables st))) =
            row sec_ID k (tb_secrets (rps_Tables st))" if "k \<in> execution_secrets e" for k
          using that by (intro row_deleted) auto
        then have "material env st' i = Inr (e, m)"
          using t1 t2 by (intro material_kept [OF m]) (simp_all add: st' tb)
        moreover have "[] \<notin> set (secret_ids tb)" using ids t1 t2 by (auto simp: tb delete_where_def)
        ultimately show ?thesis using o2 st' by (auto simp: rotation_ok_def password_opens_def)
      qed
    qed
  qed
qed

section \<open>A history of rotations\<close>

datatype password_step =
    Rotate_Password "string \<times> string" string instant
  | Revoke_Old_Password

fun rotation_step :: "'w repository_env \<Rightarrow> string \<Rightarrow> password_step \<Rightarrow> 'w repository_state \<Rightarrow> 'w repository_state \<times> check" where
  "rotation_step env i (Rotate_Password random pw now) st = rotate_password env random i pw now st"
| "rotation_step env i Revoke_Old_Password st = revoke_old_password env i st"

text \<open>The random bytes of the next step are a new identifier and a nonce of the vault.\<close>

fun step_fresh :: "'w repository_state \<Rightarrow> password_step \<Rightarrow> bool" where
  "step_fresh st (Rotate_Password random pw now) \<longleftrightarrow>
     fresh_secret (rps_Tables st) (secret_id_of (snd random)) \<and> length (fst random) = 12"
| "step_fresh st Revoke_Old_Password \<longleftrightarrow> True"

inductive password_history ::
  "'w repository_env \<Rightarrow> string \<Rightarrow> 'w repository_state \<Rightarrow> 'w repository_state \<Rightarrow> bool"
  for env i st where
  history_start: "password_history env i st st"
| history_step: "password_history env i st st1 \<Longrightarrow> step_fresh st1 step \<Longrightarrow> rotation_step env i step st1 = (st2, res) \<Longrightarrow>
    password_history env i st st2"

lemma rotation_step_ok:
  assumes "engine_keeps_keys env opens" and "aead_ok (ren_Vault env)" and "rotation_ok env opens st i"
    and "step_fresh st step" and "rotation_step env i step st = (st', res)"
  shows "rotation_ok env opens st' i"
proof (cases step)
  case (Rotate_Password random pw now)
  then have "fresh_secret (rps_Tables st) (secret_id_of (snd random))" "length (fst random) = 12"
    and "rotate_password env random i pw now st = (st', res)" using assms(4,5) by simp_all
  then show ?thesis using rotate_step [OF assms(1-3)] by blast
next
  case Revoke_Old_Password
  then have "revoke_old_password env i st = (st', res)" using assms(5) by simp
  then show ?thesis using revoke_step [OF assms(1,3)] by blast
qed

text \<open>
  C3: in every history of password rotations and revocations, whichever steps fail on the way, the
  password the program stores opens the repository. A rotation that fails leaves the tables as they were;
  one that succeeds stores the new password and leaves the old key awaiting its explicit revocation. The
  engine's part is its documented behaviour: only removing a key closes a password, never the one the
  removal is authorised with, and a listing succeeds only with a password that opens the repository.
\<close>
theorem rotation_keeps_access:
  assumes "engine_keeps_keys env opens" and "aead_ok (ren_Vault env)"
    and "password_opens env opens st i" and "[] \<notin> set (secret_ids (rps_Tables st))"
    and "password_history env i st st1" and "step_fresh st1 (Rotate_Password random pw now)"
    and "rotate_password env random i pw now st1 = (st2, res)"
  shows "password_opens env opens st1 i \<and> password_opens env opens st2 i \<and>
    (res \<noteq> None \<longrightarrow> rps_Tables st2 = rps_Tables st1) \<and>
    (res = None \<longrightarrow> (\<exists>e m. material env st2 i = Inr (e, m) \<and> rsr_Password m = pw) \<and>
       password_rotation_status st2 i \<noteq> None)"
proof -
  have "rotation_ok env opens st1 i"
    using assms(5)
  proof induction
    case history_start
    then show ?case using assms(3,4) by (simp add: rotation_ok_def)
  next
    case (history_step st1 step st2 res)
    then show ?case using rotation_step_ok [OF assms(1,2)] by blast
  qed
  moreover have "fresh_secret (rps_Tables st1) (secret_id_of (snd random))" "length (fst random) = 12" using assms(6) by simp_all
  ultimately show ?thesis
    using rotate_step [OF assms(1,2) _ assms(7)] unfolding rotation_ok_def password_rotation_status_def map_option_is_None by blast
qed

section \<open>A local repository in a small world\<close>

text \<open>The world is the key list of the one repository: the identifier and the password of each key.\<close>

type_synonym key_world = "(string \<times> string) list"

definition key_engine :: "key_world \<Rightarrow> restic_operation \<Rightarrow> key_world \<times> listing" where
  "key_engine w op =
     (let pw = rsr_Password (rop_Repository op); kind = rop_Kind op;
          ok = (\<lambda>w stdout. (w, refused_result\<lparr>rsx_Stdout := stdout\<rparr>, None, [])) in
      if rsr_Location (rop_Repository op) \<noteq> ''/data'' \<or> \<not> list_ex (\<lambda>(k, p). p = pw) w then (w, refused_result, Some (Invalid ''wrong password''), [])
      else if kind = ListKeys then ok w (concat (map fst (filter (\<lambda>(k, p). p = pw) w @ filter (\<lambda>(k, p). p \<noteq> pw) w)))
      else if kind = AddKey then ok (w @ [([char_of (65 + length w)], rop_NewPassword op)]) []
      else if kind = RemoveKey then ok (filter (\<lambda>(k, p). p = pw \<or> [k] \<noteq> rop_Arguments op) w) []
      else ok w [])"

definition key_world_opens :: "key_world \<Rightarrow> string \<Rightarrow> string \<Rightarrow> bool" where
  "key_world_opens w location password \<longleftrightarrow> location = ''/data'' \<and> list_ex (\<lambda>(k, p). p = password) w"

definition repository_example :: "key_world repository_env" where
  "repository_example = \<lparr>ren_Run = key_engine, ren_Vault = vault_example,
     ren_Net = \<lparr>parse_request_uri = (\<lambda>s. None), loopback_ip = (\<lambda>s. False)\<rparr>,
     ren_Contents = \<lparr>cen_Node = (\<lambda>s. Inl NoRows), cen_Lower = id, cen_Sha256 = id, cen_EncodeCursor = snd, cen_DecodeCursor = (\<lambda>s. None)\<rparr>,
     ren_Snapshots = (\<lambda>s. Inr (Some [])),
     ren_Keys = (\<lambda>s. Inr (case s of [] \<Rightarrow> [] | c # cs \<Rightarrow> \<lparr>rky_ID = [c], rky_Current = True\<rparr> # map (\<lambda>d. \<lparr>rky_ID = [d], rky_Current = False\<rparr>) cs)),
     ren_Groups = (\<lambda>s. Inr []), ren_DecodeCredentials = (\<lambda>s. None), ren_EncodeCredentials = scr_AccessKey\<rparr>"

lemma repository_example_keeps_keys: "engine_keeps_keys repository_example key_world_opens"
  by (auto simp: engine_keeps_keys_def repository_example_def key_engine_def key_world_opens_def Let_def list_ex_iff
      split: if_splits)

definition candidate_example :: repository where
  "candidate_example = \<lparr>repo_ID = ''r1'', repo_Name = ''home'', repo_Engine = ''restic'', repo_Kind = ''local'',
     repo_LocalTarget = no_target, repo_RemoteHostID = [], repo_Path = ''/data'', repo_S3 = None, repo_BackendSecretID = [],
     repo_Status = ''uninitialized'', repo_Capacity = None, repo_LastRun = None, repo_NextRun = [], repo_CreatedAt = 5, repo_UpdatedAt = 5\<rparr>"

definition connection_start :: "key_world repository_state" where
  "connection_start = \<lparr>rps_Tables = no_tables, rps_Gate = Some (replicate 32 CHR 0x07), rps_World = [(''A'', ''correct horse'')]\<rparr>"

definition bytes_example :: "nat \<Rightarrow> string \<times> string" where
  "bytes_example n = (replicate 12 CHR 0x01, [char_of (n + 42)])"

lemma bytes_ids: "secret_id_of (snd (bytes_example 0)) = ''sec_2a''" "secret_id_of (snd (bytes_example 1)) = ''sec_2b''"
  by code_simp+

lemma candidate_ok: "repository_validate net candidate_example = None"
proof -
  have "\<not> blank ''home''" "\<not> blank ''/data''" by code_simp+
  then show ?thesis
  by (simp add: repository_validate_def candidate_example_def effective_kind_def effective_local_target_def effective_engine_def
     target_normalized_def no_target_def target_validate_def contains_any_def is_abs_def cong: if_cong)
qed

definition home_material :: restic_repository where
  "home_material = no_material\<lparr>rsr_Location := ''/data'', rsr_Password := ''correct horse''\<rparr>"

lemma candidate_material: "connection_material repository_example connection_start candidate_example ''correct horse'' None = Inr home_material"
  by (simp add: connection_material_def repository_material_def candidate_example_def effective_kind_def home_material_def)

lemma candidate_verified: "verify_read_only repository_example home_material connection_start = (connection_start, Inr [])"
  by (simp add: verify_read_only_def run_restic_def repository_example_def connection_start_def key_engine_def home_material_def
      operation_on_def no_material_def)

definition home_secret :: secret_row where
  "home_secret = \<lparr>sec_ID = ''sec_2a'', sec_Purpose = ''repository-password'',
     sec_Ciphertext = [CHR 0x01] @ replicate 12 CHR 0x01 @ ''correct horse'' @ replicate 16 CHR 0x07, sec_CreatedAt = 7\<rparr>"

lemma home_stored: "store_secret repository_example (bytes_example 0) password_purpose ''correct horse'' 7 connection_start =
   (put_tables connection_start (no_tables\<lparr>tb_secrets := [home_secret]\<rparr>), Inr ''sec_2a'')"
proof -
  have seal: "vault_seal vault_example (replicate 32 CHR 0x07) (fst (bytes_example 0)) ''repository-password'' ''correct horse'' =
      Inr (sec_Ciphertext home_secret)"
    by (simp add: vault_seal_def vault_example_def bytes_example_def home_secret_def)
  have "save_secret no_tables ''sec_2a'' ''repository-password'' (sec_Ciphertext home_secret) 7 = (no_tables\<lparr>tb_secrets := [home_secret]\<rparr>, None)"
    by (simp add: save_secret_def insert_row_def no_tables_def home_secret_def)
  then show ?thesis
    using seal bytes_ids unfolding store_secret_def put_secret_def
    by (simp add: connection_start_def repository_example_def with_value_def)
qed

definition home_row :: repo_row where
  "home_row = written_repository (candidate_example\<lparr>repo_Status := ''ready''\<rparr>) ''sec_2a''"

lemma home_created: "\<exists>c. create_repository (no_tables\<lparr>tb_secrets := [home_secret]\<rparr>) (candidate_example\<lparr>repo_Status := ''ready''\<rparr>) ''sec_2a'' 7 =
   (put_capacity (no_tables\<lparr>tb_secrets := [home_secret], tb_repositories := [home_row]\<rparr>) c, None)"
proof -
  obtain c where cap: "insert_default_capacity_policy (capacity_view (no_tables\<lparr>tb_secrets := [home_secret]\<rparr>)) ''r1'' 5 True = (c, None)"
    by (simp add: insert_default_capacity_policy_def capacity_view_def no_tables_def insert_row_def)
  have fields: "repo_ID (candidate_example\<lparr>repo_Status := ''ready''\<rparr>) = ''r1''" "repo_CreatedAt (candidate_example\<lparr>repo_Status := ''ready''\<rparr>) = 5"
    "tb_repositories no_tables = []" by (simp_all add: candidate_example_def no_tables_def)
  have local: "effective_kind (candidate_example\<lparr>repo_Status := ''ready''\<rparr>) = LocalRepository"
    "effective_local_target (candidate_example\<lparr>repo_Status := ''ready''\<rparr>) = \<lparr>target_Kind = Local, target_AgentID = []\<rparr>"
    by (simp_all add: effective_kind_def effective_local_target_def candidate_example_def target_normalized_def no_target_def)
  then have enc: "encoding_errors (candidate_example\<lparr>repo_Status := ''ready''\<rparr>) = [None, None]"
    by (simp add: encoding_errors_def encode_repository_backend_def encode_repository_local_target_def failure_def target_validate_def
        target_normalized_def local) (simp add: candidate_example_def)
  have refs: "repository_references (no_tables\<lparr>tb_secrets := [home_secret]\<rparr>) (candidate_example\<lparr>repo_Status := ''ready''\<rparr>) ''sec_2a'' =
      [None, None, None, None]"
    by (simp add: repository_references_def local_target_reference_def local require_reference_def home_secret_def)
      (simp add: candidate_example_def)
  show ?thesis
    by (intro exI [of _ c]) (simp add: create_repository_def enc refs local cap fields transaction_def home_row_def reject_def Let_def
      del: repository.update_convs)
qed

definition connected_state :: "capacity_db \<Rightarrow> key_world repository_state" where
  "connected_state c = put_tables connection_start (put_capacity (no_tables\<lparr>tb_secrets := [home_secret], tb_repositories := [home_row]\<rparr>) c)"

lemma home_connected:
  "\<exists>c. connect_existing repository_example bytes_example candidate_example ''correct horse'' None 7 connection_start =
     (connected_state c, [], None)"
proof -
  obtain c where c: "create_repository (no_tables\<lparr>tb_secrets := [home_secret]\<rparr>) (candidate_example\<lparr>repo_Status := ''ready''\<rparr>) ''sec_2a'' 7 =
      (put_capacity (no_tables\<lparr>tb_secrets := [home_secret], tb_repositories := [home_row]\<rparr>) c, None)" using home_created by blast
  have same: "candidate_example\<lparr>repo_BackendSecretID := repo_BackendSecretID candidate_example, repo_Status := ''ready''\<rparr> =
      candidate_example\<lparr>repo_Status := ''ready''\<rparr>" by simp
  have kind: "effective_kind candidate_example = LocalRepository" "repo_ID candidate_example = ''r1''"
    "effective_engine (repo_Engine candidate_example) = ResticEngine"
    by (simp_all add: effective_kind_def candidate_example_def effective_engine_def)
  have "persist_connection repository_example bytes_example candidate_example ''correct horse'' None 7 connection_start = (connected_state c, None)"
    unfolding persist_connection_def home_stored prod.case sum.case store_backend_secret_def kind Let_def
    by (simp add: c connected_state_def)
  then show ?thesis
    using candidate_ok candidate_material candidate_verified kind by (intro exI [of _ c]) (simp add: connect_existing_def)
qed

theorem connection_is_all_or_nothing_witness:
  "\<exists>st'. connect_existing repository_example bytes_example candidate_example ''correct horse'' None 7 connection_start = (st', [], None) \<and>
     (\<exists>r. tb_repositories (rps_Tables st') = [r] \<and> repo_ID r = ''r1'' \<and> repo_Status r = ''ready'' \<and> rrow_PasswordSecretID r = ''sec_2a'')"
proof -
  obtain c where c: "connect_existing repository_example bytes_example candidate_example ''correct horse'' None 7 connection_start =
      (connected_state c, [], None)" using home_connected by blast
  have "fresh_secret (rps_Tables connection_start) i" if "i \<noteq> []" for i
    using that by (simp add: fresh_secret_def connection_start_def no_tables_def secret_referenced_def)
  then show ?thesis
    using connection_is_all_or_nothing [OF c] c bytes_ids by (auto simp: candidate_example_def connection_start_def no_tables_def)
qed


text \<open>The connected repository's password is rotated.\<close>

lemma home_row_fields:
  "repo_ID home_row = ''r1''" "repo_Kind home_row = ''local''" "repo_S3 home_row = None" "repo_BackendSecretID home_row = []"
  "repo_RemoteHostID home_row = []" "repo_Path home_row = ''/data''" "rrow_PasswordSecretID home_row = ''sec_2a''"
  "repo_Status home_row = ''ready''" "repo_LocalTarget home_row = \<lparr>target_Kind = Local, target_AgentID = []\<rparr>"
  by (simp_all add: home_row_def written_repository_def repo_row_of_def repository.defs repo_row.defs candidate_example_def
      encode_repository_backend_def encode_repository_local_target_def effective_kind_def effective_local_target_def
      target_normalized_def no_target_def target_validate_def)

lemma home_password: "get_secret vault_example (Some (replicate 32 CHR 0x07)) (no_tables\<lparr>tb_secrets := [home_secret]\<rparr>) ''sec_2a'' ''repository-password'' =
    Inr ''correct horse''"
proof -
  have "aead_ok vault_example" using vault_example_ok by simp
  show ?thesis
    using store_secret_get [OF home_stored] \<open>aead_ok vault_example\<close>
    by (simp add: repository_example_def connection_start_def bytes_example_def)
qed

lemma home_material_loaded: "\<exists>e. material repository_example (connected_state c) ''r1'' = Inr (e, home_material) \<and> rxe_PasswordSecretID e = ''sec_2a''"
proof -
  let ?tb = "rps_Tables (connected_state c)"
  have row: "row repo_ID ''r1'' (tb_repositories ?tb) = Some home_row"
    by (simp add: connected_state_def put_capacity_def row_def home_row_fields)
  then obtain e where e: "load_repository_execution ?tb ''r1'' = Inr e" "rxe_PasswordSecretID e = ''sec_2a''"
    "repo_Kind (rxe_Repository e) = ''local''" "repo_Path (rxe_Repository e) = ''/data''"
    by (simp add: load_repository_execution_def decode_repository_backend_def decode_repository_local_target_def home_row_fields
       no_target_def target_validate_def target_normalized_def repository.defs Let_def)
  have "get_secret vault_example (rps_Gate (connected_state c)) ?tb ''sec_2a'' ''repository-password'' = Inr ''correct horse''"
    using home_password get_secret_row [of "''sec_2a''" ?tb "no_tables\<lparr>tb_secrets := [home_secret]\<rparr>"]
    by (simp add: connected_state_def put_capacity_def connection_start_def)
  then show ?thesis
    using e by (intro exI [of _ e]) (simp add: material_def repository_example_def repository_material_def effective_kind_def home_material_def)
qed

lemma home_rotated:
  "\<exists>st'. rotate_password repository_example (bytes_example 1) ''r1'' ''battery staple'' 9 (connected_state c) = (st', None)"
proof -
  let ?st = "connected_state c"
  obtain e where m: "material repository_example ?st ''r1'' = Inr (e, home_material)" and e: "rxe_PasswordSecretID e = ''sec_2a''"
    using home_material_loaded by blast
  have tables: "rps_Gate ?st = Some (replicate 32 CHR 0x07)" "rps_World ?st = [(''A'', ''correct horse'')]"
    "tb_secrets (rps_Tables ?st) = [home_secret]" "tb_repositories (rps_Tables ?st) = [home_row]" "tb_revocations (rps_Tables ?st) = []"
    by (simp_all add: connected_state_def connection_start_def put_capacity_def no_tables_def)
  have keys: "listed_keys repository_example home_material ?st = (?st, Inr [\<lparr>rky_ID = ''A'', rky_Current = True\<rparr>])"
    by (simp add: listed_keys_def run_restic_def repository_example_def key_engine_def home_material_def operation_on_def no_material_def
        tables refused_result_def)
  obtain s where s: "store_secret repository_example (bytes_example 1) password_purpose ''battery staple'' 9 ?st =
      (put_tables ?st ((rps_Tables ?st)\<lparr>tb_secrets := [home_secret, s]\<rparr>), Inr ''sec_2b'')" "sec_ID s = ''sec_2b''"
    using bytes_ids
    by (simp add: store_secret_def put_secret_def tables repository_example_def vault_seal_def save_secret_def insert_row_def
        with_value_def home_secret_def)
  let ?st2 = "put_tables ?st ((rps_Tables ?st)\<lparr>tb_secrets := [home_secret, s]\<rparr>)"
  have add: "run_restic repository_example ((operation_on AddKey home_material [])\<lparr>rop_NewPassword := ''battery staple''\<rparr>) ?st2 =
      (?st2\<lparr>rps_World := [(''A'', ''correct horse''), ([char_of (66 :: nat)], ''battery staple'')]\<rparr>, Inr refused_result)"
    by (simp add: run_restic_def repository_example_def key_engine_def home_material_def operation_on_def no_material_def tables
        refused_result_def)
  have list: "run_restic repository_example (operation_on ListSnapshots (home_material\<lparr>rsr_Password := ''battery staple''\<rparr>) [])
      (?st2\<lparr>rps_World := [(''A'', ''correct horse''), ([char_of (66 :: nat)], ''battery staple'')]\<rparr>) =
      (?st2\<lparr>rps_World := [(''A'', ''correct horse''), ([char_of (66 :: nat)], ''battery staple'')]\<rparr>, Inr refused_result)"
    by (simp add: run_restic_def repository_example_def key_engine_def home_material_def operation_on_def no_material_def
        refused_result_def)
  obtain tb where commit: "commit_password_rotation (rps_Tables ?st2) ''r1'' ''sec_2b'' ''A'' ''sec_2a'' 9 = (tb, None)"
    by (simp add: commit_password_rotation_def tables row_def home_row_fields transaction_def reject_def require_reference_def s(2))
  have "current_key [\<lparr>rky_ID = ''A'', rky_Current = True\<rparr>] = ''A''" by (simp add: current_key_def)
  moreover have "pending_key_revocation (rps_Tables ?st) ''r1'' = None" by (simp add: pending_key_revocation_def tables row_def)
  ultimately show ?thesis
    by (simp add: rotate_password_def m keys s e switch_password_def add list commit del: put_tables_simps One_nat_def)
qed

theorem rotation_keeps_access_witness:
  "\<exists>c st'. rotate_password repository_example (bytes_example 1) ''r1'' ''battery staple'' 9 (connected_state c) = (st', None) \<and>
     password_opens repository_example key_world_opens (connected_state c) ''r1'' \<and>
     password_opens repository_example key_world_opens st' ''r1'' \<and> password_rotation_status st' ''r1'' \<noteq> None"
proof -
  fix c
  obtain st' where r: "rotate_password repository_example (bytes_example 1) ''r1'' ''battery staple'' 9 (connected_state c) = (st', None)"
    using home_rotated by blast
  obtain e where m: "material repository_example (connected_state c) ''r1'' = Inr (e, home_material)"
    using home_material_loaded by blast
  have opens: "password_opens repository_example key_world_opens (connected_state c) ''r1''"
    using m by (simp add: password_opens_def home_material_def key_world_opens_def connected_state_def connection_start_def)
  have fresh: "step_fresh (connected_state c) (Rotate_Password (bytes_example 1) ''battery staple'' 9)"
    using bytes_ids home_row_fields
    by (simp add: fresh_secret_def connected_state_def put_capacity_def secret_referenced_def home_secret_def no_tables_def bytes_example_def)
  have "[] \<notin> set (secret_ids (rps_Tables (connected_state c)))"
    by (simp add: connected_state_def put_capacity_def home_secret_def)
  then show ?thesis
    using rotation_keeps_access [OF repository_example_keeps_keys _ opens _ history_start fresh r] r opens vault_example_ok
    by (auto simp: repository_example_def)
qed

end
