(* ===== verification/Guided_Setup.thy ===== *)
theory Guided_Setup
  imports Repository_Service Go_Texts
begin

text \<open>
  The guided setup of src/internal/protectionsetup (service.go, model.go): templates, drafts whose
  repository passwords are staged as secrets, the resumable application of a draft (one repository, one
  task and one maintenance policy for each item, and one plan, all disabled), and its cancellation.

  The service calls the store, the secrets and the repository service; each call is one step of the state.
  Case folding and new identifiers (\<open>newID\<close>: a prefix and a number, that of the mapping at hand) are
  parameters; the clock is read once for each mapping or item and once for each other step. The checks
  for absent collaborators, the progress reporter and the listings are left out.
\<close>

section \<open>Inputs\<close>

abbreviation DraftPending :: string where "DraftPending \<equiv> ''pending''"
abbreviation DraftApplying :: string where "DraftApplying \<equiv> ''applying''"
abbreviation DraftPartial :: string where "DraftPartial \<equiv> ''partial''"
abbreviation DraftReady :: string where "DraftReady \<equiv> ''ready''"
abbreviation DraftCancelled :: string where "DraftCancelled \<equiv> ''cancelled''"
abbreviation ItemPending :: string where "ItemPending \<equiv> ''pending''"
abbreviation ItemFailed :: string where "ItemFailed \<equiv> ''failed''"
abbreviation ItemReady :: string where "ItemReady \<equiv> ''ready''"
abbreviation ItemRetained :: string where "ItemRetained \<equiv> ''retained''"
abbreviation ItemCancelled :: string where "ItemCancelled \<equiv> ''cancelled''"

record draft_mapping =
  dfm_TaskName :: string
  dfm_Directory :: "directory_source option"
  dfm_Database :: "database_source option"
  dfm_RepositoryName :: string
  dfm_RepositoryKind :: string
  dfm_RemoteHostID :: string
  dfm_RepositoryPath :: string
  dfm_Password :: string
  dfm_PasswordConfirmed :: bool

record draft_input =
  dfi_Name :: string
  dfi_TemplateID :: string
  dfi_ExecutionTarget :: target
  dfi_Retention :: retention_policy
  dfi_Resources :: resource_policy
  dfi_MaxSuccessAgeHours :: int
  dfi_Schedule :: schedule
  dfi_Timezone :: string
  dfi_MaxParallel :: int
  dfi_CatchUpWindowMinutes :: int
  dfi_NotificationMode :: string
  dfi_Items :: "draft_mapping list"

record 'w setup_env =
  gse_Repositories :: "'w repository_env"
  gse_Zones :: zones
  gse_Lower :: "string \<Rightarrow> string"
  gse_EqualFold :: "string \<Rightarrow> string \<Rightarrow> bool"
  gse_NewID :: "string \<Rightarrow> nat \<Rightarrow> string"

section \<open>Templates\<close>

definition setup_plan :: "string \<Rightarrow> schedule \<Rightarrow> string \<Rightarrow> int \<Rightarrow> string list \<Rightarrow> int \<Rightarrow> plan" where
  "setup_plan name schedule timezone jobs tasks window =
     (probe_plan name schedule timezone [] window)\<lparr>plan_MaxParallel := jobs, plan_TaskIDs := tasks\<rparr>"

definition template_validate :: "zones \<Rightarrow> protection_template \<Rightarrow> check" where
  "template_validate zones p =
     first_error
       [reject (blank (ptm_Name p) \<or> length (ptm_Name p) > 200) (Invalid ''template name is required''),
        retention_validate (ptm_Retention p), resource_validate (ptm_Resources p), health_validate (ptm_MaxSuccessAgeHours p),
        plan_validate zones (setup_plan (ptm_Name p) (ptm_Schedule p) (ptm_Timezone p) (ptm_MaxParallel p) [''template'']
          (ptm_CatchUpWindowMinutes p))]"

definition create_template :: "'w setup_env \<Rightarrow> protection_template \<Rightarrow> instant \<Rightarrow> tables \<Rightarrow> tables \<times> protection_template outcome" where
  "create_template env input now tb =
     (let p = input\<lparr>ptm_ID := gse_NewID env ''protection-template'' 0, ptm_Name := trim_space (ptm_Name input),
                    ptm_CreatedAt := now, ptm_UpdatedAt := now\<rparr> in
      case template_validate (gse_Zones env) p of
        Some err \<Rightarrow> (tb, Inl err)
      | None \<Rightarrow> with_value (create_protection_template tb p) p)"

definition with_template :: "protection_template \<Rightarrow> draft_input \<Rightarrow> draft_input" where
  "with_template p input = input\<lparr>dfi_Retention := ptm_Retention p, dfi_Resources := ptm_Resources p,
     dfi_MaxSuccessAgeHours := ptm_MaxSuccessAgeHours p, dfi_Schedule := ptm_Schedule p, dfi_Timezone := ptm_Timezone p,
     dfi_MaxParallel := ptm_MaxParallel p, dfi_CatchUpWindowMinutes := ptm_CatchUpWindowMinutes p\<rparr>"

section \<open>Checking the mappings\<close>

definition no_scope :: scope_confirmation where
  "no_scope = \<lparr>scope_PreviewID = [], scope_Fingerprint = [], scope_ConfirmedBy = [], scope_ConfirmedAt = zero_time,
     scope_Summary = [], scope_DeleteConfirmed = False\<rparr>"

definition setup_task :: "protection_draft \<Rightarrow> string \<Rightarrow> string \<Rightarrow> string \<Rightarrow> directory_source option \<Rightarrow> database_source option \<Rightarrow> instant \<Rightarrow> instant \<Rightarrow> task" where
  "setup_task d i name repository directory database created updated =
     \<lparr>task_ID = i, task_Name = name, task_Engine = ResticEngine,
      task_Kind = (if database \<noteq> None then ''database'' else ''directory''), task_ExecutionTarget = pdr_ExecutionTarget d,
      task_RepositoryID = repository, task_Directory = directory, task_Database = database, task_Rsync = None,
      task_Retention = pdr_Retention d, task_Resources = pdr_Resources d, task_MaxSuccessAgeHours = pdr_MaxSuccessAgeHours d,
      task_ScopeConfirmation = no_scope, task_Enabled = False, task_CreatedAt = created, task_UpdatedAt = updated\<rparr>"

definition setup_repository :: "string \<Rightarrow> string \<Rightarrow> string \<Rightarrow> string \<Rightarrow> string \<Rightarrow> string \<Rightarrow> string \<Rightarrow> instant \<Rightarrow> instant \<Rightarrow> repository" where
  "setup_repository i name engine kind host path status created updated =
     \<lparr>repo_ID = i, repo_Name = name, repo_Engine = engine, repo_Kind = kind, repo_LocalTarget = no_target,
      repo_RemoteHostID = host, repo_Path = path, repo_S3 = None, repo_BackendSecretID = [], repo_Status = status,
      repo_Capacity = None, repo_LastRun = None, repo_NextRun = [], repo_CreatedAt = created, repo_UpdatedAt = updated\<rparr>"

definition probe_repository :: "draft_mapping \<Rightarrow> repository" where
  "probe_repository m = setup_repository [] (dfm_RepositoryName m) [] (dfm_RepositoryKind m) (dfm_RemoteHostID m)
     (dfm_RepositoryPath m) [] zero_time zero_time"

definition database_connection_by_id :: "database_connection list \<Rightarrow> string \<Rightarrow> database_connection option" where
  "database_connection_by_id connections i = find (\<lambda>c. conn_ID c = i) connections"

definition connection_verified :: "database_connection option \<Rightarrow> instant \<Rightarrow> bool" where
  "connection_verified c now \<longleftrightarrow>
     (case c of
        None \<Rightarrow> False
      | Some c \<Rightarrow> conn_Purpose c = ''backup'' \<and> conn_Status c = ''ready'' \<and> pre_Error (conn_Preflight c) = [] \<and>
          pre_CheckedAt (conn_Preflight c) \<noteq> zero_time \<and> pre_CheckedAt (conn_Preflight c) \<le> now)"

definition source_fingerprint :: "draft_mapping \<Rightarrow> string" where
  "source_fingerprint m =
     (case dfm_Database m of
        Some d \<Rightarrow> ''database'' @ [CHR 0x00] @ dbs_ConnectionID d @ [CHR 0x00] @ dbs_Database d
      | None \<Rightarrow> ''directory'' @ [CHR 0x00] @ dir_Path (the (dfm_Directory m)))"

definition repository_key_of :: "repository \<Rightarrow> string" where
  "repository_key_of r = effective_kind r @ [CHR 0x00] @ repo_RemoteHostID r @ [CHR 0x00] @ repo_Path r"

text \<open>The task names, repository names, places and sources of the mappings seen so far.\<close>

type_synonym mapping_keys = "string \<times> string \<times> string \<times> string"

definition mapping_key :: "'w setup_env \<Rightarrow> draft_mapping \<Rightarrow> mapping_keys" where
  "mapping_key env m = (gse_Lower env (trim_space (dfm_TaskName m)), gse_Lower env (trim_space (dfm_RepositoryName m)),
     repository_key_of (probe_repository m), source_fingerprint m)"

definition keys_meet :: "mapping_keys \<Rightarrow> mapping_keys \<Rightarrow> bool" where
  "keys_meet k l \<longleftrightarrow> fst k = fst l \<or> fst (snd k) = fst (snd l) \<or> fst (snd (snd k)) = fst (snd (snd l)) \<or>
     snd (snd (snd k)) = snd (snd (snd l))"

definition same_place :: "repository \<Rightarrow> repository \<Rightarrow> bool" where
  "same_place q r \<longleftrightarrow> effective_kind q = effective_kind r \<and> repo_RemoteHostID q = repo_RemoteHostID r \<and> repo_Path q = repo_Path r"

record setup_inventory =
  inv_Connections :: "database_connection list"
  inv_Repositories :: "repository list"
  inv_Tasks :: "task list"

definition validate_mapping ::
  "'w setup_env \<Rightarrow> setup_inventory \<Rightarrow> protection_draft \<Rightarrow> instant \<Rightarrow> mapping_keys list \<Rightarrow> draft_mapping \<Rightarrow> check" where
  "validate_mapping env stock d now seen m =
     (let r = probe_repository m; target = pdr_ExecutionTarget d in
      first_error
        [reject (blank (dfm_TaskName m) \<or> blank (dfm_RepositoryName m) \<or> length (dfm_Password m) < 12 \<or> \<not> dfm_PasswordConfirmed m)
           (Invalid ''each mapping requires names and a confirmed repository password''),
         reject ((dfm_Directory m = None) = (dfm_Database m = None)) (Invalid ''each mapping requires exactly one source''),
         fst (task_validate (setup_task d [] (dfm_TaskName m) ''draft-validation'' (dfm_Directory m) (dfm_Database m) zero_time zero_time)),
         reject (dfm_Database m \<noteq> None \<and> target_Kind target \<noteq> Local)
           (Invalid ''database protection currently requires local service execution''),
         reject (dfm_Database m \<noteq> None \<and>
             \<not> connection_verified (database_connection_by_id (inv_Connections stock) (dbs_ConnectionID (the (dfm_Database m)))) now)
           (Invalid ''database source requires a verified backup connection''),
         repository_validate (ren_Net (gse_Repositories env)) r,
         reject (target_Kind target = Agent \<and> effective_kind r \<noteq> SFTPRepository)
           (Invalid ''Agent directory protection requires an SFTP repository''),
         reject (list_ex (keys_meet (mapping_key env m)) seen)
           (Invalid ''draft mappings must use unique sources, task names, repositories and paths''),
         reject (list_ex (\<lambda>q. gse_EqualFold env (repo_Name q) (repo_Name r) \<or> same_place q r) (inv_Repositories stock))
           (Invalid ''repository mapping conflicts with an existing repository''),
         reject (list_ex (\<lambda>t. gse_EqualFold env (task_Name t) (trim_space (dfm_TaskName m))) (inv_Tasks stock))
           (Invalid ''task mapping conflicts with an existing task'')])"

fun validate_mappings ::
  "'w setup_env \<Rightarrow> setup_inventory \<Rightarrow> protection_draft \<Rightarrow> instant \<Rightarrow> mapping_keys list \<Rightarrow> draft_mapping list \<Rightarrow> check" where
  "validate_mappings env stock d now seen [] = None"
| "validate_mappings env stock d now seen (m # ms) =
     (case validate_mapping env stock d now seen m of
        Some err \<Rightarrow> Some err
      | None \<Rightarrow> validate_mappings env stock d now (seen @ [mapping_key env m]) ms)"

definition maximum_draft_items :: nat where
  "maximum_draft_items = 100"

definition validate_draft_input ::
  "'w setup_env \<Rightarrow> tables \<Rightarrow> protection_draft \<Rightarrow> draft_mapping list \<Rightarrow> instant \<Rightarrow> check" where
  "validate_draft_input env tb d ms now =
     (case first_error
         [reject (blank (pdr_Name d) \<or> length (pdr_Name d) > 200) (Invalid ''protection draft name is required''),
          target_validate (pdr_ExecutionTarget d), retention_validate (pdr_Retention d), resource_validate (pdr_Resources d),
          health_validate (pdr_MaxSuccessAgeHours d),
          reject (pdr_NotificationMode d \<notin> {''configured'', ''none''}) (Invalid ''notification selection is required''),
          reject (ms = [] \<or> length ms > maximum_draft_items) (Invalid ''protection draft requires between 1 and 100 items''),
          plan_validate (gse_Zones env) (setup_plan (pdr_Name d) (pdr_Schedule d) (pdr_Timezone d) (pdr_MaxParallel d)
            (map (\<lambda>k. ''task-'' @ show_nat k) [0..<length ms]) (pdr_CatchUpWindowMinutes d))] of
        Some err \<Rightarrow> Some err
      | None \<Rightarrow>
          (case list_repositories tb of
             Inl err \<Rightarrow> Some err
           | Inr repositories \<Rightarrow>
               validate_mappings env \<lparr>inv_Connections = list_database_connections tb, inv_Repositories = repositories,
                 inv_Tasks = list_tasks tb\<rparr> d now [] ms))"

section \<open>Creating a draft\<close>

definition draft_of :: "'w setup_env \<Rightarrow> draft_input \<Rightarrow> instant \<Rightarrow> protection_draft" where
  "draft_of env input now =
     \<lparr>pdr_ID = gse_NewID env ''protection-draft'' 0, pdr_Name = trim_space (dfi_Name input), pdr_TemplateID = dfi_TemplateID input,
      pdr_ExecutionTarget = target_normalized (dfi_ExecutionTarget input), pdr_Retention = dfi_Retention input,
      pdr_Resources = dfi_Resources input, pdr_MaxSuccessAgeHours = dfi_MaxSuccessAgeHours input,
      pdr_Schedule = dfi_Schedule input, pdr_Timezone = dfi_Timezone input, pdr_MaxParallel = dfi_MaxParallel input,
      pdr_CatchUpWindowMinutes = dfi_CatchUpWindowMinutes input, pdr_NotificationMode = dfi_NotificationMode input,
      pdr_PlanID = gse_NewID env ''plan'' 0, pdr_Status = DraftPending, pdr_CreatedAt = now, pdr_UpdatedAt = now\<rparr>"

definition draft_item_of :: "'w setup_env \<Rightarrow> protection_draft \<Rightarrow> instant \<Rightarrow> nat \<Rightarrow> draft_mapping \<Rightarrow> string \<Rightarrow> draft_item" where
  "draft_item_of env d now position m secret =
     \<lparr>pdi_ID = gse_NewID env ''protection-item'' position, pdi_DraftID = pdr_ID d, pdi_Position = int position,
      pdi_TaskName = trim_space (dfm_TaskName m), pdi_Directory = dfm_Directory m, pdi_Database = dfm_Database m,
      pdi_RepositoryID = gse_NewID env ''repo'' position, pdi_RepositoryName = trim_space (dfm_RepositoryName m),
      pdi_RepositoryKind = dfm_RepositoryKind m, pdi_RemoteHostID = trim_space (dfm_RemoteHostID m),
      pdi_RepositoryPath = trim_space (dfm_RepositoryPath m), pdi_PasswordSecretID = secret,
      pdi_TaskID = gse_NewID env ''task'' position, pdi_Status = ItemPending, pdi_Error = [], pdi_UpdatedAt = now\<rparr>"

text \<open>The staged secrets, and the items unless a password could not be stored.\<close>

fun stage_items ::
  "'w setup_env \<Rightarrow> random_source \<Rightarrow> protection_draft \<Rightarrow> instant \<Rightarrow> nat \<Rightarrow> draft_mapping list \<Rightarrow> 'w repository_state \<Rightarrow> 'w repository_state \<times> string list \<times> draft_item list outcome" where
  "stage_items env random d now position [] st = (st, [], Inr [])"
| "stage_items env random d now position (m # ms) st =
     (case store_secret (gse_Repositories env) (random position) password_purpose (dfm_Password m) now st of
        (st1, Inl _) \<Rightarrow> (st1, [], Inl (Invalid ''stage repository password''))
      | (st1, Inr secret) \<Rightarrow>
          (case stage_items env random d now (Suc position) ms st1 of
             (st2, staged, res) \<Rightarrow>
               (st2, secret # staged,
                case res of Inl err \<Rightarrow> Inl err | Inr items \<Rightarrow> Inr (draft_item_of env d now position m secret # items))))"

record public_item = draft_item +
  pub_HasPassword :: bool

definition public_item_of :: "draft_item \<Rightarrow> public_item" where
  "public_item_of e = draft_item.extend (e\<lparr>pdi_PasswordSecretID := []\<rparr>) \<lparr>pub_HasPassword = (pdi_PasswordSecretID e \<noteq> [])\<rparr>"

type_synonym draft_view = "protection_draft \<times> public_item list"

definition public_draft :: "protection_draft \<times> draft_item list \<Rightarrow> draft_view" where
  "public_draft v = (fst v, map public_item_of (sort_key pdi_Position (snd v)))"

text \<open>The end of \<open>CreateDraft\<close>: the passwords are staged, and deleted again when the draft cannot be stored.\<close>

definition store_draft ::
  "'w setup_env \<Rightarrow> random_source \<Rightarrow> protection_draft \<Rightarrow> draft_mapping list \<Rightarrow> instant \<Rightarrow> 'w repository_state \<Rightarrow> 'w repository_state \<times> draft_view outcome" where
  "store_draft env random d ms now st =
     (case stage_items env random d now 0 ms st of
        (st1, staged, Inl err) \<Rightarrow> (foldl (\<lambda>s i. forget_secret i s) st1 staged, Inl err)
      | (st1, staged, Inr items) \<Rightarrow>
          (case create_protection_draft (rps_Tables st1) d items of
             (tb, Some err) \<Rightarrow> (foldl (\<lambda>s i. forget_secret i s) (put_tables st1 tb) staged, Inl err)
           | (tb, None) \<Rightarrow> (put_tables st1 tb, Inr (public_draft (d, items)))))"

definition create_draft ::
  "'w setup_env \<Rightarrow> random_source \<Rightarrow> draft_input \<Rightarrow> instant \<Rightarrow> 'w repository_state \<Rightarrow> 'w repository_state \<times> draft_view outcome" where
  "create_draft env random input0 now st =
     (case (if dfi_TemplateID input0 = [] then Inr input0
            else case protection_template_of (rps_Tables st) (dfi_TemplateID input0) of
                Inl err \<Rightarrow> Inl err | Inr p \<Rightarrow> Inr (with_template p input0)) of
        Inl err \<Rightarrow> (st, Inl err)
      | Inr input \<Rightarrow>
          let d = draft_of env input now in
          (case validate_draft_input env (rps_Tables st) d (dfi_Items input) now of
             Some err \<Rightarrow> (st, Inl err)
           | None \<Rightarrow> store_draft env random d (dfi_Items input) now st))"

section \<open>Applying a draft\<close>

definition safe_item_error :: "string \<Rightarrow> string" where
  "safe_item_error stage =
     (if stage = ''create_repository'' then (utf8 [0x65E0, 0x6CD5, 0x521B, 0x5EFA, 0x72EC, 0x7ACB, 0x4ED3, 0x5E93])
      else if stage = ''initialize_repository'' then (utf8 [0x72EC, 0x7ACB, 0x4ED3, 0x5E93, 0x521D, 0x59CB, 0x5316,
         0x5931, 0x8D25])
      else if stage \<in> {''create_task'', ''validate_task''} then (utf8 [0x65E0, 0x6CD5, 0x521B, 0x5EFA, 0x505C, 0x7528,
         0x4EFB, 0x52A1, 0x8349, 0x7A3F])
      else if stage \<in> {''create_maintenance'', ''validate_maintenance''} then (utf8 [0x65E0, 0x6CD5, 0x521B, 0x5EFA,
         0x7EF4, 0x62A4, 0x7B56, 0x7565, 0x8349, 0x7A3F])
      else if stage = ''record_result'' then (utf8 [0x8D44, 0x6E90, 0x5DF2, 0x521B, 0x5EFA, 0xFF0C, 0x4F46, 0x65E0,
         0x6CD5, 0x4FDD, 0x5B58, 0x5411, 0x5BFC, 0x7ED3, 0x679C])
      else (utf8 [0x65E0, 0x6CD5, 0x5B8C, 0x6210, 0x8BE5, 0x4FDD, 0x62A4, 0x5BF9, 0x8C61]))"

definition setup_maintenance :: "protection_draft \<Rightarrow> draft_item \<Rightarrow> instant \<Rightarrow> maintenance_policy" where
  "setup_maintenance d e now =
     \<lparr>mp_RepositoryID = pdi_RepositoryID e,
      mp_Schedule = \<lparr>sch_Kind = WeeklySchedule, sch_TimeOfDay = ''03:00'', sch_DayOfWeek = 0, sch_IntervalHours = 0\<rparr>,
      mp_Timezone = pdr_Timezone d, mp_Retention = pdr_Retention d, mp_RetentionSource = [], mp_RetentionConflict = False,
      mp_ReviewedRetention = None, mp_PolicyFingerprint = [], mp_Enabled = False,
      mp_CatchUpWindowMinutes = pdr_CatchUpWindowMinutes d, mp_ScheduleAnchorAt = pdr_CreatedAt d, mp_UpdatedAt = now\<rparr>"

text \<open>The three parts of \<open>applyItem\<close>; a failure is the stage and the error.\<close>

type_synonym stage_failure = "(string \<times> go_error) option"

definition at_stage :: "string \<Rightarrow> check \<Rightarrow> stage_failure" where
  "at_stage stage err = map_option (Pair stage) err"

definition apply_repository ::
  "'w setup_env \<Rightarrow> protection_draft \<Rightarrow> draft_item \<Rightarrow> instant \<Rightarrow> 'w repository_state \<Rightarrow> 'w repository_state \<times> stage_failure" where
  "apply_repository env d e now st =
     (case list_repositories (rps_Tables st) of
        Inl err \<Rightarrow> (st, Some (''inspect_repository'', err))
      | Inr repositories \<Rightarrow>
          (case (case find (\<lambda>r. repo_ID r = pdi_RepositoryID e) repositories of
              Some r \<Rightarrow> (st, None, repo_Status r)
            | None \<Rightarrow>
                (case create_repository (rps_Tables st)
                    (setup_repository (pdi_RepositoryID e) (pdi_RepositoryName e) ResticEngine (pdi_RepositoryKind e)
                       (pdi_RemoteHostID e) (pdi_RepositoryPath e) ''uninitialized'' (pdr_CreatedAt d) now)
                    (pdi_PasswordSecretID e) now of
                   (tb, err) \<Rightarrow> (put_tables st tb, err, ''uninitialized''))) of
             (st1, Some err, _) \<Rightarrow> (st1, Some (''create_repository'', err))
           | (st1, None, status) \<Rightarrow>
               if status = ''ready'' then (st1, None)
               else (case initialize (gse_Repositories env) (pdi_RepositoryID e) now st1 of
                  (st2, err) \<Rightarrow> (st2, at_stage ''initialize_repository'' err))))"

definition apply_task :: "protection_draft \<Rightarrow> draft_item \<Rightarrow> instant \<Rightarrow> 'w repository_state \<Rightarrow> 'w repository_state \<times> stage_failure" where
  "apply_task d e now st =
     (if list_ex (\<lambda>t. task_ID t = pdi_TaskID e) (list_tasks (rps_Tables st)) then (st, None)
      else (case task_validate (setup_task d (pdi_TaskID e) (pdi_TaskName e) (pdi_RepositoryID e) (pdi_Directory e)
              (pdi_Database e) (pdr_CreatedAt d) now) of
         (Some err, _) \<Rightarrow> (st, Some (''validate_task'', err))
       | (None, t) \<Rightarrow>
           (case create_task (rps_Tables st) t now of
              (tb, err) \<Rightarrow> (put_tables st tb, at_stage ''create_task'' err))))"

definition apply_maintenance :: "'w setup_env \<Rightarrow> protection_draft \<Rightarrow> draft_item \<Rightarrow> instant \<Rightarrow> 'w repository_state \<Rightarrow> 'w repository_state \<times> stage_failure" where
  "apply_maintenance env d e now st =
     (case maintenance_policy_validate (gse_Zones env) (setup_maintenance d e now) of
        Some err \<Rightarrow> (st, Some (''validate_maintenance'', err))
      | None \<Rightarrow>
          (case save_maintenance_policy (rps_Tables st) (setup_maintenance d e now) of
             (tb, err) \<Rightarrow> (put_tables st tb, at_stage ''create_maintenance'' err)))"

definition apply_item ::
  "'w setup_env \<Rightarrow> protection_draft \<Rightarrow> draft_item \<Rightarrow> instant \<Rightarrow> 'w repository_state \<Rightarrow> 'w repository_state \<times> stage_failure" where
  "apply_item env d e now st =
     (case apply_repository env d e now st of
        (st1, Some failed) \<Rightarrow> (st1, Some failed)
      | (st1, None) \<Rightarrow>
          (case apply_task d e now st1 of
             (st2, Some failed) \<Rightarrow> (st2, Some failed)
           | (st2, None) \<Rightarrow> apply_maintenance env d e now st2))"

definition record_item :: "draft_item \<Rightarrow> 'w repository_state \<Rightarrow> 'w repository_state \<times> check" where
  "record_item e st = (case update_draft_item (rps_Tables st) e of (tb, err) \<Rightarrow> (put_tables st tb, err))"

text \<open>One turn of the loop of \<open>Apply\<close>: the item as it stands in memory, and whether it failed.\<close>

definition apply_one ::
  "'w setup_env \<Rightarrow> protection_draft \<Rightarrow> draft_item \<Rightarrow> instant \<Rightarrow> 'w repository_state \<Rightarrow> 'w repository_state \<times> draft_item" where
  "apply_one env d e now st =
     (if pdi_Status e = ItemReady then (st, e)
      else (case apply_item env d e now st of
        (st1, Some (stage, _)) \<Rightarrow>
          let failed = e\<lparr>pdi_Status := ItemFailed, pdi_Error := safe_item_error stage, pdi_UpdatedAt := now\<rparr> in
          (fst (record_item failed st1), failed)
      | (st1, None) \<Rightarrow>
          let ready = e\<lparr>pdi_Status := ItemReady, pdi_Error := [], pdi_UpdatedAt := now\<rparr> in
          (case record_item ready st1 of
             (st2, None) \<Rightarrow> (st2, ready)
           | (st2, Some _) \<Rightarrow> (st2, ready\<lparr>pdi_Status := ItemFailed, pdi_Error := safe_item_error ''record_result''\<rparr>))))"

fun apply_items ::
  "'w setup_env \<Rightarrow> protection_draft \<Rightarrow> (nat \<Rightarrow> instant) \<Rightarrow> nat \<Rightarrow> draft_item list \<Rightarrow> 'w repository_state \<Rightarrow> 'w repository_state \<times> draft_item list" where
  "apply_items env d clock k [] st = (st, [])"
| "apply_items env d clock k (e # es) st =
     (case apply_one env d e (clock k) st of
        (st1, e') \<Rightarrow> (case apply_items env d clock (Suc k) es st1 of (st2, es') \<Rightarrow> (st2, e' # es')))"

definition draft_plan :: "protection_draft \<Rightarrow> string list \<Rightarrow> instant \<Rightarrow> plan" where
  "draft_plan d tasks now =
     (setup_plan (pdr_Name d) (pdr_Schedule d) (pdr_Timezone d) (pdr_MaxParallel d) tasks (pdr_CatchUpWindowMinutes d))
       \<lparr>plan_ID := pdr_PlanID d, plan_ScheduleAnchorAt := pdr_CreatedAt d, plan_CreatedAt := pdr_CreatedAt d, plan_UpdatedAt := now\<rparr>"

definition upsert_plan :: "protection_draft \<Rightarrow> draft_item list \<Rightarrow> instant \<Rightarrow> 'w repository_state \<Rightarrow> 'w repository_state \<times> check" where
  "upsert_plan d items now st =
     (let tasks = map pdi_TaskID (filter (\<lambda>e. pdi_Status e = ItemReady) items);
          p = draft_plan d tasks now; tb = rps_Tables st in
      if tasks = [] then (st, None)
      else (case (case find (\<lambda>q. plan_ID q = plan_ID p) (list_plans tb) of
          Some q \<Rightarrow> update_plan tb (p\<lparr>plan_CreatedAt := plan_CreatedAt q, plan_ScheduleAnchorAt := plan_ScheduleAnchorAt q\<rparr>)
        | None \<Rightarrow> create_plan tb p) of (tb', err) \<Rightarrow> (put_tables st tb', err)))"

definition set_draft_status :: "string \<Rightarrow> string \<Rightarrow> instant \<Rightarrow> 'w repository_state \<Rightarrow> 'w repository_state \<times> check" where
  "set_draft_status i status now st =
     (case update_draft_status (rps_Tables st) i status now of (tb, err) \<Rightarrow> (put_tables st tb, err))"

text \<open>The answer is the draft, unless it is the empty one, and the error.\<close>

definition apply_draft ::
  "'w setup_env \<Rightarrow> string \<Rightarrow> (nat \<Rightarrow> instant) \<Rightarrow> 'w repository_state \<Rightarrow> 'w repository_state \<times> draft_view option \<times> check" where
  "apply_draft env i clock st =
     (case protection_draft_of (rps_Tables st) i of
        Inl err \<Rightarrow> (st, None, Some err)
      | Inr (d, items) \<Rightarrow>
          if pdr_Status d = DraftCancelled
          then (st, Some (public_draft (d, items)), Some (Invalid ''cancelled protection draft cannot be applied''))
          else if pdr_Status d = DraftReady then (st, Some (public_draft (d, items)), None)
          else (case set_draft_status i DraftApplying (clock 0) st of
              (st1, Some err) \<Rightarrow> (st1, None, Some err)
            | (st1, None) \<Rightarrow>
                (case apply_items env d clock 1 items st1 of
                   (st2, items') \<Rightarrow>
                     (case upsert_plan d items' (clock (length items + 1)) st2 of
                        (st3, plan_error) \<Rightarrow>
                          let failed = (list_ex (\<lambda>e. pdi_Status e \<noteq> ItemReady) items' \<or> plan_error \<noteq> None) in
                          (case set_draft_status i (if failed then DraftPartial else DraftReady) (clock (length items + 2)) st3 of
                             (st4, Some err) \<Rightarrow> (st4, None, Some err)
                           | (st4, None) \<Rightarrow>
                               (case protection_draft_of (rps_Tables st4) i of
                                  Inl err \<Rightarrow> (st4, None, Some err)
                                | Inr v \<Rightarrow> (st4, Some (public_draft v),
                                    reject failed (Invalid ''one or more protection items failed''))))))))"

section \<open>Cancelling a draft\<close>

definition cancel_item ::
  "repository list \<Rightarrow> instant \<Rightarrow> draft_item \<Rightarrow> 'w repository_state \<Rightarrow> 'w repository_state \<times> check" where
  "cancel_item repositories now e st =
     (if list_ex (\<lambda>r. repo_ID r = pdi_RepositoryID e) repositories
      then record_item (e\<lparr>pdi_Status := ItemRetained, pdi_Error := [], pdi_UpdatedAt := now\<rparr>) st
      else (case record_item (e\<lparr>pdi_PasswordSecretID := [], pdi_Status := ItemCancelled, pdi_Error := [], pdi_UpdatedAt := now\<rparr>) st of
        (st1, Some err) \<Rightarrow> (st1, Some err)
      | (st1, None) \<Rightarrow>
          if pdi_PasswordSecretID e = [] then (st1, None)
          else (case remove_secret (rps_Gate st1) (rps_Tables st1) (pdi_PasswordSecretID e) of
              (tb, None) \<Rightarrow> (put_tables st1 tb, None)
            | (tb, Some err) \<Rightarrow>
                (case record_item e (put_tables st1 tb) of
                   (st2, None) \<Rightarrow> (st2, Some err)
                 | (st2, Some restore) \<Rightarrow>
                     (st2, Some (Wrapped ''restore protection draft item after secret cleanup failure'' restore))))))"

fun cancel_items ::
  "repository list \<Rightarrow> (nat \<Rightarrow> instant) \<Rightarrow> nat \<Rightarrow> draft_item list \<Rightarrow> 'w repository_state \<Rightarrow> 'w repository_state \<times> check" where
  "cancel_items repositories clock k [] st = (st, None)"
| "cancel_items repositories clock k (e # es) st =
     (case cancel_item repositories (clock k) e st of
        (st1, Some err) \<Rightarrow> (st1, Some err)
      | (st1, None) \<Rightarrow> cancel_items repositories clock (Suc k) es st1)"

definition cancel_draft :: "string \<Rightarrow> (nat \<Rightarrow> instant) \<Rightarrow> 'w repository_state \<Rightarrow> 'w repository_state \<times> draft_view option \<times> check" where
  "cancel_draft i clock st =
     (case protection_draft_of (rps_Tables st) i of
        Inl err \<Rightarrow> (st, None, Some err)
      | Inr (d, items) \<Rightarrow>
          if pdr_Status d = DraftReady
          then (st, Some (public_draft (d, items)), Some (Invalid ''completed protection draft cannot be cancelled''))
          else if pdr_Status d = DraftApplying
          then (st, Some (public_draft (d, items)), Some (Invalid ''applying protection draft cannot be cancelled''))
          else (case list_repositories (rps_Tables st) of
            Inl err \<Rightarrow> (st, None, Some err)
          | Inr repositories \<Rightarrow>
              (case cancel_items repositories clock 0 items st of
                 (st1, Some err) \<Rightarrow> (st1, None, Some err)
               | (st1, None) \<Rightarrow>
                   (case set_draft_status i DraftCancelled (clock (length items)) st1 of
                      (st2, Some err) \<Rightarrow> (st2, None, Some err)
                    | (st2, None) \<Rightarrow>
                        (case protection_draft_of (rps_Tables st2) i of
                           Inl err \<Rightarrow> (st2, None, Some err)
                         | Inr v \<Rightarrow> (st2, Some (public_draft v), None))))))"

section \<open>What applying a draft leaves\<close>

text \<open>An item has its repository, ready, its task and the maintenance policy of the repository.\<close>

definition item_done :: "tables \<Rightarrow> draft_item \<Rightarrow> bool" where
  "item_done tb e \<longleftrightarrow>
     (\<exists>r \<in> set (tb_repositories tb). repo_ID r = pdi_RepositoryID e \<and> repo_Status r = ''ready'') \<and>
     (\<exists>t \<in> set (tb_tasks tb). task_ID t = pdi_TaskID e) \<and>
     (\<exists>p \<in> set (tb_maintenance tb). mp_RepositoryID p = pdi_RepositoryID e)"

text \<open>From one state of the tables to a later one, no repository, task or maintenance policy is lost, and
  whatever is new among tasks, plans and policies is disabled.\<close>

definition setup_grows :: "tables \<Rightarrow> tables \<Rightarrow> bool" where
  "setup_grows tb tb' \<longleftrightarrow>
     (\<forall>r \<in> set (tb_repositories tb). \<exists>q \<in> set (tb_repositories tb').
        repo_ID q = repo_ID r \<and> (repo_Status r = ''ready'' \<longrightarrow> repo_Status q = ''ready'')) \<and>
     mp_RepositoryID ` set (tb_maintenance tb) \<subseteq> mp_RepositoryID ` set (tb_maintenance tb') \<and>
     (\<exists>new. tb_tasks tb' = tb_tasks tb @ new \<and> (\<forall>t \<in> set new. \<not> task_Enabled t)) \<and>
     (\<forall>p \<in> set (tb_plans tb'). p \<in> set (tb_plans tb) \<or> \<not> plan_Enabled p) \<and>
     (\<forall>p \<in> set (tb_maintenance tb'). p \<in> set (tb_maintenance tb) \<or> \<not> mp_Enabled p) \<and>
     tb_secrets tb' = tb_secrets tb"

text \<open>What an item's turn leaves alone: the plans with their tasks and the drafts.\<close>

definition plans_kept :: "tables \<Rightarrow> tables \<Rightarrow> bool" where
  "plans_kept tb tb' \<longleftrightarrow> tb_plans tb' = tb_plans tb \<and> tb_plan_tasks tb' = tb_plan_tasks tb \<and> tb_drafts tb' = tb_drafts tb"

lemma setup_grows_refl [simp]: "setup_grows tb tb"
  by (auto simp: setup_grows_def)

lemma setup_grows_trans [trans]:
  assumes "setup_grows a b" and "setup_grows b c"
  shows "setup_grows a c"
proof -
  have "\<exists>q \<in> set (tb_repositories c). repo_ID q = repo_ID r \<and> (repo_Status r = ''ready'' \<longrightarrow> repo_Status q = ''ready'')"
    if "r \<in> set (tb_repositories a)" for r
    using assms that unfolding setup_grows_def by metis
  moreover obtain new1 where new1: "tb_tasks b = tb_tasks a @ new1" "\<forall>t \<in> set new1. \<not> task_Enabled t"
    using assms(1) unfolding setup_grows_def by blast
  obtain new2 where new2: "tb_tasks c = tb_tasks b @ new2" "\<forall>t \<in> set new2. \<not> task_Enabled t"
    using assms(2) unfolding setup_grows_def by blast
  have "tb_tasks c = tb_tasks a @ (new1 @ new2) \<and> (\<forall>t \<in> set (new1 @ new2). \<not> task_Enabled t)" using new1 new2 by auto
  then have "\<exists>new. tb_tasks c = tb_tasks a @ new \<and> (\<forall>t \<in> set new. \<not> task_Enabled t)" by blast
  moreover have "\<forall>p \<in> set (tb_plans c). p \<in> set (tb_plans a) \<or> \<not> plan_Enabled p"
    "\<forall>p \<in> set (tb_maintenance c). p \<in> set (tb_maintenance a) \<or> \<not> mp_Enabled p"
    "mp_RepositoryID ` set (tb_maintenance a) \<subseteq> mp_RepositoryID ` set (tb_maintenance c)" "tb_secrets c = tb_secrets a"
    using assms unfolding setup_grows_def by (blast, blast, metis subset_trans, metis)
  ultimately show ?thesis unfolding setup_grows_def by simp
qed

lemma plans_kept_refl [simp]: "plans_kept tb tb"
  by (simp add: plans_kept_def)

lemma plans_kept_trans [trans]: "plans_kept a b \<Longrightarrow> plans_kept b c \<Longrightarrow> plans_kept a c"
  by (simp add: plans_kept_def)

lemma item_done_grows:
  assumes "setup_grows tb tb'" and "item_done tb e"
  shows "item_done tb' e"
proof -
  obtain new where "tb_tasks tb' = tb_tasks tb @ new" using assms(1) by (auto simp: setup_grows_def)
  moreover obtain p where "p \<in> set (tb_maintenance tb)" "mp_RepositoryID p = pdi_RepositoryID e" using assms(2) by (auto simp: item_done_def)
  then have "pdi_RepositoryID e \<in> mp_RepositoryID ` set (tb_maintenance tb')" using assms(1) by (force simp: setup_grows_def)
  moreover obtain q where "q \<in> set (tb_repositories tb')" "repo_ID q = pdi_RepositoryID e" "repo_Status q = ''ready''"
    using assms by (force simp: setup_grows_def item_done_def)
  ultimately show ?thesis using assms(2) by (auto simp: item_done_def)
qed

lemma setup_grows_drafts:
  "setup_grows tb (tb\<lparr>tb_drafts := d\<rparr>)" "setup_grows tb (tb\<lparr>tb_draft_items := e\<rparr>)"
  by (auto simp: setup_grows_def)

lemma record_item_grows: "record_item e st = (st', res) \<Longrightarrow>
   setup_grows (rps_Tables st) (rps_Tables st') \<and> plans_kept (rps_Tables st) (rps_Tables st')"
  by (auto simp: record_item_def update_draft_item_def transaction_cases setup_grows_drafts plans_kept_def Let_def split: prod.splits)

lemma set_draft_status_grows: "set_draft_status i status now st = (st', res) \<Longrightarrow> setup_grows (rps_Tables st) (rps_Tables st')"
  by (auto simp: set_draft_status_def update_draft_status_def transaction_cases setup_grows_drafts split: prod.splits)

lemma create_repository_grows:
  assumes "create_repository tb r secret now = (tb', res)"
  shows "setup_grows tb tb' \<and> plans_kept tb tb'"
  using assms by (auto simp: create_repository_def transaction_cases put_capacity_def setup_grows_def plans_kept_def Let_def split: prod.splits)

lemma status_ready_grows:
  "setup_grows tb (update_repository_status tb i ''ready'' now) \<and> plans_kept tb (update_repository_status tb i ''ready'' now)"
proof -
  let ?f = "\<lambda>r. if repo_ID r = i then r\<lparr>repo_Status := ''ready'', repo_UpdatedAt := now\<rparr> else r"
  have "\<exists>q \<in> set (map ?f t). repo_ID q = repo_ID r \<and> (repo_Status r = ''ready'' \<longrightarrow> repo_Status q = ''ready'')"
    if "r \<in> set t" for r and t :: "repo_row list"
    using that by (intro bexI [of _ "?f r"]) simp_all
  then show ?thesis by (simp add: setup_grows_def plans_kept_def update_repository_status_def update_where_def)
qed

lemma initialize_grows:
  assumes "initialize env i now st = (st', res)"
  shows "setup_grows (rps_Tables st) (rps_Tables st') \<and> plans_kept (rps_Tables st) (rps_Tables st')"
  using assms status_ready_grows
  by (auto simp: initialize_def split: sum.splits prod.splits if_splits dest!: run_restic_tables)

lemma initialize_ready:
  assumes "initialize env i now st = (st', None)"
  shows "\<exists>r \<in> set (tb_repositories (rps_Tables st')). repo_ID r = i \<and> repo_Status r = ''ready''"
proof -
  obtain e m st1 x where m: "material env st i = Inr (e, m)" and st1: "run_restic env (operation_on InitializeRepo m []) st = (st1, Inr x)"
    and st': "st' = put_tables st1 (update_repository_status (rps_Tables st1) i ''ready'' now)"
    using assms by (auto simp: initialize_def split: sum.splits prod.splits if_splits)
  have "row repo_ID i (tb_repositories (rps_Tables st)) \<noteq> None"
    using m by (auto simp: material_def load_repository_execution_def split: option.splits)
  then obtain r where "r \<in> set (tb_repositories (rps_Tables st))" "repo_ID r = i" using row_Some_in by fastforce
  then show ?thesis
    using run_restic_tables [OF st1]
    by (intro bexI [of _ "r\<lparr>repo_Status := ''ready'', repo_UpdatedAt := now\<rparr>"])
      (auto simp: st' update_repository_status_def update_where_def intro: rev_image_eqI)
qed

lemma listed_repository:
  assumes "list_repositories tb = Inr rs" and "r \<in> set rs"
  shows "\<exists>q \<in> set (tb_repositories tb). repo_ID q = repo_ID r \<and> repo_Status q = repo_Status r"
proof -
  have read: "repo_ID q = repo_ID p \<and> repo_Status q = repo_Status p" if "read_repository tb p = Inr q" for p q
    using that by (auto simp: read_repository_def decode_repository_backend_def repository.defs split: sum.splits if_splits option.splits)
  have "\<forall>r \<in> set rs. \<exists>q \<in> set xs. repo_ID q = repo_ID r \<and> repo_Status q = repo_Status r" if "collect (read_repository tb) xs = Inr rs" for xs
    using that
  proof (induction xs arbitrary: rs)
    case (Cons x xs)
    then show ?case using read by (fastforce split: sum.splits)
  qed simp
  then show ?thesis using assms by (fastforce simp: list_repositories_def)
qed

lemma apply_repository_grows:
  assumes "apply_repository env d e now st = (st', res)"
  shows "setup_grows (rps_Tables st) (rps_Tables st') \<and> plans_kept (rps_Tables st) (rps_Tables st') \<and>
    (res = None \<longrightarrow> (\<exists>r \<in> set (tb_repositories (rps_Tables st')). repo_ID r = pdi_RepositoryID e \<and> repo_Status r = ''ready''))"
proof (cases "list_repositories (rps_Tables st)")
  case (Inl err)
  then show ?thesis using assms by (auto simp: apply_repository_def)
next
  case (Inr rs)
  let ?found = "find (\<lambda>r. repo_ID r = pdi_RepositoryID e) rs"
  define found where "found = (case ?found of
      Some r \<Rightarrow> (st, None, repo_Status r)
    | None \<Rightarrow> (case create_repository (rps_Tables st)
        (setup_repository (pdi_RepositoryID e) (pdi_RepositoryName e) ResticEngine (pdi_RepositoryKind e)
           (pdi_RemoteHostID e) (pdi_RepositoryPath e) ''uninitialized'' (pdr_CreatedAt d) now)
        (pdi_PasswordSecretID e) now of (tb, err) \<Rightarrow> (put_tables st tb, err, ''uninitialized'')))"
  obtain st1 err status where f: "found = (st1, err, status)" by (metis prod_cases3)
  have g: "setup_grows (rps_Tables st) (rps_Tables st1) \<and> plans_kept (rps_Tables st) (rps_Tables st1)"
    using f create_repository_grows by (auto simp: found_def split: option.splits prod.splits)
  have ready: "\<exists>r \<in> set (tb_repositories (rps_Tables st1)). repo_ID r = pdi_RepositoryID e \<and> repo_Status r = ''ready''"
    if s: "status = ''ready''"
  proof -
    obtain r where r: "?found = Some r" "repo_Status r = ''ready''" "st1 = st"
      using f s by (auto simp: found_def split: option.splits prod.splits)
    then have "r \<in> set rs" "repo_ID r = pdi_RepositoryID e" using find_Some_facts [OF r(1)] by auto
    then show ?thesis using listed_repository [OF Inr] r by fastforce
  qed
  have step: "(st', res) = (case err of Some err \<Rightarrow> (st1, Some (''create_repository'', err))
      | None \<Rightarrow> if status = ''ready'' then (st1, None)
          else (case initialize (gse_Repositories env) (pdi_RepositoryID e) now st1 of
             (st2, err) \<Rightarrow> (st2, at_stage ''initialize_repository'' err)))"
    using assms unfolding apply_repository_def Inr sum.case found_def [symmetric] f by (auto split: option.splits)
  show ?thesis
  proof (cases "err = None \<and> status \<noteq> ''ready''")
    case False
    then show ?thesis using step g ready by (auto split: option.splits)
  next
    case True
    obtain st2 err2 where i: "initialize (gse_Repositories env) (pdi_RepositoryID e) now st1 = (st2, err2)" by force
    then have st': "st' = st2" "res = at_stage ''initialize_repository'' err2" using step True by simp_all
    have "setup_grows (rps_Tables st) (rps_Tables st2) \<and> plans_kept (rps_Tables st) (rps_Tables st2)"
      using initialize_grows [OF i] g setup_grows_trans plans_kept_trans by blast
    then show ?thesis using st' initialize_ready i by (auto simp: at_stage_def)
  qed
qed

lemma stored_task_fields [simp]: "task_ID (stored_task t) = task_ID t" "task_Enabled (stored_task t) = task_Enabled t"
  by (simp_all add: stored_task_def Let_def)

lemma retention_grows:
  "setup_grows tb ((ensure_repository_retention tb i p t now)\<lparr>tb_tasks := tb_tasks tb @ ts\<rparr>) \<and>
   plans_kept tb ((ensure_repository_retention tb i p t now)\<lparr>tb_tasks := tb_tasks tb @ ts\<rparr>)"
  if "\<forall>t \<in> set ts. \<not> task_Enabled t"
  using that by (auto simp: ensure_repository_retention_def setup_grows_def plans_kept_def Let_def)

lemma task_appended_grows: "\<forall>t \<in> set ts. \<not> task_Enabled t \<Longrightarrow> setup_grows tb (tb\<lparr>tb_tasks := tb_tasks tb @ ts\<rparr>) \<and>
    plans_kept tb (tb\<lparr>tb_tasks := tb_tasks tb @ ts\<rparr>)"
  by (auto simp: setup_grows_def plans_kept_def)

lemma create_task_grows:
  assumes "create_task tb t now = (tb', res)" and "\<not> task_Enabled t"
  shows "setup_grows tb tb' \<and> plans_kept tb tb' \<and> (res = None \<longrightarrow> (\<exists>s \<in> set (tb_tasks tb'). task_ID s = task_ID t))"
proof -
  let ?tb = "if effective_engine (task_Engine t) = ResticEngine
    then ensure_repository_retention tb (task_RepositoryID t) (task_Retention t) (task_UpdatedAt t) now else tb"
  consider "tb' = tb" "res \<noteq> None" | "tb' = ?tb\<lparr>tb_tasks := tb_tasks tb @ [stored_task t]\<rparr>"
    using assms(1) unfolding create_task_def Let_def transaction_cases by blast
  then show ?thesis
  proof cases
    case 2
    then show ?thesis
      using assms(2) retention_grows [of "[stored_task t]" tb] task_appended_grows [of "[stored_task t]" tb]
      by (cases "effective_engine (task_Engine t) = ResticEngine") simp_all
  qed auto
qed

lemma apply_task_grows:
  assumes "apply_task d e now st = (st', res)"
  shows "setup_grows (rps_Tables st) (rps_Tables st') \<and> plans_kept (rps_Tables st) (rps_Tables st') \<and>
    (res = None \<longrightarrow> (\<exists>t \<in> set (tb_tasks (rps_Tables st')). task_ID t = pdi_TaskID e))"
proof (cases "list_ex (\<lambda>t. task_ID t = pdi_TaskID e) (list_tasks (rps_Tables st))")
  case True
  then show ?thesis using assms by (auto simp: apply_task_def list_tasks_def list_ex_iff)
next
  case False
  let ?t = "setup_task d (pdi_TaskID e) (pdi_TaskName e) (pdi_RepositoryID e) (pdi_Directory e) (pdi_Database e) (pdr_CreatedAt d) now"
  obtain err t where v: "task_validate ?t = (err, t)" by force
  have t: "task_ID t = pdi_TaskID e" "\<not> task_Enabled t"
    using v by (auto simp: setup_task_def task_validate_def restic_task_validate_def clean_directory_def Let_def
        split: if_splits option.splits)
  obtain tb err2 where c: "create_task (rps_Tables st) t now = (tb, err2)" by force
  have "setup_grows (rps_Tables st) tb \<and> plans_kept (rps_Tables st) tb \<and>
      (err2 = None \<longrightarrow> (\<exists>t \<in> set (tb_tasks tb). task_ID t = pdi_TaskID e))"
    using create_task_grows [OF c t(2)] t(1) by auto
  then show ?thesis using assms False v c by (auto simp: apply_task_def at_stage_def split: option.splits)
qed

lemma saved_maintenance_cases:
  assumes "save_maintenance_policy tb m = (tb', res)"
  shows "tb' = tb \<and> res \<noteq> None \<or> (\<exists>saved. mp_RepositoryID saved = mp_RepositoryID m \<and> mp_Enabled saved = mp_Enabled m \<and>
    tb' = tb\<lparr>tb_maintenance := (case row mp_RepositoryID (mp_RepositoryID m) (tb_maintenance tb) of
      None \<Rightarrow> tb_maintenance tb @ [saved]
    | Some _ \<Rightarrow> update_where (\<lambda>q. mp_RepositoryID q = mp_RepositoryID m) (\<lambda>_. saved) (tb_maintenance tb))\<rparr>)"
proof -
  define anchor where "anchor = (case row mp_RepositoryID (mp_RepositoryID m) (tb_maintenance tb) of
      None \<Rightarrow> mp_UpdatedAt m
    | Some q \<Rightarrow>
        if mp_Schedule q \<noteq> mp_Schedule m \<or> mp_Timezone q \<noteq> mp_Timezone m \<or> \<not> mp_Enabled q \<and> mp_Enabled m
        then mp_UpdatedAt m else mp_ScheduleAnchorAt q)"
  let ?saved = "m\<lparr>mp_RetentionSource := [], mp_RetentionConflict := False, mp_ReviewedRetention := None,
    mp_PolicyFingerprint := [], mp_ScheduleAnchorAt := anchor\<rparr>"
  have "res = None \<and> tb' = tb\<lparr>tb_maintenance := (case row mp_RepositoryID (mp_RepositoryID m) (tb_maintenance tb) of
      None \<Rightarrow> tb_maintenance tb @ [?saved]
    | Some _ \<Rightarrow> update_where (\<lambda>q. mp_RepositoryID q = mp_RepositoryID m) (\<lambda>_. ?saved) (tb_maintenance tb))\<rparr> \<or>
    res \<noteq> None \<and> tb' = tb"
    using assms unfolding save_maintenance_policy_def Let_def transaction_cases anchor_def [symmetric] by blast
  moreover have "mp_RepositoryID ?saved = mp_RepositoryID m" "mp_Enabled ?saved = mp_Enabled m" by simp_all
  ultimately show ?thesis by blast
qed

lemma maintenance_grows:
  assumes "\<not> mp_Enabled saved"
  shows "setup_grows tb (tb\<lparr>tb_maintenance := (case row mp_RepositoryID (mp_RepositoryID saved) (tb_maintenance tb) of
      None \<Rightarrow> tb_maintenance tb @ [saved]
    | Some _ \<Rightarrow> update_where (\<lambda>q. mp_RepositoryID q = mp_RepositoryID saved) (\<lambda>_. saved) (tb_maintenance tb))\<rparr>) \<and>
    mp_RepositoryID saved \<in> mp_RepositoryID ` set (case row mp_RepositoryID (mp_RepositoryID saved) (tb_maintenance tb) of
      None \<Rightarrow> tb_maintenance tb @ [saved]
    | Some _ \<Rightarrow> update_where (\<lambda>q. mp_RepositoryID q = mp_RepositoryID saved) (\<lambda>_. saved) (tb_maintenance tb))"
proof (cases "row mp_RepositoryID (mp_RepositoryID saved) (tb_maintenance tb)")
  case None
  then show ?thesis using assms by (auto simp: setup_grows_def)
next
  case (Some p)
  have ids: "mp_RepositoryID ` set (update_where (\<lambda>q. mp_RepositoryID q = mp_RepositoryID saved) (\<lambda>_. saved) t) =
      mp_RepositoryID ` set t" for t
    by (induction t) (auto simp: update_where_def)
  have "q \<in> set t \<or> \<not> mp_Enabled q"
    if "q \<in> set (update_where (\<lambda>q. mp_RepositoryID q = mp_RepositoryID saved) (\<lambda>_. saved) t)" for q t
    using that assms by (induction t) (auto simp: update_where_def split: if_splits)
  moreover have "mp_RepositoryID saved \<in> mp_RepositoryID ` set (tb_maintenance tb)" using row_Some_in [OF Some] by (metis image_eqI)
  ultimately show ?thesis by (auto simp: Some setup_grows_def ids)
qed

lemma apply_maintenance_grows:
  assumes "apply_maintenance env d e now st = (st', res)"
  shows "setup_grows (rps_Tables st) (rps_Tables st') \<and> plans_kept (rps_Tables st) (rps_Tables st') \<and>
    (res = None \<longrightarrow> (\<exists>p \<in> set (tb_maintenance (rps_Tables st')). mp_RepositoryID p = pdi_RepositoryID e))"
proof (cases "maintenance_policy_validate (gse_Zones env) (setup_maintenance d e now)")
  case (Some err)
  then show ?thesis using assms by (auto simp: apply_maintenance_def)
next
  case None
  let ?m = "setup_maintenance d e now"
  obtain tb err where s: "save_maintenance_policy (rps_Tables st) ?m = (tb, err)" by force
  have m: "mp_RepositoryID ?m = pdi_RepositoryID e" "\<not> mp_Enabled ?m" by (simp_all add: setup_maintenance_def)
  have "setup_grows (rps_Tables st) tb \<and> plans_kept (rps_Tables st) tb \<and>
      (err = None \<longrightarrow> pdi_RepositoryID e \<in> mp_RepositoryID ` set (tb_maintenance tb))"
    using saved_maintenance_cases [OF s]
  proof
    assume "\<exists>saved. mp_RepositoryID saved = mp_RepositoryID ?m \<and> mp_Enabled saved = mp_Enabled ?m \<and>
      tb = (rps_Tables st)\<lparr>tb_maintenance := (case row mp_RepositoryID (mp_RepositoryID ?m) (tb_maintenance (rps_Tables st)) of
        None \<Rightarrow> tb_maintenance (rps_Tables st) @ [saved]
      | Some _ \<Rightarrow> update_where (\<lambda>q. mp_RepositoryID q = mp_RepositoryID ?m) (\<lambda>_. saved) (tb_maintenance (rps_Tables st)))\<rparr>"
    then obtain saved where "mp_RepositoryID saved = mp_RepositoryID ?m" "mp_Enabled saved = mp_Enabled ?m"
      and tb: "tb = (rps_Tables st)\<lparr>tb_maintenance := (case row mp_RepositoryID (mp_RepositoryID ?m) (tb_maintenance (rps_Tables st)) of
        None \<Rightarrow> tb_maintenance (rps_Tables st) @ [saved]
      | Some _ \<Rightarrow> update_where (\<lambda>q. mp_RepositoryID q = mp_RepositoryID ?m) (\<lambda>_. saved) (tb_maintenance (rps_Tables st)))\<rparr>"
      by blast
    then show ?thesis using maintenance_grows [of saved "rps_Tables st"] m by (simp add: plans_kept_def cong: option.case_cong)
  qed auto
  then show ?thesis using assms None s by (auto simp: apply_maintenance_def at_stage_def)
qed

lemma item_done_parts:
  assumes "setup_grows a b" and "setup_grows b c"
    and "\<exists>r \<in> set (tb_repositories a). repo_ID r = pdi_RepositoryID e \<and> repo_Status r = ''ready''"
    and "\<exists>t \<in> set (tb_tasks b). task_ID t = pdi_TaskID e"
    and "\<exists>p \<in> set (tb_maintenance c). mp_RepositoryID p = pdi_RepositoryID e"
  shows "item_done c e"
proof -
  have "setup_grows a c" using assms(1,2) by (rule setup_grows_trans)
  then have "\<exists>r \<in> set (tb_repositories c). repo_ID r = pdi_RepositoryID e \<and> repo_Status r = ''ready''"
    using assms(3) unfolding setup_grows_def by metis
  moreover obtain new where "tb_tasks c = tb_tasks b @ new" using assms(2) unfolding setup_grows_def by blast
  ultimately show ?thesis using assms(4,5) by (auto simp: item_done_def)
qed

lemma apply_item_grows:
  assumes "apply_item env d e now st = (st', res)"
  shows "setup_grows (rps_Tables st) (rps_Tables st') \<and> plans_kept (rps_Tables st) (rps_Tables st') \<and>
    (res = None \<longrightarrow> item_done (rps_Tables st') e)"
proof -
  obtain st1 res1 where r: "apply_repository env d e now st = (st1, res1)" by force
  obtain st2 res2 where t: "apply_task d e now st1 = (st2, res2)" by force
  obtain st3 res3 where m: "apply_maintenance env d e now st2 = (st3, res3)" by force
  note grows = apply_repository_grows [OF r] apply_task_grows [OF t] apply_maintenance_grows [OF m]
  have "setup_grows (rps_Tables st) (rps_Tables st2)" "plans_kept (rps_Tables st) (rps_Tables st2)"
    "setup_grows (rps_Tables st) (rps_Tables st3)" "plans_kept (rps_Tables st) (rps_Tables st3)"
    using grows setup_grows_trans plans_kept_trans by blast+
  moreover have "item_done (rps_Tables st3) e" if "res1 = None" "res2 = None" "res3 = None"
    by (rule item_done_parts [of "rps_Tables st1" "rps_Tables st2" "rps_Tables st3"]) (use grows that in blast)+
  ultimately show ?thesis using assms grows by (auto simp: apply_item_def r t m split: option.splits)
qed

text \<open>An item that is ready after its turn has its resources, provided it had them when it was ready before.\<close>

definition item_applied :: "tables \<Rightarrow> tables \<Rightarrow> draft_item \<Rightarrow> draft_item \<Rightarrow> bool" where
  "item_applied tb tb' e e' \<longleftrightarrow> pdi_TaskID e' = pdi_TaskID e \<and>
     (pdi_Status e' = ItemReady \<longrightarrow> (pdi_Status e = ItemReady \<longrightarrow> item_done tb e) \<longrightarrow> item_done tb' e)"

lemma item_applied_trans:
  "setup_grows a b \<Longrightarrow> setup_grows b c \<Longrightarrow> item_applied a b e e' \<Longrightarrow> item_applied a c e e'"
  "setup_grows a b \<Longrightarrow> item_applied b c e e' \<Longrightarrow> item_applied a c e e'"
  using item_done_grows unfolding item_applied_def by blast+

lemma apply_one_grows:
  assumes "apply_one env d e now st = (st', e')"
  shows "setup_grows (rps_Tables st) (rps_Tables st') \<and> plans_kept (rps_Tables st) (rps_Tables st') \<and>
    item_applied (rps_Tables st) (rps_Tables st') e e'"
proof (cases "pdi_Status e = ItemReady")
  case True
  then show ?thesis using assms by (simp add: apply_one_def item_applied_def)
next
  case False
  obtain st1 res where i: "apply_item env d e now st = (st1, res)" by force
  note g = apply_item_grows [OF i]
  have rec: "setup_grows (rps_Tables st) (rps_Tables st2) \<and> plans_kept (rps_Tables st) (rps_Tables st2) \<and>
      (res = None \<longrightarrow> item_done (rps_Tables st2) e)" if "record_item x st1 = (st2, r)" for x st2 r
    using g record_item_grows [OF that] setup_grows_trans plans_kept_trans item_done_grows by blast
  show ?thesis
  proof (cases res)
    case (Some f)
    obtain st2 r where x: "record_item (e\<lparr>pdi_Status := ItemFailed, pdi_Error := safe_item_error (fst f), pdi_UpdatedAt := now\<rparr>) st1 = (st2, r)" by force
    then have "st' = st2" "pdi_TaskID e' = pdi_TaskID e" "pdi_Status e' = ItemFailed"
      using assms(1) False i Some by (auto simp: apply_one_def Let_def split: prod.splits)
    then show ?thesis using rec [OF x] by (simp add: item_applied_def)
  next
    case None
    obtain st2 r where x: "record_item (e\<lparr>pdi_Status := ItemReady, pdi_Error := [], pdi_UpdatedAt := now\<rparr>) st1 = (st2, r)" by force
    then have "st' = st2" "pdi_TaskID e' = pdi_TaskID e"
      using assms(1) False i None by (auto simp: apply_one_def Let_def split: option.splits)
    then show ?thesis using rec [OF x] None by (simp add: item_applied_def)
  qed
qed

lemma apply_items_grows:
  assumes "apply_items env d clock k es st = (st', es')"
  shows "setup_grows (rps_Tables st) (rps_Tables st') \<and> plans_kept (rps_Tables st) (rps_Tables st') \<and>
    list_all2 (item_applied (rps_Tables st) (rps_Tables st')) es es'"
  using assms
proof (induction es arbitrary: k st st' es')
  case (Cons e es)
  obtain st1 e1 where one: "apply_one env d e (clock k) st = (st1, e1)" by force
  obtain st2 es1 where rest: "apply_items env d clock (Suc k) es st1 = (st2, es1)" by force
  have res: "st' = st2" "es' = e1 # es1" using Cons.prems one rest by simp_all
  note g = apply_one_grows [OF one] and tail = Cons.IH [OF rest]
  have "setup_grows (rps_Tables st) (rps_Tables st2)" "plans_kept (rps_Tables st) (rps_Tables st2)"
    using g tail setup_grows_trans plans_kept_trans by blast+
  moreover have "item_applied (rps_Tables st) (rps_Tables st2) e e1" using g tail item_applied_trans(1) by blast
  moreover have "list_all2 (item_applied (rps_Tables st) (rps_Tables st2)) es es1"
    using tail g item_applied_trans(2) by (auto elim: list_all2_mono)
  ultimately show ?case by (simp add: res)
qed simp

lemma upsert_plan_grows:
  assumes "upsert_plan d items now st = (st', res)"
  shows "setup_grows (rps_Tables st) (rps_Tables st') \<and> tb_drafts (rps_Tables st') = tb_drafts (rps_Tables st)"
proof -
  let ?tb = "rps_Tables st"
  have disabled: "\<forall>q \<in> set (update_where P f t). q \<in> set t \<or> \<not> plan_Enabled q"
    if "\<And>q. \<not> plan_Enabled (f q)" for P f and t :: "plan list"
    using that by (induction t) (auto simp: update_where_def)
  have off: "\<not> plan_Enabled (draft_plan d tasks now)" for tasks
    by (simp add: draft_plan_def setup_plan_def probe_plan_def)
  have update: "setup_grows ?tb tb \<and> tb_drafts tb = tb_drafts ?tb" if "update_plan ?tb p = (tb, err)" "\<not> plan_Enabled p" for p tb err
  proof -
    have "tb_plans tb = tb_plans ?tb \<or> (\<exists>P f. tb_plans tb = update_where P f (tb_plans ?tb) \<and> (\<forall>q. \<not> plan_Enabled (f q)))"
      "tb_repositories tb = tb_repositories ?tb" "tb_tasks tb = tb_tasks ?tb" "tb_maintenance tb = tb_maintenance ?tb"
      "tb_secrets tb = tb_secrets ?tb" "tb_drafts tb = tb_drafts ?tb"
      using that by (fastforce simp: update_plan_def transaction_cases Let_def split: option.splits)+
    then show ?thesis using disabled by (fastforce simp: setup_grows_def)
  qed
  have create: "setup_grows ?tb tb \<and> tb_drafts tb = tb_drafts ?tb" if "create_plan ?tb p = (tb, err)" "\<not> plan_Enabled p" for p tb err
    using that by (auto simp: create_plan_def transaction_cases setup_grows_def)
  show ?thesis
    using assms update create off by (auto simp: upsert_plan_def Let_def split: if_splits option.splits prod.splits)
qed

text \<open>The tasks of a plan in their order.\<close>

definition tasks_of_plan :: "tables \<Rightarrow> string \<Rightarrow> string list" where
  "tasks_of_plan tb i = map pt_TaskID (filter (\<lambda>r. pt_PlanID r = i) (tb_plan_tasks tb))"

lemma plan_rows_tasks: "map pt_TaskID (filter (\<lambda>r. pt_PlanID r = i) (plan_task_rows p)) = (if plan_ID p = i then plan_TaskIDs p else [])"
proof -
  have "map pt_TaskID (map (\<lambda>(k, j). \<lparr>pt_PlanID = plan_ID p, pt_TaskID = j, pt_Position = k\<rparr>) (enumerate n xs)) = xs" for n xs
    by (induction xs arbitrary: n) auto
  then have "map pt_TaskID (plan_task_rows p) = plan_TaskIDs p" unfolding plan_task_rows_def by blast
  moreover have "filter (\<lambda>r. pt_PlanID r = i) (plan_task_rows p) = (if plan_ID p = i then plan_task_rows p else [])"
    by (auto simp: plan_task_rows_def filter_empty_conv filter_id_conv)
  ultimately show ?thesis by simp
qed

definition plan_rows_ok :: "tables \<Rightarrow> bool" where
  "plan_rows_ok tb \<longleftrightarrow> pt_PlanID ` set (tb_plan_tasks tb) \<subseteq> plan_ID ` set (tb_plans tb)"

lemma no_plan_rows: "plan_rows_ok tb \<Longrightarrow> i \<notin> plan_ID ` set (tb_plans tb) \<Longrightarrow> filter (\<lambda>r. pt_PlanID r = i) (tb_plan_tasks tb) = []"
  by (auto simp: plan_rows_ok_def filter_empty_conv)

lemma upserted_plan:
  assumes "upsert_plan d items now st = (st', None)" and "plan_rows_ok (rps_Tables st)"
    and "\<forall>e \<in> set items. pdi_Status e = ItemReady" and "items \<noteq> []"
  shows "tasks_of_plan (rps_Tables st') (pdr_PlanID d) = map pdi_TaskID items \<and>
    (\<exists>p \<in> set (tb_plans (rps_Tables st')). plan_ID p = pdr_PlanID d \<and> \<not> plan_Enabled p)"
proof -
  let ?tasks = "map pdi_TaskID items" and ?tb = "rps_Tables st"
  let ?p = "draft_plan d ?tasks now"
  have p: "plan_ID ?p = pdr_PlanID d" "plan_TaskIDs ?p = ?tasks" "\<not> plan_Enabled ?p"
    by (simp_all add: draft_plan_def setup_plan_def probe_plan_def)
  have all: "filter (\<lambda>e. pdi_Status e = ItemReady) items = items" using assms(3) by simp
  show ?thesis
  proof (cases "find (\<lambda>q. plan_ID q = pdr_PlanID d) (list_plans ?tb)")
    case None
    then have new: "pdr_PlanID d \<notin> plan_ID ` set (tb_plans ?tb)" by (auto simp: list_plans_def find_None_iff)
    have "create_plan ?tb ?p = (rps_Tables st', None)"
      using assms(1,4) by (auto simp: upsert_plan_def Let_def all None p split: prod.splits)
    then have "tb_plan_tasks (rps_Tables st') = tb_plan_tasks ?tb @ plan_task_rows ?p"
      and "\<exists>q \<in> set (tb_plans (rps_Tables st')). plan_ID q = plan_ID ?p \<and> plan_Enabled q = plan_Enabled ?p"
      by (auto simp: create_plan_def transaction_cases)
    then show ?thesis using no_plan_rows [OF assms(2) new] p by (simp add: tasks_of_plan_def plan_rows_tasks)
  next
    case (Some q)
    define r where "r = ?p\<lparr>plan_CreatedAt := plan_CreatedAt q, plan_ScheduleAnchorAt := plan_ScheduleAnchorAt q\<rparr>"
    have r: "plan_ID r = pdr_PlanID d" "plan_TaskIDs r = ?tasks" "\<not> plan_Enabled r" using p by (simp_all add: r_def)
    have u: "update_plan ?tb r = (rps_Tables st', None)"
      using assms(1,4) by (auto simp: upsert_plan_def Let_def all Some p r_def split: prod.splits)
    then obtain old where old: "row plan_ID (pdr_PlanID d) (tb_plans ?tb) = Some old" by (auto simp: update_plan_def r split: option.splits)
    then have in_plans: "old \<in> set (tb_plans ?tb)" "plan_ID old = pdr_PlanID d" using row_Some_in [OF old] by simp_all
    obtain anchor where plans: "tb_plans (rps_Tables st') = update_where (\<lambda>q. plan_ID q = pdr_PlanID d)
        (\<lambda>q. r\<lparr>plan_TaskIDs := [], plan_ScheduleAnchorAt := anchor, plan_CreatedAt := plan_CreatedAt q\<rparr>) (tb_plans ?tb)"
      and rows: "tb_plan_tasks (rps_Tables st') = delete_where (\<lambda>r. pt_PlanID r = pdr_PlanID d) (tb_plan_tasks ?tb) @ plan_task_rows r"
      using u by (auto simp: update_plan_def old r transaction_cases Let_def)
    have "\<exists>p \<in> set (tb_plans (rps_Tables st')). plan_ID p = pdr_PlanID d \<and> \<not> plan_Enabled p"
      unfolding plans update_where_def
      by (intro bexI [of _ "r\<lparr>plan_TaskIDs := [], plan_ScheduleAnchorAt := anchor, plan_CreatedAt := plan_CreatedAt old\<rparr>"])
        (use in_plans r in \<open>auto intro: rev_image_eqI\<close>)
    moreover have "filter (\<lambda>r. pt_PlanID r = pdr_PlanID d) (delete_where (\<lambda>r. pt_PlanID r = pdr_PlanID d) (tb_plan_tasks ?tb)) = []"
      by (simp add: delete_where_def filter_empty_conv)
    ultimately show ?thesis using r by (simp add: tasks_of_plan_def rows plan_rows_tasks)
  qed
qed

section \<open>Applying a draft, as a whole\<close>

text \<open>An application that goes through the items: the steps of \<open>Apply\<close> and what follows from its answer.\<close>

lemma apply_draft_steps:
  assumes "apply_draft env i clock st = (st', view, res)" and "protection_draft_of (rps_Tables st) i = Inr (d, items)"
    and "pdr_Status d \<noteq> DraftCancelled" and "pdr_Status d \<noteq> DraftReady"
  obtains st1 where "set_draft_status i DraftApplying (clock 0) st = (st1, res)" and "res \<noteq> None" and "st' = st1"
  | st1 st2 items' st3 plan_error status st4 where
      "set_draft_status i DraftApplying (clock 0) st = (st1, None)" and "apply_items env d clock 1 items st1 = (st2, items')"
      and "upsert_plan d items' (clock (length items + 1)) st2 = (st3, plan_error)"
      and "set_draft_status i status (clock (length items + 2)) st3 = (st', st4)"
      and "res = None \<longrightarrow> plan_error = None \<and> (\<forall>e \<in> set items'. pdi_Status e = ItemReady) \<and> status = DraftReady \<and> st4 = None"
proof -
  obtain st1 e1 where s1: "set_draft_status i DraftApplying (clock 0) st = (st1, e1)" by force
  obtain st2 items' where s2: "apply_items env d clock 1 items st1 = (st2, items')" by force
  obtain st3 e3 where s3: "upsert_plan d items' (clock (length items + 1)) st2 = (st3, e3)" by force
  define failed where "failed \<longleftrightarrow> list_ex (\<lambda>e. pdi_Status e \<noteq> ItemReady) items' \<or> e3 \<noteq> None"
  obtain st4 e4 where s4: "set_draft_status i (if failed then DraftPartial else DraftReady) (clock (length items + 2)) st3 = (st4, e4)" by force
  show thesis
  proof (cases e1)
    case (Some err)
    then show thesis using assms s1 by (intro that(1)) (auto simp: apply_draft_def)
  next
    case None
    have "(st', view, res) = (case e4 of Some err \<Rightarrow> (st4, None, Some err)
      | None \<Rightarrow> (case protection_draft_of (rps_Tables st4) i of Inl err \<Rightarrow> (st4, None, Some err)
          | Inr v \<Rightarrow> (st4, Some (public_draft v), reject failed (Invalid ''one or more protection items failed''))))"
      using assms(1) unfolding apply_draft_def assms(2) sum.case prod.case if_not_P [OF assms(3)] if_not_P [OF assms(4)]
        s1 None option.case s2 s3 Let_def failed_def [symmetric] s4 by simp
    then have "st' = st4" "res = None \<longrightarrow> e4 = None \<and> \<not> failed" by (auto simp: reject_def split: option.splits sum.splits if_splits)
    then show thesis using s1 None s2 s3 s4
      by (intro that(2)) (auto simp: failed_def list_ex_iff)
  qed
qed

text \<open>
  C6: an applied draft is complete. When \<open>Apply\<close> answers without an error, every item of the draft has
  its repository, which is ready, its task, and a maintenance policy; the draft's plan is there, disabled,
  with exactly the items' tasks in their order; and the draft is ready. The items an earlier attempt left
  ready still have their resources.
\<close>
theorem applied_draft_is_complete:
  assumes "apply_draft env i clock st = (st', view, None)" and "protection_draft_of (rps_Tables st) i = Inr (d, items)"
    and "pdr_Status d \<noteq> DraftReady" and "items \<noteq> []" and "plan_rows_ok (rps_Tables st)"
    and "\<forall>e \<in> set items. pdi_Status e = ItemReady \<longrightarrow> item_done (rps_Tables st) e"
  shows "(\<forall>e \<in> set items. item_done (rps_Tables st') e) \<and>
    tasks_of_plan (rps_Tables st') (pdr_PlanID d) = map pdi_TaskID items \<and>
    (\<exists>p \<in> set (tb_plans (rps_Tables st')). plan_ID p = pdr_PlanID d \<and> \<not> plan_Enabled p) \<and>
    (\<forall>c \<in> set (tb_drafts (rps_Tables st')). pdr_ID c = i \<longrightarrow> pdr_Status c = DraftReady)"
proof -
  have "pdr_Status d \<noteq> DraftCancelled" using assms(1,2) by (auto simp: apply_draft_def)
  then obtain st1 st2 items' st3 where s1: "set_draft_status i DraftApplying (clock 0) st = (st1, None)"
    and s2: "apply_items env d clock 1 items st1 = (st2, items')"
    and s3: "upsert_plan d items' (clock (length items + 1)) st2 = (st3, None)"
    and s4: "set_draft_status i DraftReady (clock (length items + 2)) st3 = (st', None)"
    and ready: "\<forall>e \<in> set items'. pdi_Status e = ItemReady"
    using assms(3) by (rule apply_draft_steps [OF assms(1,2)]) auto
  have t1: "tb_plans (rps_Tables st1) = tb_plans (rps_Tables st) \<and> tb_plan_tasks (rps_Tables st1) = tb_plan_tasks (rps_Tables st)"
    using s1 by (auto simp: set_draft_status_def update_draft_status_def transaction_cases split: prod.splits)
  have before: "\<forall>e \<in> set items. pdi_Status e = ItemReady \<longrightarrow> item_done (rps_Tables st1) e"
    using assms(6) item_done_grows [OF set_draft_status_grows [OF s1]] by blast
  have g: "setup_grows (rps_Tables st1) (rps_Tables st2)" "plans_kept (rps_Tables st1) (rps_Tables st2)"
    and all: "list_all2 (item_applied (rps_Tables st1) (rps_Tables st2)) items items'"
    using apply_items_grows [OF s2] by blast+
  from all have tasks: "map pdi_TaskID items' = map pdi_TaskID items"
    by (induction rule: list_all2_induct) (simp_all add: item_applied_def)
  then have "items' \<noteq> []" using assms(4) by auto
  from all before ready have done2: "\<forall>e \<in> set items. item_done (rps_Tables st2) e"
    by (induction rule: list_all2_induct) (simp_all add: item_applied_def)
  have "plan_rows_ok (rps_Tables st2)"
    using assms(5) g(2) t1 by (simp add: plan_rows_ok_def plans_kept_def)
  then have plan: "tasks_of_plan (rps_Tables st3) (pdr_PlanID d) = map pdi_TaskID items"
    "\<exists>p \<in> set (tb_plans (rps_Tables st3)). plan_ID p = pdr_PlanID d \<and> \<not> plan_Enabled p"
    using upserted_plan [OF s3] ready \<open>items' \<noteq> []\<close> tasks by simp_all
  have t4: "rps_Tables st' = (rps_Tables st3)\<lparr>tb_drafts := update_where (\<lambda>d. pdr_ID d = i)
      (\<lambda>d. d\<lparr>pdr_Status := DraftReady, pdr_UpdatedAt := clock (length items + 2)\<rparr>) (tb_drafts (rps_Tables st3))\<rparr>"
    using s4 by (auto simp: set_draft_status_def update_draft_status_def transaction_cases split: prod.splits)
  have "setup_grows (rps_Tables st2) (rps_Tables st')"
    using upsert_plan_grows [OF s3] set_draft_status_grows [OF s4] setup_grows_trans by blast
  then have "\<forall>e \<in> set items. item_done (rps_Tables st') e" using done2 item_done_grows by blast
  moreover have "tasks_of_plan (rps_Tables st') (pdr_PlanID d) = map pdi_TaskID items" using plan(1) by (simp add: t4 tasks_of_plan_def)
  moreover have "\<exists>p \<in> set (tb_plans (rps_Tables st')). plan_ID p = pdr_PlanID d \<and> \<not> plan_Enabled p" using plan(2) by (simp add: t4)
  moreover have "\<forall>c \<in> set (tb_drafts (rps_Tables st')). pdr_ID c = i \<longrightarrow> pdr_Status c = DraftReady"
    unfolding t4 by (simp add: update_where_def ball_Un)
  ultimately show ?thesis by blast
qed

text \<open>
  C40: the guided setup enables nothing. Whatever \<open>Apply\<close> answers, it keeps every task and every secret,
  and each task, plan and maintenance policy it adds or rewrites is disabled.
\<close>
theorem guided_setup_enables_nothing:
  assumes "apply_draft env i clock st = (st', view, res)"
  shows "(\<exists>new. tb_tasks (rps_Tables st') = tb_tasks (rps_Tables st) @ new \<and> (\<forall>t \<in> set new. \<not> task_Enabled t)) \<and>
    (\<forall>p \<in> set (tb_plans (rps_Tables st')). p \<in> set (tb_plans (rps_Tables st)) \<or> \<not> plan_Enabled p) \<and>
    (\<forall>p \<in> set (tb_maintenance (rps_Tables st')). p \<in> set (tb_maintenance (rps_Tables st)) \<or> \<not> mp_Enabled p) \<and>
    tb_secrets (rps_Tables st') = tb_secrets (rps_Tables st)"
proof -
  have "setup_grows (rps_Tables st) (rps_Tables st')"
  proof (cases "protection_draft_of (rps_Tables st) i")
    case (Inl err)
    then show ?thesis using assms by (simp add: apply_draft_def)
  next
    case (Inr v)
    obtain d items where v: "protection_draft_of (rps_Tables st) i = Inr (d, items)" using Inr by (cases v) simp
    show ?thesis
    proof (cases "pdr_Status d = DraftCancelled \<or> pdr_Status d = DraftReady")
      case True
      then show ?thesis using assms by (auto simp: apply_draft_def v)
    next
      case False
      show ?thesis
      proof (rule apply_draft_steps [OF assms v])
        fix st1 st2 items' st3 plan_error status st4
        assume "set_draft_status i DraftApplying (clock 0) st = (st1, None)" and "apply_items env d clock 1 items st1 = (st2, items')"
          and "upsert_plan d items' (clock (length items + 1)) st2 = (st3, plan_error)"
          and "set_draft_status i status (clock (length items + 2)) st3 = (st', st4)"
        then have "setup_grows (rps_Tables st) (rps_Tables st1)" "setup_grows (rps_Tables st1) (rps_Tables st2)"
          "setup_grows (rps_Tables st2) (rps_Tables st3)" "setup_grows (rps_Tables st3) (rps_Tables st')"
          using set_draft_status_grows apply_items_grows upsert_plan_grows by blast+
        then show ?thesis using setup_grows_trans by meson
      qed (use False set_draft_status_grows in blast)+
    qed
  qed
  then show ?thesis unfolding setup_grows_def by blast
qed

section \<open>A draft is created as a whole\<close>

definition with_secrets :: "'w repository_state \<Rightarrow> secret_row list \<Rightarrow> 'w repository_state" where
  "with_secrets st s = put_tables st ((rps_Tables st)\<lparr>tb_secrets := s\<rparr>)"

lemma with_secrets_simps [simp]:
  "rps_Tables (with_secrets st s) = (rps_Tables st)\<lparr>tb_secrets := s\<rparr>" "rps_Gate (with_secrets st s) = rps_Gate st"
  "with_secrets (with_secrets st s) t = with_secrets st t" "with_secrets st (tb_secrets (rps_Tables st)) = st"
  by (simp_all add: with_secrets_def)

lemma forget_first:
  assumes "\<not> secret_referenced (rps_Tables st) (sec_ID s)" and "rps_Gate st \<noteq> None" and "sec_ID s \<notin> sec_ID ` set (t @ u)"
  shows "forget_secret (sec_ID s) (with_secrets st (t @ s # u)) = with_secrets st (t @ u)"
proof -
  have none: "filter (\<lambda>r. sec_ID r = sec_ID s) v = [] \<and> filter (\<lambda>r. sec_ID r \<noteq> sec_ID s) v = v" if "sec_ID s \<notin> sec_ID ` set v"
    for v :: "secret_row list" using that by (induction v) auto
  have only: "filter (\<lambda>r. sec_ID r = sec_ID s) (t @ s # u) = [s]" "delete_where (\<lambda>r. sec_ID r = sec_ID s) (t @ s # u) = t @ u"
    using assms(3) none [of t] none [of u] by (simp_all add: delete_where_def image_Un)
  then have "delete_secret ((rps_Tables st)\<lparr>tb_secrets := t @ s # u\<rparr>) (sec_ID s) = ((rps_Tables st)\<lparr>tb_secrets := t @ u\<rparr>, None)"
    using assms(1) by (simp add: delete_secret_def transaction_def reject_def affected_def)
  then show ?thesis
    using assms(2) by (cases "rps_Gate st") (auto simp: forget_secret_def remove_secret_def with_secrets_def)
qed

lemma forget_staged:
  assumes "rps_Gate st \<noteq> None" and "distinct (map sec_ID (t @ ss))" and "\<forall>s \<in> set ss. \<not> secret_referenced (rps_Tables st) (sec_ID s)"
  shows "foldl (\<lambda>s i. forget_secret i s) (with_secrets st (t @ ss)) (map sec_ID ss) = with_secrets st t"
  using assms(2,3)
proof (induction ss)
  case (Cons s ss)
  have "forget_secret (sec_ID s) (with_secrets st (t @ s # ss)) = with_secrets st (t @ ss)"
    using Cons.prems assms(1) by (intro forget_first) auto
  then show ?case using Cons by simp
qed simp

text \<open>What staging has done: new secrets, with the random identifiers and, if it is complete, the passwords.\<close>

definition staged_password :: "'w setup_env \<Rightarrow> 'w repository_state \<Rightarrow> draft_mapping \<Rightarrow> draft_item \<Rightarrow> bool" where
  "staged_password env st m e \<longleftrightarrow> pdi_Status e = ItemPending \<and>
     get_secret (ren_Vault (gse_Repositories env)) (rps_Gate st) (rps_Tables st) (pdi_PasswordSecretID e) password_purpose =
       Inr (dfm_Password m)"

lemma staged_password_kept:
  assumes "staged_password env st m e" and "rps_Gate st' = rps_Gate st"
    and "\<exists>u. tb_secrets (rps_Tables st') = tb_secrets (rps_Tables st) @ u"
  shows "staged_password env st' m e"
proof -
  let ?i = "pdi_PasswordSecretID e"
  obtain s where "row sec_ID ?i (tb_secrets (rps_Tables st)) = Some s"
    using assms(1) get_secret_Some unfolding staged_password_def by blast
  moreover obtain u where "tb_secrets (rps_Tables st') = tb_secrets (rps_Tables st) @ u" using assms(3) by blast
  ultimately have "row sec_ID ?i (tb_secrets (rps_Tables st')) = row sec_ID ?i (tb_secrets (rps_Tables st))"
    by (simp add: row_old)
  then show ?thesis using assms(1) get_secret_row [of ?i "rps_Tables st'" "rps_Tables st"] by (simp add: staged_password_def assms(2))
qed

lemma staged_items:
  assumes "stage_items env random d now k ms st = (st', staged, res)"
    and "aead_ok (ren_Vault (gse_Repositories env))" and "\<forall>j. length (fst (random j)) = 12"
    and "distinct (secret_ids (rps_Tables st))"
  shows "\<exists>ss. st' = with_secrets st (tb_secrets (rps_Tables st) @ ss) \<and> map sec_ID ss = staged \<and>
    set staged \<subseteq> (\<lambda>j. secret_id_of (snd (random j))) ` {k..<k + length ms} \<and>
    distinct (map sec_ID (tb_secrets (rps_Tables st) @ ss)) \<and> (ss \<noteq> [] \<longrightarrow> rps_Gate st \<noteq> None) \<and>
    (\<forall>items. res = Inr items \<longrightarrow> list_all2 (staged_password env st') ms items)"
  using assms(1,4)
proof (induction ms arbitrary: k st st' staged res)
  case Nil
  then show ?case by (intro exI [of _ "[]"]) auto
next
  case (Cons m ms)
  obtain st1 r1 where p: "store_secret (gse_Repositories env) (random k) password_purpose (dfm_Password m) now st = (st1, r1)" by force
  show ?case
  proof (cases r1)
    case (Inl err)
    then have "st' = st" "staged = []" "res = Inl (Invalid ''stage repository password'')"
      using Cons.prems(1) store_secret_failed [OF p [unfolded Inl]] by (auto simp: p)
    then show ?thesis using Cons.prems(2) by (intro exI [of _ "[]"]) auto
  next
    case (Inr secret)
    obtain s where st1: "st1 = put_tables st ((rps_Tables st)\<lparr>tb_secrets := tb_secrets (rps_Tables st) @ [s]\<rparr>)" and s: "sec_ID s = secret"
      "secret = secret_id_of (snd (random k))" "secret \<notin> set (secret_ids (rps_Tables st))" and gate: "rps_Gate st \<noteq> None"
      using store_secret_done [OF p [unfolded Inr]] by metis
    obtain st2 staged2 res2 where rest: "stage_items env random d now (Suc k) ms st1 = (st2, staged2, res2)" by (metis prod_cases3)
    have st': "st' = st2" "staged = secret # staged2" using Cons.prems(1) by (simp_all add: p Inr rest)
    have "distinct (secret_ids (rps_Tables st1))" using Cons.prems(2) s by (simp add: st1)
    then obtain ss where ss: "st2 = with_secrets st1 (tb_secrets (rps_Tables st1) @ ss)" "map sec_ID ss = staged2"
      "set staged2 \<subseteq> (\<lambda>j. secret_id_of (snd (random j))) ` {Suc k..<Suc k + length ms}"
      "distinct (map sec_ID (tb_secrets (rps_Tables st1) @ ss))"
      and items: "\<forall>items. res2 = Inr items \<longrightarrow> list_all2 (staged_password env st2) ms items"
      using Cons.IH [OF rest] by blast
    have first: "staged_password env st1 m (draft_item_of env d now k m secret)"
      using store_secret_get [OF p [unfolded Inr] assms(2)] assms(3) by (simp add: staged_password_def draft_item_of_def st1)
    have "staged_password env st2 m (draft_item_of env d now k m secret)"
      by (rule staged_password_kept [OF first]) (simp_all add: ss(1))
    then have "\<forall>items. res = Inr items \<longrightarrow> list_all2 (staged_password env st') (m # ms) items"
      using Cons.prems(1) items by (auto simp: p Inr rest split: sum.splits)
    moreover have "st' = with_secrets st (tb_secrets (rps_Tables st) @ s # ss)" using ss(1) by (simp add: st' st1 with_secrets_def)
    ultimately show ?thesis
      using ss s gate st' by (intro exI [of _ "s # ss"]) (auto simp: st1)
  qed
qed

lemma inserted_items: "insert_draft_items t ds = Inr u \<Longrightarrow> u = t @ map (\<lambda>d. d\<lparr>pdi_Error := bounded_setup_error (pdi_Error d)\<rparr>) ds"
  by (induction t ds rule: insert_draft_items.induct) (auto split: if_splits)

lemma created_draft:
  assumes "create_protection_draft tb d items = (tb', None)"
  shows "tb' = tb\<lparr>tb_drafts := tb_drafts tb @ [d\<lparr>pdr_ExecutionTarget := target_normalized (pdr_ExecutionTarget d)\<rparr>],
    tb_draft_items := tb_draft_items tb @
      map (\<lambda>e. e\<lparr>pdi_DraftID := pdr_ID d, pdi_Error := bounded_setup_error (pdi_Error e)\<rparr>) items\<rparr>"
proof (cases "insert_draft_items (tb_draft_items tb) (map (\<lambda>e. e\<lparr>pdi_DraftID := pdr_ID d\<rparr>) items)")
  case (Inl err)
  then show ?thesis using assms by (simp add: create_protection_draft_def transaction_cases failure_def)
next
  case (Inr u)
  then show ?thesis using assms inserted_items [OF Inr] by (auto simp: create_protection_draft_def transaction_cases)
qed

lemma create_draft_cases:
  assumes "create_draft env random input now st = (st', res)"
  obtains err where "st' = st" and "res = Inl err"
  | d where "pdr_Status d = DraftPending" and "store_draft env random d (dfi_Items input) now st = (st', res)"
proof -
  define chosen where "chosen = (if dfi_TemplateID input = [] then Inr input
      else case protection_template_of (rps_Tables st) (dfi_TemplateID input) of
          Inl err \<Rightarrow> Inl err | Inr p \<Rightarrow> Inr (with_template p input))"
  show thesis
  proof (cases chosen)
    case (Inl err)
    then show thesis using assms that(1) unfolding create_draft_def chosen_def [symmetric] by auto
  next
    case (Inr input')
    then have items: "dfi_Items input' = dfi_Items input" by (auto simp: chosen_def with_template_def split: if_splits sum.splits)
    let ?d = "draft_of env input' now"
    show thesis
    proof (cases "validate_draft_input env (rps_Tables st) ?d (dfi_Items input') now")
      case None
      then have "store_draft env random ?d (dfi_Items input) now st = (st', res)"
        using assms items unfolding create_draft_def chosen_def [symmetric] Inr Let_def by simp
      then show thesis by (rule that(2) [rotated]) (simp add: draft_of_def)
    next
      case (Some err)
      then show thesis using assms that(1) unfolding create_draft_def chosen_def [symmetric] Inr Let_def by auto
    qed
  qed
qed

lemma store_draft_undone:
  assumes "stage_items env random d now 0 ms st = (st1, staged, res)"
    and "aead_ok (ren_Vault (gse_Repositories env))" and "\<forall>j. length (fst (random j)) = 12"
    and "distinct (secret_ids (rps_Tables st))" and "\<forall>j. \<not> secret_referenced (rps_Tables st) (secret_id_of (snd (random j)))"
  shows "foldl (\<lambda>s i. forget_secret i s) st1 staged = st"
proof -
  obtain ss where ss: "st1 = with_secrets st (tb_secrets (rps_Tables st) @ ss)" "map sec_ID ss = staged"
    "set staged \<subseteq> range (\<lambda>j. secret_id_of (snd (random j)))" "distinct (map sec_ID (tb_secrets (rps_Tables st) @ ss))"
    "ss \<noteq> [] \<longrightarrow> rps_Gate st \<noteq> None"
    using staged_items [OF assms(1-4)] by blast
  show ?thesis
  proof (cases "ss = []")
    case False
    have "\<not> secret_referenced (rps_Tables st) (sec_ID s)" if "s \<in> set ss" for s
    proof -
      have "sec_ID s \<in> set staged" using that by (simp add: ss(2) [symmetric])
      then obtain j where "sec_ID s = secret_id_of (snd (random j))" using ss(3) by blast
      then show ?thesis using assms(5) by simp
    qed
    then show ?thesis using forget_staged [of st "tb_secrets (rps_Tables st)" ss] ss False by simp
  qed (use ss in simp)
qed

lemma store_draft_stored:
  assumes "stage_items env random d now 0 ms st = (st1, staged, Inr ds)" and "create_protection_draft (rps_Tables st1) d ds = (tb, None)"
    and "aead_ok (ren_Vault (gse_Repositories env))" and "\<forall>j. length (fst (random j)) = 12"
    and "distinct (secret_ids (rps_Tables st))" and "pdr_Status d = DraftPending"
  shows "\<exists>c items ss. tb = (rps_Tables st)\<lparr>tb_secrets := tb_secrets (rps_Tables st) @ ss,
       tb_drafts := tb_drafts (rps_Tables st) @ [c], tb_draft_items := tb_draft_items (rps_Tables st) @ items\<rparr> \<and>
     pdr_Status c = DraftPending \<and> list_all2 (staged_password env (put_tables st1 tb)) ms items"
proof -
  obtain ss where ss: "st1 = with_secrets st (tb_secrets (rps_Tables st) @ ss)"
    and items: "list_all2 (staged_password env st1) ms ds"
    using staged_items [OF assms(1,3-5)] by blast
  let ?items = "map (\<lambda>e. e\<lparr>pdi_DraftID := pdr_ID d, pdi_Error := bounded_setup_error (pdi_Error e)\<rparr>) ds"
  note tb = created_draft [OF assms(2)]
  have "staged_password env (put_tables st1 tb) m (e\<lparr>pdi_DraftID := pdr_ID d, pdi_Error := bounded_setup_error (pdi_Error e)\<rparr>)"
    if "staged_password env st1 m e" for m e
  proof -
    have "tb_secrets tb = tb_secrets (rps_Tables st1) @ []" using tb by simp
    then have "staged_password env (put_tables st1 tb) m e" by (intro staged_password_kept [OF that]) auto
    then show ?thesis by (simp add: staged_password_def)
  qed
  then have "list_all2 (staged_password env (put_tables st1 tb)) ms ?items"
    using items by (auto simp: list_all2_map2 elim!: list_all2_mono)
  moreover have "tb = (rps_Tables st)\<lparr>tb_secrets := tb_secrets (rps_Tables st) @ ss,
      tb_drafts := tb_drafts (rps_Tables st) @ [d\<lparr>pdr_ExecutionTarget := target_normalized (pdr_ExecutionTarget d)\<rparr>],
      tb_draft_items := tb_draft_items (rps_Tables st) @ ?items\<rparr>"
    using tb by (simp add: ss(1))
  moreover have "pdr_Status (d\<lparr>pdr_ExecutionTarget := target_normalized (pdr_ExecutionTarget d)\<rparr>) = DraftPending" using assms(6) by simp
  ultimately show ?thesis by (intro exI conjI)
qed

text \<open>
  C18: a draft is created as a whole. When \<open>CreateDraft\<close> fails, at a password that cannot be staged or at the
  last step, the tables are as they were: every secret staged before is deleted. When it succeeds there is
  one more draft, pending, with one pending item for each mapping whose secret opens to the mapping's
  password; nothing else has changed but the secrets, and the answer shows no secret.
\<close>
theorem draft_is_created_as_a_whole:
  assumes "create_draft env random input now st = (st', res)"
    and "aead_ok (ren_Vault (gse_Repositories env))" and "\<forall>j. length (fst (random j)) = 12"
    and "distinct (secret_ids (rps_Tables st))" and "\<forall>j. \<not> secret_referenced (rps_Tables st) (secret_id_of (snd (random j)))"
  shows "(\<forall>err. res = Inl err \<longrightarrow> rps_Tables st' = rps_Tables st) \<and>
    (\<forall>view. res = Inr view \<longrightarrow>
      (\<exists>d items ss. rps_Tables st' = (rps_Tables st)\<lparr>tb_secrets := tb_secrets (rps_Tables st) @ ss,
           tb_drafts := tb_drafts (rps_Tables st) @ [d], tb_draft_items := tb_draft_items (rps_Tables st) @ items\<rparr> \<and>
         pdr_Status d = DraftPending \<and> list_all2 (staged_password env st') (dfi_Items input) items) \<and>
      (\<forall>e \<in> set (snd view). pdi_PasswordSecretID e = []))"
proof -
  have shown: "\<forall>e \<in> set (snd (public_draft v)). pdi_PasswordSecretID e = []" for v
    by (auto simp: public_draft_def public_item_of_def draft_item.defs)
  show ?thesis
  proof (rule create_draft_cases [OF assms(1)])
    fix d assume d: "pdr_Status d = DraftPending" and store: "store_draft env random d (dfi_Items input) now st = (st', res)"
    obtain st1 staged res1 where stage: "stage_items env random d now 0 (dfi_Items input) st = (st1, staged, res1)" by (metis prod_cases3)
    have undo: "foldl (\<lambda>s i. forget_secret i s) st1 staged = st" using stage assms(2-5) by (rule store_draft_undone)
    show ?thesis
    proof (cases res1)
      case (Inl err)
      then show ?thesis using store undo by (auto simp: store_draft_def stage)
    next
      case (Inr ds)
      obtain tb err where c: "create_protection_draft (rps_Tables st1) d ds = (tb, err)" by force
      show ?thesis
      proof (cases err)
        case (Some e)
        then have "tb = rps_Tables st1" using c by (auto simp: create_protection_draft_def transaction_cases Let_def)
        then show ?thesis using store undo Inr Some by (auto simp: store_draft_def stage c)
      next
        case None
        then have "st' = put_tables st1 tb" "res = Inr (public_draft (d, ds))" using store Inr by (simp_all add: store_draft_def stage c)
        then show ?thesis using store_draft_stored [OF stage [unfolded Inr] c [unfolded None] assms(2-4) d] shown by simp
      qed
    qed
  qed simp
qed

section \<open>A draft of one directory\<close>

definition setup_example :: "key_world setup_env" where
  "setup_example = \<lparr>gse_Repositories = repository_example, gse_Zones = (\<lambda>z. if z = ''UTC'' then Some (\<lambda>_. 0) else None),
     gse_Lower = id, gse_EqualFold = (=), gse_NewID = (\<lambda>prefix n. prefix @ ''_'' @ show_nat n)\<rparr>"

definition mapping_example :: draft_mapping where
  "mapping_example = \<lparr>dfm_TaskName = ''home'', dfm_Directory = Some \<lparr>dir_Path = ''/home'', dir_Exclusions = [], dir_SkipIfUnchanged = False\<rparr>,
     dfm_Database = None, dfm_RepositoryName = ''disk'', dfm_RepositoryKind = ''local'', dfm_RemoteHostID = [],
     dfm_RepositoryPath = ''/data'', dfm_Password = ''correct horse'', dfm_PasswordConfirmed = True\<rparr>"

definition input_example :: draft_input where
  "input_example = \<lparr>dfi_Name = ''home'', dfi_TemplateID = [], dfi_ExecutionTarget = no_target,
     dfi_Retention = no_retention\<lparr>keep_Daily := 7\<rparr>, dfi_Resources = no_resources, dfi_MaxSuccessAgeHours = 48,
     dfi_Schedule = \<lparr>sch_Kind = DailySchedule, sch_TimeOfDay = ''02:30'', sch_DayOfWeek = 0, sch_IntervalHours = 0\<rparr>,
     dfi_Timezone = ''UTC'', dfi_MaxParallel = 1, dfi_CatchUpWindowMinutes = 60, dfi_NotificationMode = ''none'', dfi_Items = [mapping_example]\<rparr>"

definition draft_example :: protection_draft where
  "draft_example = draft_of setup_example input_example 7"

lemma example_names: "\<not> blank ''home''" "\<not> blank ''disk''" "\<not> blank ''/data''" "\<not> blank ''UTC''" "\<not> blank ''draft-validation''"
    "trim_space ''home'' = ''home''"
  by code_simp+

lemma example_policies: "retention_validate (no_retention\<lparr>keep_Daily := 7\<rparr>) = None" "resource_validate no_resources = None"
    "health_validate 48 = None" "target_validate (target_normalized no_target) = None" "parse_clock ''02:30'' = Some (2, 30)"
  by code_simp+

lemma draft_example_fields:
  "pdr_Name draft_example = ''home''" "pdr_ExecutionTarget draft_example = \<lparr>target_Kind = Local, target_AgentID = []\<rparr>"
  "pdr_Retention draft_example = no_retention\<lparr>keep_Daily := 7\<rparr>" "pdr_Resources draft_example = no_resources"
  "pdr_MaxSuccessAgeHours draft_example = 48" "pdr_NotificationMode draft_example = ''none''" "pdr_Timezone draft_example = ''UTC''"
  "pdr_Schedule draft_example = dfi_Schedule input_example" "pdr_MaxParallel draft_example = 1"
  "pdr_CatchUpWindowMinutes draft_example = 60" "pdr_Status draft_example = DraftPending"
  by (simp_all add: draft_example_def draft_of_def input_example_def example_names target_normalized_def no_target_def)

lemma example_plan: "plan_validate (gse_Zones setup_example) (setup_plan ''home'' (dfi_Schedule input_example) ''UTC'' 1 [t] 60) = None"
  using example_names example_policies
  by (simp add: plan_validate_def setup_plan_def probe_plan_def setup_example_def input_example_def Let_def)

lemma example_task: "fst (task_validate (setup_task draft_example [] ''home'' ''draft-validation''
    (Some \<lparr>dir_Path = ''/home'', dir_Exclusions = [], dir_SkipIfUnchanged = False\<rparr>) None t u)) = None"
  using example_names example_policies
  by (simp add: task_validate_def restic_task_validate_def setup_task_def draft_example_fields task_target_def Let_def
      effective_engine_def target_normalized_def target_validate_def is_abs_def clean_directory_def)

lemma example_repository: "repository_validate net (probe_repository mapping_example) = None"
  using example_names
  by (simp add: repository_validate_def probe_repository_def setup_repository_def mapping_example_def effective_kind_def
      effective_local_target_def effective_engine_def target_normalized_def no_target_def target_validate_def
      contains_any_def is_abs_def cong: if_cong)

lemma example_mapping: "validate_mapping setup_example \<lparr>inv_Connections = [], inv_Repositories = [], inv_Tasks = []\<rparr> draft_example 7 []
    mapping_example = None"
  using example_names example_task example_repository
  by (simp add: validate_mapping_def reject_def Let_def draft_example_fields) (simp add: mapping_example_def)

lemma example_valid: "validate_draft_input setup_example no_tables draft_example [mapping_example] 7 = None"
proof -
  have "target_validate \<lparr>target_Kind = Local, target_AgentID = []\<rparr> = None" by (simp add: target_validate_def target_normalized_def)
  then show ?thesis
    using example_names example_policies example_plan example_mapping
    by (simp add: validate_draft_input_def draft_example_fields reject_def maximum_draft_items_def list_repositories_def
        list_database_connections_def list_tasks_def no_tables_def)
qed

lemma example_staged: "\<exists>st. stage_items setup_example bytes_example draft_example 7 0 [mapping_example] connection_start =
    (st, [''sec_2a''], Inr [draft_item_of setup_example draft_example 7 0 mapping_example ''sec_2a'']) \<and>
    tb_drafts (rps_Tables st) = [] \<and> tb_draft_items (rps_Tables st) = []"
proof -
  have "gse_Repositories setup_example = repository_example" "dfm_Password mapping_example = ''correct horse''"
    by (simp_all add: setup_example_def mapping_example_def)
  then show ?thesis by (simp add: home_stored no_tables_def)
qed

theorem draft_is_created_as_a_whole_witness:
  "\<exists>st' view. create_draft setup_example bytes_example input_example 7 connection_start = (st', Inr view) \<and>
     (\<exists>d items. tb_drafts (rps_Tables st') = [d] \<and> pdr_Status d = DraftPending \<and> tb_draft_items (rps_Tables st') = items \<and>
       list_all2 (staged_password setup_example st') [mapping_example] items)"
proof -
  have valid: "validate_draft_input setup_example (rps_Tables connection_start) (draft_of setup_example input_example 7) [mapping_example] 7 = None"
    using example_valid by (simp add: connection_start_def draft_example_def)
  obtain st where staged: "stage_items setup_example bytes_example (draft_of setup_example input_example 7) 7 0 [mapping_example]
      connection_start = (st, [''sec_2a''], Inr [draft_item_of setup_example draft_example 7 0 mapping_example ''sec_2a''])"
    and empty: "tb_drafts (rps_Tables st) = []" "tb_draft_items (rps_Tables st) = []"
    using example_staged by (auto simp: draft_example_def)
  have "snd (create_protection_draft (rps_Tables st) (draft_of setup_example input_example 7)
      [draft_item_of setup_example draft_example 7 0 mapping_example ''sec_2a'']) = None"
    by (simp add: create_protection_draft_def empty draft_item_of_def mapping_example_def transaction_def reject_def failure_def)
  then obtain tb where c: "create_protection_draft (rps_Tables st) (draft_of setup_example input_example 7)
      [draft_item_of setup_example draft_example 7 0 mapping_example ''sec_2a''] = (tb, None)"
    by (metis prod.collapse)
  have input: "dfi_TemplateID input_example = []" "dfi_Items input_example = [mapping_example]" by (simp_all add: input_example_def)
  obtain st' view where run: "create_draft setup_example bytes_example input_example 7 connection_start = (st', Inr view)"
    unfolding create_draft_def store_draft_def Let_def by (simp add: input valid staged c del: stage_items.simps)
  have "aead_ok (ren_Vault (gse_Repositories setup_example))" by (simp add: setup_example_def repository_example_def vault_example_ok)
  moreover have "\<forall>j. length (fst (bytes_example j)) = 12" by (simp add: bytes_example_def)
  moreover have "distinct (secret_ids (rps_Tables connection_start))" by (simp add: connection_start_def no_tables_def)
  moreover have "\<forall>j. \<not> secret_referenced (rps_Tables connection_start) (secret_id_of (snd (bytes_example j)))"
    by (simp add: connection_start_def no_tables_def secret_referenced_def)
  moreover have "tb_drafts (rps_Tables connection_start) = []" "tb_draft_items (rps_Tables connection_start) = []"
    by (simp_all add: connection_start_def no_tables_def)
  ultimately show ?thesis using draft_is_created_as_a_whole [OF run] run input(2) by fastforce
qed

text \<open>An application is resumed: the item is ready, and only the plan is missing.\<close>

definition resumed_draft :: protection_draft where
  "resumed_draft = draft_example\<lparr>pdr_Status := DraftPartial\<rparr>"

definition resumed_item :: draft_item where
  "resumed_item = (draft_item_of setup_example draft_example 7 0 mapping_example ''sec_2a'')\<lparr>pdi_RepositoryID := ''r1'', pdi_Status := ItemReady\<rparr>"

definition resumed_state :: "key_world repository_state" where
  "resumed_state = put_tables connection_start (no_tables\<lparr>tb_repositories := [home_row],
     tb_tasks := [setup_task resumed_draft (pdi_TaskID resumed_item) ''home'' ''r1'' (pdi_Directory resumed_item) None 7 7],
     tb_maintenance := [setup_maintenance resumed_draft resumed_item 7],
     tb_drafts := [resumed_draft], tb_draft_items := [resumed_item]\<rparr>)"

lemma resumed_fields:
  "pdi_DraftID resumed_item = pdr_ID resumed_draft" "pdi_Status resumed_item = ItemReady" "pdi_RepositoryID resumed_item = ''r1''"
  "pdr_Status resumed_draft = DraftPartial"
  by (simp_all add: resumed_item_def resumed_draft_def draft_item_of_def)

lemma resumed_done: "item_done (rps_Tables resumed_state) resumed_item"
  by (simp add: item_done_def resumed_state_def resumed_fields home_row_fields setup_task_def setup_maintenance_def)

lemma resumed_draft_loaded: "protection_draft_of (rps_Tables resumed_state) (pdr_ID resumed_draft) = Inr (resumed_draft, [resumed_item])"
  by (simp add: protection_draft_of_def resumed_state_def row_def draft_items_of_def resumed_fields)

lemma resumed_run: "\<exists>st' view. apply_draft setup_example (pdr_ID resumed_draft) (\<lambda>n. 9) resumed_state = (st', view, None)"
proof -
  let ?i = "pdr_ID resumed_draft" and ?tb = "rps_Tables resumed_state"
  let ?at = "\<lambda>status. resumed_draft\<lparr>pdr_Status := status, pdr_UpdatedAt := 9\<rparr>"
  have s1: "set_draft_status ?i DraftApplying 9 resumed_state = (put_tables resumed_state (?tb\<lparr>tb_drafts := [?at DraftApplying]\<rparr>), None)"
    by (simp add: set_draft_status_def update_draft_status_def transaction_def reject_def affected_def update_where_def
        resumed_state_def)
  let ?st1 = "put_tables resumed_state (?tb\<lparr>tb_drafts := [?at DraftApplying]\<rparr>)"
  have s2: "apply_items setup_example resumed_draft (\<lambda>n. 9) k [resumed_item] ?st1 = (?st1, [resumed_item])" for k
    by (simp add: apply_one_def resumed_fields)
  let ?p = "draft_plan resumed_draft [pdi_TaskID resumed_item] 9"
  have p: "plan_ID ?p = pdr_PlanID resumed_draft" "plan_TaskIDs ?p = [pdi_TaskID resumed_item]" "\<not> plan_Enabled ?p"
    by (simp_all add: draft_plan_def setup_plan_def probe_plan_def)
  obtain tb where c: "create_plan (rps_Tables ?st1) ?p = (tb, None)" and drafts: "tb_drafts tb = [?at DraftApplying]"
    by (simp add: create_plan_def transaction_def reject_def plan_task_references_def require_reference_def p resumed_state_def
        no_tables_def setup_task_def)
  have s3: "upsert_plan resumed_draft [resumed_item] 9 ?st1 = (put_tables ?st1 tb, None)"
  proof -
    have "list_plans (rps_Tables ?st1) = []" by (simp add: list_plans_def resumed_state_def no_tables_def)
    then show ?thesis using c by (simp add: upsert_plan_def resumed_fields p Let_def)
  qed
  let ?tb' = "tb\<lparr>tb_drafts := [?at DraftReady]\<rparr>"
  have s4: "set_draft_status ?i DraftReady 9 (put_tables ?st1 tb) = (put_tables ?st1 ?tb', None)"
    by (simp add: set_draft_status_def update_draft_status_def transaction_def reject_def affected_def update_where_def drafts)
  have "\<exists>v. protection_draft_of ?tb' ?i = Inr v" by (simp add: protection_draft_of_def row_def)
  then show ?thesis
    unfolding apply_draft_def resumed_draft_loaded Let_def
    by (auto simp: resumed_fields s1 s2 [simplified] s3 [simplified] s4 [simplified] reject_def)
qed

theorem applied_draft_is_complete_witness:
  "\<exists>st' view. apply_draft setup_example (pdr_ID resumed_draft) (\<lambda>n. 9) resumed_state = (st', view, None) \<and>
     item_done (rps_Tables st') resumed_item \<and>
     tasks_of_plan (rps_Tables st') (pdr_PlanID resumed_draft) = [pdi_TaskID resumed_item]"
proof -
  obtain st' view where run: "apply_draft setup_example (pdr_ID resumed_draft) (\<lambda>n. 9) resumed_state = (st', view, None)"
    using resumed_run by blast
  have "plan_rows_ok (rps_Tables resumed_state)" by (simp add: plan_rows_ok_def resumed_state_def no_tables_def)
  then show ?thesis
    using applied_draft_is_complete [OF run resumed_draft_loaded] run resumed_done resumed_fields by auto
qed

theorem guided_setup_enables_nothing_witness:
  "\<exists>st' view. apply_draft setup_example (pdr_ID resumed_draft) (\<lambda>n. 9) resumed_state = (st', view, None) \<and>
     (\<forall>p \<in> set (tb_plans (rps_Tables st')). \<not> plan_Enabled p)"
proof -
  obtain st' view where run: "apply_draft setup_example (pdr_ID resumed_draft) (\<lambda>n. 9) resumed_state = (st', view, None)"
    using resumed_run by blast
  have "tb_plans (rps_Tables resumed_state) = []" by (simp add: resumed_state_def no_tables_def)
  then show ?thesis using guided_setup_enables_nothing [OF run] run by auto
qed

end
