(* ===== verification/Spec2Isabelle.thy ===== *)
theory Spec2Isabelle
  imports Domain_Validation Schedule_Laws Plan_Dispatcher Run_Controller Run_Records Lifecycle_Cleanup Operation_Manager Agent_Work Alert_Store Notification_Delivery Restore_Verification Repository_Capacity Alert_Reconciler Control_Plane Guided_Setup
begin

text \<open>
  \<^bold>\<open>Verification library of the shadoc control service.\<close>

  The program is a backup control plane: a service that keeps tasks, repositories, plans and
  policies in an SQLite database, schedules and executes backups locally or on enrolled agents,
  and reports what happened. The library models the decision logic of the Go packages under
  src/internal and leaves out what only moves bytes: HTTP, TLS, file systems, child processes.

  \<^bold>\<open>Reading the model.\<close> Definitions keep the names of the Go functions, in lower case with
  underscores; record fields keep the Go field names behind a short prefix. A Go error is
  \<open>go_error option\<close>, a result with an error is \<open>go_error + 'a\<close>. Instants and durations are integers
  of nanoseconds; where the program's 64 bits matter, \<open>to_int64\<close> writes the wrap-around out, and
  \<open>time_sub\<close> saturates as \<open>Time.Sub\<close> does. An SQL table is the list of its rows; the store opens
  its database with one connection, so every statement or transaction is one step on the tables.
  Driver failures and cancelled queries are not modelled. Concurrency is a step relation, and its
  theorems speak of every reachable state.

  \<^bold>\<open>Theories and sources.\<close>

  \<^item> \<open>Prelude\<close>: errors, \<open>strings.TrimSpace\<close>, SQL statements on row lists, and their lemmas.
  \<^item> \<open>Timestamps\<close>: \<open>formatTime\<close> and \<open>parseTime\<close> of internal/store/resources.go; the order of stored
    instants is the order of their text, which is not always that of time.
  \<^item> \<open>Execution_Target\<close>: internal/execution/model.go and registry.go.
  \<^item> \<open>Domain_Model\<close> and \<open>Domain_Validation\<close>: the records of internal/domain/model.go and their
    validators; the second theory proves which tasks and repositories they accept.
  \<^item> \<open>Schedule_Calendar\<close> and \<open>Schedule_Laws\<close>: internal/schedule/scheduler.go. A location is any
    function from seconds to offsets. The daily search looks at 370 days and the weekly one at 54
    weeks, as the code does; for a location with a fixed offset the first two candidates suffice.
  \<^item> \<open>Once_Only\<close>: the locale of things that may be used once; it is interpreted for the claims of
    occurrences, the enrollment tokens and the claims of leases.
  \<^item> \<open>Occurrence_Store\<close> and \<open>Occurrence_Recorder\<close>: internal/store/schedule.go and
    internal/schedule/recorder.go. A tick records at most 1000 occurrences, as the code does; the
    locale \<open>occurrence_log\<close> is the interface between the two.
  \<^item> \<open>Plan_Dispatcher\<close>: internal/scheduler/dispatcher.go, a tick and the concurrent execution of one
    occurrence.
  \<^item> \<open>Run_Controller\<close>: internal/run/controller.go, concurrent executions and the retry loop.
  \<^item> \<open>Run_Records\<close> and \<open>Lifecycle_Cleanup\<close>: runs and audits of internal/store/execution.go, and their
    retention in internal/store/lifecycle.go and internal/lifecycle/service.go.
  \<^item> \<open>Operation_Store\<close> and \<open>Operation_Manager\<close>: internal/store/operations.go and
    internal/operation/manager.go, with the locale \<open>operation_persistence\<close> between them.
  \<^item> \<open>Agent_Registry\<close>, \<open>Json_Text\<close> and \<open>Agent_Work\<close>: internal/store/agents.go and the scanner of
    \<open>json.Valid\<close> it calls.
  \<^item> \<open>Alert_Store\<close>: internal/store/alerts.go.
  \<^item> \<open>Go_Texts\<close> and \<open>Notification_Delivery\<close>: texts as UTF-8 bytes, and the notification channels of
    internal/notification/service.go with their log in internal/store/notification_delivery.go. A
    delivery makes three attempts on a channel and sends at most 60 events per hour, as \<open>New\<close> sets it.
  \<^item> \<open>Restore_Verification\<close>: internal/store/restore_verification.go and
    internal/restoreverification/service.go; a tree is the list of entries \<open>WalkDir\<close> visits.
  \<^item> \<open>Float64_Rounding\<close> and \<open>Repository_Capacity\<close>: the rounding of \<open>float64\<close>, and
    internal/store/repository_capacity.go with its forecast.
  \<^item> \<open>Utc_Text\<close>, \<open>Alert_Service\<close> and \<open>Alert_Reconciler\<close>: internal/alerting/service.go and
    reconciler.go. The reconciler decides from the tables it reads, and carries its decisions out
    through the service, the alert store and the notifications.
  \<^item> \<open>Resource_Tables\<close>, \<open>Resource_Store\<close> and \<open>Resource_Policies\<close>: the whole database as one state, and
    the operations on secrets, hosts, repositories, connections, tasks, plans, policies, previews,
    snapshots, templates and drafts in internal/store (secrets.go, resources.go, crud.go,
    maintenance.go, maintenance_preview.go, task_preview.go, snapshot_metadata.go, protection_setup.go,
    and the rotation of passwords in execution.go). A transaction is a list of checks and what it
    commits when all of them pass.
  \<^item> \<open>Resource_Deletion\<close>: internal/store/delete_preview.go. A map of plans is visited in the order of the
    rows; the theorems hold for any order.
  \<^item> \<open>Resource_References\<close>, \<open>Resource_Integrity\<close>, \<open>Deletion_Laws\<close> and \<open>Control_Plane\<close>: the references
    between the tables, which the schema does not enforce, the unique identifiers, what a deletion
    promises, and the composition of all stores over one database. The locale \<open>table_component\<close> is the
    contract that each of them keeps for the others.
  \<^item> \<open>Output_Streams\<close> and \<open>Go_Paths\<close>: the environments and the bounded capture of internal/command/executor.go,
    writers that read a stream by lines (the locale \<open>line_sink\<close>), and path and text functions of Go.
  \<^item> \<open>Restic_Engine\<close>: internal/restic/engine.go. One run of the process is an argument; the collector keeps
    at most 1 MiB of a line, as the code does.
  \<^item> \<open>Snapshot_Contents\<close>: browsing and comparing snapshots in internal/repository/service.go.
  \<^item> \<open>Secret_Vault\<close>: internal/vault and internal/secret. Argon2, the cipher and the encoding of the key
    file are parameters.
  \<^item> \<open>Repository_Service\<close>: connection, initialisation, rotation of passwords and maintenance in
    internal/repository/service.go, with internal/s3backend/backend.go. The engine acts on a world of
    repositories that is a parameter.
  \<^item> \<open>Guided_Setup\<close>: internal/protectionsetup, on top of the store, the secrets and the repository service.

  \<^bold>\<open>What the lemmas show.\<close> For each store, an invariant of its tables that every operation keeps and
  the effect of each operation on every branch; on top of them the properties: occurrences and
  leases are claimed once, statuses only move forward, schedules fire exactly where the calendar
  puts them, concurrent executions exclude each other and make progress, retries are bounded,
  clean-ups report what they remove, certificates roll over, the alert log determines the
  alerts, snapshots are browsed and compared exactly, secrets survive a restart, a rotated password
  keeps the repository reachable, and a guided setup is created as a whole and applied completely.
  The refinement properties compare an operation with an abstract description of it.

  \<^bold>\<open>Parameters.\<close> Time zones, URL and address parsing, SHA-256, ciphers, JSON encoding of results, the engines
  and the channels of notifications are arguments of the definitions that use them. What a
  theorem needs of one is a hypothesis of it, with a witness on a concrete function.

  \<^bold>\<open>Not modelled.\<close> The HTTP API (internal/httpapi) decodes requests and calls the modelled services.
  The Rsync and database engines (internal/rsync, internal/database) build command lines for tools
  whose behaviour the repository does not hold. Installation and migration are operating system
  calls. Left out as well: administrators and their sessions, the restore of
  directories and dumps, the probes of the capacity, the task previews, the protocol of the agents,
  and the export and import of the configuration.
\<close>

end
